(* ===== verification/Prelude.thy ===== *)
theory Prelude
  imports Complex_Main "HOL-Library.Word" "HOL-Library.Signed_Division"
begin

unbundle bit_operations_syntax

text \<open>
  What the components share: names for the machine types of the C++ sources, the
  conversions from floating point to integers, little-endian words in byte buffers, the
  bytes of a word, list lemmas, and the locales for a state machine with an invariant and
  for a stream of steps.

  Floating point. A C++ \<open>double\<close> or \<open>float\<close> is modelled as the exact real number it
  stands for; rounding, infinities and NaN are not modelled unless a theory says so. A
  conversion from floating point to an integer type truncates towards zero, and it is
  undefined in C++ when the truncated value does not fit: the conversions below return
  \<open>None\<close> there, so that a caller has to say what it does with it.
\<close>

section \<open>Machine types\<close>

type_synonym u8 = "8 word"
type_synonym u16 = "16 word"
type_synonym u32 = "32 word"
type_synonym u64 = "64 word"
type_synonym i16 = "16 word"
type_synonym i32 = "32 word"
type_synonym i64 = "64 word"
type_synonym double = real

text \<open>Sizes and readings stay written as \<open>real (unat w)\<close> and \<open>real_of_int (uint w)\<close>.\<close>

declare of_nat_unat [simp del]
declare of_int_uint [simp del]

lemma word_of_nat_unat [simp]: "word_of_nat (unat w) = (w :: 'a::len word)"
  by (simp add: of_nat_unat)

lemma word_of_int_uint_id [simp]: "word_of_int (uint w) = (w :: 'a::len word)"
  by (simp add: of_int_uint)

named_theorems defs "definitions a component unfolds in its proofs"
named_theorems inv_intro "the operations keep the invariant of their component"

text \<open>
  What can go wrong in the C++ code beside an error it reports itself: undefined behaviour
  (a call through a null pointer, which is one case of it, has a name of its own),
  an uncaught exception, a call of \<open>exit\<close>, a loop that never ends.
\<close>

datatype fault = Undefined_Behaviour | Null_Pointer | Uncaught_Exception | Process_Exit int | No_Return

section \<open>Truncating conversions\<close>

definition trunc_int :: "real \<Rightarrow> int" where
  "trunc_int x = (if 0 \<le> x then \<lfloor>x\<rfloor> else \<lceil>x\<rceil>)"

definition fits_signed :: "nat \<Rightarrow> int \<Rightarrow> bool" where
  "fits_signed n k \<longleftrightarrow> - (2 ^ (n - 1)) \<le> k \<and> k < 2 ^ (n - 1)"

definition fits_unsigned :: "nat \<Rightarrow> int \<Rightarrow> bool" where
  "fits_unsigned n k \<longleftrightarrow> 0 \<le> k \<and> k < 2 ^ n"

text \<open>\<open>static_cast<int32_t>(x)\<close>, \<open>static_cast<int64_t>(x)\<close>, \<open>static_cast<uint64_t>(x)\<close>.\<close>

definition real_to_i32 :: "real \<Rightarrow> i32 option" where
  "real_to_i32 x = (if fits_signed 32 (trunc_int x) then Some (word_of_int (trunc_int x)) else None)"

definition real_to_i64 :: "real \<Rightarrow> i64 option" where
  "real_to_i64 x = (if fits_signed 64 (trunc_int x) then Some (word_of_int (trunc_int x)) else None)"

definition real_to_u64 :: "real \<Rightarrow> u64 option" where
  "real_to_u64 x = (if fits_unsigned 64 (trunc_int x) then Some (word_of_int (trunc_int x)) else None)"

lemma trunc_int_of_int [simp]: "trunc_int (of_int k) = k"
  by (simp add: trunc_int_def)

lemma trunc_int_zero [simp]: "trunc_int 0 = 0"
  by (simp add: trunc_int_def)

lemma trunc_int_minus [simp]: "trunc_int (- x) = - trunc_int x"
  by (auto simp: trunc_int_def ceiling_def)

lemma trunc_int_mono: "x \<le> y \<Longrightarrow> trunc_int x \<le> trunc_int y"
proof -
  assume le: "x \<le> y"
  show ?thesis
  proof (cases "0 \<le> x \<or> y < 0")
    case True
    with le show ?thesis by (auto simp: trunc_int_def intro: floor_mono ceiling_mono)
  next
    case False
    then have "\<not> 0 \<le> x" "0 \<le> y" by auto
    then have "\<lceil>x\<rceil> \<le> 0" "0 \<le> \<lfloor>y\<rfloor>" by (auto simp: ceiling_le_iff)
    then have "\<lceil>x\<rceil> \<le> \<lfloor>y\<rfloor>" by linarith
    with \<open>\<not> 0 \<le> x\<close> \<open>0 \<le> y\<close> show ?thesis by (simp add: trunc_int_def)
  qed
qed

lemma trunc_int_le_of_int: "x \<le> of_int k \<Longrightarrow> trunc_int x \<le> k"
  using trunc_int_mono [of x "of_int k"] by simp

lemma of_int_le_trunc_int: "of_int k \<le> x \<Longrightarrow> k \<le> trunc_int x"
  using trunc_int_mono [of "of_int k" x] by simp

lemma trunc_int_nonneg: "0 \<le> x \<Longrightarrow> 0 \<le> trunc_int x"
  by (simp add: trunc_int_def)

lemma of_int_trunc_int_le: "0 \<le> x \<Longrightarrow> of_int (trunc_int x) \<le> x"
  by (simp add: trunc_int_def)

lemma sint_word_of_int_fits:
  assumes "fits_signed LENGTH('a) k"
  shows "sint (word_of_int k :: 'a::len word) = k"
  using assms by (simp add: sint_sbintrunc' signed_take_bit_int_eq_self_iff fits_signed_def)

lemma uint_word_of_int_fits:
  assumes "fits_unsigned LENGTH('a) k"
  shows "uint (word_of_int k :: 'a::len word) = k"
  using assms by (auto simp: fits_unsigned_def uint_word_of_int)

lemma real_to_i32_SomeD: "real_to_i32 x = Some w \<Longrightarrow> sint w = trunc_int x"
  by (auto simp: real_to_i32_def sint_word_of_int_fits split: if_splits)

lemma real_to_u64_SomeD: "real_to_u64 x = Some w \<Longrightarrow> uint w = trunc_int x"
  by (auto simp: real_to_u64_def uint_word_of_int_fits split: if_splits)

lemma real_to_i32_None_iff: "real_to_i32 x = None \<longleftrightarrow> \<not> fits_signed 32 (trunc_int x)"
  by (simp add: real_to_i32_def)

section \<open>Words in byte buffers\<close>

text \<open>A \<open>uint16_t\<close> at two consecutive bytes on a little-endian machine.\<close>

definition le16 :: "u8 \<Rightarrow> u8 \<Rightarrow> u16" where
  "le16 lo hi = word_cat hi lo"

definition lo8 :: "u16 \<Rightarrow> u8" where
  "lo8 w = ucast w"

definition hi8 :: "u16 \<Rightarrow> u8" where
  "hi8 w = ucast (drop_bit 8 w)"

lemma lo8_le16 [simp]: "lo8 (le16 a b) = a"
  by (rule bit_word_eqI) (simp add: lo8_def le16_def bit_unsigned_iff bit_word_cat_iff)

lemma hi8_le16 [simp]: "hi8 (le16 a b) = b"
  by (rule bit_word_eqI) (auto simp: hi8_def le16_def bit_unsigned_iff bit_word_cat_iff bit_drop_bit_eq)

lemma le16_lo8_hi8 [simp]: "le16 (lo8 w) (hi8 w) = w"
  by (rule bit_word_eqI)
    (auto simp: hi8_def lo8_def le16_def bit_unsigned_iff bit_word_cat_iff bit_drop_bit_eq)

text \<open>
  The \<open>n\<close> low bytes of a word, least significant first, and the word with given bytes.
\<close>

fun bytes_le :: "nat \<Rightarrow> 'a::len word \<Rightarrow> u8 list" where
  "bytes_le 0 w = []"
| "bytes_le (Suc n) w = ucast w # bytes_le n (drop_bit 8 w)"

fun word_le :: "u8 list \<Rightarrow> 'a::len word" where
  "word_le [] = 0"
| "word_le (b # bs) = ucast b OR push_bit 8 (word_le bs)"

lemma length_bytes_le [simp]: "length (bytes_le n w) = n"
  by (induction n arbitrary: w) auto

lemma bit_word_le_bytes_le:
  "bit (word_le (bytes_le n w) :: 'a::len word) k \<longleftrightarrow> k < 8 * n \<and> bit (w :: 'a word) k"
proof (induction n arbitrary: w k)
  case 0
  then show ?case by simp
next
  case (Suc n)
  show ?case
  proof (cases "k < LENGTH('a)")
    case True
    then show ?thesis
      by (auto simp: Suc bit_or_iff bit_push_bit_iff bit_unsigned_iff bit_drop_bit_eq
          possible_bit_word)
  next
    case False
    then show ?thesis by (simp add: bit_word.rep_eq)
  qed
qed

lemma word_le_bytes_le:
  assumes "LENGTH('a) \<le> 8 * n"
  shows "word_le (bytes_le n w) = (w :: 'a::len word)"
  by (rule bit_word_eqI) (use assms in \<open>auto simp: bit_word_le_bytes_le\<close>)

section \<open>Lists\<close>

lemma take_append_eq: "length xs = n \<Longrightarrow> take n (xs @ ys) = xs"
  by simp

lemma drop_append_eq: "length xs = n \<Longrightarrow> drop n (xs @ ys) = ys"
  by simp

lemma those_map_Some:
  assumes "\<forall>x \<in> set xs. \<exists>y. f x = Some y"
  obtains ys where "those (map f xs) = Some ys" "list_all2 (\<lambda>x y. f x = Some y) xs ys"
  using assms
proof (induction xs arbitrary: thesis)
  case (Cons x xs)
  then obtain y ys where "f x = Some y" "those (map f xs) = Some ys" "list_all2 (\<lambda>x y. f x = Some y) xs ys"
    by (metis list.set_intros(1) list.set_intros(2))
  with Cons.prems(1) [of "y # ys"] show ?case by simp
qed simp

lemma those_map_None: "x \<in> set xs \<Longrightarrow> f x = None \<Longrightarrow> those (map f xs) = None"
  by (induction xs) (auto split: option.splits)

section \<open>Histories\<close>

text \<open>
  The newest value a history of events holds: \<open>f\<close> says which value an event carries, if any, and
  \<open>x\<close> is the value before the first. Specifications over the past of a component use it in place
  of the component's own variables.
\<close>

fun newest :: "('e \<Rightarrow> 'x option) \<Rightarrow> 'x \<Rightarrow> 'e list \<Rightarrow> 'x" where
  "newest f x [] = x"
| "newest f x (e # es) = newest f (case f e of None \<Rightarrow> x | Some y \<Rightarrow> y) es"

section \<open>State machines with an invariant\<close>

text \<open>
  A component whose operations are the events of a step function that may end in a fault.
  What every operation keeps holds after any run that returns. A component without faults is the
  special case of a total step.
\<close>

fun run_res :: "('s \<Rightarrow> 'e \<Rightarrow> fault + 's) \<Rightarrow> 's \<Rightarrow> 'e list \<Rightarrow> fault + 's" where
  "run_res step s [] = Inr s"
| "run_res step s (e # es) = (case step s e of Inl f \<Rightarrow> Inl f | Inr s' \<Rightarrow> run_res step s' es)"

lemma run_res_total: "run_res (\<lambda>s e. Inr (step s e)) s es = Inr (foldl step s es)"
  by (induction es arbitrary: s) auto

lemma run_res_append:
  "run_res step s (es @ es') = (case run_res step s es of Inl f \<Rightarrow> Inl f | Inr s' \<Rightarrow> run_res step s' es')"
  by (induction es arbitrary: s) (auto split: sum.split)

locale fault_machine =
  fixes fstep :: "'s \<Rightarrow> 'e \<Rightarrow> fault + 's"
    and inv :: "'s \<Rightarrow> bool"
  assumes fstep_inv: "inv s \<Longrightarrow> fstep s e = Inr s' \<Longrightarrow> inv s'"
begin

lemma run_res_inv: "inv s \<Longrightarrow> run_res fstep s es = Inr s' \<Longrightarrow> inv s'"
  by (induction es arbitrary: s) (auto split: sum.splits intro: fstep_inv)

end

locale machine_inv =
  fixes step :: "'s \<Rightarrow> 'e \<Rightarrow> 's"
    and inv :: "'s \<Rightarrow> bool"
  assumes step_inv: "inv s \<Longrightarrow> inv (step s e)"

sublocale machine_inv \<subseteq> faulty: fault_machine "\<lambda>s e. Inr (step s e)" inv
  by unfold_locales (auto intro: step_inv)

context machine_inv
begin

lemma run_inv: "inv s \<Longrightarrow> inv (foldl step s es)"
  using faulty.run_res_inv by (simp add: run_res_total)

end

end
