(* ===== verification/Camera_Values.thy ===== *)
theory Camera_Values
  imports Prelude
begin

text \<open>
  The values of camera controls and of node parameters, and what \<^verbatim>\<open>camera_ros\<close> does with them: clamping
  and comparison (\<^verbatim>\<open>clamp.cpp\<close>), conversion in both directions (\<^verbatim>\<open>cv_to_pv.cpp\<close>, \<^verbatim>\<open>pv_to_cv.cpp\<close>). The
  library version is the one of the workspace (0.7.0), so every conditional part of the sources is in.
\<close>

section \<open>Control values\<close>

datatype ControlType = CTNone | CTBool | CTByte | CTUnsigned16 | CTUnsigned32 | CTInteger32 | CTInteger64 | CTFloat
  | CTString | CTRectangle | CTSize | CTPoint

record Rectangle =
  rect_x :: i32
  rect_y :: i32
  rect_width :: u32
  rect_height :: u32

datatype elem = EBool bool | EByte u8 | EUnsigned16 u16 | EUnsigned32 u32 | EInteger32 i32 | EInteger64 i64 | EFloat double
  | ERectangle Rectangle | ESize u32 u32 | EPoint i32 i32

text \<open>
  \<open>ControlValue\<close> of the library: nothing, one element, an array, or a string, which the class stores as
  an array of characters. A float is an exact real.
\<close>

datatype ControlValue = CV_none | CV_scalar elem | CV_array ControlType "elem list" | CV_string string

fun elem_type :: "elem \<Rightarrow> ControlType" where
  "elem_type (EBool _) = CTBool"
| "elem_type (EByte _) = CTByte"
| "elem_type (EUnsigned16 _) = CTUnsigned16"
| "elem_type (EUnsigned32 _) = CTUnsigned32"
| "elem_type (EInteger32 _) = CTInteger32"
| "elem_type (EInteger64 _) = CTInteger64"
| "elem_type (EFloat _) = CTFloat"
| "elem_type (ERectangle _) = CTRectangle"
| "elem_type (ESize _ _) = CTSize"
| "elem_type (EPoint _ _) = CTPoint"

fun cv_type :: "ControlValue \<Rightarrow> ControlType" where
  "cv_type CV_none = CTNone"
| "cv_type (CV_scalar e) = elem_type e"
| "cv_type (CV_array ty _) = ty"
| "cv_type (CV_string _) = CTString"

fun cv_isArray :: "ControlValue \<Rightarrow> bool" where
  "cv_isArray (CV_array _ _) = True"
| "cv_isArray (CV_string _) = True"
| "cv_isArray _ = False"

text \<open>A copy of an empty value has one element; the values compared here are copies.\<close>

fun numElements :: "ControlValue \<Rightarrow> nat" where
  "numElements (CV_array _ es) = length es"
| "numElements (CV_string s) = length s"
| "numElements _ = 1"

text \<open>
  What a conversion can end in beside a value: the two exceptions its callers catch, or a fault. A failed
  assertion aborts the process.
\<close>

datatype conv_error = Invalid_conversion | Unsupported_control | Crash fault

abbreviation assertion_failed :: conv_error where
  "assertion_failed \<equiv> Crash (Process_Exit 134)"

abbreviation undefined_here :: conv_error where
  "undefined_here \<equiv> Crash Undefined_Behaviour"

definition or_undefined :: "'a option \<Rightarrow> conv_error + 'a" where
  "or_undefined x = (case x of None \<Rightarrow> Inl undefined_here | Some y \<Rightarrow> Inr y)"

lemma or_undefined_simps [simp]:
  "or_undefined None = Inl undefined_here" "or_undefined (Some y) = Inr y"
  by (simp_all add: or_undefined_def)

section \<open>Comparison\<close>

text \<open>\<open>lhs.x + lhs.width\<close> of an \<open>int\<close> and an \<open>unsigned\<close> is unsigned and wraps.\<close>

definition rect_less :: "Rectangle \<Rightarrow> Rectangle \<Rightarrow> bool" where
  "rect_less l r \<longleftrightarrow> rect_x r <s rect_x l \<and> rect_y r <s rect_y l \<and>
     rect_x l + rect_width l < rect_x r + rect_width r \<and> rect_y l + rect_height l < rect_y r + rect_height r"

text \<open>\<open>int\<close> arithmetic that may overflow.\<close>

definition squared_sum :: "i32 \<Rightarrow> i32 \<Rightarrow> int option" where
  "squared_sum x y =
     (if fits_signed 32 (sint x * sint x) \<and> fits_signed 32 (sint y * sint y) \<and>
         fits_signed 32 (sint x * sint x + sint y * sint y)
      then Some (sint x * sint x + sint y * sint y) else None)"

definition size_less :: "u32 \<Rightarrow> u32 \<Rightarrow> u32 \<Rightarrow> u32 \<Rightarrow> bool" where
  "size_less lw lh rw rh =
     (if lw < rw \<and> lh < rh then True
      else if rw \<le> lw \<and> rh \<le> lh then False
      else let larea = unat lw * unat lh; rarea = unat rw * unat rh in
        if larea < rarea then True else if larea > rarea then False else lw < rw)"

text \<open>\<open>operator<\<close> on two elements of one type; \<open>None\<close>: undefined, or the types differ.\<close>

definition elem_less :: "elem \<Rightarrow> elem \<Rightarrow> bool option" where
  "elem_less lhs rhs = (case lhs of
     EBool a \<Rightarrow> (case rhs of EBool b \<Rightarrow> Some (\<not> a \<and> b) | _ \<Rightarrow> None)
   | EByte a \<Rightarrow> (case rhs of EByte b \<Rightarrow> Some (a < b) | _ \<Rightarrow> None)
   | EUnsigned16 a \<Rightarrow> (case rhs of EUnsigned16 b \<Rightarrow> Some (a < b) | _ \<Rightarrow> None)
   | EUnsigned32 a \<Rightarrow> (case rhs of EUnsigned32 b \<Rightarrow> Some (a < b) | _ \<Rightarrow> None)
   | EInteger32 a \<Rightarrow> (case rhs of EInteger32 b \<Rightarrow> Some (a <s b) | _ \<Rightarrow> None)
   | EInteger64 a \<Rightarrow> (case rhs of EInteger64 b \<Rightarrow> Some (a <s b) | _ \<Rightarrow> None)
   | EFloat a \<Rightarrow> (case rhs of EFloat b \<Rightarrow> Some (a < b) | _ \<Rightarrow> None)
   | ERectangle a \<Rightarrow> (case rhs of ERectangle b \<Rightarrow> Some (rect_less a b) | _ \<Rightarrow> None)
   | ESize lw lh \<Rightarrow> (case rhs of ESize rw rh \<Rightarrow> Some (size_less lw lh rw rh) | _ \<Rightarrow> None)
   | EPoint ax ay \<Rightarrow> (case rhs of
       EPoint bx by \<Rightarrow> (case (squared_sum ax ay, squared_sum bx by) of (Some m, Some n) \<Rightarrow> Some (m < n) | _ \<Rightarrow> None)
     | _ \<Rightarrow> None))"

definition elem_greater :: "elem \<Rightarrow> elem \<Rightarrow> bool option" where
  "elem_greater a b = elem_less b a"

text \<open>Whether some element on the left is before the one on the right; behind the end is undefined.\<close>

fun any_elem :: "(elem \<Rightarrow> elem \<Rightarrow> bool option) \<Rightarrow> elem list \<Rightarrow> elem list \<Rightarrow> bool option" where
  "any_elem f [] bs = Some False"
| "any_elem f (a # as) [] = None"
| "any_elem f (a # as) (b # bs) = (case f a b of
     None \<Rightarrow> None | Some True \<Rightarrow> Some True | Some False \<Rightarrow> any_elem f as bs)"

text \<open>
  The templates \<open>less\<close> and \<open>greater\<close>, and the operators over them. The elements of a string are read as
  if they were string views, which is outside the value unless it is empty.
\<close>

definition cv_any :: "(elem \<Rightarrow> elem \<Rightarrow> bool option) \<Rightarrow> ControlValue \<Rightarrow> ControlValue \<Rightarrow> conv_error + bool" where
  "cv_any f lhs rhs =
     (case lhs of
        CV_none \<Rightarrow> Inr False
      | CV_string s \<Rightarrow> if s = [] then Inr False else Inl undefined_here
      | CV_array _ as \<Rightarrow>
          (case rhs of
             CV_array _ bs \<Rightarrow> or_undefined (any_elem f as bs)
           | CV_scalar b \<Rightarrow> or_undefined (any_elem f as (replicate (length as) b))
           | _ \<Rightarrow> Inl assertion_failed)
      | CV_scalar a \<Rightarrow>
          (case rhs of
             CV_array _ bs \<Rightarrow> or_undefined (any_elem f (replicate (length bs) a) bs)
           | CV_scalar b \<Rightarrow> or_undefined (f a b)
           | _ \<Rightarrow> Inl assertion_failed))"

definition cv_compare :: "(elem \<Rightarrow> elem \<Rightarrow> bool option) \<Rightarrow> ControlValue \<Rightarrow> ControlValue \<Rightarrow> conv_error + bool" where
  "cv_compare f lhs rhs =
     (if \<not> (cv_type lhs = cv_type rhs \<and> (numElements lhs = numElements rhs \<or> numElements rhs = 1)) then Inl assertion_failed
      else cv_any f lhs rhs)"

definition cv_less :: "ControlValue \<Rightarrow> ControlValue \<Rightarrow> conv_error + bool" where
  "cv_less = cv_compare elem_less"

definition cv_greater :: "ControlValue \<Rightarrow> ControlValue \<Rightarrow> conv_error + bool" where
  "cv_greater = cv_compare elem_greater"

section \<open>Clamping\<close>

text \<open>\<open>std::clamp\<close> is undefined when the upper bound is below the lower one.\<close>

definition std_clamp :: "('a \<Rightarrow> 'a \<Rightarrow> bool) \<Rightarrow> 'a \<Rightarrow> 'a \<Rightarrow> 'a \<Rightarrow> 'a option" where
  "std_clamp lt v lo hi =
     (if lt hi lo then None else if lt v lo then Some lo else if lt hi v then Some hi else Some v)"

definition rect_clamp :: "Rectangle \<Rightarrow> Rectangle \<Rightarrow> Rectangle \<Rightarrow> Rectangle option" where
  "rect_clamp val lo hi =
     (case (std_clamp (<s) (rect_x val) (rect_x lo) (rect_x hi), std_clamp (<s) (rect_y val) (rect_y lo) (rect_y hi)) of
        (Some x, Some y) \<Rightarrow>
          (case (std_clamp (<) (x + rect_width val) (rect_x lo + rect_width lo) (rect_x hi + rect_width hi),
                 std_clamp (<) (y + rect_height val) (rect_y lo + rect_height lo) (rect_y hi + rect_height hi)) of
             (Some right, Some bottom) \<Rightarrow>
               Some \<lparr>rect_x = x, rect_y = y, rect_width = right - x, rect_height = bottom - y\<rparr>
           | _ \<Rightarrow> None)
      | _ \<Rightarrow> None)"

definition elem_clamp :: "elem \<Rightarrow> elem \<Rightarrow> elem \<Rightarrow> elem option" where
  "elem_clamp value lo hi = (case value of
     EBool v \<Rightarrow> Some value
   | EByte v \<Rightarrow> (case (lo, hi) of (EByte a, EByte b) \<Rightarrow> map_option EByte (std_clamp (<) v a b) | _ \<Rightarrow> None)
   | EUnsigned16 v \<Rightarrow> (case (lo, hi) of (EUnsigned16 a, EUnsigned16 b) \<Rightarrow> map_option EUnsigned16 (std_clamp (<) v a b) | _ \<Rightarrow> None)
   | EUnsigned32 v \<Rightarrow> (case (lo, hi) of (EUnsigned32 a, EUnsigned32 b) \<Rightarrow> map_option EUnsigned32 (std_clamp (<) v a b) | _ \<Rightarrow> None)
   | EInteger32 v \<Rightarrow> (case (lo, hi) of (EInteger32 a, EInteger32 b) \<Rightarrow> map_option EInteger32 (std_clamp (<s) v a b) | _ \<Rightarrow> None)
   | EInteger64 v \<Rightarrow> (case (lo, hi) of (EInteger64 a, EInteger64 b) \<Rightarrow> map_option EInteger64 (std_clamp (<s) v a b) | _ \<Rightarrow> None)
   | EFloat v \<Rightarrow> (case (lo, hi) of (EFloat a, EFloat b) \<Rightarrow> map_option EFloat (std_clamp (<) v a b) | _ \<Rightarrow> None)
   | ERectangle v \<Rightarrow> (case (lo, hi) of (ERectangle a, ERectangle b) \<Rightarrow> map_option ERectangle (rect_clamp v a b) | _ \<Rightarrow> None)
   | ESize vw vh \<Rightarrow> (case (lo, hi) of
       (ESize aw ah, ESize bw bh) \<Rightarrow> map_option (\<lambda>(w, h). ESize w h)
         (std_clamp (\<lambda>(lw, lh) (rw, rh). size_less lw lh rw rh) (vw, vh) (aw, ah) (bw, bh))
     | _ \<Rightarrow> None)
   | EPoint vx vy \<Rightarrow> (case (lo, hi) of
       (EPoint ax ay, EPoint bx by) \<Rightarrow> (case (std_clamp (<s) vx ax bx, std_clamp (<s) vy ay by) of
          (Some x, Some y) \<Rightarrow> Some (EPoint x y) | _ \<Rightarrow> None)
     | _ \<Rightarrow> None))"

fun elems_clamp :: "elem list \<Rightarrow> elem list \<Rightarrow> elem list \<Rightarrow> elem list option" where
  "elems_clamp [] as bs = Some []"
| "elems_clamp (v # vs) (a # as) (b # bs) = (case (elem_clamp v a b, elems_clamp vs as bs) of
     (Some x, Some xs) \<Rightarrow> Some (x # xs) | _ \<Rightarrow> None)"
| "elems_clamp (v # vs) _ _ = None"

text \<open>
  A value of type \<open>bool\<close> stays. A string is taken for an array of string views: its elements are read
  outside the value, and what is made of them is refused by the assertion of \<open>ControlValue::set\<close>.
\<close>

definition cv_clamp :: "ControlValue \<Rightarrow> ControlValue \<Rightarrow> ControlValue \<Rightarrow> conv_error + ControlValue" where
  "cv_clamp value lo hi =
     (if cv_type lo \<noteq> cv_type hi \<or> cv_isArray lo \<noteq> cv_isArray hi \<or> numElements lo \<noteq> numElements hi then Inl Invalid_conversion
      else case value of
        CV_none \<Rightarrow> Inr CV_none
      | CV_string s \<Rightarrow> if s = [] then Inl assertion_failed else Inl undefined_here
      | CV_scalar v \<Rightarrow>
          if elem_type v = CTBool then Inr value
          else (case (lo, hi) of
             (CV_scalar a, CV_scalar b) \<Rightarrow>
               if elem_type a \<noteq> elem_type v then Inl assertion_failed
               else map_sum id CV_scalar (or_undefined (elem_clamp v a b))
           | _ \<Rightarrow> Inl assertion_failed)
      | CV_array ty vs \<Rightarrow>
          if ty = CTBool then Inr value
          else if cv_type lo \<noteq> ty then Inl assertion_failed
          else (case (lo, hi) of
             (CV_array _ as, CV_array _ bs) \<Rightarrow> map_sum id (CV_array ty) (or_undefined (elems_clamp vs as bs))
           | (CV_scalar a, CV_scalar b) \<Rightarrow>
               map_sum id (CV_array ty) (or_undefined (elems_clamp vs (replicate (length vs) a) (replicate (length vs) b)))
           | _ \<Rightarrow> Inl assertion_failed))"

section \<open>Parameter values\<close>

datatype ParameterValue = NOT_SET | P_bool bool | P_integer i64 | P_double double | P_string string
  | P_byte_array "u8 list" | P_bool_array "bool list" | P_integer_array "i64 list" | P_double_array "double list"
  | P_string_array "string list"

datatype ParameterType = PARAMETER_NOT_SET | PARAMETER_BOOL | PARAMETER_INTEGER | PARAMETER_DOUBLE | PARAMETER_STRING
  | PARAMETER_BYTE_ARRAY | PARAMETER_BOOL_ARRAY | PARAMETER_INTEGER_ARRAY | PARAMETER_DOUBLE_ARRAY | PARAMETER_STRING_ARRAY

fun pv_type :: "ParameterValue \<Rightarrow> ParameterType" where
  "pv_type NOT_SET = PARAMETER_NOT_SET"
| "pv_type (P_bool _) = PARAMETER_BOOL"
| "pv_type (P_integer _) = PARAMETER_INTEGER"
| "pv_type (P_double _) = PARAMETER_DOUBLE"
| "pv_type (P_string _) = PARAMETER_STRING"
| "pv_type (P_byte_array _) = PARAMETER_BYTE_ARRAY"
| "pv_type (P_bool_array _) = PARAMETER_BOOL_ARRAY"
| "pv_type (P_integer_array _) = PARAMETER_INTEGER_ARRAY"
| "pv_type (P_double_array _) = PARAMETER_DOUBLE_ARRAY"
| "pv_type (P_string_array _) = PARAMETER_STRING_ARRAY"

section \<open>From control values to parameters\<close>

fun cv_to_pv_scalar :: "elem \<Rightarrow> ParameterValue" where
  "cv_to_pv_scalar (EBool b) = P_bool b"
| "cv_to_pv_scalar (EByte w) = P_integer (ucast w)"
| "cv_to_pv_scalar (EUnsigned16 w) = P_integer (ucast w)"
| "cv_to_pv_scalar (EUnsigned32 w) = P_integer (ucast w)"
| "cv_to_pv_scalar (EInteger32 w) = P_integer (scast w)"
| "cv_to_pv_scalar (EInteger64 w) = P_integer w"
| "cv_to_pv_scalar (EFloat x) = P_double x"
| "cv_to_pv_scalar (ERectangle r) =
     P_integer_array [scast (rect_x r), scast (rect_y r), ucast (rect_width r), ucast (rect_height r)]"
| "cv_to_pv_scalar (ESize w h) = P_integer_array [ucast w, ucast h]"
| "cv_to_pv_scalar (EPoint x y) = P_integer_array [scast x, scast y]"

text \<open>
  A parameter can be made of a vector of \<open>bool\<close>, \<open>uint8_t\<close>, \<open>int32_t\<close>, \<open>int64_t\<close> and \<open>float\<close>. An element of
  another type than that of the array does not exist in the class.
\<close>

definition cv_to_pv_array :: "ControlType \<Rightarrow> elem list \<Rightarrow> conv_error + ParameterValue" where
  "cv_to_pv_array ty es = (case ty of
     CTBool \<Rightarrow> Inr (P_bool_array (map (\<lambda>e. case e of EBool b \<Rightarrow> b) es))
   | CTByte \<Rightarrow> Inr (P_byte_array (map (\<lambda>e. case e of EByte w \<Rightarrow> w) es))
   | CTInteger32 \<Rightarrow> Inr (P_integer_array (map (\<lambda>e. case e of EInteger32 w \<Rightarrow> scast w) es))
   | CTInteger64 \<Rightarrow> Inr (P_integer_array (map (\<lambda>e. case e of EInteger64 w \<Rightarrow> w) es))
   | CTFloat \<Rightarrow> Inr (P_double_array (map (\<lambda>e. case e of EFloat x \<Rightarrow> x) es))
   | _ \<Rightarrow> Inl Invalid_conversion)"

definition cv_to_pv :: "ControlValue \<Rightarrow> conv_error + ParameterValue" where
  "cv_to_pv v = (case v of
     CV_none \<Rightarrow> Inr NOT_SET
   | CV_string s \<Rightarrow> if s = [] then Inr NOT_SET else Inl undefined_here
   | CV_scalar e \<Rightarrow> Inr (cv_to_pv_scalar e)
   | CV_array ty es \<Rightarrow> (case es of
       [] \<Rightarrow> Inr NOT_SET
     | [e] \<Rightarrow> Inr (cv_to_pv_scalar e)
     | _ \<Rightarrow> cv_to_pv_array ty es))"

text \<open>The type of the parameter of a control; an extent 0 is a single value.\<close>

definition cv_to_pv_type :: "ControlType \<Rightarrow> u64 \<Rightarrow> conv_error + ParameterType" where
  "cv_to_pv_type ty extent =
     (if extent = 0 then
        (case ty of
           CTNone \<Rightarrow> Inl Unsupported_control
         | CTBool \<Rightarrow> Inr PARAMETER_BOOL
         | CTFloat \<Rightarrow> Inr PARAMETER_DOUBLE
         | CTString \<Rightarrow> Inr PARAMETER_STRING
         | CTRectangle \<Rightarrow> Inr PARAMETER_INTEGER_ARRAY
         | CTSize \<Rightarrow> Inr PARAMETER_INTEGER_ARRAY
         | CTPoint \<Rightarrow> Inr PARAMETER_INTEGER_ARRAY
         | _ \<Rightarrow> Inr PARAMETER_INTEGER)
      else
        (case ty of
           CTNone \<Rightarrow> Inl Unsupported_control
         | CTBool \<Rightarrow> Inr PARAMETER_BOOL_ARRAY
         | CTFloat \<Rightarrow> Inr PARAMETER_DOUBLE_ARRAY
         | CTString \<Rightarrow> Inr PARAMETER_STRING_ARRAY
         | CTRectangle \<Rightarrow> Inl Unsupported_control
         | CTSize \<Rightarrow> Inl Unsupported_control
         | CTPoint \<Rightarrow> Inl Unsupported_control
         | _ \<Rightarrow> Inr PARAMETER_INTEGER_ARRAY))"

section \<open>From parameters to control values\<close>

definition pv_to_cv_int :: "i64 \<Rightarrow> ControlType \<Rightarrow> ControlValue" where
  "pv_to_cv_int w ty = (case ty of
     CTBool \<Rightarrow> CV_scalar (EBool (w \<noteq> 0))
   | CTByte \<Rightarrow> CV_scalar (EByte (ucast w))
   | CTUnsigned16 \<Rightarrow> CV_scalar (EUnsigned16 (ucast w))
   | CTUnsigned32 \<Rightarrow> CV_scalar (EUnsigned32 (ucast w))
   | CTInteger32 \<Rightarrow> CV_scalar (EInteger32 (ucast w))
   | CTInteger64 \<Rightarrow> CV_scalar (EInteger64 w)
   | CTFloat \<Rightarrow> CV_scalar (EFloat (real_of_int (sint w)))
   | _ \<Rightarrow> CV_none)"

definition pv_to_cv_int_array :: "i64 list \<Rightarrow> ControlType \<Rightarrow> conv_error + ControlValue" where
  "pv_to_cv_int_array ws ty = (case ty of
     CTNone \<Rightarrow> Inr CV_none
   | CTInteger32 \<Rightarrow> Inr (CV_array ty (map (\<lambda>w. EInteger32 (ucast w)) ws))
   | CTInteger64 \<Rightarrow> Inr (CV_array ty (map EInteger64 ws))
   | CTUnsigned16 \<Rightarrow> Inr (CV_array ty (map (\<lambda>w. EUnsigned16 (ucast w)) ws))
   | CTUnsigned32 \<Rightarrow> Inr (CV_array ty (map (\<lambda>w. EUnsigned32 (ucast w)) ws))
   | CTFloat \<Rightarrow> Inr (CV_array ty (map (\<lambda>w. EFloat (real_of_int (sint w))) ws))
   | CTRectangle \<Rightarrow> (case ws of
       [x, y, w, h] \<Rightarrow> Inr (CV_scalar (ERectangle \<lparr>rect_x = ucast x, rect_y = ucast y, rect_width = ucast w, rect_height = ucast h\<rparr>))
     | _ \<Rightarrow> Inl Invalid_conversion)
   | CTSize \<Rightarrow> (case ws of [w, h] \<Rightarrow> Inr (CV_scalar (ESize (ucast w) (ucast h))) | _ \<Rightarrow> Inl Invalid_conversion)
   | CTPoint \<Rightarrow> (case ws of [x, y] \<Rightarrow> Inr (CV_scalar (EPoint (ucast x) (ucast y))) | _ \<Rightarrow> Inl Invalid_conversion)
   | _ \<Rightarrow> Inl Invalid_conversion)"

text \<open>The element size of a list of string views is not that of a string: the assertion of the class.\<close>

definition pv_to_cv :: "ParameterValue \<Rightarrow> ControlType \<Rightarrow> conv_error + ControlValue" where
  "pv_to_cv p ty = (case p of
     NOT_SET \<Rightarrow> Inr CV_none
   | P_bool b \<Rightarrow> Inr (CV_scalar (EBool b))
   | P_integer w \<Rightarrow> Inr (pv_to_cv_int w ty)
   | P_double x \<Rightarrow> Inr (CV_scalar (EFloat x))
   | P_string s \<Rightarrow> Inr (CV_string s)
   | P_byte_array ws \<Rightarrow> Inr (CV_array CTByte (map EByte ws))
   | P_bool_array _ \<Rightarrow> Inl Invalid_conversion
   | P_integer_array ws \<Rightarrow> pv_to_cv_int_array ws ty
   | P_double_array xs \<Rightarrow> Inr (CV_array CTFloat (map EFloat xs))
   | P_string_array _ \<Rightarrow> Inl assertion_failed)"

section \<open>What clamping gives\<close>

text \<open>The types whose order is the one the values are clamped by.\<close>

definition ranged :: "ControlType \<Rightarrow> bool" where
  "ranged ty \<longleftrightarrow> ty \<in> {CTByte, CTUnsigned16, CTUnsigned32, CTInteger32, CTInteger64, CTFloat, CTSize}"

definition wf_value :: "ControlValue \<Rightarrow> bool" where
  "wf_value v = (case v of CV_array ty es \<Rightarrow> list_all (\<lambda>e. elem_type e = ty) es | _ \<Rightarrow> True)"

lemma std_clamp_between: "std_clamp lt v lo hi = Some w \<Longrightarrow> (\<And>x. \<not> lt x x) \<Longrightarrow> \<not> lt w lo \<and> \<not> lt hi w"
  by (auto simp: std_clamp_def split: if_splits)

lemma size_less_irrefl: "\<not> size_less w h w h"
  by (simp add: size_less_def)

lemma word_sless_irrefl: "\<not> (w :: 'a::len word) <s w"
  by (simp add: word_sless_alt)

lemma elem_clamp_between:
  assumes "elem_clamp v lo hi = Some w" "ranged (elem_type v)"
  shows "elem_less w lo = Some False \<and> elem_less hi w = Some False \<and> elem_type w = elem_type v"
  using assms
  by (cases v)
    (auto simp: elem_clamp_def elem_less_def ranged_def word_sless_irrefl size_less_irrefl dest!: std_clamp_between
      split: elem.split_asm)

lemma elems_clamp_between:
  assumes "elems_clamp vs los his = Some ws" "list_all (\<lambda>v. ranged (elem_type v)) vs"
  shows "any_elem elem_less ws los = Some False \<and> any_elem elem_greater ws his = Some False \<and> map elem_type ws = map elem_type vs"
  using assms
proof (induction vs los his arbitrary: ws rule: elems_clamp.induct)
  case (2 v vs lo los hi his)
  then obtain x xs where x: "elem_clamp v lo hi = Some x" "elems_clamp vs los his = Some xs" "ws = x # xs"
    by (auto split: option.splits)
  have "ranged (elem_type v)" using 2(3) by simp
  from elem_clamp_between [OF x(1) this] 2(1) [OF x(2)] 2(3) show ?case by (simp add: x(3) elem_greater_def)
qed simp_all

lemma elems_clamp_length: "elems_clamp vs los his = Some ws \<Longrightarrow> length ws = length vs"
  by (induction vs los his arbitrary: ws rule: elems_clamp.induct) (auto split: option.splits)

lemma clamp_between_bounds:
  assumes "cv_clamp v lo hi = Inr w" "wf_value v" "ranged (cv_type v)" "numElements lo = 1 \<or> numElements lo = numElements v"
  shows "cv_less w lo = Inr False \<and> cv_greater w hi = Inr False \<and> cv_type w = cv_type v"
proof -
  have bounds: "cv_type hi = cv_type lo" "cv_isArray hi = cv_isArray lo" "numElements hi = numElements lo"
    using assms(1) by (auto simp: cv_clamp_def split: if_splits)
  consider (scalar) e where "v = CV_scalar e" | (arr) ty es where "v = CV_array ty es"
    using assms(3) by (cases v) (auto simp: ranged_def)
  then show ?thesis
  proof cases
    case scalar
    with assms(3) have "elem_type e \<noteq> CTBool" by (auto simp: ranged_def)
    with scalar assms(1) bounds have "(case (lo, hi) of
        (CV_scalar a, CV_scalar b) \<Rightarrow>
          if elem_type a \<noteq> elem_type e then Inl assertion_failed else map_sum id CV_scalar (or_undefined (elem_clamp e a b))
      | _ \<Rightarrow> Inl assertion_failed) = Inr w" by (simp add: cv_clamp_def)
    then obtain a b x where x: "lo = CV_scalar a" "hi = CV_scalar b" "w = CV_scalar x"
      "elem_clamp e a b = Some x" "elem_type a = elem_type e"
      by (cases lo; cases hi) (auto simp: or_undefined_def split: if_splits option.splits)
    with elem_clamp_between [OF x(4)] assms(3) bounds scalar show ?thesis
      by (simp add: cv_less_def cv_greater_def cv_compare_def cv_any_def elem_greater_def)
  next
    case arr
    have es: "list_all (\<lambda>e. ranged (elem_type e)) es" using assms(2,3) arr by (auto simp: wf_value_def list_all_iff)
    have "ty \<noteq> CTBool" using assms(3) arr by (auto simp: ranged_def)
    with arr assms(1) bounds have lo_type: "cv_type lo = ty" and "(case (lo, hi) of
        (CV_array _ as, CV_array _ bs) \<Rightarrow> map_sum id (CV_array ty) (or_undefined (elems_clamp es as bs))
      | (CV_scalar a, CV_scalar b) \<Rightarrow>
          map_sum id (CV_array ty) (or_undefined (elems_clamp es (replicate (length es) a) (replicate (length es) b)))
      | _ \<Rightarrow> Inl assertion_failed) = Inr w" by (simp_all add: cv_clamp_def split: if_splits)
    then obtain as bs ws where ws: "w = CV_array ty ws" "elems_clamp es as bs = Some ws"
      and lo: "lo = CV_array ty as \<and> hi = CV_array ty bs \<or>
        (\<exists>a b. lo = CV_scalar a \<and> hi = CV_scalar b \<and> elem_type a = ty \<and> as = replicate (length es) a \<and> bs = replicate (length es) b)"
      using bounds by (cases lo; cases hi) (auto simp: or_undefined_def split: option.splits)
    note between = elems_clamp_between [OF ws(2) es] elems_clamp_length [OF ws(2)]
    from lo show ?thesis
    proof
      assume b: "lo = CV_array ty as \<and> hi = CV_array ty bs"
      with assms(4) bounds arr between have "length ws = length as \<or> length as = 1" "length bs = length as" by auto
      with b between show ?thesis by (simp add: arr ws(1) cv_less_def cv_greater_def cv_compare_def cv_any_def)
    next
      assume "\<exists>a b. lo = CV_scalar a \<and> hi = CV_scalar b \<and> elem_type a = ty \<and> as = replicate (length es) a \<and> bs = replicate (length es) b"
      then obtain a b where b: "lo = CV_scalar a" "hi = CV_scalar b" "elem_type a = ty" "as = replicate (length es) a" "bs = replicate (length es) b"
        by blast
      moreover have "elem_type b = ty" using b bounds by simp
      ultimately show ?thesis using between by (simp add: arr ws(1) cv_less_def cv_greater_def cv_compare_def cv_any_def)
    qed
  qed
qed

text \<open>
  A value that was clamped is neither below its minimum nor above its maximum, as the check of new
  parameter values compares them, whether the bounds are single values or arrays.
\<close>

theorem clamped_in_range:
  assumes "cv_clamp v lo hi = Inr w" "wf_value v" "ranged (cv_type v)" "numElements lo = 1 \<or> numElements lo = numElements v"
  shows "cv_less w lo = Inr False \<and> cv_greater w hi = Inr False \<and> cv_type w = cv_type v"
  using clamp_between_bounds [OF assms] .

section \<open>What conversion keeps\<close>

definition convertible :: "ControlValue \<Rightarrow> bool" where
  "convertible v = (case v of
     CV_scalar _ \<Rightarrow> True
   | CV_array ty es \<Rightarrow> ty \<in> {CTByte, CTInteger32, CTInteger64, CTFloat} \<and> 2 \<le> length es
   | _ \<Rightarrow> False)"

lemma i64_back:
  "ucast (scast (w :: i32) :: i64) = w" "ucast (ucast (w :: i32) :: i64) = w" "ucast (ucast (a :: u8) :: i64) = a"
  "ucast (ucast (b :: u16) :: i64) = b"
proof -
  show "ucast (scast w :: i64) = w"
  proof (rule bit_word_eqI)
    fix k assume "k < LENGTH(32)"
    then show "bit (ucast (scast w :: i64) :: i32) k = bit w k" by (cases "k = 31") (simp_all add: bit_unsigned_iff bit_signed_iff)
  qed
qed (rule bit_word_eqI; simp add: bit_unsigned_iff)+

lemma elem_of_type:
  "elem_type e = CTByte \<Longrightarrow> \<exists>w. e = EByte w" "elem_type e = CTInteger32 \<Longrightarrow> \<exists>w. e = EInteger32 w"
  "elem_type e = CTInteger64 \<Longrightarrow> \<exists>w. e = EInteger64 w" "elem_type e = CTFloat \<Longrightarrow> \<exists>x. e = EFloat x"
  by (cases e; simp)+

lemma elems_back:
  assumes "\<forall>e \<in> set es. elem_type e = ty"
  shows "ty = CTByte \<Longrightarrow> map (\<lambda>e. EByte (case e of EByte w \<Rightarrow> w)) es = es"
    and "ty = CTInteger32 \<Longrightarrow> map (\<lambda>e. EInteger32 (ucast (case e of EInteger32 w \<Rightarrow> (scast w :: i64)))) es = es"
    and "ty = CTInteger64 \<Longrightarrow> map (\<lambda>e. EInteger64 (case e of EInteger64 w \<Rightarrow> w)) es = es"
    and "ty = CTFloat \<Longrightarrow> map (\<lambda>e. EFloat (case e of EFloat x \<Rightarrow> x)) es = es"
  using assms by (auto simp: i64_back intro!: map_idI dest!: elem_of_type bspec)

lemma value_given_back:
  assumes "convertible v" "wf_value v"
  shows "\<exists>p. cv_to_pv v = Inr p \<and> pv_to_cv p (cv_type v) = Inr v"
proof (cases v)
  case (CV_scalar e)
  then show ?thesis
    by (cases e) (simp_all add: cv_to_pv_def pv_to_cv_def pv_to_cv_int_def pv_to_cv_int_array_def i64_back)
next
  case (CV_array ty es)
  with assms have es: "ty \<in> {CTByte, CTInteger32, CTInteger64, CTFloat}" "2 \<le> length es" "\<forall>e \<in> set es. elem_type e = ty"
    by (simp_all add: convertible_def wf_value_def list_all_iff)
  obtain a b cs where "es = a # b # cs" using es(2) by (cases es; cases "tl es") auto
  then have arr: "cv_to_pv v = cv_to_pv_array ty es" by (simp add: CV_array cv_to_pv_def)
  show ?thesis
    using es(1) arr CV_array elems_back(1-4) [OF es(3)]
    by (auto simp: cv_to_pv_array_def pv_to_cv_def pv_to_cv_int_array_def o_def)
qed (use assms in \<open>simp_all add: convertible_def\<close>)

text \<open>C34: 
  A control value that is shown as a parameter and given back is the same value: for single values of
  every type, and for arrays of bytes, signed integers and floats that have two elements or more.
\<close>

theorem control_value_roundtrip:
  assumes "convertible v" "wf_value v"
  shows "\<exists>p. cv_to_pv v = Inr p \<and> pv_to_cv p (cv_type v) = Inr v"
  using value_given_back [OF assms] .

section \<open>Witnesses\<close>

theorem clamped_in_range_witness:
  "cv_less (CV_array CTInteger32 [EInteger32 5, EInteger32 (-10)]) (CV_scalar (EInteger32 (-10))) = Inr False \<and>
   cv_greater (CV_array CTInteger32 [EInteger32 5, EInteger32 (-10)]) (CV_scalar (EInteger32 5)) = Inr False"
proof -
  let ?v = "CV_array CTInteger32 [EInteger32 7, EInteger32 (-70)]"
  have "cv_clamp ?v (CV_scalar (EInteger32 (-10))) (CV_scalar (EInteger32 5)) =
      Inr (CV_array CTInteger32 [EInteger32 5, EInteger32 (-10)])"
    by (simp add: cv_clamp_def elem_clamp_def std_clamp_def word_sless_alt numeral_2_eq_2)
  from clamped_in_range [OF this] show ?thesis by (simp add: wf_value_def ranged_def)
qed

theorem control_value_roundtrip_witness:
  "\<exists>p. cv_to_pv (CV_scalar (ERectangle \<lparr>rect_x = -1, rect_y = 2, rect_width = 640, rect_height = 480\<rparr>)) = Inr p \<and>
    pv_to_cv p CTRectangle = Inr (CV_scalar (ERectangle \<lparr>rect_x = -1, rect_y = 2, rect_width = 640, rect_height = 480\<rparr>))"
  using control_value_roundtrip [of "CV_scalar (ERectangle \<lparr>rect_x = -1, rect_y = 2, rect_width = 640, rect_height = 480\<rparr>)"]
  by (simp add: convertible_def wf_value_def)

end
