(* ===== verification/Camera_Params.thy ===== *)
theory Camera_Params
  imports Camera_Values
begin

text \<open>
  The parameters of the camera node: \<open>ParameterConflictHandler\<close>, which keeps automatic exposure and a
  fixed exposure time apart, and \<open>ParameterHandler\<close>, which declares a parameter for each control, checks
  new values and holds them for the next request (\<^verbatim>\<open>camera_ros/src\<close>).
\<close>

type_synonym Parameter = "string \<times> ParameterValue"

text \<open>The text of a message is left out, its kind and the parameter are kept.\<close>

datatype message = Must_not_be_set_simultaneously | Will_be_disabled | Will_be_set_off
  | Types_mismatch string | Not_convertible string | Dimensions_mismatch string | Out_of_range string

section \<open>Lists of parameters\<close>

definition ET :: string where "ET = ''ExposureTime''"

definition ETM :: string where "ETM = ''ExposureTimeMode''"

definition ETM_Auto :: i64 where "ETM_Auto = 0"

definition ETM_Manual :: i64 where "ETM_Manual = 1"

lemma ETM_ET [simp]: "ETM \<noteq> ET" "ET \<noteq> ETM"
  by (simp_all add: ETM_def ET_def)

lemma ETM_values [simp]: "ETM_Auto \<noteq> ETM_Manual" "ETM_Manual \<noteq> ETM_Auto"
  by (simp_all add: ETM_Auto_def ETM_Manual_def)

definition find_param :: "Parameter list \<Rightarrow> string \<Rightarrow> ParameterValue option" where
  "find_param ps name = map_option snd (find (\<lambda>(n, v). n = name \<and> v \<noteq> NOT_SET) ps)"

definition is_set :: "Parameter list \<Rightarrow> string \<Rightarrow> bool" where
  "is_set ps name \<longleftrightarrow> find_param ps name \<noteq> None"

definition is_int_eq :: "Parameter list \<Rightarrow> string \<Rightarrow> i64 \<Rightarrow> bool" where
  "is_int_eq ps name value \<longleftrightarrow> find_param ps name = Some (P_integer value)"

definition merge_params :: "Parameter list \<Rightarrow> Parameter list \<Rightarrow> Parameter list" where
  "merge_params param_old param_new = param_new @ filter (\<lambda>(n, v). \<not> is_set param_new n) param_old"

section \<open>The conflict handler\<close>

type_synonym ParameterValueMap = "string \<rightharpoonup> ParameterValue"

record ParameterConflictHandler =
  store :: "(string \<times> ParameterValue) list"
  tmp_store :: "(string \<times> ParameterValue) list"

definition new_ParameterConflictHandler :: ParameterConflictHandler where
  "new_ParameterConflictHandler = \<lparr>store = [], tmp_store = []\<rparr>"

definition erase :: "string \<Rightarrow> (string \<times> 'a) list \<Rightarrow> (string \<times> 'a) list" where
  "erase name m = filter (\<lambda>(n, v). n \<noteq> name) m"

definition map_is_set :: "ParameterValueMap \<Rightarrow> string \<Rightarrow> bool" where
  "map_is_set p name = (case p name of Some v \<Rightarrow> v \<noteq> NOT_SET | None \<Rightarrow> False)"

text \<open>\<open>p.at(name).get<int32_t>()\<close>: an exception when the value is no integer or not there.\<close>

definition get_int :: "ParameterValueMap \<Rightarrow> string \<Rightarrow> fault + i64" where
  "get_int p name = (case p name of Some (P_integer w) \<Rightarrow> Inr w | _ \<Rightarrow> Inl Uncaught_Exception)"

definition conflict_exposure :: "ParameterValueMap \<Rightarrow> fault + bool" where
  "conflict_exposure p =
     (if map_is_set p ETM then
        (case get_int p ETM of Inl f \<Rightarrow> Inl f | Inr w \<Rightarrow> Inr (w = ETM_Auto \<and> map_is_set p ET))
      else Inr False)"

definition resolve_defaults ::
  "ParameterConflictHandler \<Rightarrow> ParameterValueMap \<Rightarrow> fault + (message list \<times> ParameterConflictHandler \<times> ParameterValueMap)" where
  "resolve_defaults h p =
     (let p1 = (if p ETM = Some NOT_SET then p(ETM \<mapsto> P_integer ETM_Auto) else p) in
      case conflict_exposure p1 of
        Inl f \<Rightarrow> Inl f
      | Inr True \<Rightarrow> Inr ([Will_be_disabled], h\<lparr>store := (ET, the (p1 ET)) # erase ET (store h)\<rparr>, p1(ET \<mapsto> NOT_SET))
      | Inr False \<Rightarrow> Inr ([], h, p1))"

definition resolve_overrides ::
  "ParameterConflictHandler \<Rightarrow> ParameterValueMap \<Rightarrow> fault + (message list \<times> ParameterConflictHandler \<times> ParameterValueMap)" where
  "resolve_overrides h p =
     (case conflict_exposure p of
        Inl f \<Rightarrow> Inl f
      | Inr conflict \<Rightarrow>
          let (msgs, p1) = (if conflict then ([Will_be_set_off], p(ETM \<mapsto> P_integer ETM_Manual)) else ([], p)) in
          if map_is_set p1 ETM then
            (case get_int p1 ETM of
               Inl f \<Rightarrow> Inl f
             | Inr w \<Rightarrow>
                 if w = ETM_Manual \<and> \<not> map_is_set p1 ET \<and> map_of (store h) ET \<noteq> None then
                   (case p1 ET of
                      None \<Rightarrow> Inl Uncaught_Exception
                    | Some _ \<Rightarrow> Inr (msgs, h\<lparr>store := erase ET (store h)\<rparr>, p1(ET \<mapsto> the (map_of (store h) ET))))
                 else Inr (msgs, h, p1))
          else Inr (msgs, h, p1))"

definition check_params :: "Parameter list \<Rightarrow> Parameter list \<Rightarrow> message list" where
  "check_params parameters_old parameters_new =
     (let merged = merge_params parameters_old parameters_new in
      if is_set merged ETM \<and> is_int_eq merged ETM ETM_Auto \<and> is_set parameters_new ET
      then [Must_not_be_set_simultaneously] else [])"

definition restore_params :: "ParameterConflictHandler \<Rightarrow> Parameter list \<Rightarrow> fault + (ParameterConflictHandler \<times> Parameter list)" where
  "restore_params h ps =
     (if tmp_store h \<noteq> [] then Inl (Process_Exit 134)
      else
        let h1 = h\<lparr>tmp_store := store h\<rparr> in
        if is_set ps ETM then
          if is_int_eq ps ETM ETM_Manual then
            (case map_of (tmp_store h1) ET of
               Some v \<Rightarrow> if \<not> is_set ps ET then Inr (h1\<lparr>tmp_store := erase ET (tmp_store h1)\<rparr>, ps @ [(ET, v)]) else Inr (h1, ps)
             | None \<Rightarrow> Inr (h1, ps))
          else Inr (h1, ps @ [(ET, NOT_SET)])
        else Inr (h1, ps))"

text \<open>The map that is moved from is empty afterwards in the standard library of the platform.\<close>

definition store_commit_or_revert :: "bool \<Rightarrow> ParameterConflictHandler \<Rightarrow> ParameterConflictHandler" where
  "store_commit_or_revert commit h =
     (if commit then h\<lparr>store := tmp_store h, tmp_store := []\<rparr> else h\<lparr>tmp_store := []\<rparr>)"

section \<open>The parameter handler\<close>

text \<open>A control of the camera: its identifier with type and extent, and its range.\<close>

record control =
  ctl_id :: u32
  ctl_type :: ControlType
  ctl_extent :: u64
  ctl_min :: ControlValue
  ctl_max :: ControlValue
  ctl_def :: ControlValue

definition dynamic_extent :: u64 where "dynamic_extent = -1"

text \<open>\<open>control_values\<close> by identifier, the newest first; \<open>move\<close> hands them to the next request.\<close>

record ParameterHandler =
  camera_controls :: "(string \<times> control) list"
  conflict_handler :: ParameterConflictHandler
  control_values :: "(u32 \<times> ControlValue) list"

definition new_ParameterHandler :: ParameterHandler where
  "new_ParameterHandler = \<lparr>camera_controls = [], conflict_handler = new_ParameterConflictHandler, control_values = []\<rparr>"

definition set_control :: "u32 \<Rightarrow> ControlValue \<Rightarrow> (u32 \<times> ControlValue) list \<Rightarrow> (u32 \<times> ControlValue) list" where
  "set_control i v cvs = (i, v) # filter (\<lambda>(j, w). j \<noteq> i) cvs"

text \<open>What one iteration of the check of new values says; \<open>Inl\<close>: it does not end in a message.\<close>

definition validate_parameter :: "ParameterHandler \<Rightarrow> Parameter \<Rightarrow> fault + message list" where
  "validate_parameter h = (\<lambda>(name, value).
     case map_of (camera_controls h) name of
       None \<Rightarrow> Inr []
     | Some c \<Rightarrow>
        (case cv_to_pv_type (ctl_type c) (ctl_extent c) of
           Inl (Crash f) \<Rightarrow> Inl f
         | Inl _ \<Rightarrow> Inl Uncaught_Exception
         | Inr type_ctrl \<Rightarrow>
             if pv_type value = PARAMETER_NOT_SET then Inr []
             else if pv_type value \<noteq> type_ctrl then Inr [Types_mismatch name]
             else (case pv_to_cv value (ctl_type c) of
               Inl Invalid_conversion \<Rightarrow> Inr [Not_convertible name]
             | Inl (Crash f) \<Rightarrow> Inl f
             | Inl _ \<Rightarrow> Inl Uncaught_Exception
             | Inr v \<Rightarrow>
                 if cv_type v \<noteq> ctl_type c then Inl (Process_Exit 134)
                 else if cv_isArray v \<and> ctl_extent c \<noteq> dynamic_extent \<and> numElements v \<noteq> unat (ctl_extent c)
                   then Inr [Dimensions_mismatch name]
                 else (case cv_less v (ctl_min c) of
                   Inl (Crash f) \<Rightarrow> Inl f
                 | Inl _ \<Rightarrow> Inl Uncaught_Exception
                 | Inr True \<Rightarrow> Inr [Out_of_range name]
                 | Inr False \<Rightarrow>
                     (case cv_greater v (ctl_max c) of
                        Inl (Crash f) \<Rightarrow> Inl f
                      | Inl _ \<Rightarrow> Inl Uncaught_Exception
                      | Inr True \<Rightarrow> Inr [Out_of_range name]
                      | Inr False \<Rightarrow> Inr [])))))"

fun validate_all :: "ParameterHandler \<Rightarrow> Parameter list \<Rightarrow> fault + message list" where
  "validate_all h [] = Inr []"
| "validate_all h (p # ps) = (case validate_parameter h p of
     Inl f \<Rightarrow> Inl f
   | Inr msgs \<Rightarrow> (case validate_all h ps of Inl f \<Rightarrow> Inl f | Inr msgs' \<Rightarrow> Inr (msgs @ msgs')))"

text \<open>\<open>server\<close>: the values of the parameters of the node.\<close>

definition validate_new_parameters :: "(string \<Rightarrow> ParameterValue) \<Rightarrow> ParameterHandler \<Rightarrow> Parameter list \<Rightarrow> fault + message list" where
  "validate_new_parameters server h ps =
     (let parameters_old = map (\<lambda>(n, c). (n, server n)) (camera_controls h);
          msgs = check_params parameters_old ps in
      if msgs \<noteq> [] then Inr msgs else validate_all h ps)"

definition PreSetResolve :: "Parameter list \<Rightarrow> ParameterHandler \<Rightarrow> fault + (Parameter list \<times> ParameterHandler)" where
  "PreSetResolve ps h = (case restore_params (conflict_handler h) ps of
     Inl f \<Rightarrow> Inl f
   | Inr (ch, ps') \<Rightarrow> Inr (ps', h\<lparr>conflict_handler := ch\<rparr>))"

fun apply_values :: "(string \<times> control) list \<Rightarrow> Parameter list \<Rightarrow> (u32 \<times> ControlValue) list \<Rightarrow> fault + (u32 \<times> ControlValue) list" where
  "apply_values ctls [] cvs = Inr cvs"
| "apply_values ctls ((name, value) # ps) cvs = (case map_of ctls name of
     None \<Rightarrow> apply_values ctls ps cvs
   | Some c \<Rightarrow>
       if value = NOT_SET then apply_values ctls ps cvs
       else (case pv_to_cv value (ctl_type c) of
         Inl (Crash f) \<Rightarrow> Inl f
       | Inl _ \<Rightarrow> Inl Uncaught_Exception
       | Inr v \<Rightarrow> apply_values ctls ps (set_control (ctl_id c) v cvs)))"

text \<open>Values of an earlier call that no request has taken yet are dropped.\<close>

definition PostSetApply :: "Parameter list \<Rightarrow> ParameterHandler \<Rightarrow> fault + ParameterHandler" where
  "PostSetApply ps h = (case apply_values (camera_controls h) ps [] of
     Inl f \<Rightarrow> Inl f
   | Inr cvs \<Rightarrow> Inr (h\<lparr>control_values := cvs\<rparr>))"

text \<open>\<open>ext\<close>: the node library calls back before, on and after a set; an older one only on it, on a list that
  cannot be changed.\<close>

definition OnSetValidate :: "bool \<Rightarrow> (string \<Rightarrow> ParameterValue) \<Rightarrow> Parameter list \<Rightarrow> ParameterHandler \<Rightarrow>
    fault + (bool \<times> ParameterHandler)" where
  "OnSetValidate ext server ps h =
     (case (if ext then (case validate_new_parameters server h ps of Inl f \<Rightarrow> Inl f | Inr msgs \<Rightarrow> Inr (msgs = [], h))
            else (case PreSetResolve ps h of
              Inl f \<Rightarrow> Inl f
            | Inr (ps2, h1) \<Rightarrow>
                (case validate_new_parameters server h1 ps2 of
                   Inl f \<Rightarrow> Inl f
                 | Inr msgs \<Rightarrow>
                     if msgs = [] then (case PostSetApply ps2 h1 of Inl f \<Rightarrow> Inl f | Inr h2 \<Rightarrow> Inr (True, h2))
                     else Inr (False, h1)))) of
        Inl f \<Rightarrow> Inl f
      | Inr (successful, h1) \<Rightarrow>
          Inr (successful, h1\<lparr>conflict_handler := store_commit_or_revert successful (conflict_handler h1)\<rparr>))"

definition get_control_values :: "ParameterHandler \<Rightarrow> (u32 \<times> ControlValue) list" where
  "get_control_values h = control_values h"

definition move_control_values :: "ParameterHandler \<Rightarrow> (u32 \<times> ControlValue) list \<times> ParameterHandler" where
  "move_control_values h = (control_values h, h\<lparr>control_values := []\<rparr>)"

section \<open>Declaring the controls\<close>

text \<open>
  The bounds of the description: the templates \<open>min\<close> and \<open>max\<close> take the first smallest or largest element
  of an array; there is none in an empty one.
\<close>

fun extreme_elem :: "(elem \<Rightarrow> elem \<Rightarrow> bool option) \<Rightarrow> elem \<Rightarrow> elem list \<Rightarrow> elem option" where
  "extreme_elem f best [] = Some best"
| "extreme_elem f best (e # es) = (case f e best of
     None \<Rightarrow> None | Some b \<Rightarrow> extreme_elem f (if b then e else best) es)"

definition extreme_value :: "(elem \<Rightarrow> elem \<Rightarrow> bool option) \<Rightarrow> ControlType \<Rightarrow> ControlValue \<Rightarrow> fault + elem" where
  "extreme_value f ty v =
     (if cv_type v \<noteq> ty then Inl (Process_Exit 134)
      else case v of
        CV_scalar e \<Rightarrow> Inr e
      | CV_array _ (e # es) \<Rightarrow> (case extreme_elem f e es of None \<Rightarrow> Inl Undefined_Behaviour | Some x \<Rightarrow> Inr x)
      | CV_array _ [] \<Rightarrow> Inl Undefined_Behaviour
      | _ \<Rightarrow> Inl (Process_Exit 134))"

definition control_range :: "control \<Rightarrow> fault + (elem \<times> elem) option" where
  "control_range c =
     (if ctl_type c \<in> {CTInteger32, CTInteger64, CTFloat, CTUnsigned16, CTUnsigned32} then
        (case extreme_value elem_greater (ctl_type c) (ctl_min c) of
           Inl f \<Rightarrow> Inl f
         | Inr a \<Rightarrow> (case extreme_value elem_less (ctl_type c) (ctl_max c) of Inl f \<Rightarrow> Inl f | Inr b \<Rightarrow> Inr (Some (a, b))))
      else Inr None)"

text \<open>\<open>continue\<close> leaves both as they are.\<close>

definition declare_control :: "string \<times> control \<Rightarrow> (string \<times> control) list \<times> ParameterValueMap \<Rightarrow>
    fault + ((string \<times> control) list \<times> ParameterValueMap)" where
  "declare_control = (\<lambda>(name, c) (ctls, p).
     if numElements (ctl_min c) \<noteq> numElements (ctl_max c) then Inr (ctls, p)
     else (case cv_to_pv_type (ctl_type c) (ctl_extent c) of
       Inl Unsupported_control \<Rightarrow> Inr (ctls, p)
     | Inl (Crash f) \<Rightarrow> Inl f
     | Inl _ \<Rightarrow> Inl Uncaught_Exception
     | Inr _ \<Rightarrow>
         let fixed = (ctl_extent c \<noteq> 0 \<and> ctl_extent c \<noteq> dynamic_extent);
             cv_def = (if fixed \<and> \<not> cv_isArray (ctl_def c) \<and> ctl_def c \<noteq> CV_none then CV_none else ctl_def c) in
         (case control_range c of
            Inl f \<Rightarrow> Inl f
          | Inr _ \<Rightarrow>
              (case (case cv_clamp cv_def (ctl_min c) (ctl_max c) of Inl e \<Rightarrow> Inl e | Inr v \<Rightarrow> cv_to_pv v) of
                 Inl Invalid_conversion \<Rightarrow> Inr (ctls, p)
               | Inl (Crash f) \<Rightarrow> Inl f
               | Inl _ \<Rightarrow> Inl Uncaught_Exception
               | Inr pv \<Rightarrow> Inr (if map_of ctls name = None then ctls @ [(name, c)] else ctls, p(name \<mapsto> pv))))))"

fun declare_controls :: "(string \<times> control) list \<Rightarrow> (string \<times> control) list \<times> ParameterValueMap \<Rightarrow>
    fault + ((string \<times> control) list \<times> ParameterValueMap)" where
  "declare_controls [] s = Inr s"
| "declare_controls (c # cs) s = (case declare_control c s of Inl f \<Rightarrow> Inl f | Inr s' \<Rightarrow> declare_controls cs s')"

definition override_params :: "ParameterValueMap \<Rightarrow> ParameterValueMap \<Rightarrow> ParameterValueMap" where
  "override_params overrides p = (\<lambda>n. if p n \<noteq> None \<and> overrides n \<noteq> None then overrides n else p n)"

text \<open>The handler, and the values that are then set in one call.\<close>

definition declare_params :: "(string \<times> control) list \<Rightarrow> ParameterValueMap \<Rightarrow> ParameterHandler \<Rightarrow>
    fault + (ParameterHandler \<times> ParameterValueMap)" where
  "declare_params controls overrides h =
     (if controls = [] then Inr (h, Map.empty)
      else case declare_controls controls (camera_controls h, Map.empty) of
        Inl f \<Rightarrow> Inl f
      | Inr (ctls, p) \<Rightarrow>
          (case resolve_defaults (conflict_handler h) p of
             Inl f \<Rightarrow> Inl f
           | Inr (_, ch, p1) \<Rightarrow>
               (case resolve_overrides ch (override_params overrides p1) of
                  Inl f \<Rightarrow> Inl f
                | Inr (_, ch', p2) \<Rightarrow> Inr (h\<lparr>camera_controls := ctls, conflict_handler := ch'\<rparr>, p2))))"

section \<open>A set of parameters\<close>

text \<open>
  The calls around a set. The node library refuses a set before the call on it (an undeclared or a
  read-only parameter) and throws for a parameter that is undeclared until it is declared anew;
  neither is modelled. What the node library does with its values is a parameter; \<open>stores\<close>: the last
  value given for a name is its value, other parameters stay.
\<close>

type_synonym server = "string \<Rightarrow> ParameterValue"

definition stores :: "(server \<Rightarrow> Parameter list \<Rightarrow> server) \<Rightarrow> bool" where
  "stores put \<longleftrightarrow> (\<forall>server ps n. put server ps n = (case map_of (rev ps) n of Some v \<Rightarrow> v | None \<Rightarrow> server n))"

definition set_parameters :: "(server \<Rightarrow> Parameter list \<Rightarrow> server) \<Rightarrow> bool \<Rightarrow> server \<times> ParameterHandler \<Rightarrow> Parameter list \<Rightarrow>
    fault + (server \<times> ParameterHandler)" where
  "set_parameters put ext = (\<lambda>(server, h) ps.
     if ext then
       (case PreSetResolve ps h of
          Inl f \<Rightarrow> Inl f
        | Inr (ps', h1) \<Rightarrow>
            (case OnSetValidate True server ps' h1 of
               Inl f \<Rightarrow> Inl f
             | Inr (ok, h2) \<Rightarrow>
                 if ok then (case PostSetApply ps' h2 of Inl f \<Rightarrow> Inl f | Inr h3 \<Rightarrow> Inr (put server ps', h3))
                 else Inr (server, h2)))
     else
       (case OnSetValidate False server ps h of
          Inl f \<Rightarrow> Inl f
        | Inr (ok, h1) \<Rightarrow> Inr (if ok then put server ps else server, h1)))"

section \<open>Lemmas\<close>

definition contradictory :: "server \<Rightarrow> bool" where
  "contradictory server \<longleftrightarrow> server ETM = P_integer ETM_Auto \<and> server ET \<noteq> NOT_SET"

lemma find_param_simps [simp]:
  "find_param [] n = None"
  "find_param ((m, v) # ps) n = (if m = n \<and> v \<noteq> NOT_SET then Some v else find_param ps n)"
  by (simp_all add: find_param_def)

lemma find_param_append:
  "find_param (ps @ qs) n = (case find_param ps n of Some v \<Rightarrow> Some v | None \<Rightarrow> find_param qs n)"
  by (induction ps) auto

lemma find_param_filter: "\<not> is_set ps n \<Longrightarrow> find_param (filter (\<lambda>(m, v). \<not> is_set ps m) qs) n = find_param qs n"
  by (induction qs) (auto split: if_splits)

lemma find_merged:
  "find_param (merge_params old new) n = (case find_param new n of Some v \<Rightarrow> Some v | None \<Rightarrow> find_param old n)"
  using find_param_filter [of new n old] by (auto simp: merge_params_def find_param_append is_set_def split: option.split)

lemma find_server:
  "find_param (map (\<lambda>(n, c). (n, server n)) ctls) n =
     (if n \<in> fst ` set ctls \<and> server n \<noteq> NOT_SET then Some (server n) else None)"
proof (induction ctls)
  case (Cons q ctls)
  obtain m c where "q = (m, c)" by (cases q)
  with Cons show ?case by (cases "m = n") simp_all
qed simp

lemma find_param_distinct:
  "distinct (map fst ps) \<Longrightarrow> find_param ps n = (case map_of ps n of Some v \<Rightarrow> if v \<noteq> NOT_SET then Some v else None | None \<Rightarrow> None)"
  by (induction ps) (auto dest: map_of_SomeD split: option.split intro: rev_image_eqI)

lemma map_of_rev_distinct: "distinct (map fst ps) \<Longrightarrow> map_of (rev ps) = map_of ps"
  by (intro ext) (metis map_of_eq_Some_iff distinct_rev rev_map set_rev not_None_eq)

text \<open>What the conflict handler makes of a list before it is checked.\<close>

lemma restored_list:
  assumes "restore_params ch ps = Inr (ch', ps')"
  shows "ps' = ps \<or> is_set ps ETM \<and> \<not> is_int_eq ps ETM ETM_Manual \<and> ps' = ps @ [(ET, NOT_SET)] \<or>
    is_int_eq ps ETM ETM_Manual \<and> (\<exists>v. ps' = ps @ [(ET, v)])"
  using assms by (auto simp: restore_params_def Let_def split: if_splits option.splits)

lemma restored_auto:
  "restore_params ch ps = Inr (ch', ps') \<Longrightarrow> is_set ps ETM \<Longrightarrow> \<not> is_int_eq ps ETM ETM_Manual \<Longrightarrow> ps' = ps @ [(ET, NOT_SET)]"
  by (auto simp: restore_params_def Let_def split: if_splits option.splits)

lemma stored_value:
  "stores put \<Longrightarrow> distinct (map fst ps) \<Longrightarrow> put server ps n = (case map_of ps n of Some v \<Rightarrow> v | None \<Rightarrow> server n)"
  "stores put \<Longrightarrow> distinct (map fst ps) \<Longrightarrow> put server (ps @ [(m, w)]) n =
     (if m = n then w else case map_of ps n of Some v \<Rightarrow> v | None \<Rightarrow> server n)"
  by (simp_all add: stores_def map_of_rev_distinct)

lemma set_keeps_apart:
  assumes put: "stores put" "distinct (map fst ps)" and server: "\<not> contradictory server" "ETM \<in> fst ` set ctls"
    and ps': "restore_params ch ps = Inr (ch', ps')"
    and check: "check_params (map (\<lambda>(n, c). (n, server n)) ctls) ps' = []"
  shows "\<not> contradictory (put server ps')"
proof
  assume c: "contradictory (put server ps')"
  have find: "find_param ps n = (case map_of ps n of Some v \<Rightarrow> if v \<noteq> NOT_SET then Some v else None | None \<Rightarrow> None)" for n
    using find_param_distinct [OF put(2)] .
  let ?merged = "merge_params (map (\<lambda>(n, c). (n, server n)) ctls) ps'"
  have etm: "find_param ps' ETM = find_param ps ETM"
    using restored_list [OF ps'] by (auto simp: find_param_append split: option.split)
  have auto: "find_param ?merged ETM = Some (P_integer ETM_Auto)"
  proof (cases "map_of ps ETM")
    case None
    then have "put server ps' ETM = server ETM" using restored_list [OF ps'] stored_value [OF put] by auto
    with c None server(2) show ?thesis by (simp add: find_merged etm find find_server contradictory_def)
  next
    case (Some v)
    then have "put server ps' ETM = v" using restored_list [OF ps'] stored_value [OF put] by auto
    with c Some show ?thesis by (simp add: find_merged etm find contradictory_def)
  qed
  with check have et: "\<not> is_set ps' ET" by (auto simp: check_params_def Let_def is_set_def is_int_eq_def split: if_splits)
  show False
  proof (cases "find_param ps ETM")
    case None
    then have same: "ps' = ps" using restored_list [OF ps'] by (auto simp: is_set_def is_int_eq_def)
    have "find_param ?merged ETM = (if ETM \<in> fst ` set ctls \<and> server ETM \<noteq> NOT_SET then Some (server ETM) else None)"
      by (simp add: find_merged etm None find_server)
    with auto server have "server ETM = P_integer ETM_Auto" "server ET = NOT_SET"
      by (auto simp: contradictory_def split: if_splits)
    with et c show False
      by (auto simp: same stored_value [OF put] contradictory_def is_set_def find split: option.splits if_splits)
  next
    case (Some v)
    with auto have "v = P_integer ETM_Auto" by (simp add: find_merged etm)
    with Some have "ps' = ps @ [(ET, NOT_SET)]" 
      by (intro restored_auto [OF ps']) (simp_all add: is_set_def is_int_eq_def)
    with c show False by (simp add: stored_value [OF put] contradictory_def)
  qed
qed

text \<open>A set that ends keeps the controls, and keeps automatic and fixed exposure apart.\<close>

lemma set_parameters_keeps:
  assumes "set_parameters put True (server, h) ps = Inr (server', h')" "stores put" "distinct (map fst ps)"
    and "\<not> contradictory server" "ETM \<in> fst ` set (camera_controls h)"
  shows "\<not> contradictory server' \<and> camera_controls h' = camera_controls h"
proof -
  from assms(1) obtain ps' ch h1 ok h2 where
    pre: "restore_params (conflict_handler h) ps = Inr (ch, ps')" "h1 = h\<lparr>conflict_handler := ch\<rparr>"
    and set: "OnSetValidate True server ps' h1 = Inr (ok, h2)"
      "(if ok then (case PostSetApply ps' h2 of Inl f \<Rightarrow> Inl f | Inr h3 \<Rightarrow> Inr (put server ps', h3)) else Inr (server, h2)) = Inr (server', h')"
    by (auto simp: set_parameters_def PreSetResolve_def split: sum.splits prod.splits)
  have controls: "camera_controls h2 = camera_controls h" using set(1) pre(2) by (auto simp: OnSetValidate_def split: sum.splits)
  show ?thesis
  proof (cases ok)
    case True
    with set(2) controls have h': "server' = put server ps'" "camera_controls h' = camera_controls h"
      by (auto simp: PostSetApply_def split: sum.splits)
    from set(1) True have "validate_new_parameters server h1 ps' = Inr []" by (auto simp: OnSetValidate_def split: sum.splits)
    then have "check_params (map (\<lambda>(n, c). (n, server n)) (camera_controls h)) ps' = []"
      by (auto simp: validate_new_parameters_def Let_def pre(2) split: if_splits)
    with set_keeps_apart [OF assms(2-5) pre(1)] h' show ?thesis by simp
  next
    case False
    with set(2) controls assms(4) show ?thesis by simp
  qed
qed

lemma runs_keep_apart:
  "run_res (set_parameters put True) (server, h) pss = Inr (server', h') \<Longrightarrow> stores put \<Longrightarrow>
    list_all (\<lambda>ps. distinct (map fst ps)) pss \<Longrightarrow> \<not> contradictory server \<Longrightarrow> ETM \<in> fst ` set (camera_controls h) \<Longrightarrow>
    \<not> contradictory server'"
proof (induction pss arbitrary: server h)
  case (Cons ps pss)
  then obtain server1 h1 where s1: "set_parameters put True (server, h) ps = Inr (server1, h1)"
    "run_res (set_parameters put True) (server1, h1) pss = Inr (server', h')" by (auto split: sum.splits)
  from set_parameters_keeps [OF s1(1) Cons.prems(2)] Cons.prems have "\<not> contradictory server1" "camera_controls h1 = camera_controls h"
    by auto
  with Cons.IH [OF s1(2)] Cons.prems show ?case by simp
qed simp

text \<open>
  The range of a control in numbers: the element of a value or of a bound at an index (a single value
  stands for every index), and the number an element is.
\<close>

definition elem_at :: "ControlValue \<Rightarrow> nat \<Rightarrow> elem option" where
  "elem_at v k = (case v of
     CV_scalar e \<Rightarrow> Some e
   | CV_array _ es \<Rightarrow> if k < length es then Some (es ! k) else None
   | _ \<Rightarrow> None)"

definition numeric :: "ControlType \<Rightarrow> bool" where
  "numeric ty \<longleftrightarrow> ty \<in> {CTBool, CTByte, CTUnsigned16, CTUnsigned32, CTInteger32, CTInteger64, CTFloat}"

definition elem_number :: "elem \<Rightarrow> real" where
  "elem_number e = (case e of
     EBool b \<Rightarrow> (if b then 1 else 0)
   | EByte w \<Rightarrow> real (unat w)
   | EUnsigned16 w \<Rightarrow> real (unat w)
   | EUnsigned32 w \<Rightarrow> real (unat w)
   | EInteger32 w \<Rightarrow> of_int (sint w)
   | EInteger64 w \<Rightarrow> of_int (sint w)
   | EFloat x \<Rightarrow> x
   | _ \<Rightarrow> 0)"

definition in_range :: "control \<Rightarrow> ControlValue \<Rightarrow> bool" where
  "in_range c v \<longleftrightarrow> cv_type v = ctl_type c \<and>
     (cv_isArray v \<longrightarrow> ctl_extent c = dynamic_extent \<or> numElements v = unat (ctl_extent c)) \<and>
     (numeric (ctl_type c) \<longrightarrow> (\<forall>k < numElements v. \<exists>lo e hi.
        elem_at (ctl_min c) k = Some lo \<and> elem_at v k = Some e \<and> elem_at (ctl_max c) k = Some hi \<and>
        elem_number lo \<le> elem_number e \<and> elem_number e \<le> elem_number hi))"

lemma signed_real_le: "(signed (a :: 'a::len word) :: real) \<le> signed (b :: 'a word) \<longleftrightarrow> sint a \<le> sint b"
proof -
  have "real_of_int (sint a) \<le> of_int (sint b) \<longleftrightarrow> sint a \<le> sint b" by (rule of_int_le_iff)
  then show ?thesis by (simp only: of_int_sint)
qed

lemma elem_less_number: "elem_less a b = Some False \<Longrightarrow> numeric (elem_type a) \<or> numeric (elem_type b) \<Longrightarrow> elem_number b \<le> elem_number a"
  by (cases a)
    (auto simp: elem_less_def elem_number_def numeric_def word_less_nat_alt word_sless_alt signed_real_le split: elem.split_asm)

lemma any_elem_False:
  "any_elem f as bs = Some False \<Longrightarrow> k < length as \<Longrightarrow> k < length bs \<and> f (as ! k) (bs ! k) = Some False"
proof (induction f as bs arbitrary: k rule: any_elem.induct)
  case (3 f a as b bs)
  then show ?case by (cases k) (auto split: option.splits bool.splits)
qed simp_all

text \<open>The comparison of a value with a bound is the comparison of each element with its bound.\<close>

lemma cv_compare_elements:
  assumes "cv_compare f v bound = Inr False" "k < numElements v" "numeric (cv_type v)"
  shows "\<exists>e x. elem_at v k = Some e \<and> elem_at bound k = Some x \<and> f e x = Some False"
proof -
  have cmp: "cv_any f v bound = Inr False" "numElements v = numElements bound \<or> numElements bound = 1"
    using assms(1) by (auto simp: cv_compare_def split: if_splits)
  consider (scalar) a where "v = CV_scalar a" | (arr) ty as where "v = CV_array ty as"
    using assms(3) by (cases v) (auto simp: numeric_def)
  then show ?thesis
  proof cases
    case scalar
    with cmp assms(2) show ?thesis
      by (cases bound) (auto simp: cv_any_def elem_at_def or_undefined_def split: option.splits dest!: any_elem_False [where k = 0])
  next
    case arr
    with cmp(1) assms(2) show ?thesis
      by (cases bound) (auto simp: cv_any_def elem_at_def or_undefined_def split: option.splits dest!: any_elem_False [where k = k])
  qed
qed

lemma pv_to_cv_wf: "pv_to_cv p ty = Inr v \<Longrightarrow> wf_value v"
  by (cases p; cases ty)
    (auto simp: pv_to_cv_def pv_to_cv_int_def pv_to_cv_int_array_def wf_value_def list_all_iff split: list.splits)

lemma elem_at_type: "wf_value v \<Longrightarrow> elem_at v k = Some e \<Longrightarrow> elem_type e = cv_type v"
  by (auto simp: wf_value_def elem_at_def list_all_iff split: ControlValue.splits if_splits)

lemma compared_in_range:
  assumes "cv_less v lo = Inr False" "cv_greater v hi = Inr False" "wf_value v" "numeric (cv_type v)" "k < numElements v"
  shows "\<exists>a e b. elem_at lo k = Some a \<and> elem_at v k = Some e \<and> elem_at hi k = Some b \<and>
    elem_number a \<le> elem_number e \<and> elem_number e \<le> elem_number b"
proof -
  obtain e a where a: "elem_at v k = Some e" "elem_at lo k = Some a" "elem_less e a = Some False"
    using cv_compare_elements [OF assms(1) [unfolded cv_less_def] assms(5,4)] by blast
  obtain b where b: "elem_at hi k = Some b" "elem_greater e b = Some False"
    using cv_compare_elements [OF assms(2) [unfolded cv_greater_def] assms(5,4)] a(1) by auto
  have "numeric (elem_type e)" using elem_at_type [OF assms(3) a(1)] assms(4) by simp
  with a b elem_less_number [of e a] elem_less_number [of b e] show ?thesis by (auto simp: elem_greater_def)
qed

lemma validated_parameter:
  assumes "validate_parameter h (n, pval) = Inr []" "map_of (camera_controls h) n = Some c" "pval \<noteq> NOT_SET"
  shows "\<exists>v. pv_to_cv pval (ctl_type c) = Inr v \<and> in_range c v"
proof -
  have "pv_type pval \<noteq> PARAMETER_NOT_SET" using assms(3) by (cases pval) simp_all
  with assms(1,2) obtain v where v: "pv_to_cv pval (ctl_type c) = Inr v" "cv_type v = ctl_type c"
    "cv_less v (ctl_min c) = Inr False" "cv_greater v (ctl_max c) = Inr False"
    "cv_isArray v \<longrightarrow> ctl_extent c = dynamic_extent \<or> numElements v = unat (ctl_extent c)"
    by (auto simp: validate_parameter_def split: sum.splits conv_error.splits if_splits bool.splits)
  with compared_in_range [OF v(3,4) pv_to_cv_wf [OF v(1)]] show ?thesis by (auto simp: in_range_def)
qed

lemma validated_apply:
  assumes "validate_all h ps = Inr []"
    and "\<forall>(i, v) \<in> set cvs. \<exists>n c. map_of (camera_controls h) n = Some c \<and> ctl_id c = i \<and> in_range c v"
  shows "\<exists>cvs'. apply_values (camera_controls h) ps cvs = Inr cvs' \<and>
    (\<forall>(i, v) \<in> set cvs'. \<exists>n c. map_of (camera_controls h) n = Some c \<and> ctl_id c = i \<and> in_range c v)"
  using assms
proof (induction ps arbitrary: cvs)
  case (Cons p ps)
  obtain n pval where p: "p = (n, pval)" by (cases p)
  from Cons.prems(1) have v: "validate_parameter h (n, pval) = Inr []" "validate_all h ps = Inr []"
    by (auto simp: p split: sum.splits)
  show ?case
  proof (cases "map_of (camera_controls h) n = None \<or> pval = NOT_SET")
    case True
    with Cons.IH [OF v(2) Cons.prems(2)] show ?thesis by (auto simp: p split: option.split)
  next
    case False
    then obtain c where c: "map_of (camera_controls h) n = Some c" "pval \<noteq> NOT_SET" by auto
    from validated_parameter [OF v(1) c] obtain w where w: "pv_to_cv pval (ctl_type c) = Inr w" "in_range c w" by blast
    have "\<forall>(i, v) \<in> set (set_control (ctl_id c) w cvs). \<exists>n c. map_of (camera_controls h) n = Some c \<and> ctl_id c = i \<and> in_range c v"
      using Cons.prems(2) c(1) w(2) by (auto simp: set_control_def)
    from Cons.IH [OF v(2) this] show ?thesis by (simp add: p c w(1))
  qed
qed simp

lemma validate_all_each: "validate_all h ps = Inr [] \<Longrightarrow> p \<in> set ps \<Longrightarrow> validate_parameter h p = Inr []"
  by (induction ps) (auto split: sum.splits)

lemma applied_from:
  "apply_values ctls ps cvs = Inr cvs' \<Longrightarrow> (i, v) \<in> set cvs' \<Longrightarrow> (i, v) \<in> set cvs \<or>
    (\<exists>n pval c. (n, pval) \<in> set ps \<and> map_of ctls n = Some c \<and> ctl_id c = i \<and> pv_to_cv pval (ctl_type c) = Inr v \<and> pval \<noteq> NOT_SET)"
proof (induction ctls ps cvs rule: apply_values.induct)
  case (2 ctls n pval ps cvs)
  then show ?case
    by (auto simp: set_control_def split: option.splits if_splits sum.splits conv_error.splits) blast+
qed simp

lemma resolved_free: "resolve_overrides ch p = Inr (msgs, ch', p') \<Longrightarrow> conflict_exposure p' = Inr False"
  by (auto simp: resolve_overrides_def conflict_exposure_def get_int_def map_is_set_def Let_def
      split: sum.splits prod.splits if_splits option.splits ParameterValue.splits)

section \<open>An example camera\<close>

definition int_control :: "u32 \<Rightarrow> i32 \<Rightarrow> i32 \<Rightarrow> i32 \<Rightarrow> control" where
  "int_control i lo hi def_value = \<lparr>ctl_id = i, ctl_type = CTInteger32, ctl_extent = 0, ctl_min = CV_scalar (EInteger32 lo),
     ctl_max = CV_scalar (EInteger32 hi), ctl_def = CV_scalar (EInteger32 def_value)\<rparr>"

definition example_controls :: "(string \<times> control) list" where
  "example_controls = [(ETM, int_control 1 0 1 0), (ET, int_control 2 100 200000 20000)]"

definition example_handler :: ParameterHandler where
  "example_handler = new_ParameterHandler\<lparr>camera_controls := example_controls\<rparr>"

definition put_last :: "server \<Rightarrow> Parameter list \<Rightarrow> server" where
  "put_last server ps = (\<lambda>n. case map_of (rev ps) n of Some v \<Rightarrow> v | None \<Rightarrow> server n)"

definition manual_server :: server where
  "manual_server n = (if n = ETM then P_integer ETM_Manual else if n = ET then P_integer 5000 else NOT_SET)"

lemma stores_put_last: "stores put_last"
  by (simp add: stores_def put_last_def)

lemmas camera_defs = set_parameters_def PreSetResolve_def restore_params_def OnSetValidate_def validate_new_parameters_def
  check_params_def merge_params_def is_set_def is_int_eq_def find_server validate_parameter_def cv_to_pv_type_def pv_to_cv_def
  pv_to_cv_int_def cv_less_def cv_greater_def cv_compare_def cv_any_def elem_less_def elem_greater_def word_sless_alt
  PostSetApply_def set_control_def store_commit_or_revert_def erase_def put_last_def Let_def find_param_append

lemmas example_defs = example_handler_def new_ParameterHandler_def example_controls_def int_control_def new_ParameterConflictHandler_def manual_server_def
  ETM_Auto_def ETM_Manual_def

section \<open>Properties\<close>

text \<open>C21: Automatic exposure and a fixed exposure time are never both in force. Of a camera that has the
  control \<open>ExposureTimeMode\<close>, starting from parameters that do not contradict each other, no sequence of
  sets, accepted or refused, leads to ones that do, provided that the node library has the extended
  callbacks (before, on and after a set) and that no set names a parameter twice. Without the first
  see \<open>older_library_contradicts\<close>, without the second \<open>duplicate_name_contradicts\<close>.\<close>

theorem exposure_never_contradicts:
  assumes "stores put" "list_all (\<lambda>ps. distinct (map fst ps)) pss" "\<not> contradictory server" "ETM \<in> fst ` set (camera_controls h)"
    and "run_res (set_parameters put True) (server, h) pss = Inr (server', h')"
  shows "\<not> contradictory server'"
  using runs_keep_apart [OF assms(5,1,2,3,4)] .

text \<open>
  With an older node library the list that is checked is a copy: an accepted change to automatic exposure
  leaves the fixed exposure time among the parameters.
\<close>

theorem older_library_contradicts:
  assumes "stores put" "server ET \<noteq> NOT_SET" "OnSetValidate False server [(ETM, P_integer ETM_Auto)] h = Inr (True, h')"
  shows "\<exists>server'. set_parameters put False (server, h) [(ETM, P_integer ETM_Auto)] = Inr (server', h') \<and> contradictory server'"
  using assms by (simp add: set_parameters_def stores_def contradictory_def)

text \<open>
  One set that names the mode twice is accepted and leads to a contradiction: the check looks at the
  first entry of a name, the node stores the last.
\<close>

theorem duplicate_name_contradicts:
  "\<exists>server h. set_parameters put_last True (manual_server, example_handler)
      [(ETM, P_integer ETM_Manual), (ET, P_integer 7000), (ETM, P_integer ETM_Auto)] = Inr (server, h) \<and>
    \<not> contradictory manual_server \<and> contradictory server"
  using ETM_ET by (simp add: camera_defs example_defs contradictory_def)

text \<open>C22: What was accepted can be applied. After a check without a message the new values are converted
  without an exception, and each value held for the next request is the conversion of a parameter of
  the set for the control of that name: it is of the type of the control, an array has the number of
  elements of the control, and, for the types that are numbers, every element is, as it stands after
  the conversion to the width of the control, at least the minimum and at most the maximum of its
  place. The check itself comes after the conversion, which cuts integers off: see \<open>cut_off_value_accepted\<close>.\<close>

theorem accepted_values_apply:
  assumes "OnSetValidate True server ps h = Inr (True, h')"
  shows "\<exists>h''. PostSetApply ps h' = Inr h'' \<and>
    (\<forall>(i, v) \<in> set (fst (move_control_values h'')). \<exists>n c pval.
       map_of (camera_controls h) n = Some c \<and> ctl_id c = i \<and> (n, pval) \<in> set ps \<and> pv_to_cv pval (ctl_type c) = Inr v \<and>
       cv_type v = ctl_type c \<and>
       (cv_isArray v \<longrightarrow> ctl_extent c = dynamic_extent \<or> numElements v = unat (ctl_extent c)) \<and>
       (numeric (ctl_type c) \<longrightarrow> (\<forall>k < numElements v. \<exists>lo e hi.
          elem_at (ctl_min c) k = Some lo \<and> elem_at v k = Some e \<and> elem_at (ctl_max c) k = Some hi \<and>
          elem_number lo \<le> elem_number e \<and> elem_number e \<le> elem_number hi)))"
proof -
  from assms have h': "validate_new_parameters server h ps = Inr []" "camera_controls h' = camera_controls h"
    by (auto simp: OnSetValidate_def split: sum.splits)
  then have valid: "validate_all h ps = Inr []" by (auto simp: validate_new_parameters_def Let_def split: if_splits)
  from validated_apply [OF valid, of "[]"] obtain cvs where cvs: "apply_values (camera_controls h) ps [] = Inr cvs" by auto
  have "\<exists>n c pval. map_of (camera_controls h) n = Some c \<and> ctl_id c = i \<and> (n, pval) \<in> set ps \<and>
      pv_to_cv pval (ctl_type c) = Inr v \<and> in_range c v" if "(i, v) \<in> set cvs" for i v
  proof -
    from applied_from [OF cvs that] obtain n pval c where p: "(n, pval) \<in> set ps" "map_of (camera_controls h) n = Some c"
      "ctl_id c = i" "pv_to_cv pval (ctl_type c) = Inr v" "pval \<noteq> NOT_SET" by auto
    with validated_parameter [OF validate_all_each [OF valid p(1)] p(2,5)] show ?thesis by auto
  qed
  then show ?thesis
    using cvs h'(2) unfolding in_range_def by (fastforce simp: PostSetApply_def move_control_values_def)
qed

text \<open>
  An exposure time of \<open>2 ^ 32 + 7000\<close>, beyond the maximum of the control, is accepted: it is cut off to
  7000 before it is checked.
\<close>

theorem cut_off_value_accepted:
  "\<exists>h' h''. OnSetValidate True manual_server [(ET, P_integer (2 ^ 32 + 7000))] example_handler = Inr (True, h') \<and>
    PostSetApply [(ET, P_integer (2 ^ 32 + 7000))] h' = Inr h'' \<and>
    (2, CV_scalar (EInteger32 7000)) \<in> set (fst (move_control_values h''))"
  by (simp add: camera_defs example_defs move_control_values_def)

text \<open>
  Controls that are arrays of bytes or of truth values have a parameter that accepts no value at all: the
  type of the parameter is one that is not converted to such an array.
\<close>

theorem array_controls_not_settable:
  assumes "map_of (camera_controls h) n = Some c" "ctl_extent c \<noteq> 0" "ctl_type c = CTByte \<or> ctl_type c = CTBool" "pval \<noteq> NOT_SET"
  shows "\<exists>m. validate_parameter h (n, pval) = Inr [m]"
proof -
  have "pv_type pval \<noteq> PARAMETER_NOT_SET" using assms(4) by (cases pval) simp_all
  with assms(1-3) show ?thesis
    by (cases pval) (auto simp: validate_parameter_def cv_to_pv_type_def pv_to_cv_def pv_to_cv_int_array_def)
qed

text \<open>
  The declared values do not contradict each other: whatever the defaults of the camera and the overrides
  of the user are, when declaring does not fail the values that are then set have no conflict.
\<close>

theorem declared_without_conflict:
  assumes "declare_params controls overrides h = Inr (h', p)"
  shows "conflict_exposure p = Inr False"
proof (cases "controls = []")
  case True
  with assms have "p = Map.empty" by (simp add: declare_params_def)
  then show ?thesis by (simp add: conflict_exposure_def map_is_set_def)
next
  case False
  with assms show ?thesis by (auto simp: declare_params_def split: sum.splits prod.splits dest: resolved_free)
qed

text \<open>
  Two sets between two requests: only what the second one gave reaches the camera, although the first
  one was reported as successful.
\<close>

theorem only_last_set_reaches_camera:
  assumes "PostSetApply ps1 h = Inr h1" "PostSetApply ps2 h1 = Inr h2" "(i, v) \<in> set (fst (move_control_values h2))"
  shows "\<exists>n pval c. (n, pval) \<in> set ps2 \<and> map_of (camera_controls h) n = Some c \<and> ctl_id c = i \<and>
    pv_to_cv pval (ctl_type c) = Inr v \<and> pval \<noteq> NOT_SET"
proof -
  from assms(1) have "camera_controls h1 = camera_controls h" by (auto simp: PostSetApply_def split: sum.splits)
  moreover from assms(2) have "apply_values (camera_controls h1) ps2 [] = Inr (control_values h2)"
    by (auto simp: PostSetApply_def split: sum.splits)
  ultimately show ?thesis using applied_from [of "camera_controls h" ps2 "[]" "control_values h2" i v] assms(3)
    by (simp add: move_control_values_def)
qed

text \<open>
  An exposure time that was chosen is forgotten: switching to automatic exposure unsets it without storing
  it, so that switching back does not restore it, as the handler does with the default.
\<close>

theorem chosen_exposure_forgotten:
  "\<exists>server h. run_res (set_parameters put_last True) (manual_server, example_handler)
      [[(ETM, P_integer ETM_Auto)], [(ETM, P_integer ETM_Manual)]] = Inr (server, h) \<and>
    server ETM = P_integer ETM_Manual \<and> server ET = NOT_SET"
  by (simp add: camera_defs example_defs)

section \<open>Witnesses\<close>

theorem exposure_never_contradicts_witness:
  "\<exists>server h. run_res (set_parameters put_last True) (manual_server, example_handler) [[(ETM, P_integer ETM_Auto)]] = Inr (server, h) \<and>
    \<not> contradictory server"
proof -
  obtain server h where run: "run_res (set_parameters put_last True) (manual_server, example_handler) [[(ETM, P_integer ETM_Auto)]] = Inr (server, h)"
    by (simp add: camera_defs example_defs)
  from exposure_never_contradicts [OF stores_put_last _ _ _ run] have "\<not> contradictory server"
    by (simp add: contradictory_def example_defs)
  with run show ?thesis by blast
qed

theorem older_library_contradicts_witness:
  "\<exists>server' h'. set_parameters put_last False (manual_server, example_handler) [(ETM, P_integer ETM_Auto)] = Inr (server', h') \<and>
    contradictory server'"
proof -
  obtain h' where "OnSetValidate False manual_server [(ETM, P_integer ETM_Auto)] example_handler = Inr (True, h')"
    by (simp add: camera_defs example_defs)
  from older_library_contradicts [OF stores_put_last _ this] show ?thesis
    using ETM_ET by (auto simp: manual_server_def)
qed

theorem accepted_values_apply_witness:
  "\<exists>h' h''. OnSetValidate True manual_server [(ET, P_integer 7000)] example_handler = Inr (True, h') \<and>
    PostSetApply [(ET, P_integer 7000)] h' = Inr h''"
proof -
  obtain h' where ok: "OnSetValidate True manual_server [(ET, P_integer 7000)] example_handler = Inr (True, h')"
    by (simp add: camera_defs example_defs)
  from accepted_values_apply [OF this] ok show ?thesis by blast
qed

theorem array_controls_not_settable_witness:
  "\<exists>m. validate_parameter (example_handler\<lparr>camera_controls := [(''bytes'', (int_control 3 0 1 0)\<lparr>ctl_type := CTByte, ctl_extent := 4\<rparr>)]\<rparr>)
    (''bytes'', P_integer_array [1, 2, 3, 4]) = Inr [m]"
  by (rule array_controls_not_settable [where c = "(int_control 3 0 1 0)\<lparr>ctl_type := CTByte, ctl_extent := 4\<rparr>"])
    (simp_all add: int_control_def)

theorem declared_without_conflict_witness:
  "\<exists>h' p. declare_params example_controls [ET \<mapsto> P_integer 9000] (example_handler\<lparr>camera_controls := []\<rparr>) = Inr (h', p) \<and>
    conflict_exposure p = Inr False"
proof -
  obtain h' p where d: "declare_params example_controls [ET \<mapsto> P_integer 9000] (example_handler\<lparr>camera_controls := []\<rparr>) = Inr (h', p)"
    by (simp add: declare_params_def declare_control_def camera_defs example_defs control_range_def extreme_value_def cv_clamp_def
        elem_clamp_def std_clamp_def cv_to_pv_def resolve_defaults_def resolve_overrides_def conflict_exposure_def map_is_set_def
        get_int_def override_params_def)
  from declared_without_conflict [OF d] d show ?thesis by blast
qed

theorem only_last_set_reaches_camera_witness:
  "\<exists>h1 h2. PostSetApply [(ETM, P_integer 1)] example_handler = Inr h1 \<and> PostSetApply [(ET, P_integer 7000)] h1 = Inr h2 \<and>
    (2, CV_scalar (EInteger32 7000)) \<in> set (fst (move_control_values h2)) \<and>
    (\<exists>c. map_of example_controls ET = Some c \<and> ctl_id c = 2)"
proof -
  obtain h1 h2 where h: "PostSetApply [(ETM, P_integer 1)] example_handler = Inr h1" "PostSetApply [(ET, P_integer 7000)] h1 = Inr h2"
    "(2, CV_scalar (EInteger32 7000)) \<in> set (fst (move_control_values h2))"
    by (simp add: camera_defs example_defs move_control_values_def)
  from only_last_set_reaches_camera [OF h] have "\<exists>c. map_of example_controls ET = Some c \<and> ctl_id c = 2"
    by (auto simp: example_handler_def)
  with h show ?thesis by blast
qed

end
