(* ===== verification/Lidar_Frame.thy ===== *)
theory Lidar_Frame
  imports Prelude
begin

unbundle bit_operations_syntax

text \<open>
  The receive side of the LD06/LD19/STL lidar driver, first part: the CRC and the byte-wise
  frame parser of \<^verbatim>\<open>ldlidar_driver/src/dataprocess/lipkg.cpp\<close> (\<open>CrcTable\<close>, \<open>CalCRC8\<close>,
  \<open>LiPkg::AnalysisOne\<close>) and the packed frame layout of \<^verbatim>\<open>lipkg.h\<close>.

  \<open>AnalysisOne\<close> keeps its position in function-local statics; the record \<open>rx\<close> holds them
  together with the member \<open>pkg_\<close> it fills. The lemmas show that the table is the CRC-8 of the
  polynomial 0x4D, that a single corrupted byte never goes undetected, that the 128-byte buffer
  is never written past its 47th byte, and that the parser finds in a byte stream the frames
  a whole-stream specification finds in it.
\<close>

section \<open>The checksum\<close>

definition CrcTable :: "u8 list" where
  "CrcTable = [
    0x00, 0x4d, 0x9a, 0xd7, 0x79, 0x34, 0xe3, 0xae, 0xf2, 0xbf, 0x68, 0x25,
    0x8b, 0xc6, 0x11, 0x5c, 0xa9, 0xe4, 0x33, 0x7e, 0xd0, 0x9d, 0x4a, 0x07,
    0x5b, 0x16, 0xc1, 0x8c, 0x22, 0x6f, 0xb8, 0xf5, 0x1f, 0x52, 0x85, 0xc8,
    0x66, 0x2b, 0xfc, 0xb1, 0xed, 0xa0, 0x77, 0x3a, 0x94, 0xd9, 0x0e, 0x43,
    0xb6, 0xfb, 0x2c, 0x61, 0xcf, 0x82, 0x55, 0x18, 0x44, 0x09, 0xde, 0x93,
    0x3d, 0x70, 0xa7, 0xea, 0x3e, 0x73, 0xa4, 0xe9, 0x47, 0x0a, 0xdd, 0x90,
    0xcc, 0x81, 0x56, 0x1b, 0xb5, 0xf8, 0x2f, 0x62, 0x97, 0xda, 0x0d, 0x40,
    0xee, 0xa3, 0x74, 0x39, 0x65, 0x28, 0xff, 0xb2, 0x1c, 0x51, 0x86, 0xcb,
    0x21, 0x6c, 0xbb, 0xf6, 0x58, 0x15, 0xc2, 0x8f, 0xd3, 0x9e, 0x49, 0x04,
    0xaa, 0xe7, 0x30, 0x7d, 0x88, 0xc5, 0x12, 0x5f, 0xf1, 0xbc, 0x6b, 0x26,
    0x7a, 0x37, 0xe0, 0xad, 0x03, 0x4e, 0x99, 0xd4, 0x7c, 0x31, 0xe6, 0xab,
    0x05, 0x48, 0x9f, 0xd2, 0x8e, 0xc3, 0x14, 0x59, 0xf7, 0xba, 0x6d, 0x20,
    0xd5, 0x98, 0x4f, 0x02, 0xac, 0xe1, 0x36, 0x7b, 0x27, 0x6a, 0xbd, 0xf0,
    0x5e, 0x13, 0xc4, 0x89, 0x63, 0x2e, 0xf9, 0xb4, 0x1a, 0x57, 0x80, 0xcd,
    0x91, 0xdc, 0x0b, 0x46, 0xe8, 0xa5, 0x72, 0x3f, 0xca, 0x87, 0x50, 0x1d,
    0xb3, 0xfe, 0x29, 0x64, 0x38, 0x75, 0xa2, 0xef, 0x41, 0x0c, 0xdb, 0x96,
    0x42, 0x0f, 0xd8, 0x95, 0x3b, 0x76, 0xa1, 0xec, 0xb0, 0xfd, 0x2a, 0x67,
    0xc9, 0x84, 0x53, 0x1e, 0xeb, 0xa6, 0x71, 0x3c, 0x92, 0xdf, 0x08, 0x45,
    0x19, 0x54, 0x83, 0xce, 0x60, 0x2d, 0xfa, 0xb7, 0x5d, 0x10, 0xc7, 0x8a,
    0x24, 0x69, 0xbe, 0xf3, 0xaf, 0xe2, 0x35, 0x78, 0xd6, 0x9b, 0x4c, 0x01,
    0xf4, 0xb9, 0x6e, 0x23, 0x8d, 0xc0, 0x17, 0x5a, 0x06, 0x4b, 0x9c, 0xd1,
    0x7f, 0x32, 0xe5, 0xa8]"

fun CalCRC8_loop :: "u8 \<Rightarrow> u8 list \<Rightarrow> u8" where
  "CalCRC8_loop crc [] = crc"
| "CalCRC8_loop crc (b # bs) = CalCRC8_loop (CrcTable ! unat ((crc XOR b) AND 0xff)) bs"

definition CalCRC8 :: "u8 list \<Rightarrow> nat \<Rightarrow> u8" where
  "CalCRC8 data data_len = CalCRC8_loop 0 (take data_len data)"

section \<open>The frame on the wire\<close>

record LidarPointStructDef =
  raw_distance :: u16
  raw_intensity :: u8

record LiDARFrameTypeDef =
  header :: u8
  ver_len :: u8
  speed :: u16
  start_angle :: u16
  point :: "LidarPointStructDef list"
  end_angle :: u16
  timestamp :: u16
  crc8 :: u8

definition PKG_HEADER :: u8 where "PKG_HEADER = 0x54"
definition PKG_VER_LEN :: u8 where "PKG_VER_LEN = 0x2C"
definition POINT_PER_PACK :: nat where "POINT_PER_PACK = 12"

text \<open>\<open>sizeof(LiDARFrameTypeDef)\<close>: 6 bytes, 12 points of 3 bytes, 5 bytes, packed.\<close>

definition frame_size :: nat where
  "frame_size = 6 + 3 * POINT_PER_PACK + 5"

definition point_at :: "u8 list \<Rightarrow> nat \<Rightarrow> LidarPointStructDef" where
  "point_at bs i = \<lparr>raw_distance = le16 (bs ! (6 + 3 * i)) (bs ! (7 + 3 * i)),
                    raw_intensity = bs ! (8 + 3 * i)\<rparr>"

text \<open>The \<open>memcpy\<close> of the buffer over the packed struct.\<close>

definition frame_of_bytes :: "u8 list \<Rightarrow> LiDARFrameTypeDef" where
  "frame_of_bytes bs =
     \<lparr>header = bs ! 0, ver_len = bs ! 1,
      speed = le16 (bs ! 2) (bs ! 3),
      start_angle = le16 (bs ! 4) (bs ! 5),
      point = map (point_at bs) [0..<POINT_PER_PACK],
      end_angle = le16 (bs ! 42) (bs ! 43),
      timestamp = le16 (bs ! 44) (bs ! 45),
      crc8 = bs ! 46\<rparr>"

section \<open>The parser\<close>

datatype rx_state = HEADER | VER_LEN | DATA

text \<open>The statics of \<open>AnalysisOne\<close> (\<open>state\<close>, \<open>count\<close>, \<open>tmp\<close>) and the member \<open>pkg_\<close>.\<close>

record rx =
  rx_state :: rx_state
  rx_count :: nat
  rx_tmp :: "u8 list"
  rx_pkg :: LiDARFrameTypeDef

definition rx_init :: "LiDARFrameTypeDef \<Rightarrow> rx" where
  "rx_init p = \<lparr>rx_state = HEADER, rx_count = 0, rx_tmp = replicate 128 0, rx_pkg = p\<rparr>"

definition rx_store :: "u8 \<Rightarrow> rx \<Rightarrow> rx" where
  "rx_store b r = r\<lparr>rx_tmp := (rx_tmp r)[rx_count r := b], rx_count := Suc (rx_count r)\<rparr>"

definition AnalysisOne :: "u8 \<Rightarrow> rx \<Rightarrow> bool \<times> rx" where
  "AnalysisOne byte r =
     (case rx_state r of
        HEADER \<Rightarrow>
          if byte = PKG_HEADER then (False, (rx_store byte r)\<lparr>rx_state := VER_LEN\<rparr>)
          else (False, r)
      | VER_LEN \<Rightarrow>
          if byte = PKG_VER_LEN then (False, (rx_store byte r)\<lparr>rx_state := DATA\<rparr>)
          else (False, r\<lparr>rx_state := HEADER, rx_count := 0\<rparr>)
      | DATA \<Rightarrow>
          let r1 = rx_store byte r in
          if rx_count r1 \<ge> frame_size then
            let pkg = frame_of_bytes (take frame_size (rx_tmp r1));
                crc = CalCRC8 (take frame_size (rx_tmp r1)) (frame_size - 1);
                r2 = r1\<lparr>rx_pkg := pkg, rx_state := HEADER, rx_count := 0\<rparr>
            in (crc = crc8 pkg, r2)
          else (False, r1))"

section \<open>The table is the CRC-8 of the polynomial 0x4D\<close>

text \<open>Bitwise division, most significant bit first: the definition the table is computed from.\<close>

fun crc8_bits :: "nat \<Rightarrow> u8 \<Rightarrow> u8" where
  "crc8_bits 0 c = c"
| "crc8_bits (Suc n) c =
     crc8_bits n (if bit c 7 then push_bit 1 c XOR 0x4d else push_bit 1 c)"

definition crc8_ref :: "u8 list \<Rightarrow> u8" where
  "crc8_ref = foldl (\<lambda>c b. crc8_bits 8 (c XOR b)) 0"

lemma length_CrcTable [simp]: "length CrcTable = 256"
  by (simp add: CrcTable_def)

text \<open>
  One division step is linear over XOR and injective (the polynomial is odd), so the table is
  determined by its entries at the powers of two, and it is a permutation of the bytes.
\<close>

definition crc8_step :: "u8 \<Rightarrow> u8" where
  "crc8_step c = (if bit c 7 then push_bit 1 c XOR 0x4d else push_bit 1 c)"

lemma crc8_bits_Suc: "crc8_bits (Suc n) c = crc8_bits n (crc8_step c)"
  by (simp add: crc8_step_def)

lemma crc8_bits_numeral: "crc8_bits (numeral n) c = crc8_bits (pred_numeral n) (crc8_step c)"
  by (simp add: numeral_eq_Suc crc8_bits_Suc del: crc8_bits.simps)

lemma bit_0x4d: "n < 8 \<Longrightarrow> bit (0x4d :: u8) n \<longleftrightarrow> n \<in> {0, 2, 3, 6}"
proof -
  assume "n < 8"
  then have "n = 0 \<or> n = 1 \<or> n = 2 \<or> n = 3 \<or> n = 4 \<or> n = 5 \<or> n = 6 \<or> n = 7" by presburger
  then show ?thesis by (elim disjE) simp_all
qed

lemma bit_crc8_step:
  "bit (crc8_step c) n \<longleftrightarrow>
     n < 8 \<and> ((0 < n \<and> bit c (n - 1)) \<noteq> (bit c 7 \<and> n \<in> {0, 2, 3, 6}))"
proof (cases "n < 8")
  case True
  have "bit (push_bit (Suc 0) c) n \<longleftrightarrow> 0 < n \<and> bit c (n - 1)"
    using True by (simp add: bit_push_bit_iff possible_bit_word Suc_le_eq del: push_bit_Suc)
  with True bit_0x4d [OF True] show ?thesis
    unfolding crc8_step_def One_nat_def by (simp add: bit_xor_iff del: push_bit_Suc)
next
  case False
  then show ?thesis by (metis bit_imp_le_length len_num0 len_num1 len_bit0 mult_2 numeral_Bit0 numeral_One not_less)
qed

lemma crc8_step_xor: "crc8_step (a XOR b) = crc8_step a XOR crc8_step b"
  by (rule bit_word_eqI) (auto simp: bit_crc8_step bit_xor_iff)

lemma crc8_bits_xor: "crc8_bits n (a XOR b) = crc8_bits n a XOR crc8_bits n b"
  by (induction n arbitrary: a b) (simp_all add: crc8_bits_Suc crc8_step_xor del: crc8_bits.simps(2))

lemma crc8_step_inject: "crc8_step a = crc8_step b \<Longrightarrow> a = b"
proof (rule bit_word_eqI)
  fix n
  assume eq: "crc8_step a = crc8_step b" and n: "n < LENGTH(8)"
  have b7: "bit a 7 \<longleftrightarrow> bit b 7"
    using bit_crc8_step [of a 0] bit_crc8_step [of b 0] eq by simp
  show "bit a n \<longleftrightarrow> bit b n"
  proof (cases "n = 7")
    case False
    with n have "Suc n < 8" by simp
    then show ?thesis
      using bit_crc8_step [of a "Suc n"] bit_crc8_step [of b "Suc n"] eq b7 by auto
  qed (use b7 in simp)
qed

lemma crc8_bits_inject: "crc8_bits n a = crc8_bits n b \<Longrightarrow> a = b"
  by (induction n arbitrary: a b) (auto simp: crc8_bits_Suc simp del: crc8_bits.simps(2) dest: crc8_step_inject)

lemma word_of_nat_plus_power:
  assumes "j < 2 ^ k" and "k < 8"
  shows "(word_of_nat (2 ^ k + j) :: u8) = word_of_nat (2 ^ k) XOR word_of_nat j"
proof -
  have "\<not> bit j k"
    using assms(1) by (simp add: bit_iff_odd)
  then have "2 ^ k AND j = 0"
    by (intro bit_eqI) (auto simp: bit_and_iff bit_exp_iff)
  then have "2 ^ k + j = 2 ^ k XOR j"
    by (rule disjunctive_add_eq_xor)
  then show ?thesis by (metis of_nat_xor_eq)
qed

text \<open>The upper half of each doubling is the lower half XOR the entry at the power of two.\<close>

lemma CrcTable_double:
  assumes "take (2 ^ k) (drop (2 ^ k) CrcTable) = map (\<lambda>x. x XOR CrcTable ! (2 ^ k)) (take (2 ^ k) CrcTable)"
    and "CrcTable ! (2 ^ k) = crc8_bits 8 (word_of_nat (2 ^ k))"
    and "k < 8"
    and low: "\<forall>i < 2 ^ k. CrcTable ! i = crc8_bits 8 (word_of_nat i)"
  shows "\<forall>i < 2 ^ Suc k. CrcTable ! i = crc8_bits 8 (word_of_nat i)"
proof (intro allI impI)
  fix i :: nat
  assume i: "i < 2 ^ Suc k"
  show "CrcTable ! i = crc8_bits 8 (word_of_nat i)"
  proof (cases "i < 2 ^ k")
    case False
    define j where "j = i - 2 ^ k"
    with False i have j: "j < 2 ^ k" "i = 2 ^ k + j" by auto
    have "2 ^ Suc k \<le> (2 ^ 8 :: nat)" using \<open>k < 8\<close> by (intro power_increasing) auto
    then have len: "2 ^ k + j < length CrcTable" using j by simp
    have "CrcTable ! i = take (2 ^ k) (drop (2 ^ k) CrcTable) ! j"
      using j len by simp
    also have "\<dots> = CrcTable ! j XOR CrcTable ! (2 ^ k)"
      using j len by (simp add: assms(1))
    finally show ?thesis
      using j(1) assms(2,3) low unfolding j(2)
      by (simp only: word_of_nat_plus_power crc8_bits_xor xor.commute)
  qed (use low in simp)
qed

lemma CrcTable_powers:
  "\<forall>k \<in> {0, 1, 2, 3, 4, 5, 6, 7}. CrcTable ! (2 ^ k) = crc8_bits 8 (word_of_nat (2 ^ k))"
  by (simp add: CrcTable_def crc8_bits_numeral crc8_step_def)

lemma CrcTable_halves:
  "\<forall>k \<in> {0, 1, 2, 3, 4, 5, 6, 7}.
     take (2 ^ k) (drop (2 ^ k) CrcTable) = map (\<lambda>x. x XOR CrcTable ! (2 ^ k)) (take (2 ^ k) CrcTable)"
  by (simp add: CrcTable_def)

lemma CrcTable_poly_power: "k \<le> 8 \<Longrightarrow> \<forall>i < 2 ^ k. CrcTable ! i = crc8_bits 8 (word_of_nat i)"
proof (induction k)
  case 0
  show ?case by (simp add: CrcTable_def crc8_bits_numeral crc8_step_def)
next
  case (Suc k)
  then have k: "k \<in> {0, 1, 2, 3, 4, 5, 6, 7}" and "k < 8" by auto
  show ?case
    by (rule CrcTable_double [OF CrcTable_halves [rule_format, OF k] CrcTable_powers [rule_format, OF k] \<open>k < 8\<close> Suc.IH])
      (use Suc.prems in simp)
qed

lemma CrcTable_poly: "CrcTable ! unat (b :: u8) = crc8_bits 8 b"
  using CrcTable_poly_power [of 8] unsigned_less [of b, where ?'a = nat] by simp

lemma and_0xff [simp]: "(b :: u8) AND 0xff = b"
proof -
  have "(0xff :: u8) = - 1" by simp
  then show ?thesis by (simp only: and.right_neutral)
qed

lemma CalCRC8_loop_ref: "CalCRC8_loop c bs = foldl (\<lambda>c b. crc8_bits 8 (c XOR b)) c bs"
  by (induction bs arbitrary: c) (simp_all add: CrcTable_poly)

lemma CalCRC8_ref: "CalCRC8 data n = crc8_ref (take n data)"
  by (simp add: CalCRC8_def crc8_ref_def CalCRC8_loop_ref)

lemma CalCRC8_loop_inject: "CalCRC8_loop c bs = CalCRC8_loop d bs \<Longrightarrow> c = d"
proof (induction bs arbitrary: c d)
  case (Cons b bs)
  then have "crc8_bits 8 (c XOR b) = crc8_bits 8 (d XOR b)"
    by (auto simp: CrcTable_poly)
  then have "c XOR b = d XOR b" by (rule crc8_bits_inject)
  then have "(c XOR b) XOR b = (d XOR b) XOR b" by simp
  then show ?case by (simp add: xor.assoc)
qed simp

lemma CalCRC8_loop_append: "CalCRC8_loop c (xs @ ys) = CalCRC8_loop (CalCRC8_loop c xs) ys"
  by (induction xs arbitrary: c) auto

text \<open>Changing one covered byte always changes the checksum.\<close>

lemma CalCRC8_one_byte:
  assumes i: "i < n" "i < length data" and "b \<noteq> data ! i"
  shows "CalCRC8 (data[i := b]) n \<noteq> CalCRC8 data n"
proof
  assume eq: "CalCRC8 (data[i := b]) n = CalCRC8 data n"
  let ?pre = "take i data" and ?post = "drop (Suc i) (take n data)"
  have split: "take n data = ?pre @ data ! i # ?post"
    using i id_take_nth_drop [of i "take n data"] by (simp add: min_def)
  have up: "(?pre @ data ! i # ?post)[i := b] = ?pre @ b # ?post"
    using i by (simp add: list_update_append)
  have "take n (data[i := b]) = (take n data)[i := b]"
    by (simp add: take_update_swap)
  also have "\<dots> = ?pre @ b # ?post"
    by (subst split) (rule up)
  finally have "CalCRC8_loop (CalCRC8_loop 0 (?pre @ [b])) ?post
      = CalCRC8_loop (CalCRC8_loop 0 (?pre @ [data ! i])) ?post"
    using eq unfolding CalCRC8_def by (metis split append.assoc append_Cons append_Nil CalCRC8_loop_append)
  then have "CalCRC8_loop (CalCRC8_loop 0 ?pre) [b] = CalCRC8_loop (CalCRC8_loop 0 ?pre) [data ! i]"
    unfolding CalCRC8_loop_append by (rule CalCRC8_loop_inject)
  then have "CalCRC8_loop 0 ?pre XOR b = CalCRC8_loop 0 ?pre XOR data ! i"
    by (simp add: CrcTable_poly) (rule crc8_bits_inject)
  then have "CalCRC8_loop 0 ?pre XOR (CalCRC8_loop 0 ?pre XOR b)
      = CalCRC8_loop 0 ?pre XOR (CalCRC8_loop 0 ?pre XOR data ! i)" by simp
  with \<open>b \<noteq> data ! i\<close> show False by (simp flip: xor.assoc)
qed

section \<open>The parser stays inside its buffer\<close>

definition rx_inv :: "rx \<Rightarrow> bool" where
  "rx_inv r \<longleftrightarrow> length (rx_tmp r) = 128 \<and>
     (case rx_state r of
        HEADER \<Rightarrow> rx_count r = 0
      | VER_LEN \<Rightarrow> rx_count r = 1 \<and> rx_tmp r ! 0 = PKG_HEADER
      | DATA \<Rightarrow> 2 \<le> rx_count r \<and> rx_count r < frame_size
          \<and> rx_tmp r ! 0 = PKG_HEADER \<and> rx_tmp r ! 1 = PKG_VER_LEN)"

lemma frame_size_eq [simp]: "frame_size = 47"
  by (simp add: frame_size_def POINT_PER_PACK_def)

lemma rx_inv_init: "rx_inv (rx_init p)"
  by (simp add: rx_inv_def rx_init_def)

lemma AnalysisOne_inv: "rx_inv r \<Longrightarrow> rx_inv (snd (AnalysisOne b r))"
  by (auto simp: rx_inv_def AnalysisOne_def rx_store_def Let_def nth_list_update split: rx_state.splits)

lemma rx_inv_count: "rx_inv r \<Longrightarrow> rx_count r < frame_size \<and> length (rx_tmp r) = 128"
  by (auto simp: rx_inv_def split: rx_state.splits)

interpretation analysis: machine_inv "\<lambda>r b. snd (AnalysisOne b r)" rx_inv
  by unfold_locales (rule AnalysisOne_inv)

section \<open>What the parser finds in a stream\<close>

text \<open>The frames the parser reports for a stream of bytes, and the state it ends in.\<close>

fun accepted :: "u8 list \<Rightarrow> rx \<Rightarrow> LiDARFrameTypeDef list" where
  "accepted [] r = []"
| "accepted (b # bs) r =
     (let (ok, r') = AnalysisOne b r in
      (if ok then [rx_pkg r'] else []) @ accepted bs r')"

text \<open>
  The specification reads the whole stream: skip to a header byte, drop it with its successor
  when the successor is not the version byte, otherwise take 47 bytes as a frame, report it
  when the checksum agrees, and go on behind it.
\<close>

function frames_in :: "u8 list \<Rightarrow> LiDARFrameTypeDef list" where
  "frames_in [] = []"
| "frames_in [b] = []"
| "frames_in (b # c # cs) =
     (if b \<noteq> PKG_HEADER then frames_in (c # cs)
      else if c \<noteq> PKG_VER_LEN then frames_in cs
      else if length cs < 45 then []
      else (let p = b # c # take 45 cs in
            (if CalCRC8 p 46 = p ! 46 then [frame_of_bytes p] else []) @ frames_in (drop 45 cs)))"
  by pat_completeness auto
termination by (relation "measure length") auto

lemma frames_in_skip: "b \<noteq> PKG_HEADER \<Longrightarrow> frames_in (b # bs) = frames_in bs"
  by (cases bs) auto

lemma frames_in_short: "length bs < 45 \<Longrightarrow> frames_in (PKG_HEADER # PKG_VER_LEN # bs) = []"
  by simp

lemma frames_in_full:
  assumes "p = PKG_HEADER # PKG_VER_LEN # ws" "length ws = 45"
  shows "frames_in (p @ bs) =
    (if CalCRC8 p 46 = p ! 46 then [frame_of_bytes p] else []) @ frames_in bs"
  using assms by (simp add: Let_def)

lemma take_Suc_snoc_update:
  "n < length xs \<Longrightarrow> take (Suc n) (xs[n := b]) = take n xs @ [b]"
  by (simp add: take_Suc_conv_app_nth)

lemma header_two:
  assumes "2 \<le> n" "n < length xs"
  shows "take n xs = xs ! 0 # xs ! 1 # drop 2 (take n xs)"
proof -
  obtain a b ys where "xs = a # b # ys"
    using assms by (cases xs; cases "tl xs") auto
  with assms show ?thesis by (cases n; cases "n - 1") auto
qed

text \<open>
  Refinement: what the parser still reports is what the specification finds in the bytes it
  has buffered followed by the bytes to come.
\<close>

lemma accepted_frames_in:
  "rx_inv r \<Longrightarrow> accepted bs r = frames_in (take (rx_count r) (rx_tmp r) @ bs)"
proof (induction bs arbitrary: r)
  case Nil
  show ?case
  proof (cases "rx_state r")
    case HEADER
    with Nil show ?thesis by (simp add: rx_inv_def)
  next
    case VER_LEN
    with Nil obtain a xs where "rx_tmp r = a # xs" "rx_count r = 1"
      by (cases "rx_tmp r") (auto simp: rx_inv_def)
    then show ?thesis by simp
  next
    case DATA
    with Nil have n: "2 \<le> rx_count r" "rx_count r < 47" "rx_count r < length (rx_tmp r)"
      and h: "rx_tmp r ! 0 = PKG_HEADER" "rx_tmp r ! 1 = PKG_VER_LEN"
      by (auto simp: rx_inv_def)
    show ?thesis
      by (subst append_Nil2, subst header_two [OF n(1,3)], unfold h)
        (use n in \<open>simp add: frames_in_short del: frames_in.simps(3)\<close>)
  qed
next
  case (Cons b bs)
  let ?r = "snd (AnalysisOne b r)"
  have inv: "rx_inv ?r" using Cons.prems by (rule AnalysisOne_inv)
  note IH = Cons.IH [OF inv]
  show ?case
  proof (cases "rx_state r")
    case HEADER
    with Cons.prems IH show ?thesis
      by (auto simp: rx_inv_def AnalysisOne_def rx_store_def frames_in_skip take_Suc_snoc_update
          simp del: frames_in.simps(3))
  next
    case VER_LEN
    then have "take (rx_count r) (rx_tmp r) = [PKG_HEADER]"
      using Cons.prems by (cases "rx_tmp r") (auto simp: rx_inv_def)
    with VER_LEN Cons.prems IH show ?thesis
      by (auto simp: rx_inv_def AnalysisOne_def rx_store_def take_Suc_snoc_update)
  next
    case DATA
    then have n: "2 \<le> rx_count r" "rx_count r < 47" "rx_count r < length (rx_tmp r)"
      and h: "rx_tmp r ! 0 = PKG_HEADER" "rx_tmp r ! 1 = PKG_VER_LEN"
      and len: "length (rx_tmp r) = 128"
      using Cons.prems by (auto simp: rx_inv_def)
    show ?thesis
    proof (cases "Suc (rx_count r) < 47")
      case True
      with DATA n IH show ?thesis
        by (simp add: AnalysisOne_def rx_store_def take_Suc_snoc_update Let_def)
    next
      case False
      with n have c: "rx_count r = 46" by simp
      let ?p = "take 46 (rx_tmp r) @ [b]"
      have p: "?p = PKG_HEADER # PKG_VER_LEN # drop 2 ?p" "length (drop 2 ?p) = 45"
        using header_two [of 46 "rx_tmp r"] len h by simp_all
      have tk: "take 47 ((rx_tmp r)[46 := b]) = ?p"
        using take_Suc_snoc_update [of 46 "rx_tmp r" b] len by simp
      have spec: "frames_in (?p @ bs) =
          (if CalCRC8 ?p 46 = ?p ! 46 then [frame_of_bytes ?p] else []) @ frames_in bs"
        by (rule frames_in_full [OF p])
      have "crc8 (frame_of_bytes ?p) = ?p ! 46"
        by (simp add: frame_of_bytes_def)
      with DATA c IH spec tk show ?thesis
        by (simp add: AnalysisOne_def rx_store_def Let_def del: frames_in.simps(3))
    qed
  qed
qed

section \<open>Sending and receiving a frame\<close>

text \<open>The bytes of a frame, in the order of the packed struct.\<close>

definition bytes_of_point :: "LidarPointStructDef \<Rightarrow> u8 list" where
  "bytes_of_point p = [lo8 (raw_distance p), hi8 (raw_distance p), raw_intensity p]"

definition bytes_of_frame :: "LiDARFrameTypeDef \<Rightarrow> u8 list" where
  "bytes_of_frame f =
     [header f, ver_len f, lo8 (speed f), hi8 (speed f), lo8 (start_angle f), hi8 (start_angle f)]
     @ concat (map bytes_of_point (point f))
     @ [lo8 (end_angle f), hi8 (end_angle f), lo8 (timestamp f), hi8 (timestamp f), crc8 f]"

definition valid_frame :: "LiDARFrameTypeDef \<Rightarrow> bool" where
  "valid_frame f \<longleftrightarrow> header f = PKG_HEADER \<and> ver_len f = PKG_VER_LEN \<and>
     length (point f) = POINT_PER_PACK \<and> crc8 f = CalCRC8 (bytes_of_frame f) 46"

lemma POINT_PER_PACK_eq [simp]: "POINT_PER_PACK = 12"
  by (simp add: POINT_PER_PACK_def)

lemma length_concat_points [simp]: "length (concat (map bytes_of_point ps)) = 3 * length ps"
  by (induction ps) (simp_all add: bytes_of_point_def)

lemma nth_concat_points:
  "i < length ps \<Longrightarrow> j < 3 \<Longrightarrow>
   concat (map bytes_of_point ps) ! (3 * i + j) = bytes_of_point (ps ! i) ! j"
proof (induction ps arbitrary: i)
  case (Cons p ps)
  have "length (bytes_of_point p) = 3" by (simp add: bytes_of_point_def)
  with Cons show ?case by (cases i) (simp_all add: nth_append)
qed simp

lemma length_bytes_of_frame: "length (point f) = 12 \<Longrightarrow> length (bytes_of_frame f) = 47"
  by (simp add: bytes_of_frame_def)

lemma point_at_bytes_of_frame:
  assumes "length (point f) = 12" "i < 12"
  shows "point_at (bytes_of_frame f) i = point f ! i"
proof -
  let ?c = "concat (map bytes_of_point (point f))"
  have nth: "bytes_of_frame f ! (6 + 3 * i + j) = bytes_of_point (point f ! i) ! j" if "j < 3" for j
  proof -
    have "bytes_of_frame f ! (6 + 3 * i + j) = ?c ! (3 * i + j)"
      using assms that by (simp add: bytes_of_frame_def nth_append)
    with assms that show ?thesis by (simp add: nth_concat_points)
  qed
  show ?thesis
    using nth [of 0] nth [of 1] nth [of 2]
    by (simp add: point_at_def bytes_of_point_def numeral_eq_Suc)
qed

lemma frame_of_bytes_of_frame:
  assumes "length (point f) = POINT_PER_PACK"
  shows "frame_of_bytes (bytes_of_frame f) = f"
proof -
  have pts: "map (point_at (bytes_of_frame f)) [0..<12] = point f"
    by (rule nth_equalityI) (use assms in \<open>simp_all add: point_at_bytes_of_frame\<close>)
  have tail: "bytes_of_frame f ! (42 + j) =
      [lo8 (end_angle f), hi8 (end_angle f), lo8 (timestamp f), hi8 (timestamp f), crc8 f] ! j" for j
    using assms by (simp add: bytes_of_frame_def nth_append)
  have pre: "bytes_of_frame f ! 0 = header f" "bytes_of_frame f ! 1 = ver_len f"
    "bytes_of_frame f ! 2 = lo8 (speed f)" "bytes_of_frame f ! 3 = hi8 (speed f)"
    "bytes_of_frame f ! 4 = lo8 (start_angle f)" "bytes_of_frame f ! 5 = hi8 (start_angle f)"
    by (simp_all add: bytes_of_frame_def)
  show ?thesis
    using tail [of 0] tail [of 1] tail [of 2] tail [of 3] tail [of 4] pre
    by (simp add: frame_of_bytes_def pts)
qed

lemma bytes_of_frame_two:
  "valid_frame f \<Longrightarrow> bytes_of_frame f = PKG_HEADER # PKG_VER_LEN # drop 2 (bytes_of_frame f)"
  by (simp add: bytes_of_frame_def valid_frame_def)

lemma nth_46_bytes_of_frame: "length (point f) = 12 \<Longrightarrow> bytes_of_frame f ! 46 = crc8 f"
  by (simp add: bytes_of_frame_def nth_append)

lemma frames_in_frame:
  assumes f: "valid_frame f"
  shows "frames_in (bytes_of_frame f @ bs) = f # frames_in bs"
proof -
  have len: "length (point f) = 12" using f by (simp add: valid_frame_def)
  then have "length (drop 2 (bytes_of_frame f)) = 45" by (simp add: length_bytes_of_frame)
  from frames_in_full [OF bytes_of_frame_two [OF f] this] show ?thesis
    using f len by (simp add: valid_frame_def nth_46_bytes_of_frame frame_of_bytes_of_frame)
qed

lemma frames_in_no_header: "\<forall>b \<in> set noise. b \<noteq> PKG_HEADER \<Longrightarrow> frames_in (noise @ bs) = frames_in bs"
  by (induction noise) (auto simp: frames_in_skip)

lemma accepted_init: "accepted bs (rx_init p) = frames_in bs"
  using accepted_frames_in [OF rx_inv_init] by (simp add: rx_init_def)

section \<open>Properties\<close>

text \<open>C9: The lookup table is the CRC-8 with polynomial 0x4D (initial value 0, most significant
  bit first): \<open>CalCRC8\<close> over any prefix of any buffer is the bitwise polynomial division.\<close>

theorem CalCRC8_is_crc8:
  "CalCRC8 data data_len = crc8_ref (take data_len data)"
  by (rule CalCRC8_ref)

text \<open>Every byte the parser stores lands inside the 128-byte buffer, in any reachable state:
  after any stream of bytes the write position is below \<open>sizeof(LiDARFrameTypeDef)\<close> = 47 and the
  buffer still has 128 bytes.\<close>

theorem AnalysisOne_in_bounds:
  "rx_count (foldl (\<lambda>r b. snd (AnalysisOne b r)) (rx_init p) bs) < 47 \<and>
   length (rx_tmp (foldl (\<lambda>r b. snd (AnalysisOne b r)) (rx_init p) bs)) = 128"
  using rx_inv_count [OF analysis.run_inv [OF rx_inv_init [of p], of bs]] by simp

text \<open>C2: The byte-at-a-time parser refines the whole-stream specification: whatever bytes are
  already buffered, the frames it reports for the bytes to come are those \<open>frames_in\<close> finds in the
  buffered bytes followed by them; so how the stream is cut into reads does not matter.\<close>

theorem parser_refines_stream:
  "accepted bs (foldl (\<lambda>r b. snd (AnalysisOne b r)) (rx_init p) as) =
   (let r = foldl (\<lambda>r b. snd (AnalysisOne b r)) (rx_init p) as
    in frames_in (take (rx_count r) (rx_tmp r) @ bs))"
  using accepted_frames_in [OF analysis.run_inv [OF rx_inv_init [of p], of as]] by (simp add: Let_def)

text \<open>C12: Round trip: valid frames sent back to back, with bytes that are not the header byte
  before each of them, are received exactly, each once and in order.\<close>

theorem lidar_frames_roundtrip:
  assumes "\<forall>(noise, f) \<in> set fs. valid_frame f \<and> PKG_HEADER \<notin> set noise"
  shows "accepted (concat (map (\<lambda>(noise, f). noise @ bytes_of_frame f) fs)) (rx_init p) = map snd fs"
proof -
  have "frames_in (concat (map (\<lambda>(noise, f). noise @ bytes_of_frame f) fs)) = map snd fs"
    using assms
  proof (induction fs)
    case (Cons a fs)
    obtain noise f where a: "a = (noise, f)" by (cases a)
    with Cons.prems have "\<forall>b \<in> set noise. b \<noteq> PKG_HEADER" "valid_frame f" by auto
    with Cons a show ?case by (simp add: frames_in_no_header frames_in_frame)
  qed simp
  then show ?thesis by (simp add: accepted_init)
qed

text \<open>C15: No frame with one corrupted byte (behind the two framing bytes) is ever reported.\<close>

theorem corrupted_frame_rejected:
  assumes f: "valid_frame f" and i: "2 \<le> i" "i < 47" and b: "b \<noteq> bytes_of_frame f ! i"
  shows "accepted ((bytes_of_frame f)[i := b]) (rx_init p) = []"
proof -
  let ?q = "(bytes_of_frame f)[i := b]"
  have len: "length (point f) = 12" using f by (simp add: valid_frame_def)
  then have lb: "length (bytes_of_frame f) = 47" by (rule length_bytes_of_frame)
  have two: "?q = PKG_HEADER # PKG_VER_LEN # drop 2 ?q"
  proof -
    obtain cs where cs: "bytes_of_frame f = PKG_HEADER # PKG_VER_LEN # cs"
      using bytes_of_frame_two [OF f] by blast
    obtain k where "i = Suc (Suc k)" using i(1) by (metis Suc_le_D numeral_2_eq_2 Suc_le_mono)
    with cs show ?thesis by simp
  qed
  have "CalCRC8 ?q 46 \<noteq> ?q ! 46"
  proof (cases "i = 46")
    case True
    have "CalCRC8 ?q 46 = CalCRC8 (bytes_of_frame f) 46"
      using True by (simp add: CalCRC8_def)
    with True b f lb len show ?thesis by (simp add: valid_frame_def nth_46_bytes_of_frame)
  next
    case False
    then have "CalCRC8 ?q 46 \<noteq> CalCRC8 (bytes_of_frame f) 46"
      using i b lb by (intro CalCRC8_one_byte) auto
    with False f len show ?thesis by (simp add: valid_frame_def nth_46_bytes_of_frame)
  qed
  then have "frames_in (?q @ []) = []"
    using frames_in_full [OF two, of "[]"] lb by simp
  then show ?thesis by (simp add: accepted_init)
qed

text \<open>After a header byte the parser drops the next byte without looking whether it is itself
  a header byte: a stray 0x54 directly before a valid frame loses the frame (when no later byte of
  it is 0x54).\<close>

theorem header_before_frame_loses_it:
  assumes "valid_frame f" "PKG_HEADER \<notin> set (drop 1 (bytes_of_frame f))"
  shows "accepted (PKG_HEADER # bytes_of_frame f) (rx_init p) = []"
proof -
  obtain cs where cs: "bytes_of_frame f = PKG_HEADER # PKG_VER_LEN # cs"
    using bytes_of_frame_two [OF assms(1)] by blast
  then have "\<forall>b \<in> set (PKG_VER_LEN # cs). b \<noteq> PKG_HEADER" using assms(2) by auto
  then have "frames_in (PKG_VER_LEN # cs) = []"
    using frames_in_no_header [of "PKG_VER_LEN # cs" "[]"] by (simp del: frames_in.simps(3))
  moreover have "PKG_HEADER \<noteq> PKG_VER_LEN" by (simp add: PKG_HEADER_def PKG_VER_LEN_def)
  ultimately show ?thesis by (simp add: accepted_init cs)
qed

section \<open>Witnesses\<close>

definition sample_frame :: LiDARFrameTypeDef where
  "sample_frame = \<lparr>header = 0x54, ver_len = 0x2C, speed = 3600, start_angle = 0,
     point = replicate 12 \<lparr>raw_distance = 1000, raw_intensity = 200\<rparr>,
     end_angle = 1000, timestamp = 5, crc8 = 0x27\<rparr>"

lemma replicate_12: "replicate 12 x = [x, x, x, x, x, x, x, x, x, x, x, x]"
  by (simp add: numeral_eq_Suc)

lemma bytes_of_sample_frame:
  "bytes_of_frame sample_frame =
     [0x54, 0x2C, 0x10, 0x0e, 0, 0] @ concat (replicate 12 [0xe8, 3, 200]) @ [0xe8, 3, 5, 0, 0x27]"
  by (simp add: bytes_of_frame_def sample_frame_def bytes_of_point_def lo8_def hi8_def replicate_12)

lemma CalCRC8_loop_Cons: "CalCRC8_loop crc (b # bs) = CalCRC8_loop (CrcTable ! unat (crc XOR b)) bs"
  by simp

lemma valid_sample_frame: "valid_frame sample_frame"
proof -
  have "CalCRC8 (bytes_of_frame sample_frame) 46 = 0x27"
    unfolding CalCRC8_def bytes_of_sample_frame replicate_12
    by (simp add: CalCRC8_loop_Cons CrcTable_def del: CalCRC8_loop.simps(2))
  then show ?thesis
    by (simp add: valid_frame_def sample_frame_def PKG_HEADER_def PKG_VER_LEN_def)
qed

theorem lidar_frames_roundtrip_witness:
  "accepted ([1, 2] @ bytes_of_frame sample_frame) (rx_init sample_frame) = [sample_frame]"
  using lidar_frames_roundtrip [of "[([1, 2], sample_frame)]" sample_frame] valid_sample_frame
  by (simp add: PKG_HEADER_def)

theorem corrupted_frame_rejected_witness:
  "accepted ((bytes_of_frame sample_frame)[10 := 7]) (rx_init sample_frame) = []"
  by (rule corrupted_frame_rejected [OF valid_sample_frame])
    (simp_all add: bytes_of_sample_frame replicate_12)

theorem header_before_frame_loses_it_witness:
  "accepted (PKG_HEADER # bytes_of_frame sample_frame) (rx_init sample_frame) = []"
  by (rule header_before_frame_loses_it [OF valid_sample_frame])
    (simp add: bytes_of_sample_frame replicate_12 PKG_HEADER_def)

end
