(* ===== verification/Lidar_Filter.thy ===== *)
theory Lidar_Filter
  imports Prelude "HOL-Library.Multiset"
begin

text \<open>
  The point filter of the lidar driver: \<^verbatim>\<open>ldlidar_driver/include/core/ldlidar_datatype.h\<close>
  (\<open>LDType\<close>, \<open>PointData\<close>) and \<^verbatim>\<open>ldlidar_driver/src/filter/tofbf.cpp\<close> (class \<open>Tofbf\<close>:
  constructor, \<open>Filter\<close>, \<open>NearFilter\<close>, \<open>NoiseFilter\<close>).

  \<open>NearFilter\<close> joins the first and the last group of points across 0 degrees by inserting the
  range of the last group at the front of the first group. With a single group this inserts
  a vector into itself, which is undefined in C++; the model returns \<open>Inl Undefined_Behaviour\<close>
  there. \<open>std::sort\<close> is the stable \<open>sort_key\<close>: the order of points with equal keys is one of those
  the C++ standard allows. The lemmas show that both filters keep every point: its angle and
  stamp survive, and its distance and intensity are kept or set to zero.
\<close>

section \<open>Data\<close>

datatype LDType = NO_VERSION | LD_06 | LD_19 | STL_06P | STL_26 | STL_27L

record PointData =
  angle :: real
  distance :: u16
  intensity :: u8
  stamp :: u64
  pd_x :: real
  pd_y :: real

text \<open>The constructor's default arguments for \<open>stamp\<close>, \<open>x\<close> and \<open>y\<close>.\<close>

definition mk_PointData :: "real \<Rightarrow> u16 \<Rightarrow> u8 \<Rightarrow> u64 \<Rightarrow> PointData" where
  "mk_PointData a d i t = \<lparr>angle = a, distance = d, intensity = i, stamp = t, pd_x = 0, pd_y = 0\<rparr>"

datatype FilterType = NO_FILTER | NEAR_FILTER | NOISE_FILTER

record Tofbf =
  filter_type :: FilterType
  intensity_low :: int
  intensity_single :: int
  scan_frequency :: int
  curr_speed :: real

text \<open>
  The members the constructor leaves unset for the other types are never read by the filter
  they select; they come in as an argument, so that no statement depends on them.
\<close>

definition new_Tofbf :: "Tofbf \<Rightarrow> int \<Rightarrow> LDType \<Rightarrow> Tofbf" where
  "new_Tofbf junk speed ty =
     (let t = junk\<lparr>curr_speed := of_int speed\<rparr> in
      case ty of
        LD_06 \<Rightarrow> t\<lparr>intensity_low := 15, intensity_single := 220, scan_frequency := 4500,
                   filter_type := NEAR_FILTER\<rparr>
      | LD_19 \<Rightarrow> t\<lparr>intensity_low := 15, intensity_single := 220, scan_frequency := 4500,
                   filter_type := NEAR_FILTER\<rparr>
      | STL_06P \<Rightarrow> t\<lparr>filter_type := NOISE_FILTER\<rparr>
      | STL_26 \<Rightarrow> t\<lparr>filter_type := NOISE_FILTER\<rparr>
      | STL_27L \<Rightarrow> t\<lparr>filter_type := NOISE_FILTER\<rparr>
      | NO_VERSION \<Rightarrow> t\<lparr>filter_type := NO_FILTER\<rparr>)"

definition dist_int :: "PointData \<Rightarrow> int" where
  "dist_int p = uint (distance p)"

definition blank :: "PointData \<Rightarrow> PointData" where
  "blank p = p\<lparr>distance := 0, intensity := 0\<rparr>"

section \<open>\<open>NearFilter\<close>\<close>

text \<open>Whether the grouping loop starts a new group at \<open>n\<close> after \<open>last\<close>.\<close>

definition near_break :: "real \<Rightarrow> PointData \<Rightarrow> PointData \<Rightarrow> bool" where
  "near_break angle_delta_up_limit n lst \<longleftrightarrow>
     \<bar>angle n - angle lst\<bar> > angle_delta_up_limit \<or>
     \<bar>of_int (dist_int n - dist_int lst)\<bar> > of_int (dist_int lst) * (0.03 :: real)"

fun near_group ::
  "real \<Rightarrow> PointData list \<Rightarrow> PointData list list \<Rightarrow> PointData list \<Rightarrow> PointData
   \<Rightarrow> PointData list list \<times> PointData list \<times> PointData" where
  "near_group lmt [] grp item lst = (grp, item, lst)"
| "near_group lmt (n # ns) grp item lst =
     (if near_break lmt n lst \<and> item \<noteq> [] then near_group lmt ns (grp @ [item]) [n] n
      else near_group lmt ns grp (item @ [n]) n)"

text \<open>The selection of one group: what it contributes to the result.\<close>

definition near_select :: "Tofbf \<Rightarrow> PointData list \<Rightarrow> PointData list" where
  "near_select t n =
     (if n = [] then []
      else if length n > 15 then n
      else if length n < 3 \<and>
              int (sum_list (map (\<lambda>m. unat (intensity m)) n) div length n) < intensity_single t
      then map blank n
      else if real (sum_list (map (\<lambda>m. unat (intensity m)) n)) / real (length n) > of_int (intensity_low t)
      then n
      else map blank n)"

text \<open>\<open>group.front().insert(begin, group.back()...); group.erase(group.end() - 1)\<close>.\<close>

definition near_join :: "real \<Rightarrow> PointData \<Rightarrow> PointData list list \<Rightarrow> fault + PointData list list" where
  "near_join lmt lst grp =
     (let first_item = hd (hd grp); last_item = last (last grp) in
      if \<bar>angle first_item + 360 - angle last_item\<bar> < lmt \<and>
         \<bar>of_int (dist_int first_item - dist_int last_item)\<bar> < of_int (dist_int lst) * (0.03 :: real)
      then (if length grp = 1 then Inl Undefined_Behaviour
            else Inr ((last grp @ hd grp) # butlast (tl grp)))
      else Inr grp)"

definition NearFilter :: "Tofbf \<Rightarrow> PointData list \<Rightarrow> fault + PointData list" where
  "NearFilter t tmp =
     (let pending = filter (\<lambda>n. unat (distance n) < 5000) tmp;
          normal = filter (\<lambda>n. \<not> unat (distance n) < 5000) tmp in
      if tmp = [] then Inr normal
      else
        let lmt = curr_speed t / of_int (scan_frequency t) * 2;
            sorted_pending = sort_key angle pending;
            (grp, item, lst) = near_group lmt sorted_pending [] [] (mk_PointData (-10) 0 0 0);
            group1 = (if item \<noteq> [] then grp @ [item] else grp) in
        if group1 = [] then Inr normal
        else (case near_join lmt lst group1 of
                Inl e \<Rightarrow> Inl e
              | Inr group2 \<Rightarrow> Inr (normal @ concat (map (near_select t) group2))))"

section \<open>\<open>NoiseFilter\<close>\<close>

text \<open>\<open>n\<close> lies more than \<open>d\<close> below both neighbours or more than \<open>d\<close> above both.\<close>

definition opposite_trend :: "nat \<Rightarrow> PointData \<Rightarrow> PointData \<Rightarrow> PointData \<Rightarrow> bool" where
  "opposite_trend d lst n nxt \<longleftrightarrow>
     (unat (distance n) + d < unat (distance lst) \<and> unat (distance n) + d < unat (distance nxt)) \<or>
     (unat (distance n) > unat (distance lst) + d \<and> unat (distance n) > unat (distance nxt) + d)"

definition far_from :: "nat \<Rightarrow> PointData \<Rightarrow> PointData \<Rightarrow> bool" where
  "far_from d n m \<longleftrightarrow>
     unat (distance n) + d < unat (distance m) \<or> unat (distance n) > unat (distance m) + d"

text \<open>The body of the loop: whether the point is removed (its values set to 0).\<close>

definition noise_removed :: "PointData \<Rightarrow> PointData \<Rightarrow> PointData \<Rightarrow> bool" where
  "noise_removed lst n nxt =
     (let dn = unat (distance n); it = unat (intensity n) in
      if dn < 500 \<and>
         (if opposite_trend 10 lst n nxt then it < 60
          else if opposite_trend 7 lst n nxt then it < 45
          else if opposite_trend 5 lst n nxt then it < 30
          else False)
      then True
      else if dn < 5000 then
        (if dn < 200 then it < 25 else it < 10) \<or>
        (far_from 30 n lst \<and> far_from 30 n nxt \<and> ((dn < 2000 \<and> it < 30) \<or> it < 20))
      else False)"

definition NoiseFilter :: "PointData list \<Rightarrow> PointData list" where
  "NoiseFilter tmp =
     map (\<lambda>count.
            let n = tmp ! count;
                last_data = (if count = 0 then tmp ! (length tmp - 1) else tmp ! (count - 1));
                next_data = (if count = length tmp - 1 then tmp ! 0 else tmp ! (count + 1))
            in if noise_removed last_data n next_data then blank n else n)
       [0..<length tmp]"

definition Filter :: "Tofbf \<Rightarrow> PointData list \<Rightarrow> fault + PointData list" where
  "Filter t tmp =
     (case filter_type t of
        NEAR_FILTER \<Rightarrow> NearFilter t tmp
      | NOISE_FILTER \<Rightarrow> Inr (NoiseFilter tmp)
      | NO_FILTER \<Rightarrow> Inr tmp)"

section \<open>Nothing is lost\<close>

lemma blank_simps [simp]:
  "angle (blank p) = angle p" "stamp (blank p) = stamp p"
  "distance (blank p) = 0" "intensity (blank p) = 0" "blank (blank p) = blank p"
  by (simp_all add: blank_def)

lemma near_group_concat:
  assumes "near_group lmt ns grp item lst = (g, it, l)"
  shows "concat g @ it = concat grp @ item @ ns"
  using assms by (induction ns arbitrary: grp item lst) (auto split: if_splits)

lemma map_blank_near_select: "map blank (near_select t n) = map blank n"
  by (simp add: near_select_def)

lemma map_blank_concat_select:
  "map blank (concat (map (near_select t) gs)) = map blank (concat gs)"
  by (induction gs) (simp_all add: map_blank_near_select)

lemma set_near_select: "set (near_select t n) \<subseteq> set n \<union> blank ` set n"
  by (auto simp: near_select_def)

lemma near_join_mset:
  assumes "near_join lmt lst grp = Inr g" "grp \<noteq> []"
  shows "mset (concat g) = mset (concat grp)"
proof (cases "g = grp")
  case False
  with assms have g: "g = (last grp @ hd grp) # butlast (tl grp)" and len: "length grp \<noteq> 1"
    by (auto simp: near_join_def Let_def split: if_splits)
  from len \<open>grp \<noteq> []\<close> obtain a b gs where grp: "grp = a # b # gs"
    by (cases grp; cases "tl grp") auto
  have "b # gs = butlast (b # gs) @ [last (b # gs)]" by simp
  then have "mset (concat (b # gs)) = mset (concat (butlast (b # gs))) + mset (last (b # gs))"
    by (metis concat.simps(1) concat.simps(2) concat_append append_Nil2 mset_append)
  with g grp show ?thesis by simp
qed simp

lemma mset_map_blank: "mset xs = mset ys \<Longrightarrow> mset (map blank xs) = mset (map blank ys)"
  by (simp add: mset_map)

lemma NearFilter_keeps:
  assumes "NearFilter t tmp = Inr ps"
  shows "mset (map blank ps) = mset (map blank tmp) \<and> set ps \<subseteq> set tmp \<union> blank ` set tmp"
proof -
  let ?P = "\<lambda>n. unat (distance n) < 5000"
  let ?lmt = "curr_speed t / of_int (scan_frequency t) * 2"
  let ?pending = "filter ?P tmp" and ?normal = "filter (\<lambda>n. \<not> ?P n) tmp"
  obtain grp item lst where g:
    "near_group ?lmt (sort_key angle ?pending) [] [] (mk_PointData (-10) 0 0 0) = (grp, item, lst)"
    by (cases "near_group ?lmt (sort_key angle ?pending) [] [] (mk_PointData (-10) 0 0 0)")
  define group1 where "group1 = (if item \<noteq> [] then grp @ [item] else grp)"
  have c1: "concat group1 = sort_key angle ?pending"
    using near_group_concat [OF g] by (auto simp: group1_def)
  have part: "mset ?normal + mset ?pending = mset tmp"
    by (simp add: add.commute)
  show ?thesis
  proof (cases "tmp = []")
    case True
    with assms show ?thesis by (simp add: NearFilter_def)
  next
    case tmp: False
    show ?thesis
    proof (cases "group1 = []")
      case True
      with c1 have "?pending = []" by (metis concat.simps(1) mset_sort mset_zero_iff mset.simps(1))
      with True assms tmp g part show ?thesis
        by (auto simp: NearFilter_def Let_def group1_def filter_empty_conv filter_id_conv split: if_splits)
    next
      case False
      with assms tmp g obtain group2 where j: "near_join ?lmt lst group1 = Inr group2"
        and ps: "ps = ?normal @ concat (map (near_select t) group2)"
        by (auto simp: NearFilter_def Let_def group1_def split: sum.splits)
      have m: "mset (concat group2) = mset ?pending"
        using near_join_mset [OF j False] c1 by simp
      then have "mset (map blank (concat group2)) = mset (map blank ?pending)"
        by (rule mset_map_blank)
      then have "mset (map blank ps) = mset (map blank ?normal) + mset (map blank ?pending)"
        by (simp only: ps map_append mset_append map_blank_concat_select)
      also have "\<dots> = image_mset blank (mset ?normal + mset ?pending)"
        by (simp only: mset_map image_mset_union)
      finally have "mset (map blank ps) = mset (map blank tmp)" by (simp only: part mset_map)
      moreover have "set (concat (map (near_select t) group2)) \<subseteq> set (concat group2) \<union> blank ` set (concat group2)"
        using set_near_select by fastforce
      ultimately show ?thesis
        using ps mset_eq_setD [OF m] by auto
    qed
  qed
qed

lemma length_NoiseFilter [simp]: "length (NoiseFilter tmp) = length tmp"
  by (simp add: NoiseFilter_def)

lemma nth_NoiseFilter: "i < length tmp \<Longrightarrow> NoiseFilter tmp ! i \<in> {tmp ! i, blank (tmp ! i)}"
  by (simp add: NoiseFilter_def Let_def)

lemma NoiseFilter_keeps:
  "map blank (NoiseFilter tmp) = map blank tmp \<and> set (NoiseFilter tmp) \<subseteq> set tmp \<union> blank ` set tmp"
proof
  show "map blank (NoiseFilter tmp) = map blank tmp"
    using nth_NoiseFilter [of _ tmp] by (intro nth_equalityI) (auto, metis blank_simps(5))
  show "set (NoiseFilter tmp) \<subseteq> set tmp \<union> blank ` set tmp"
    using nth_NoiseFilter [of _ tmp] by (auto simp: in_set_conv_nth) (metis imageI nth_mem)
qed

lemma noise_removed_weak: "noise_removed l n m \<Longrightarrow> unat (distance n) < 5000 \<and> unat (intensity n) < 60"
  by (auto simp: noise_removed_def Let_def split: if_splits)

lemma Filter_keeps_points_all:
  assumes "Filter t tmp = Inr ps"
  shows "mset (map (\<lambda>p. (angle p, stamp p)) ps) = mset (map (\<lambda>p. (angle p, stamp p)) tmp) \<and>
    set ps \<subseteq> set tmp \<union> blank ` set tmp"
proof -
  have m: "mset (map blank ps) = mset (map blank tmp)" and s: "set ps \<subseteq> set tmp \<union> blank ` set tmp"
    using assms NearFilter_keeps [of t tmp ps] NoiseFilter_keeps [of tmp]
    by (auto simp: Filter_def simp flip: mset_map split: FilterType.splits)
  have "image_mset (\<lambda>p. (angle p, stamp p)) (mset (map blank ps))
      = image_mset (\<lambda>p. (angle p, stamp p)) (mset (map blank tmp))"
    using m by simp
  with s show ?thesis by (simp add: image_mset.compositionality comp_def)
qed

lemma Filter_keeps_points_mset:
  "Filter t tmp = Inr ps \<Longrightarrow>
   mset (map (\<lambda>p. (angle p, stamp p)) ps) = mset (map (\<lambda>p. (angle p, stamp p)) tmp)"
  using Filter_keeps_points_all by blast

section \<open>Properties\<close>

text \<open>C29: When the filter returns, it returns every point it was given: the angles and stamps
  form the same multiset, and each returned point is one of the input, unchanged or with distance
  and intensity set to zero.\<close>

theorem Filter_keeps_points:
  assumes "Filter t tmp = Inr ps"
  shows "mset (map (\<lambda>p. (angle p, stamp p)) ps) = mset (map (\<lambda>p. (angle p, stamp p)) tmp) \<and>
    set ps \<subseteq> set tmp \<union> blank ` set tmp"
  using assms by (rule Filter_keeps_points_all)

text \<open>The noise filter keeps the length and order of the scan, removes only points nearer than
  5 m with an intensity below 60, and touches no other value.\<close>

theorem NoiseFilter_only_weak_near:
  assumes "i < length tmp"
  shows "NoiseFilter tmp ! i = tmp ! i \<or>
    (NoiseFilter tmp ! i = blank (tmp ! i) \<and> unat (distance (tmp ! i)) < 5000 \<and> unat (intensity (tmp ! i)) < 60)"
  using assms noise_removed_weak by (auto simp: NoiseFilter_def Let_def)

lemma near_group_one:
  assumes "\<forall>i. Suc i < length (n # ns) \<longrightarrow> \<not> near_break lmt ((n # ns) ! Suc i) ((n # ns) ! i)"
  shows "near_group lmt ns grp (item @ [n]) n = (grp, item @ n # ns, last (n # ns))"
  using assms
proof (induction ns arbitrary: n item)
  case (Cons m ns)
  from Cons.prems(1) have "\<not> near_break lmt m n" by force
  moreover have "\<forall>i. Suc i < length (m # ns) \<longrightarrow> \<not> near_break lmt ((m # ns) ! Suc i) ((m # ns) ! i)"
    using Cons.prems(1) by (metis Suc_less_eq length_Cons nth_Cons_Suc)
  ultimately show ?case
    using Cons.IH [of m "item @ [n]"] by simp
qed simp

text \<open>When all points lie within 5 m and form one group all around (no break between
  neighbours, and the last one close to the first across 0 degrees), the near filter inserts the
  only group into itself: undefined behaviour, on the scan of a robot inside a small round room.\<close>

theorem NearFilter_full_circle_UB:
  assumes "sorted (map angle (p # ps))"
    and "\<forall>q \<in> set (p # ps). unat (distance q) < 5000"
    and "\<forall>i. Suc i < length (p # ps) \<longrightarrow>
           \<not> near_break (curr_speed t / of_int (scan_frequency t) * 2) ((p # ps) ! Suc i) ((p # ps) ! i)"
    and "\<bar>angle p + 360 - angle (last (p # ps))\<bar> < curr_speed t / of_int (scan_frequency t) * 2"
    and "\<bar>of_int (dist_int p - dist_int (last (p # ps)))\<bar>
           < of_int (dist_int (last (p # ps))) * (0.03 :: real)"
  shows "NearFilter t (p # ps) = Inl Undefined_Behaviour"
proof -
  let ?lmt = "curr_speed t / of_int (scan_frequency t) * 2"
  have pend: "filter (\<lambda>n. unat (distance n) < 5000) (p # ps) = p # ps"
    using assms(2) by (simp add: filter_id_conv)
  have srt: "sort_key angle (p # ps) = p # ps"
    using assms(1) by (rule sort_key_id_if_sorted)
  have "near_group ?lmt (p # ps) [] [] (mk_PointData (-10) 0 0 0) = near_group ?lmt ps [] [p] p"
    by simp
  also have "\<dots> = ([], p # ps, last (p # ps))"
    using near_group_one [OF assms(3), of "[]" "[]"] by simp
  finally have grp: "near_group ?lmt (p # ps) [] [] (mk_PointData (-10) 0 0 0) = ([], p # ps, last (p # ps))" .
  show ?thesis
    unfolding NearFilter_def Let_def pend srt grp
    using assms(4,5) by (simp add: near_join_def Let_def)
qed

section \<open>Witnesses\<close>

definition sample_tofbf :: "FilterType \<Rightarrow> Tofbf" where
  "sample_tofbf ft = \<lparr>filter_type = ft, intensity_low = 15, intensity_single = 220,
     scan_frequency = 4500, curr_speed = 3600\<rparr>"

text \<open>A wall at 1 m all around, one point per degree, up to \<open>m\<close> degrees.\<close>

definition round_room :: "nat \<Rightarrow> PointData list" where
  "round_room m = map (\<lambda>i. mk_PointData (real i) 1000 200 0) [Suc 0..<Suc m]"

lemma round_room_Cons:
  "mk_PointData 0 1000 200 0 # round_room m = map (\<lambda>i. mk_PointData (real i) 1000 200 0) [0..<Suc m]"
  by (simp add: round_room_def upt_conv_Cons del: upt_Suc)

lemma round_room_sorted: "sorted (map angle (mk_PointData 0 1000 200 0 # round_room m))"
  unfolding round_room_Cons by (auto simp: mk_PointData_def comp_def sorted_iff_nth_mono simp del: upt_Suc)

lemma round_room_near: "\<forall>q \<in> set (mk_PointData 0 1000 200 0 # round_room m). unat (distance q) < 5000"
  unfolding round_room_Cons by (auto simp: mk_PointData_def)

lemma round_room_no_break:
  "1 \<le> lmt \<Longrightarrow> \<forall>i. Suc i < length (mk_PointData 0 1000 200 0 # round_room m) \<longrightarrow>
     \<not> near_break lmt ((mk_PointData 0 1000 200 0 # round_room m) ! Suc i) ((mk_PointData 0 1000 200 0 # round_room m) ! i)"
  unfolding round_room_Cons by (auto simp: near_break_def dist_int_def mk_PointData_def simp del: upt_Suc)

lemma last_round_room: "last (mk_PointData 0 1000 200 0 # round_room m) = mk_PointData (real m) 1000 200 0"
  unfolding round_room_Cons by (simp add: last_map)

theorem Filter_keeps_points_witness:
  "set (NoiseFilter [mk_PointData 1 100 10 0])
     \<subseteq> {mk_PointData 1 100 10 0, blank (mk_PointData 1 100 10 0)}"
  using Filter_keeps_points [of "sample_tofbf NOISE_FILTER" "[mk_PointData 1 100 10 0]"]
  by (auto simp: Filter_def sample_tofbf_def)

theorem NoiseFilter_only_weak_near_witness:
  "NoiseFilter [mk_PointData 1 6000 10 0] ! 0 = mk_PointData 1 6000 10 0"
  using NoiseFilter_only_weak_near [of 0 "[mk_PointData 1 6000 10 0]"]
  by (simp add: mk_PointData_def)

theorem NearFilter_full_circle_UB_witness:
  "NearFilter (sample_tofbf NEAR_FILTER) (mk_PointData 0 1000 200 0 # round_room 359) = Inl Undefined_Behaviour"
  by (rule NearFilter_full_circle_UB [OF round_room_sorted round_room_near round_room_no_break])
    (unfold last_round_room, simp_all add: sample_tofbf_def mk_PointData_def dist_int_def)

end
