(* ===== verification/Rounding.thy ===== *)
theory Rounding
  imports Prelude "HOL-Library.Log_Nat"
begin

text \<open>
  Rounding to \<open>double\<close>. Elsewhere the development computes floating point values exactly, as
  \<open>real\<close>. Where 64-bit integers are converted and added the 53 bits of the significand matter;
  there each operation is followed by \<open>to_double\<close>, the rounding to the nearest number with 53
  significant bits, ties to even. The values it is used on are not negative and far from the
  limits of the exponent.
\<close>

text \<open>The exponent of a positive number: \<open>e\<close> with \<open>2 ^ e \<le> x < 2 ^ (e + 1)\<close>.\<close>

definition binary_exponent :: "real \<Rightarrow> int" where
  "binary_exponent x =
     (if x \<ge> 1 then int (floorlog 2 (nat \<lfloor>x\<rfloor>)) - 1 else - int (floorlog 2 (nat (\<lceil>1 / x\<rceil> - 1))))"

definition round_half_even :: "real \<Rightarrow> int" where
  "round_half_even y =
     (let n = \<lfloor>y\<rfloor>; r = y - of_int n
      in if r < 1 / 2 then n else if r > 1 / 2 then n + 1 else if even n then n else n + 1)"

definition to_double :: "real \<Rightarrow> real" where
  "to_double x =
     (if x \<le> 0 then 0
      else let unit = 2 powi (binary_exponent x - 52) in of_int (round_half_even (x / unit)) * unit)"

section \<open>Exponents\<close>

lemma binary_exponent_bounds:
  assumes "0 < x"
  shows "2 powi (binary_exponent x) \<le> x" "x < 2 powi (binary_exponent x + 1)"
proof -
  have "2 powi (binary_exponent x) \<le> x \<and> x < 2 powi (binary_exponent x + 1)"
  proof (cases "x \<ge> 1")
    case True
    let ?n = "nat \<lfloor>x\<rfloor>" and ?l = "floorlog 2 (nat \<lfloor>x\<rfloor>)"
    have n: "0 < ?n" using True by simp
    have b: "2 ^ (?l - 1) \<le> ?n" "?n < 2 ^ ?l" using floorlog_bounds [OF n, of 2] by simp_all
    have l: "0 < ?l" using b n by (cases ?l) auto
    have "real (2 ^ (?l - 1)) \<le> real ?n" using b(1) by (simp only: of_nat_le_iff)
    also have "\<dots> \<le> x" using True by simp
    finally have lo: "2 ^ (?l - 1) \<le> x" by simp
    have "x < real ?n + 1" using True by linarith
    also have "real ?n + 1 \<le> real (2 ^ ?l)" using b(2) by (metis Suc_eq_plus1 Suc_leI of_nat_1 of_nat_add of_nat_le_iff)
    finally have hi: "x < 2 ^ ?l" by simp
    have "2 powi (int ?l - 1) = (2 :: real) ^ (?l - 1)" using l by (simp add: power_int_def nat_diff_distrib)
    with True lo hi show ?thesis by (simp add: binary_exponent_def)
  next
    case False
    let ?y = "1 / x"
    let ?n = "nat (\<lceil>?y\<rceil> - 1)" and ?l = "floorlog 2 (nat (\<lceil>?y\<rceil> - 1))"
    have y: "1 < ?y" using False assms by simp
    have c: "1 < \<lceil>?y\<rceil>" using y by (simp add: less_ceiling_iff)
    have n: "0 < ?n" using c by simp
    have b: "2 ^ (?l - 1) \<le> ?n" "?n < 2 ^ ?l" using floorlog_bounds [OF n, of 2] by simp_all
    have l: "0 < ?l" using b n by (cases ?l) auto
    have "int ?n = \<lceil>?y\<rceil> - 1" using c by linarith
    then have rn: "real ?n = real_of_int \<lceil>?y\<rceil> - 1" by (metis of_int_1 of_int_diff of_int_of_nat_eq)
    have "real (2 ^ (?l - 1)) \<le> real ?n" using b(1) by (simp only: of_nat_le_iff)
    then have lo: "2 ^ (?l - 1) < ?y" using rn by (simp, linarith)
    have "?y \<le> real ?n + 1" using rn by (simp add: le_of_int_ceiling)
    also have "real ?n + 1 \<le> real (2 ^ ?l)" using b(2) by (metis Suc_eq_plus1 Suc_leI of_nat_1 of_nat_add of_nat_le_iff)
    finally have hi: "?y \<le> 2 ^ ?l" by simp
    have e: "binary_exponent x = - int ?l" using False by (simp add: binary_exponent_def)
    have p1: "2 powi (- int ?l) = 1 / (2 :: real) ^ ?l" by (simp add: power_int_minus field_simps)
    have "2 powi (- int ?l + 1) = 2 powi (- int (?l - 1))" using l by (simp add: of_nat_diff)
    also have "\<dots> = 1 / (2 :: real) ^ (?l - 1)" by (simp add: power_int_minus field_simps)
    finally have p2: "2 powi (- int ?l + 1) = 1 / (2 :: real) ^ (?l - 1)" .
    from hi lo assms show ?thesis unfolding e p1 p2 by (simp add: field_simps)
  qed
  then show "2 powi (binary_exponent x) \<le> x" "x < 2 powi (binary_exponent x + 1)" by simp_all
qed

lemma powi_2_mono: "a \<le> b \<Longrightarrow> (2 :: real) powi a \<le> 2 powi b"
  by (intro power_int_increasing) auto

lemma binary_exponent_le:
  assumes "0 < x" "x < 2 powi (k + 1)"
  shows "binary_exponent x \<le> k"
proof (rule ccontr)
  assume "\<not> binary_exponent x \<le> k"
  then have "(2 :: real) powi (k + 1) \<le> 2 powi binary_exponent x" by (intro powi_2_mono) simp
  also have "\<dots> \<le> x" by (rule binary_exponent_bounds(1) [OF assms(1)])
  finally show False using assms(2) by simp
qed

lemma binary_exponent_ge:
  assumes "2 powi k \<le> x"
  shows "k \<le> binary_exponent x"
proof (rule ccontr)
  have x: "0 < x" using assms by (rule less_le_trans [rotated]) simp
  assume "\<not> k \<le> binary_exponent x"
  then have "(2 :: real) powi (binary_exponent x + 1) \<le> 2 powi k" by (intro powi_2_mono) simp
  with binary_exponent_bounds(2) [OF x] assms show False by simp
qed

lemma binary_exponent_eqI:
  assumes "2 powi k \<le> x" "x < 2 powi (k + 1)"
  shows "binary_exponent x = k"
proof -
  have "0 < x" using assms(1) by (rule less_le_trans [rotated]) simp
  with assms show ?thesis using binary_exponent_le binary_exponent_ge by (intro order_antisym) blast+
qed

lemma binary_exponent_mono: "0 < x \<Longrightarrow> x \<le> y \<Longrightarrow> binary_exponent x \<le> binary_exponent y"
  using binary_exponent_bounds(1) by (intro binary_exponent_ge) (rule order_trans)

section \<open>Rounding to an integer\<close>

lemma round_half_even_error: "\<bar>of_int (round_half_even y) - y\<bar> \<le> 1 / 2"
  unfolding round_half_even_def Let_def by (cases "y - of_int \<lfloor>y\<rfloor> < 1 / 2"; cases "y - of_int \<lfloor>y\<rfloor> > 1 / 2"; cases "even \<lfloor>y\<rfloor>"; simp; linarith)

lemma round_half_even_of_int [simp]: "round_half_even (of_int n) = n"
  by (simp add: round_half_even_def)

lemma round_half_even_mono:
  assumes "x \<le> y"
  shows "round_half_even x \<le> round_half_even y"
proof (cases "\<lfloor>x\<rfloor> = \<lfloor>y\<rfloor>")
  case True
  then show ?thesis using assms by (auto simp: round_half_even_def Let_def)
next
  case False
  then have "\<lfloor>x\<rfloor> + 1 \<le> \<lfloor>y\<rfloor>" using floor_mono [OF assms] by simp
  moreover have "round_half_even x \<le> \<lfloor>x\<rfloor> + 1" "\<lfloor>y\<rfloor> \<le> round_half_even y"
    by (auto simp: round_half_even_def Let_def)
  ultimately show ?thesis by linarith
qed

section \<open>Rounding to \<open>double\<close>\<close>

lemma to_double_zero [simp]: "to_double 0 = 0"
  by (simp add: to_double_def)

lemma to_double_pos_eq:
  "0 < x \<Longrightarrow> to_double x = of_int (round_half_even (x / 2 powi (binary_exponent x - 52))) * 2 powi (binary_exponent x - 52)"
  by (simp add: to_double_def Let_def)

lemma to_double_error:
  assumes "0 \<le> x"
  shows "\<bar>to_double x - x\<bar> \<le> x / 2 ^ 53"
proof (cases "x = 0")
  case False
  then have x: "0 < x" using assms by simp
  let ?e = "binary_exponent x" and ?u = "2 powi (binary_exponent x - 52) :: real"
  have u: "0 < ?u" by simp
  have "to_double x - x = (of_int (round_half_even (x / ?u)) - x / ?u) * ?u"
    using u by (simp add: to_double_pos_eq [OF x] left_diff_distrib)
  then have "\<bar>to_double x - x\<bar> = \<bar>of_int (round_half_even (x / ?u)) - x / ?u\<bar> * ?u" by (simp add: abs_mult)
  also have "\<dots> \<le> 1 / 2 * ?u" by (intro mult_right_mono round_half_even_error) simp
  also have "\<dots> = 2 powi ?e / 2 ^ 53" by (simp add: power_int_diff)
  also have "\<dots> \<le> x / 2 ^ 53" using binary_exponent_bounds(1) [OF x] by (simp add: divide_right_mono)
  finally show ?thesis .
qed simp

lemma to_double_le: "0 \<le> x \<Longrightarrow> to_double x \<le> x * (1 + 1 / 2 ^ 53)"
  using abs_le_D1 [OF to_double_error [of x]] by (simp add: distrib_left)

lemma to_double_nonneg: "0 \<le> to_double x"
proof (cases "0 < x")
  case True
  have "0 \<le> round_half_even (x / 2 powi (binary_exponent x - 52))"
    using round_half_even_mono [of 0 "x / 2 powi (binary_exponent x - 52)"] round_half_even_of_int [of 0] True by simp
  then show ?thesis by (simp add: to_double_pos_eq [OF True])
qed (simp add: to_double_def)

text \<open>A number of at most 53 significant bits is kept.\<close>

lemma to_double_exact:
  assumes "0 \<le> m" "m \<le> 2 ^ 53"
  shows "to_double (of_int m * 2 powi k) = of_int m * 2 powi k"
proof (cases "m = 0")
  case False
  let ?x = "of_int m * 2 powi k :: real"
  let ?e = "binary_exponent ?x"
  have x: "0 < ?x" using False assms by simp
  have "\<exists>n. ?x / 2 powi (?e - 52) = of_int n"
  proof (cases "m = 2 ^ 53")
    case True
    then have "?x = 2 powi (53 + k)" by (simp add: power_int_add)
    then have "?e = 53 + k" by (intro binary_exponent_eqI) (simp_all add: power_int_add)
    then have "?x / 2 powi (?e - 52) = of_int (2 ^ 52)"
      using \<open>?x = _\<close> by (simp add: power_int_add power_int_diff)
    then show ?thesis by blast
  next
    case False
    then have "real_of_int m < 2 ^ 53" using assms(2) by (metis less_le of_int_less_numeral_power_cancel_iff)
    then have "?x < 2 powi (52 + k + 1)" by (simp add: power_int_add)
    then have "?e \<le> 52 + k" by (intro binary_exponent_le x)
    then have "0 \<le> k - (?e - 52)" by simp
    then obtain j where "k - (?e - 52) = int j" by (metis zero_le_imp_eq_int)
    then have j: "k = ?e - 52 + int j" by simp
    have "(2 :: real) powi k = 2 powi (?e - 52) * 2 ^ j"
      using j power_int_add [of "2 :: real" "?e - 52" "int j"] by simp
    then have "?x / 2 powi (?e - 52) = of_int m * (2 powi (?e - 52) * 2 ^ j) / 2 powi (?e - 52)" by (rule arg_cong)
    also have "\<dots> = of_int (m * 2 ^ j)" by simp
    finally have "?x / 2 powi (?e - 52) = of_int (m * 2 ^ j)" .
    then show ?thesis by blast
  qed
  then obtain n where "?x / 2 powi (?e - 52) = of_int n" ..
  moreover from this have "?x = of_int n * 2 powi (?e - 52)" by (simp add: field_simps)
  ultimately show ?thesis by (simp add: to_double_pos_eq [OF x])
qed simp

lemma to_double_of_int: "0 \<le> n \<Longrightarrow> n \<le> 2 ^ 53 \<Longrightarrow> to_double (of_int n) = of_int n"
  using to_double_exact [of n 0] by simp

lemma significand_bounds:
  assumes "0 < x"
  shows "2 ^ 52 \<le> round_half_even (x / 2 powi (binary_exponent x - 52))"
    "round_half_even (x / 2 powi (binary_exponent x - 52)) \<le> 2 ^ 53"
proof -
  let ?y = "x / 2 powi (binary_exponent x - 52)"
  have "of_int (2 ^ 52) \<le> ?y" using binary_exponent_bounds(1) [OF assms] by (simp add: power_int_diff field_simps)
  from round_half_even_mono [OF this] show "2 ^ 52 \<le> round_half_even ?y" by (simp only: round_half_even_of_int)
  have "?y \<le> of_int (2 ^ 53)" using binary_exponent_bounds(2) [OF assms] by (simp add: power_int_diff power_int_add field_simps)
  from round_half_even_mono [OF this] show "round_half_even ?y \<le> 2 ^ 53" by (simp only: round_half_even_of_int)
qed

lemma to_double_idem: "to_double (to_double x) = to_double x"
proof (cases "0 < x")
  case True
  have "0 \<le> round_half_even (x / 2 powi (binary_exponent x - 52))"
    using significand_bounds(1) [OF True] by (rule order_trans [rotated]) simp
  with significand_bounds(2) [OF True] show ?thesis
    unfolding to_double_pos_eq [OF True] by (intro to_double_exact)
qed (simp add: to_double_def)

lemma to_double_mono:
  assumes "x \<le> y"
  shows "to_double x \<le> to_double y"
proof (cases "0 < x")
  case True
  then have y: "0 < y" using assms by simp
  let ?u = "2 powi (binary_exponent x - 52) :: real" and ?v = "2 powi (binary_exponent y - 52) :: real"
  show ?thesis
  proof (cases "binary_exponent x = binary_exponent y")
    case True
    have "round_half_even (x / ?u) \<le> round_half_even (y / ?u)" by (intro round_half_even_mono divide_right_mono assms) simp
    with True show ?thesis by (simp add: to_double_pos_eq [OF \<open>0 < x\<close>] to_double_pos_eq [OF y])
  next
    case False
    then have lt: "binary_exponent x + 1 \<le> binary_exponent y" using binary_exponent_mono [OF True assms] by simp
    have "to_double x \<le> of_int (2 ^ 53) * ?u"
      unfolding to_double_pos_eq [OF True] by (intro mult_right_mono) (use significand_bounds(2) [OF True] in \<open>simp_all only: of_int_le_iff, simp\<close>)
    also have "\<dots> = 2 powi (binary_exponent x + 1)" by (simp add: power_int_add power_int_diff)
    also have "\<dots> \<le> 2 powi binary_exponent y" using lt by (rule powi_2_mono)
    also have "\<dots> = of_int (2 ^ 52) * ?v" by (simp add: power_int_diff)
    also have "\<dots> \<le> to_double y"
      unfolding to_double_pos_eq [OF y] by (intro mult_right_mono) (use significand_bounds(1) [OF y] in \<open>simp_all only: of_int_le_iff, simp\<close>)
    finally show ?thesis .
  qed
next
  case False
  then have "to_double x = 0" by (simp add: to_double_def)
  then show ?thesis using to_double_nonneg by simp
qed

text \<open>The double nearest to an integer is an integer.\<close>

lemma to_double_int:
  assumes "0 \<le> n"
  shows "to_double (of_int n) \<in> \<int>"
proof (cases "n \<le> 2 ^ 53")
  case True
  then show ?thesis using assms by (simp add: to_double_of_int)
next
  case False
  then have n: "0 < real_of_int n" by simp
  have "real_of_int (2 ^ 53) \<le> of_int n" using False by (simp only: of_int_le_iff)
  then have "52 \<le> binary_exponent (of_int n)"
    by (intro binary_exponent_ge) simp
  then obtain j where "binary_exponent (of_int n) - 52 = int j" by (metis zero_le_imp_eq_int diff_ge_0_iff_ge)
  then show ?thesis by (simp add: to_double_pos_eq [OF n])
qed

end
