(* ===== verification/Lidar_Pkg.thy ===== *)
theory Lidar_Pkg
  imports Lidar_Frame Lidar_Filter Rounding
begin

text \<open>
  Class \<open>LiPkg\<close> of \<^verbatim>\<open>ldlidar_driver/src/dataprocess/lipkg.cpp\<close> and \<^verbatim>\<open>lipkg.h\<close>: its state, the
  interpretation of a received frame as measurement points (\<open>Parse\<close>), the assembly of a full
  turn (\<open>AssemblePacket\<close>), the mailbox to the driver (\<open>SetLaserScanData\<close>, \<open>SetFrameReady\<close>,
  \<open>GetLaserScanData\<close>) and the accessors.

  The clock the driver registers (a \<open>std::function<uint64_t()>\<close>) is a sequence of readings:
  \<open>clock_reads\<close> counts the calls so far. Calling it unregistered throws
  \<open>std::bad_function_call\<close>. The two mutexes make each access to the flag and to the points atomic
  and have no state.
\<close>

datatype LidarStatus = NORMAL | LIDAR_ERROR | DATA_TIME_OUT | DATA_WAIT | STOP

record LiPkg =
  product_type :: LDType
  pkg_timestamp :: u16
  pkg_speed :: double
  is_frame_ready :: bool
  is_poweron_comm_normal :: bool
  is_filter :: bool
  lidarstatus :: LidarStatus
  measure_point_frequence :: int
  get_timestamp :: "(nat \<Rightarrow> u64) option"
  clock_reads :: nat
  last_pkg_timestamp :: u64
  first_frame :: bool
  parser :: rx
  frame_tmp :: "PointData list"
  laser_scan_data :: "PointData list"

definition new_LiPkg :: "rx \<Rightarrow> LiPkg" where
  "new_LiPkg r =
     \<lparr>product_type = NO_VERSION, pkg_timestamp = 0, pkg_speed = 0, is_frame_ready = False,
      is_poweron_comm_normal = False, is_filter = True, lidarstatus = NORMAL,
      measure_point_frequence = 4500, get_timestamp = None, clock_reads = 0,
      last_pkg_timestamp = 0, first_frame = True, parser = r, frame_tmp = [], laser_scan_data = []\<rparr>"

definition ClearDataProcessStatus :: "LiPkg \<Rightarrow> LiPkg" where
  "ClearDataProcessStatus p =
     p\<lparr>is_frame_ready := False, is_poweron_comm_normal := False, lidarstatus := NORMAL,
       last_pkg_timestamp := 0, first_frame := True\<rparr>"

definition SetProductType :: "LDType \<Rightarrow> LiPkg \<Rightarrow> LiPkg" where
  "SetProductType ty p =
     (let p1 = p\<lparr>product_type := ty\<rparr> in
      case ty of
        LD_06 \<Rightarrow> p1\<lparr>measure_point_frequence := 4500\<rparr>
      | LD_19 \<Rightarrow> p1\<lparr>measure_point_frequence := 4500\<rparr>
      | STL_06P \<Rightarrow> p1\<lparr>measure_point_frequence := 5000\<rparr>
      | STL_26 \<Rightarrow> p1\<lparr>measure_point_frequence := 5000\<rparr>
      | STL_27L \<Rightarrow> p1\<lparr>measure_point_frequence := 21600\<rparr>
      | NO_VERSION \<Rightarrow> p1\<lparr>measure_point_frequence := 4500\<rparr>)"

section \<open>Accessors and the mailbox\<close>

definition GetSpeed :: "LiPkg \<Rightarrow> double" where
  "GetSpeed p = pkg_speed p / 360"

definition GetSpeedOrigin :: "LiPkg \<Rightarrow> u16" where
  "GetSpeedOrigin p = word_of_int (trunc_int (pkg_speed p))"

definition GetTimestamp :: "LiPkg \<Rightarrow> u16" where
  "GetTimestamp p = pkg_timestamp p"

definition GetLidarMeasurePointFrequence :: "LiPkg \<Rightarrow> int" where
  "GetLidarMeasurePointFrequence p = measure_point_frequence p"

definition IsFrameReady :: "LiPkg \<Rightarrow> bool" where
  "IsFrameReady p = is_frame_ready p"

definition ResetFrameReady :: "LiPkg \<Rightarrow> LiPkg" where
  "ResetFrameReady p = p\<lparr>is_frame_ready := False\<rparr>"

definition SetFrameReady :: "LiPkg \<Rightarrow> LiPkg" where
  "SetFrameReady p = p\<lparr>is_frame_ready := True\<rparr>"

definition SetLaserScanData :: "PointData list \<Rightarrow> LiPkg \<Rightarrow> LiPkg" where
  "SetLaserScanData src p = p\<lparr>laser_scan_data := src\<rparr>"

text \<open>
  \<open>GetLaserScanData(out)\<close>: \<open>Some\<close> the points when it returns true and writes \<open>out\<close>. The look at the
  flag, its reset and the copy of the points are three critical sections; \<open>m1\<close> and \<open>m2\<close> are what the
  receive thread does to the packet handler between the first and the second and between the second
  and the third.
\<close>

definition pkg_GetLaserScanData :: "(LiPkg \<Rightarrow> LiPkg) \<Rightarrow> (LiPkg \<Rightarrow> LiPkg) \<Rightarrow> LiPkg \<Rightarrow> PointData list option \<times> LiPkg" where
  "pkg_GetLaserScanData m1 m2 p =
     (if IsFrameReady p then
        let p1 = ResetFrameReady (m1 p); p2 = m2 p1 in (Some (laser_scan_data p2), p2)
      else (None, p))"

definition RegisterTimestampGetFunctional :: "(nat \<Rightarrow> u64) option \<Rightarrow> LiPkg \<Rightarrow> LiPkg" where
  "RegisterTimestampGetFunctional h p = p\<lparr>get_timestamp := h\<rparr>"

definition GetLidarPowerOnCommStatus :: "LiPkg \<Rightarrow> bool \<times> LiPkg" where
  "GetLidarPowerOnCommStatus p =
     (if is_poweron_comm_normal p then (True, p\<lparr>is_poweron_comm_normal := False\<rparr>) else (False, p))"

definition EnableFilter :: "bool \<Rightarrow> LiPkg \<Rightarrow> LiPkg" where
  "EnableFilter b p = p\<lparr>is_filter := b\<rparr>"

definition GetLidarStatus :: "LiPkg \<Rightarrow> LidarStatus" where
  "GetLidarStatus p = lidarstatus p"

section \<open>\<open>Parse\<close>\<close>

text \<open>One call of the registered clock.\<close>

definition call_clock :: "LiPkg \<Rightarrow> fault + (u64 \<times> LiPkg)" where
  "call_clock p =
     (case get_timestamp p of
        None \<Rightarrow> Inl Uncaught_Exception
      | Some clk \<Rightarrow> Inr (clk (clock_reads p), p\<lparr>clock_reads := Suc (clock_reads p)\<rparr>))"

text \<open>\<open>(pkg_.end_angle / 100 - pkg_.start_angle / 100 + 360) % 360\<close> in \<open>int\<close>.\<close>

definition angle_diff_int :: "LiDARFrameTypeDef \<Rightarrow> int" where
  "angle_diff_int f =
     (int (unat (end_angle f) div 100) - int (unat (start_angle f) div 100) + 360) smod 360"

text \<open>\<open>((uint32_t)end_angle + 36000 - (uint32_t)start_angle) % 36000\<close>.\<close>

definition angle_diff :: "LiDARFrameTypeDef \<Rightarrow> u32" where
  "angle_diff f = (ucast (end_angle f) + 36000 - ucast (start_angle f)) mod 36000"

definition point_angle :: "LiDARFrameTypeDef \<Rightarrow> nat \<Rightarrow> real" where
  "point_angle f i =
     (let stp = real (unat (angle_diff f) div (POINT_PER_PACK - 1)) / 100;
          strt = real (unat (start_angle f)) / 100;
          a = strt + real i * stp
      in if a \<ge> 360 then a - 360 else a)"

text \<open>
  The stamps are computed in \<open>double\<close>: the difference of the clock readings, the step, its multiple,
  the last reading and the sum are each rounded to 53 bits before the conversion back.
  \<open>pack_stamp_point_step\<close>, then \<open>static_cast<uint64_t>(last_pkg_timestamp_ + (pack_stamp_point_step * i))\<close>.
\<close>

definition pack_stamp_point_step :: "u64 \<Rightarrow> u64 \<Rightarrow> double" where
  "pack_stamp_point_step lst current =
     to_double (to_double (of_int (uint (current - lst))) / real (POINT_PER_PACK - 1))"

definition point_stamp :: "u64 \<Rightarrow> u64 \<Rightarrow> nat \<Rightarrow> u64 option" where
  "point_stamp lst current i =
     real_to_u64 (to_double (to_double (of_int (uint lst)) + to_double (pack_stamp_point_step lst current * real i)))"

definition parse_point :: "LiDARFrameTypeDef \<Rightarrow> u64 \<Rightarrow> u64 \<Rightarrow> nat \<Rightarrow> PointData option" where
  "parse_point f lst current i =
     (case point_stamp lst current i of
        None \<Rightarrow> None
      | Some st \<Rightarrow> Some (mk_PointData (point_angle f i) (raw_distance (point f ! i))
                            (raw_intensity (point f ! i)) st))"

definition plausible_frame :: "LiDARFrameTypeDef \<Rightarrow> int \<Rightarrow> bool" where
  "plausible_frame f freq \<longleftrightarrow>
     real_of_int (angle_diff_int f)
       \<le> real (unat (speed f)) * real POINT_PER_PACK / of_int freq * 1.5"

text \<open>The body of the loop of \<open>Parse\<close> after \<open>AnalysisOne\<close> has returned true.\<close>

definition process_pkg :: "LiPkg \<Rightarrow> fault + LiPkg" where
  "process_pkg p0 =
     (let p = p0\<lparr>is_poweron_comm_normal := True\<rparr>; f = rx_pkg (parser p) in
      if plausible_frame f (measure_point_frequence p) then
        if last_pkg_timestamp p = 0 then
          (case call_clock p of
             Inl e \<Rightarrow> Inl e
           | Inr (t, p1) \<Rightarrow> Inr (p1\<lparr>last_pkg_timestamp := t\<rparr>))
        else
          (case call_clock p of
             Inl e \<Rightarrow> Inl e
           | Inr (current, p1) \<Rightarrow>
               (case those (map (parse_point f (last_pkg_timestamp p) current) [0..<POINT_PER_PACK]) of
                  None \<Rightarrow> Inl Undefined_Behaviour
                | Some pts \<Rightarrow>
                    Inr (p1\<lparr>pkg_speed := real (unat (speed f)), pkg_timestamp := timestamp f,
                            frame_tmp := frame_tmp p1 @ pts, last_pkg_timestamp := current\<rparr>)))
      else Inr p)"

fun Parse :: "u8 list \<Rightarrow> LiPkg \<Rightarrow> fault + LiPkg" where
  "Parse [] p = Inr p"
| "Parse (b # bs) p =
     (let (ok, r) = AnalysisOne b (parser p); p1 = p\<lparr>parser := r\<rparr> in
      if ok then (case process_pkg p1 of Inl e \<Rightarrow> Inl e | Inr p2 \<Rightarrow> Parse bs p2)
      else Parse bs p1)"

section \<open>\<open>AssemblePacket\<close>\<close>

text \<open>\<open>if (count >= size) clear(); else erase(begin, begin + count)\<close>.\<close>

definition erase_front :: "nat \<Rightarrow> LiPkg \<Rightarrow> LiPkg" where
  "erase_front c p =
     p\<lparr>frame_tmp := (if c \<ge> length (frame_tmp p) then [] else drop c (frame_tmp p))\<rparr>"

definition run_filter :: "Tofbf \<Rightarrow> PointData list \<Rightarrow> LiPkg \<Rightarrow> fault + PointData list" where
  "run_filter junk data p =
     (if is_filter p then Filter (new_Tofbf junk (trunc_int (pkg_speed p)) (product_type p)) data
      else Inr data)"

text \<open>
  The loop over the collected points: \<open>ns\<close> are the points still to visit, \<open>cnt\<close> those visited,
  \<open>data\<close> the local vector (declared outside the loop, so it keeps what an earlier round put in).
\<close>

fun assemble_loop ::
  "Tofbf \<Rightarrow> PointData list \<Rightarrow> nat \<Rightarrow> real \<Rightarrow> PointData list \<Rightarrow> LiPkg \<Rightarrow> fault + (bool \<times> LiPkg)" where
  "assemble_loop junk [] cnt last_angle data p = Inr (False, p)"
| "assemble_loop junk (n # ns) cnt last_angle data p =
     (let continue = (\<lambda>data.
            if real (Suc cnt) * GetSpeed p > of_int (measure_point_frequence p) * 2
            then Inr (False, erase_front (Suc cnt) p)
            else assemble_loop junk ns (Suc cnt) (angle n) data p)
      in if angle n < 20 \<and> last_angle > 340 then
           if real cnt * GetSpeed p > of_int (measure_point_frequence p) * 1.4
           then Inr (False, erase_front cnt p)
           else
             let data1 = take cnt (frame_tmp p) @ data in
             (case run_filter junk data1 p of
                Inl e \<Rightarrow> Inl e
              | Inr tmp0 \<Rightarrow>
                  let tmp = sort_key stamp tmp0 in
                  if length tmp > 0 then
                    let p1 = (if first_frame p then p\<lparr>first_frame := False\<rparr>
                              else SetFrameReady (SetLaserScanData tmp p))
                    in Inr (True, erase_front cnt p1)
                  else continue data1)
         else continue data)"

definition AssemblePacket :: "Tofbf \<Rightarrow> LiPkg \<Rightarrow> fault + (bool \<times> LiPkg)" where
  "AssemblePacket junk p = assemble_loop junk (frame_tmp p) 0 0 [] p"

text \<open>\<open>Parse\<close> always returns true, so every read is followed by one \<open>AssemblePacket\<close>.\<close>

definition CommReadCallback :: "Tofbf \<Rightarrow> u8 list \<Rightarrow> LiPkg \<Rightarrow> fault + LiPkg" where
  "CommReadCallback junk bytes p =
     (case Parse bytes p of
        Inl e \<Rightarrow> Inl e
      | Inr p1 \<Rightarrow> (case AssemblePacket junk p1 of Inl e \<Rightarrow> Inl e | Inr (_, p2) \<Rightarrow> Inr p2))"

section \<open>The receive thread beside the driver\<close>

text \<open>
  A series of reads, and the turns they complete: those \<open>AssemblePacket\<close> puts into the mailbox. A
  read that faults ends the program, so the series ends before it. The receive thread takes the two
  mutexes one after the other as well (points, then flag); what the driver can see of a read stopped
  between them it also sees when the read is moved as a whole before or behind its own section.
\<close>

definition completed :: "Tofbf \<Rightarrow> u8 list \<Rightarrow> LiPkg \<Rightarrow> PointData list list" where
  "completed junk bytes p =
     (case Parse bytes p of
        Inl _ \<Rightarrow> []
      | Inr p1 \<Rightarrow> (case AssemblePacket junk p1 of
          Inl _ \<Rightarrow> []
        | Inr (turn, p2) \<Rightarrow> if turn \<and> \<not> first_frame p1 then [laser_scan_data p2] else []))"

fun reads :: "Tofbf \<Rightarrow> u8 list list \<Rightarrow> LiPkg \<Rightarrow> LiPkg" where
  "reads junk [] p = p"
| "reads junk (bs # bss) p = (case CommReadCallback junk bs p of Inl _ \<Rightarrow> p | Inr q \<Rightarrow> reads junk bss q)"

fun turns :: "Tofbf \<Rightarrow> u8 list list \<Rightarrow> LiPkg \<Rightarrow> PointData list list" where
  "turns junk [] p = []"
| "turns junk (bs # bss) p =
     (case CommReadCallback junk bs p of Inl _ \<Rightarrow> [] | Inr q \<Rightarrow> completed junk bs p @ turns junk bss q)"

section \<open>The mailbox as an interface\<close>

text \<open>
  What the driver relies on when it polls its source of scans while another thread fills it: polling
  delivers data exactly when data is ready at its first look, changes nothing when there is none, and
  takes the readiness away unless new data arrives behind the reset.
\<close>

locale scan_source =
  fixes poll :: "('s \<Rightarrow> 's) \<Rightarrow> ('s \<Rightarrow> 's) \<Rightarrow> 's \<Rightarrow> 'd option \<times> 's"
    and ready :: "'s \<Rightarrow> bool"
  assumes poll_ready: "fst (poll m1 m2 s) \<noteq> None \<longleftrightarrow> ready s"
    and poll_clears: "(\<And>s'. ready (m2 s') \<Longrightarrow> ready s') \<Longrightarrow> \<not> ready (snd (poll m1 m2 s))"
    and poll_idle: "\<not> ready s \<Longrightarrow> snd (poll m1 m2 s) = s"
begin

lemma poll_twice:
  assumes "\<And>s'. ready (m2 s') \<Longrightarrow> ready s'"
  shows "fst (poll n1 n2 (snd (poll m1 m2 s))) = None"
  using poll_ready poll_clears [OF assms] by blast

lemma poll_stable:
  assumes "\<And>s'. ready (m2 s') \<Longrightarrow> ready s'"
  shows "snd (poll n1 n2 (snd (poll m1 m2 s))) = snd (poll m1 m2 s)"
  by (rule poll_idle) (rule poll_clears [OF assms])

end

interpretation mailbox: scan_source pkg_GetLaserScanData IsFrameReady
proof
  fix m1 m2 :: "LiPkg \<Rightarrow> LiPkg" and p
  assume m2: "\<And>q. IsFrameReady (m2 q) \<Longrightarrow> IsFrameReady q"
  have "\<not> IsFrameReady (m2 (ResetFrameReady (m1 p)))"
    using m2 [of "ResetFrameReady (m1 p)"] by (auto simp: IsFrameReady_def ResetFrameReady_def)
  then show "\<not> IsFrameReady (snd (pkg_GetLaserScanData m1 m2 p))"
    by (simp add: pkg_GetLaserScanData_def Let_def)
qed (simp_all add: pkg_GetLaserScanData_def Let_def)

section \<open>Angles\<close>

lemma angle_diff_less: "unat (angle_diff f) < 36000"
proof -
  have "angle_diff f < 36000"
    unfolding angle_diff_def by (rule word_mod_less_divisor) simp
  then show ?thesis by (simp add: word_less_nat_alt)
qed

lemma point_angle_range:
  assumes "unat (start_angle f) < 36000" "i < 12"
  shows "0 \<le> point_angle f i \<and> point_angle f i < 360"
proof -
  let ?d = "unat (angle_diff f) div 11"
  have "11 * ?d \<le> unat (angle_diff f)" by simp
  also have "\<dots> \<le> 35999" using angle_diff_less [of f] by simp
  finally have "11 * ?d \<le> 35999" .
  moreover have "i * ?d \<le> 11 * ?d" using \<open>i < 12\<close> by (intro mult_le_mono1) simp
  ultimately have d: "i * ?d \<le> 35999" by (rule order_trans [rotated])
  define a where "a = real (unat (start_angle f)) / 100 + real i * (real ?d / 100)"
  have "a = (real (unat (start_angle f)) + real (i * ?d)) / 100"
    by (simp add: a_def field_simps)
  moreover have "real (unat (start_angle f)) + real (i * ?d) \<le> 35999 + 35999"
    using assms(1) d by linarith
  ultimately have "a < 720" by simp
  moreover have "0 \<le> a" by (simp add: a_def)
  ultimately have "0 \<le> a" "a < 720" by simp_all
  moreover have "point_angle f i = (if 360 \<le> a then a - 360 else a)"
    by (simp add: point_angle_def Let_def a_def)
  ultimately show ?thesis by simp
qed

section \<open>Stamps\<close>

text \<open>The unit of rounding is \<open>1 / 2 ^ 53\<close>; \<open>K\<close> rounded operations err by less than \<open>(K + 1)\<close> units.\<close>

lemma rounding_factors:
  "(1 + 1 / 2 ^ 53) * (1 + 1 / 2 ^ 53) * (1 + 1 / 2 ^ 53) \<le> (1 + 4 / 2 ^ 53 :: real)"
  "(1 + 4 / 2 ^ 53) * (1 + 1 / 2 ^ 53) \<le> (1 + 6 / 2 ^ 53 :: real)"
  "(1 - 4 / 2 ^ 53 :: real) \<le> (1 - 1 / 2 ^ 53) * (1 - 1 / 2 ^ 53) * (1 - 1 / 2 ^ 53)"
  by simp_all

lemma to_double_ge: "0 \<le> x \<Longrightarrow> x * (1 - 1 / 2 ^ 53) \<le> to_double x"
  using abs_le_D2 [OF to_double_error [of x]] by (simp add: right_diff_distrib)

lemma step_multiple_le:
  assumes "i < 12"
  shows "to_double (pack_stamp_point_step lst current * real i) \<le> of_int (uint (current - lst)) * (1 + 4 / 2 ^ 53)"
proof -
  let ?d = "of_int (uint (current - lst)) :: real" and ?u = "1 + 1 / 2 ^ 53 :: real"
  have d: "0 \<le> ?d" by (simp only: of_int_0_le_iff uint_ge_0)
  have s: "pack_stamp_point_step lst current \<le> ?d * ?u / 11 * ?u"
  proof -
    have "pack_stamp_point_step lst current \<le> to_double ?d / 11 * ?u"
      unfolding pack_stamp_point_step_def by (rule order_trans [OF to_double_le]) (simp_all add: to_double_nonneg)
    also have "\<dots> \<le> ?d * ?u / 11 * ?u" by (intro mult_right_mono divide_right_mono to_double_le d) simp_all
    finally show ?thesis .
  qed
  have s0: "0 \<le> pack_stamp_point_step lst current" by (simp add: pack_stamp_point_step_def to_double_nonneg)
  have "pack_stamp_point_step lst current * real i \<le> (?d * ?u / 11 * ?u) * 11"
    using s s0 assms by (intro mult_mono) auto
  also have "\<dots> = ?d * (?u * ?u)" by simp
  finally have m: "pack_stamp_point_step lst current * real i \<le> ?d * (?u * ?u)" .
  have "to_double (pack_stamp_point_step lst current * real i) \<le> pack_stamp_point_step lst current * real i * ?u"
    using s0 by (intro to_double_le) simp
  also have "\<dots> \<le> ?d * (?u * ?u) * ?u" by (rule mult_right_mono [OF m]) simp
  also have "\<dots> = ?d * (?u * ?u * ?u)" by simp
  also have "\<dots> \<le> ?d * (1 + 4 / 2 ^ 53)" by (rule mult_left_mono [OF rounding_factors(1) d])
  finally show ?thesis .
qed

text \<open>
  The stamp of a point: never before the reading the double nearest to the last one stands for, and
  at most six units of rounding after the current one.
\<close>

lemma point_stamp_bounds:
  assumes le: "lst \<le> current" and i: "i < 12" and small: "uint current < 2 ^ 62"
  obtains st where "point_stamp lst current i = Some st"
    "to_double (of_int (uint lst)) \<le> of_int (uint st)"
    "of_int (uint st) \<le> of_int (uint current) * (1 + 6 / 2 ^ 53 :: real)"
proof -
  let ?l = "of_int (uint lst) :: real" and ?c = "of_int (uint current) :: real" and ?d = "of_int (uint (current - lst)) :: real"
  let ?p = "to_double (pack_stamp_point_step lst current * real i)"
  let ?x = "to_double (to_double ?l + ?p)"
  have l0: "0 \<le> ?l" by (simp only: of_int_0_le_iff uint_ge_0)
  have c0: "0 \<le> ?c" by (simp only: of_int_0_le_iff uint_ge_0)
  have d: "?d = ?c - ?l" using le by (simp add: uint_minus_simple_alt word_le_def)
  have p0: "0 \<le> ?p" by (rule to_double_nonneg)
  have "to_double (to_double ?l) \<le> ?x" using p0 by (intro to_double_mono) simp
  then have lo: "to_double ?l \<le> ?x" by (simp only: to_double_idem)
  have "to_double ?l \<le> ?l * (1 + 4 / 2 ^ 53)"
    by (rule order_trans [OF to_double_le [OF l0]]) (intro mult_left_mono l0, simp)
  then have "to_double ?l + ?p \<le> ?l * (1 + 4 / 2 ^ 53) + ?d * (1 + 4 / 2 ^ 53)"
    using step_multiple_le [OF i, of lst current] by (rule add_mono)
  also have "\<dots> = ?c * (1 + 4 / 2 ^ 53)" unfolding d by (simp only: distrib_right [symmetric]) simp
  finally have sum: "to_double ?l + ?p \<le> ?c * (1 + 4 / 2 ^ 53)" .
  have "?x \<le> (to_double ?l + ?p) * (1 + 1 / 2 ^ 53)" by (intro to_double_le add_nonneg_nonneg to_double_nonneg p0)
  also have "\<dots> \<le> ?c * (1 + 4 / 2 ^ 53) * (1 + 1 / 2 ^ 53)" by (rule mult_right_mono [OF sum]) simp
  also have "\<dots> = ?c * ((1 + 4 / 2 ^ 53) * (1 + 1 / 2 ^ 53))" by (simp only: mult.assoc)
  also have "\<dots> \<le> ?c * (1 + 6 / 2 ^ 53)" by (rule mult_left_mono [OF rounding_factors(2) c0])
  finally have hi: "?x \<le> ?c * (1 + 6 / 2 ^ 53)" .
  have x0: "0 \<le> ?x" by (rule to_double_nonneg)
  have "?c * (1 + 6 / 2 ^ 53) \<le> 2 ^ 62 * 2"
  proof (rule mult_mono)
    have "of_int (uint current) \<le> (of_int (2 ^ 62) :: real)" using small by (simp only: of_int_le_iff less_imp_le)
    then show "?c \<le> 2 ^ 62" by simp
  qed (use c0 in simp_all)
  then have x63: "?x \<le> of_int (2 ^ 63)" using hi by simp
  have "trunc_int ?x \<le> 2 ^ 63" by (rule trunc_int_le_of_int [OF x63])
  then have fits: "fits_unsigned 64 (trunc_int ?x)" using trunc_int_nonneg [OF x0] by (simp add: fits_unsigned_def)
  then have u: "uint (word_of_int (trunc_int ?x) :: u64) = trunc_int ?x" by (intro uint_word_of_int_fits) simp
  obtain n where n: "to_double ?l = of_int n" using to_double_int [of "uint lst"] by (auto elim: Ints_cases)
  have "n \<le> trunc_int ?x" using lo unfolding n by (rule of_int_le_trunc_int)
  then have "to_double ?l \<le> of_int (trunc_int ?x)" unfolding n by simp
  moreover have "of_int (trunc_int ?x) \<le> ?c * (1 + 6 / 2 ^ 53)" using of_int_trunc_int_le [OF x0] hi by (rule order_trans)
  ultimately show thesis
    by (intro that [of "word_of_int (trunc_int ?x)"]) (use fits in \<open>simp_all only: u, simp add: point_stamp_def real_to_u64_def\<close>)
qed

lemma point_stamp_mono:
  assumes "point_stamp lst current i = Some a" "point_stamp lst current j = Some b" "i \<le> j"
  shows "a \<le> b"
proof -
  have "pack_stamp_point_step lst current * real i \<le> pack_stamp_point_step lst current * real j"
    using assms(3) by (intro mult_left_mono) (simp_all add: pack_stamp_point_step_def to_double_nonneg)
  then have "uint a \<le> uint b"
    using assms(1,2) by (auto simp: point_stamp_def dest!: real_to_u64_SomeD intro!: trunc_int_mono to_double_mono)
  then show ?thesis by (simp add: word_le_def)
qed

text \<open>Readings below \<open>2 ^ 50\<close> are exact and the error is below one: the stamp is between them.\<close>

lemma point_stamp_between:
  assumes "lst \<le> current" "i < 12" "uint current < 2 ^ 50" "point_stamp lst current i = Some st"
  shows "lst \<le> st" "st \<le> current"
proof -
  have "uint current < 2 ^ 62" using assms(3) by simp
  from point_stamp_bounds [OF assms(1,2) this] assms(4)
  have lo: "to_double (of_int (uint lst)) \<le> of_int (uint st)"
    and hi: "of_int (uint st) \<le> of_int (uint current) * (1 + 6 / 2 ^ 53 :: real)" by auto
  have "uint lst \<le> uint current" using assms(1) by (simp add: word_le_def)
  then have "uint lst \<le> 2 ^ 53" using assms(3) by simp
  then have "uint lst \<le> uint st" using lo by (simp add: to_double_of_int)
  then show "lst \<le> st" by (simp add: word_le_def)
  have "real_of_int (uint current) < 2 ^ 50" using assms(3) by (metis of_int_less_numeral_power_cancel_iff)
  then have "of_int (uint current) * (1 + 6 / 2 ^ 53 :: real) < of_int (uint current + 1)" by simp
  with hi have "real_of_int (uint st) < of_int (uint current + 1)" by (rule le_less_trans)
  then have "uint st \<le> uint current" by simp
  then show "st \<le> current" by (simp add: word_le_def)
qed

lemma point_stamp_backwards:
  assumes lt: "current < lst" and big: "2 ^ 14 \<le> uint current"
  shows "point_stamp lst current 11 = None"
proof -
  let ?l = "of_int (uint lst) :: real" and ?c = "of_int (uint current) :: real" and ?d = "of_int (uint (current - lst)) :: real"
  let ?v = "1 - 1 / 2 ^ 53 :: real" and ?s = "pack_stamp_point_step lst current"
  have "uint (current - lst) = uint current - uint lst + 2 ^ 64"
    using lt by (simp add: uint_sub_if' word_less_def)
  then have d: "?d = ?c - ?l + 2 ^ 64" by (simp only: of_int_add of_int_diff of_int_power of_int_numeral)
  have d0: "0 \<le> ?d" and l0: "0 \<le> ?l" and c0: "0 \<le> ?c" by (simp_all only: of_int_0_le_iff uint_ge_0)
  have "?d * ?v / 11 * ?v \<le> to_double ?d / 11 * ?v"
    by (intro mult_right_mono divide_right_mono to_double_ge d0) simp_all
  also have "\<dots> \<le> ?s"
    unfolding pack_stamp_point_step_def by (rule order_trans [OF _ to_double_ge]) (simp_all add: to_double_nonneg)
  finally have "(?d * ?v / 11 * ?v) * 11 \<le> ?s * 11" by (rule mult_right_mono) simp
  then have "?d * (?v * ?v) \<le> ?s * 11" by simp
  then have "?d * (?v * ?v) * ?v \<le> ?s * 11 * ?v" by (rule mult_right_mono) simp
  also have "\<dots> \<le> to_double (?s * 11)"
    by (rule to_double_ge) (simp add: pack_stamp_point_step_def to_double_nonneg)
  finally have "?d * (?v * ?v * ?v) \<le> to_double (?s * 11)" by (simp only: mult.assoc)
  moreover have "?d * (1 - 4 / 2 ^ 53) \<le> ?d * (?v * ?v * ?v)" by (rule mult_left_mono [OF rounding_factors(3) d0])
  ultimately have "?d * (1 - 4 / 2 ^ 53) \<le> to_double (?s * 11)" by (rule order_trans [rotated])
  moreover have "?l * (1 - 4 / 2 ^ 53) \<le> to_double ?l"
    by (rule order_trans [OF _ to_double_ge [OF l0]]) (intro mult_left_mono l0, simp)
  ultimately have "(?l + ?d) * (1 - 4 / 2 ^ 53) \<le> to_double ?l + to_double (?s * 11)"
    by (simp only: distrib_right)
  moreover have "2 ^ 64 \<le> (?l + ?d) * (1 - 4 / 2 ^ 53)"
  proof -
    have "(2 :: real) ^ 14 \<le> ?c" using big by (metis numeral_power_le_of_int_cancel_iff)
    then show ?thesis unfolding d by simp
  qed
  ultimately have "2 ^ 64 \<le> to_double ?l + to_double (?s * 11)" by (rule order_trans [rotated])
  then have "to_double (2 ^ 64) \<le> to_double (to_double ?l + to_double (?s * 11))" by (rule to_double_mono)
  moreover have "to_double (2 ^ 64) = 2 ^ 64" using to_double_exact [of 1 64] by simp
  ultimately have "of_int (2 ^ 64) \<le> to_double (to_double ?l + to_double (?s * 11))" by simp
  then have "2 ^ 64 \<le> trunc_int (to_double (to_double ?l + to_double (?s * 11)))" by (rule of_int_le_trunc_int)
  then show ?thesis by (simp add: point_stamp_def real_to_u64_def fits_unsigned_def)
qed

section \<open>\<open>Parse\<close> under a clock that never runs backwards\<close>

text \<open>
  A clock is registered, it is monotone and below \<open>2 ^ 62\<close> (in nanoseconds since 1970: until 2116),
  and the stored stamp is not ahead of it.
\<close>

definition clock_ok :: "LiPkg \<Rightarrow> bool" where
  "clock_ok p \<longleftrightarrow> (\<exists>clk. get_timestamp p = Some clk \<and> (\<forall>n. clk n \<le> clk (Suc n) \<and> uint (clk n) < 2 ^ 62) \<and>
     last_pkg_timestamp p \<le> clk (clock_reads p))"

lemma parse_point_Some:
  assumes "lst \<le> current" "i < 12" "uint current < 2 ^ 62"
  shows "\<exists>q. parse_point f lst current i = Some q"
proof -
  obtain st where "point_stamp lst current i = Some st"
    using point_stamp_bounds [OF assms] by blast
  then show ?thesis by (simp add: parse_point_def)
qed

lemma parse_points_Some:
  assumes "lst \<le> current" "uint current < 2 ^ 62"
  obtains pts where "those (map (parse_point f lst current) [0..<POINT_PER_PACK]) = Some pts"
    "list_all2 (\<lambda>i q. parse_point f lst current i = Some q) [0..<POINT_PER_PACK] pts"
proof -
  have "\<forall>i \<in> set [0..<POINT_PER_PACK]. \<exists>q. parse_point f lst current i = Some q"
    using parse_point_Some [OF assms(1) _ assms(2)] by (auto simp only: set_upt atLeastLessThan_iff POINT_PER_PACK_eq)
  then obtain pts where "those (map (parse_point f lst current) [0..<POINT_PER_PACK]) = Some pts"
    "list_all2 (\<lambda>i q. parse_point f lst current i = Some q) [0..<POINT_PER_PACK] pts"
    by (rule those_map_Some)
  then show thesis by (rule that)
qed

lemma process_pkg_clock_ok:
  assumes "clock_ok p"
  obtains p' where "process_pkg p = Inr p'" "clock_ok p'" "parser p' = parser p"
proof -
  from assms obtain clk where clk: "get_timestamp p = Some clk" "\<And>n. clk n \<le> clk (Suc n)" "\<And>n. uint (clk n) < 2 ^ 62"
    "last_pkg_timestamp p \<le> clk (clock_reads p)"
    by (auto simp: clock_ok_def)
  let ?f = "rx_pkg (parser p)" and ?cur = "clk (clock_reads p)"
  obtain pts where pts: "those (map (parse_point ?f (last_pkg_timestamp p) ?cur) [0..<POINT_PER_PACK]) = Some pts"
    using parse_points_Some [OF clk(4) clk(3)] by metis
  note ev = process_pkg_def Let_def call_clock_def clock_ok_def
  show thesis
  proof (cases "plausible_frame ?f (measure_point_frequence p)")
    case False
    with clk that [of "p\<lparr>is_poweron_comm_normal := True\<rparr>"] show ?thesis
      by (simp add: ev del: POINT_PER_PACK_eq)
  next
    case True
    show ?thesis
    proof (cases "last_pkg_timestamp p = 0")
      case True
      with \<open>plausible_frame _ _\<close> clk show ?thesis
        by (intro that [of "p\<lparr>is_poweron_comm_normal := True, clock_reads := Suc (clock_reads p), last_pkg_timestamp := ?cur\<rparr>"])
          (simp_all add: ev del: POINT_PER_PACK_eq)
    next
      case False
      with \<open>plausible_frame _ _\<close> clk pts show ?thesis
        by (intro that [of "p\<lparr>is_poweron_comm_normal := True, clock_reads := Suc (clock_reads p),
              pkg_speed := real (unat (speed ?f)), pkg_timestamp := timestamp ?f,
              frame_tmp := frame_tmp p @ pts, last_pkg_timestamp := ?cur\<rparr>"])
          (simp_all add: ev del: POINT_PER_PACK_eq)
    qed
  qed
qed

lemma Parse_clock_ok: "clock_ok p \<Longrightarrow> \<exists>p'. Parse bs p = Inr p' \<and> clock_ok p'"
proof (induction bs arbitrary: p)
  case (Cons b bs)
  obtain ok r where a: "AnalysisOne b (parser p) = (ok, r)" by (cases "AnalysisOne b (parser p)")
  have ok1: "clock_ok (p\<lparr>parser := r\<rparr>)" using Cons.prems by (simp add: clock_ok_def)
  show ?case
  proof (cases ok)
    case True
    from ok1 obtain p2 where "process_pkg (p\<lparr>parser := r\<rparr>) = Inr p2" "clock_ok p2"
      by (rule process_pkg_clock_ok)
    with Cons.IH a True show ?thesis by (simp add: Let_def)
  qed (use Cons.IH [OF ok1] a in \<open>simp add: Let_def\<close>)
qed simp

section \<open>One turn\<close>

lemma Filter_length:
  assumes "Filter t tmp = Inr ps"
  shows "length ps = length tmp"
proof -
  have "size (mset (map (\<lambda>p. (angle p, stamp p)) ps)) = size (mset (map (\<lambda>p. (angle p, stamp p)) tmp))"
    using Filter_keeps_points_mset [OF assms] by simp
  then show ?thesis by simp
qed

lemma run_filter_mset:
  assumes "run_filter junk data p = Inr ps"
  shows "mset (map (\<lambda>p. (angle p, stamp p)) ps) = mset (map (\<lambda>p. (angle p, stamp p)) data)"
  using assms Filter_keeps_points_mset by (auto simp: run_filter_def split: if_splits)

text \<open>
  What an assembled turn is: the points before a wrap of the angle (from above 340 to below 20
  degrees) leave the queue and are filtered; the first turn is dropped, a later one is put in the
  mailbox, sorted by stamp.
\<close>

definition turn_taken :: "Tofbf \<Rightarrow> LiPkg \<Rightarrow> LiPkg \<Rightarrow> bool" where
  "turn_taken junk p p' \<longleftrightarrow> (\<exists>c ps. 0 < c \<and> c < length (frame_tmp p) \<and>
     angle (frame_tmp p ! c) < 20 \<and> angle (frame_tmp p ! (c - 1)) > 340 \<and>
     (if is_filter p
      then Filter (new_Tofbf junk (trunc_int (pkg_speed p)) (product_type p)) (take c (frame_tmp p)) = Inr ps
      else ps = take c (frame_tmp p)) \<and>
     frame_tmp p' = drop c (frame_tmp p) \<and> \<not> first_frame p' \<and>
     (if first_frame p then laser_scan_data p' = laser_scan_data p \<and> is_frame_ready p' = is_frame_ready p
      else is_frame_ready p' \<and> sorted (map stamp (laser_scan_data p')) \<and>
           mset (laser_scan_data p') = mset ps))"

lemma assemble_loop_turn:
  assumes "assemble_loop junk ns cnt last_angle [] p = Inr (True, p')"
    and "ns = drop cnt (frame_tmp p)"
    and "cnt = 0 \<Longrightarrow> last_angle = 0"
    and "0 < cnt \<Longrightarrow> last_angle = angle (frame_tmp p ! (cnt - 1))"
  shows "turn_taken junk p p'"
  using assms
proof (induction ns arbitrary: cnt last_angle)
  case (Cons n ns)
  have len: "cnt < length (frame_tmp p)" and n: "n = frame_tmp p ! cnt" and ns: "ns = drop (Suc cnt) (frame_tmp p)"
    using Cons.prems(2) by (metis drop_eq_Nil leI list.distinct(1), metis nth_via_drop, metis drop_Suc list.sel(3) tl_drop)
  have IH: "assemble_loop junk ns (Suc cnt) (angle n) [] p = Inr (True, p') \<Longrightarrow> turn_taken junk p p'"
    using Cons.IH [OF _ ns] n by simp
  show ?case
  proof (cases "angle n < 20 \<and> last_angle > 340")
    case True
    then have c0: "0 < cnt" using Cons.prems(3) by (cases cnt) auto
    from Cons.prems(1) True obtain tmp0 where fl: "run_filter junk (take cnt (frame_tmp p)) p = Inr tmp0"
      by (auto simp: Let_def split: if_splits sum.splits)
    have m: "mset (map (\<lambda>q. (angle q, stamp q)) tmp0) = mset (map (\<lambda>q. (angle q, stamp q)) (take cnt (frame_tmp p)))"
      using fl by (rule run_filter_mset)
    then have tl: "length tmp0 = cnt" using mset_eq_length [OF m] len by simp
    have ne: "sort_key stamp tmp0 \<noteq> []"
      using tl c0 by (metis length_greater_0_conv length_sort)
    from Cons.prems(1) True fl c0 ne have p': "p' = erase_front cnt (if first_frame p then p\<lparr>first_frame := False\<rparr>
              else SetFrameReady (SetLaserScanData (sort_key stamp tmp0) p))"
      by (auto simp: Let_def split: if_splits)
    have "if is_filter p
      then Filter (new_Tofbf junk (trunc_int (pkg_speed p)) (product_type p)) (take cnt (frame_tmp p)) = Inr tmp0
      else tmp0 = take cnt (frame_tmp p)"
      using fl by (auto simp: run_filter_def)
    with p' c0 len True n Cons.prems(4) show ?thesis
      unfolding turn_taken_def
      by (intro exI [of _ cnt] exI [of _ tmp0]) (auto simp: erase_front_def SetFrameReady_def SetLaserScanData_def)
  next
    case False
    with Cons.prems(1) IH show ?thesis by (auto simp: Let_def split: if_splits)
  qed
qed simp

lemma erase_front_drop: "erase_front c p = p\<lparr>frame_tmp := drop c (frame_tmp p)\<rparr>"
  by (simp add: erase_front_def)

text \<open>The queue is only shortened when it is longer than a turn can be.\<close>

definition too_long :: "LiPkg \<Rightarrow> nat \<Rightarrow> bool" where
  "too_long p c \<longleftrightarrow> c = 0 \<or> real c * GetSpeed p > of_int (measure_point_frequence p) * 1.4
     \<or> real c * GetSpeed p > of_int (measure_point_frequence p) * 2"

lemma assemble_loop_False:
  "assemble_loop junk ns cnt last_angle data p = Inr (False, p') \<Longrightarrow>
   \<exists>c. p' = p\<lparr>frame_tmp := drop c (frame_tmp p)\<rparr> \<and> too_long p c"
proof (induction ns arbitrary: cnt last_angle data)
  case Nil
  then show ?case by (intro exI [of _ 0]) (simp add: too_long_def)
next
  case (Cons n ns)
  have cont: ?case if "(if real (Suc cnt) * GetSpeed p > of_int (measure_point_frequence p) * 2
            then Inr (False, erase_front (Suc cnt) p)
            else assemble_loop junk ns (Suc cnt) (angle n) d p) = Inr (False, p')" for d
  proof (cases "real (Suc cnt) * GetSpeed p > of_int (measure_point_frequence p) * 2")
    case True
    then have "too_long p (Suc cnt)" unfolding too_long_def by blast
    with True that show ?thesis by (intro exI [of _ "Suc cnt"]) (simp add: erase_front_drop)
  next
    case False
    with that show ?thesis by (intro Cons.IH [of "Suc cnt" "angle n" d]) simp
  qed
  show ?case
  proof (cases "angle n < 20 \<and> last_angle > 340")
    case False
    with Cons.prems cont [of data] show ?thesis by (simp add: Let_def)
  next
    case turn: True
    show ?thesis
    proof (cases "real cnt * GetSpeed p > of_int (measure_point_frequence p) * 1.4")
      case True
      then have "too_long p cnt" unfolding too_long_def by blast
      with True turn Cons.prems show ?thesis by (intro exI [of _ cnt]) (simp add: Let_def erase_front_drop)
    next
      case False
      with turn Cons.prems cont [of "take cnt (frame_tmp p) @ data"] show ?thesis
        by (auto simp: Let_def split: sum.splits if_splits)
    qed
  qed
qed

section \<open>Properties\<close>

text \<open>With a registered clock that never runs backwards and stays below \<open>2 ^ 62\<close>, interpreting any bytes at all runs
  into no undefined conversion and no exception, and the clock condition still holds afterwards.\<close>

theorem Parse_total:
  assumes "clock_ok p"
  shows "\<exists>p'. Parse bs p = Inr p' \<and> clock_ok p'"
  using assms by (rule Parse_clock_ok)

text \<open>A clock that has gone backwards since the last frame makes the unsigned difference wrap
  and the stamp of the twelfth point leave the range of \<open>uint64_t\<close>: undefined behaviour.\<close>

theorem process_pkg_clock_backwards:
  assumes "plausible_frame (rx_pkg (parser p)) (measure_point_frequence p)"
    and "get_timestamp p = Some clk" and "last_pkg_timestamp p \<noteq> 0"
    and "clk (clock_reads p) < last_pkg_timestamp p" and "2 ^ 14 \<le> uint (clk (clock_reads p))"
  shows "process_pkg p = Inl Undefined_Behaviour"
proof -
  have "parse_point (rx_pkg (parser p)) (last_pkg_timestamp p) (clk (clock_reads p)) 11 = None"
    using point_stamp_backwards [OF assms(4,5)] by (simp add: parse_point_def)
  moreover have "11 \<in> set [0..<POINT_PER_PACK]" by (simp only: set_upt POINT_PER_PACK_eq) simp
  ultimately have "those (map (parse_point (rx_pkg (parser p)) (last_pkg_timestamp p) (clk (clock_reads p)))
      [0..<POINT_PER_PACK]) = None"
    by (intro those_map_None)
  with assms show ?thesis
    by (simp add: process_pkg_def Let_def call_clock_def del: POINT_PER_PACK_eq)
qed

text \<open>The direction of a point, in hundredths of a degree from the angles of the frame.\<close>

lemma point_angle_eq:
  assumes "unat (start_angle f) < 36000"
  shows "point_angle f i =
    (let a = real (unat (start_angle f) + i * ((unat (end_angle f) + 36000 - unat (start_angle f)) mod 36000 div 11)) / 100
     in if a \<ge> 360 then a - 360 else a)"
proof -
  have e: "unat (end_angle f) < 65536" using unsigned_less [where w = "end_angle f" and 'a = nat] by simp
  have w: "ucast (end_angle f) + 36000 - ucast (start_angle f)
      = (word_of_nat (unat (end_angle f) + 36000 - unat (start_angle f)) :: u32)"
  proof -
    have u: "ucast w = (word_of_nat (unat w) :: u32)" for w :: u16 by transfer simp
    show ?thesis using assms by (simp only: u of_nat_diff of_nat_add) (simp add: of_nat_diff)
  qed
  have "unat (word_of_nat (unat (end_angle f) + 36000 - unat (start_angle f)) :: u32)
      = unat (end_angle f) + 36000 - unat (start_angle f)"
    using e by (simp add: unsigned_of_nat take_bit_nat_eq_self)
  then have "unat (angle_diff f) = (unat (end_angle f) + 36000 - unat (start_angle f)) mod 36000"
    unfolding angle_diff_def w unat_mod by simp
  then show ?thesis by (simp add: point_angle_def Let_def add_divide_distrib)
qed

text \<open>C28: A plausible frame after the first, with a start angle below 36000 and a clock that has not gone
  back and is below \<open>2 ^ 62\<close>, adds exactly twelve points to the queue: the ranges and intensities of the
  frame in order, in directions evenly spaced from its start angle to its end angle and in [0, 360).
  The stamps do not decrease. Because they are computed in \<open>double\<close> they lie between the last and
  the current clock reading only up to rounding: at most one unit of rounding before the one, \<open>2 ^ -53\<close>
  of it, and six units after the other (about a microsecond for nanoseconds since 1970); readings
  below \<open>2 ^ 50\<close> are precise enough for them to lie between.\<close>

theorem process_pkg_points:
  assumes "plausible_frame (rx_pkg (parser p)) (measure_point_frequence p)"
    and "get_timestamp p = Some clk" and "last_pkg_timestamp p \<noteq> 0"
    and le: "last_pkg_timestamp p \<le> clk (clock_reads p)" and small: "uint (clk (clock_reads p)) < 2 ^ 62"
    and start: "unat (start_angle (rx_pkg (parser p))) < 36000"
  shows "\<exists>p' pts. process_pkg p = Inr p' \<and> frame_tmp p' = frame_tmp p @ pts \<and> length pts = 12 \<and>
    last_pkg_timestamp p' = clk (clock_reads p) \<and>
    (\<forall>i < 12. distance (pts ! i) = raw_distance (point (rx_pkg (parser p)) ! i) \<and>
       intensity (pts ! i) = raw_intensity (point (rx_pkg (parser p)) ! i) \<and>
       (let start = unat (start_angle (rx_pkg (parser p)));
            turn = (unat (end_angle (rx_pkg (parser p))) + 36000 - start) mod 36000;
            a = real (start + i * (turn div 11)) / 100
        in angle (pts ! i) = (if a \<ge> 360 then a - 360 else a)) \<and>
       0 \<le> angle (pts ! i) \<and> angle (pts ! i) < 360 \<and>
       of_int (uint (last_pkg_timestamp p)) * (1 - 1 / 2 ^ 53 :: real) \<le> of_int (uint (stamp (pts ! i))) \<and>
       of_int (uint (stamp (pts ! i))) \<le> of_int (uint (clk (clock_reads p))) * (1 + 6 / 2 ^ 53 :: real) \<and>
       (uint (clk (clock_reads p)) < 2 ^ 50 \<longrightarrow>
          last_pkg_timestamp p \<le> stamp (pts ! i) \<and> stamp (pts ! i) \<le> clk (clock_reads p)) \<and>
       (\<forall>j < i. stamp (pts ! j) \<le> stamp (pts ! i)))"
proof -
  let ?f = "rx_pkg (parser p)" and ?lst = "last_pkg_timestamp p" and ?cur = "clk (clock_reads p)"
  obtain pts where pts: "those (map (parse_point ?f ?lst ?cur) [0..<POINT_PER_PACK]) = Some pts"
    "list_all2 (\<lambda>i q. parse_point ?f ?lst ?cur i = Some q) [0..<POINT_PER_PACK] pts"
    using parse_points_Some [OF le small] by metis
  have len: "length pts = 12" using list_all2_lengthD [OF pts(2)] by (simp del: upt_rec_numeral)
  have pt: "\<exists>st. point_stamp ?lst ?cur i = Some st \<and>
      pts ! i = mk_PointData (point_angle ?f i) (raw_distance (point ?f ! i)) (raw_intensity (point ?f ! i)) st"
    if i: "i < 12" for i
  proof -
    have "parse_point ?f ?lst ?cur ([0..<POINT_PER_PACK] ! i) = Some (pts ! i)"
      by (rule list_all2_nthD [OF pts(2)]) (use i in simp)
    then have "parse_point ?f ?lst ?cur i = Some (pts ! i)"
      using i by (simp only: nth_upt POINT_PER_PACK_eq) simp
    then show ?thesis by (auto simp: parse_point_def split: option.splits)
  qed
  have stamps: "stamp (pts ! j) \<le> stamp (pts ! i)" if "j < i" "i < 12" for i j
    using pt [of i] pt [of j] that point_stamp_mono [of ?lst ?cur j _ i] by (auto simp: mk_PointData_def)
  have l0: "0 \<le> (of_int (uint ?lst) :: real)" by (simp only: of_int_0_le_iff uint_ge_0)
  have bounds: "of_int (uint ?lst) * (1 - 1 / 2 ^ 53 :: real) \<le> of_int (uint (stamp (pts ! i))) \<and>
       of_int (uint (stamp (pts ! i))) \<le> of_int (uint ?cur) * (1 + 6 / 2 ^ 53 :: real) \<and>
       (uint ?cur < 2 ^ 50 \<longrightarrow> ?lst \<le> stamp (pts ! i) \<and> stamp (pts ! i) \<le> ?cur)" if i: "i < 12" for i
  proof -
    obtain st where st: "point_stamp ?lst ?cur i = Some st" "stamp (pts ! i) = st"
      using pt [OF i] by (auto simp: mk_PointData_def)
    obtain st' where "point_stamp ?lst ?cur i = Some st'" "to_double (of_int (uint ?lst)) \<le> of_int (uint st')"
      "of_int (uint st') \<le> of_int (uint ?cur) * (1 + 6 / 2 ^ 53 :: real)"
      by (rule point_stamp_bounds [OF le i small])
    with st to_double_ge [OF l0] show ?thesis
      using point_stamp_between [OF le i _ st(1)] by (auto intro: order_trans)
  qed
  have data: "distance (pts ! i) = raw_distance (point ?f ! i) \<and> intensity (pts ! i) = raw_intensity (point ?f ! i) \<and>
      (let start = unat (start_angle ?f); turn = (unat (end_angle ?f) + 36000 - start) mod 36000;
           a = real (start + i * (turn div 11)) / 100
       in angle (pts ! i) = (if a \<ge> 360 then a - 360 else a)) \<and>
      0 \<le> angle (pts ! i) \<and> angle (pts ! i) < 360" if i: "i < 12" for i
    using pt [OF i] point_angle_range [OF start i] by (auto simp: mk_PointData_def point_angle_eq [OF start] Let_def)
  let ?p' = "p\<lparr>is_poweron_comm_normal := True, clock_reads := Suc (clock_reads p),
      pkg_speed := real (unat (speed ?f)), pkg_timestamp := timestamp ?f,
      frame_tmp := frame_tmp p @ pts, last_pkg_timestamp := ?cur\<rparr>"
  have run: "process_pkg p = Inr ?p'"
    using assms(1-3) pts(1) by (simp add: process_pkg_def Let_def call_clock_def del: POINT_PER_PACK_eq)
  show ?thesis
  proof (intro exI [of _ ?p'] exI [of _ pts] conjI)
    show "\<forall>i < 12. distance (pts ! i) = raw_distance (point ?f ! i) \<and> intensity (pts ! i) = raw_intensity (point ?f ! i) \<and>
       (let start = unat (start_angle ?f); turn = (unat (end_angle ?f) + 36000 - start) mod 36000;
            a = real (start + i * (turn div 11)) / 100
        in angle (pts ! i) = (if a \<ge> 360 then a - 360 else a)) \<and>
       0 \<le> angle (pts ! i) \<and> angle (pts ! i) < 360 \<and>
       of_int (uint ?lst) * (1 - 1 / 2 ^ 53 :: real) \<le> of_int (uint (stamp (pts ! i))) \<and>
       of_int (uint (stamp (pts ! i))) \<le> of_int (uint ?cur) * (1 + 6 / 2 ^ 53 :: real) \<and>
       (uint ?cur < 2 ^ 50 \<longrightarrow> ?lst \<le> stamp (pts ! i) \<and> stamp (pts ! i) \<le> ?cur) \<and>
       (\<forall>j < i. stamp (pts ! j) \<le> stamp (pts ! i))"
      using data bounds stamps by blast
  qed (rule run, simp, rule len, simp)
qed

text \<open>
  At nanoseconds since 1970 a \<open>double\<close> has a resolution of 256: the first point of a frame can be
  stamped 100 ns before the clock reading the frame starts from.
\<close>

theorem stamp_before_clock:
  "point_stamp 1700000000000000100 1700000000001000100 0 = Some 1700000000000000000"
proof -
  have l: "to_double 1700000000000000100 = 1700000000000000000"
  proof -
    have e: "binary_exponent 1700000000000000100 = 60" by (intro binary_exponent_eqI) simp_all
    have "\<lfloor>1700000000000000100 / 256 :: real\<rfloor> = 6640625000000000" by (simp add: floor_eq_iff)
    then have "round_half_even (1700000000000000100 / 256) = 6640625000000000"
      by (simp add: round_half_even_def Let_def)
    then show ?thesis by (simp add: to_double_pos_eq e)
  qed
  have l2: "to_double 1700000000000000000 = 1700000000000000000"
    using to_double_idem [of 1700000000000000100] unfolding l .
  show ?thesis
    by (simp add: point_stamp_def l l2 real_to_u64_def trunc_int_def fits_unsigned_def)
qed

text \<open>C27: \<open>AssemblePacket\<close> reports a turn only at a wrap of the angle, from above 340 to below 20
  degrees: the points before the wrap leave the queue and go through the filter, when it is on; the
  first turn is dropped, and of a later one exactly the points the filter returns are put into the
  mailbox, in the order of their stamps, and the flag is raised. Otherwise it leaves everything but
  the front of the queue as it is, and drops that only when it is longer than a turn of the measured
  speed can be, 1.4 times the points of one at a wrap, or twice.\<close>

theorem AssemblePacket_turn:
  assumes "AssemblePacket junk p = Inr (full_turn, p')"
  shows "(full_turn \<longrightarrow> (\<exists>c ps. 0 < c \<and> c < length (frame_tmp p) \<and>
     angle (frame_tmp p ! c) < 20 \<and> angle (frame_tmp p ! (c - 1)) > 340 \<and>
     (if is_filter p
      then Filter (new_Tofbf junk (trunc_int (pkg_speed p)) (product_type p)) (take c (frame_tmp p)) = Inr ps
      else ps = take c (frame_tmp p)) \<and>
     frame_tmp p' = drop c (frame_tmp p) \<and> \<not> first_frame p' \<and>
     (if first_frame p then laser_scan_data p' = laser_scan_data p \<and> is_frame_ready p' = is_frame_ready p
      else is_frame_ready p' \<and> sorted (map stamp (laser_scan_data p')) \<and>
           mset (laser_scan_data p') = mset ps))) \<and>
    (\<not> full_turn \<longrightarrow> (\<exists>c. p' = p\<lparr>frame_tmp := drop c (frame_tmp p)\<rparr> \<and>
       (c = 0 \<or> real c * (pkg_speed p / 360) > of_int (measure_point_frequence p) * 1.4
         \<or> real c * (pkg_speed p / 360) > of_int (measure_point_frequence p) * 2)))"
  using assms assemble_loop_turn [of junk "frame_tmp p" 0 0 p p']
    assemble_loop_False [of junk "frame_tmp p" 0 0 "[]" p p']
  unfolding AssemblePacket_def turn_taken_def too_long_def GetSpeed_def by (cases full_turn) simp_all

section \<open>Witnesses\<close>

definition sample_pkg :: LiPkg where
  "sample_pkg = (new_LiPkg ((rx_init sample_frame)\<lparr>rx_pkg := sample_frame\<rparr>))
     \<lparr>get_timestamp := Some (\<lambda>_. 100000), last_pkg_timestamp := 99000, first_frame := False,
      is_filter := False, pkg_speed := 3600,
      frame_tmp := [mk_PointData 350 100 20 7, mk_PointData 10 200 30 9]\<rparr>"

lemma sample_plausible: "plausible_frame (rx_pkg (parser sample_pkg)) (measure_point_frequence sample_pkg)"
  by (simp add: plausible_frame_def angle_diff_int_def sample_pkg_def new_LiPkg_def sample_frame_def
      signed_modulo_int_def signed_divide_int_def)

theorem Parse_total_witness: "\<exists>p'. Parse [0x54, 0x2C, 7] sample_pkg = Inr p' \<and> clock_ok p'"
  by (rule Parse_total) (simp add: clock_ok_def sample_pkg_def)

theorem process_pkg_clock_backwards_witness:
  "process_pkg (sample_pkg\<lparr>last_pkg_timestamp := 100001\<rparr>) = Inl Undefined_Behaviour"
  by (rule process_pkg_clock_backwards [where clk = "\<lambda>_. 100000"])
    (use sample_plausible in \<open>simp_all add: sample_pkg_def\<close>)

theorem process_pkg_points_witness:
  "\<exists>p' pts. process_pkg sample_pkg = Inr p' \<and> frame_tmp p' = frame_tmp sample_pkg @ pts \<and> length pts = 12"
  using process_pkg_points [OF sample_plausible, of "\<lambda>_. 100000"]
  by (auto simp: sample_pkg_def sample_frame_def new_LiPkg_def)

theorem AssemblePacket_turn_witness:
  "\<exists>p'. AssemblePacket (sample_tofbf NO_FILTER) sample_pkg = Inr (True, p') \<and> is_frame_ready p' \<and>
     mset (laser_scan_data p') = {#mk_PointData 350 100 20 7#}"
proof -
  have "\<exists>p'. AssemblePacket (sample_tofbf NO_FILTER) sample_pkg = Inr (True, p')"
    by (simp add: AssemblePacket_def sample_pkg_def new_LiPkg_def GetSpeed_def run_filter_def
        mk_PointData_def Let_def)
  then obtain p' where p': "AssemblePacket (sample_tofbf NO_FILTER) sample_pkg = Inr (True, p')" ..
  from AssemblePacket_turn [OF this] show ?thesis
    by (intro exI [of _ p'] conjI p') (auto simp: sample_pkg_def new_LiPkg_def less_Suc_eq mk_PointData_def)
qed

end
