(* ===== verification/Lidar_Driver.thy ===== *)
theory Lidar_Driver
  imports Lidar_Pkg
begin

text \<open>
  Class \<open>LDLidarDriver\<close> of \<^verbatim>\<open>ldlidar_driver/src/core/ldlidar_driver.cpp\<close>: starting over a serial
  line or a socket, stopping, waiting for the first frame and polling for scans.

  The transports (\<open>SerialInterfaceLinux\<close>, \<open>TCPSocketInterfaceLinux\<close>, \<open>UDPSocketInterfaceLinux\<close>)
  wrap system calls; here an operation takes what they answer as an argument, their own model is in
  \<open>Lidar_Transport\<close>. The receive thread is a
  transition of its own, \<open>CommReadCallback\<close> on the bytes of one read. A \<open>steady_clock\<close> time point is
  its number of nanoseconds. The default arguments of the two \<open>Start\<close> overloads are the callers'.
\<close>

datatype CommunicationMode =
    COMM_NO_NULL | COMM_SERIAL_MODE | COMM_UDP_CLIENT_MODE | COMM_UDP_SERVER_MODE
  | COMM_TCP_CLIENT_MODE | COMM_TCP_SERVER_MODE

record LDLidarDriver =
  is_ok :: bool
  is_start_flag :: bool
  register_get_timestamp_handle :: "(nat \<Rightarrow> u64) option"
  comm_pkg :: LiPkg
  serial_open :: bool
  tcp_open :: bool
  udp_open :: bool
  last_pubdata_times :: int

definition new_LDLidarDriver :: "rx \<Rightarrow> int \<Rightarrow> LDLidarDriver" where
  "new_LDLidarDriver r now =
     \<lparr>is_ok = False, is_start_flag = False, register_get_timestamp_handle = None,
      comm_pkg = new_LiPkg r, serial_open = False, tcp_open = False, udp_open = False,
      last_pubdata_times = now\<rparr>"

definition ms_since :: "int \<Rightarrow> int \<Rightarrow> int" where
  "ms_since now before = (now - before) sdiv 1000000"

definition SetIsOkStatus :: "bool \<Rightarrow> LDLidarDriver \<Rightarrow> LDLidarDriver" where
  "SetIsOkStatus b d = d\<lparr>is_ok := b\<rparr>"

definition RegisterGetTimestampFunctional :: "(nat \<Rightarrow> u64) option \<Rightarrow> LDLidarDriver \<Rightarrow> LDLidarDriver" where
  "RegisterGetTimestampFunctional h d = d\<lparr>register_get_timestamp_handle := h\<rparr>"

definition EnableFilterAlgorithnmProcess :: "bool \<Rightarrow> LDLidarDriver \<Rightarrow> LDLidarDriver" where
  "EnableFilterAlgorithnmProcess b d = d\<lparr>comm_pkg := EnableFilter b (comm_pkg d)\<rparr>"

text \<open>What both overloads do to the packet handler before they open a transport.\<close>

definition prepare_pkg :: "LDType \<Rightarrow> LDLidarDriver \<Rightarrow> LDLidarDriver" where
  "prepare_pkg product_name d =
     d\<lparr>comm_pkg := SetProductType product_name
        (Lidar_Pkg.RegisterTimestampGetFunctional (register_get_timestamp_handle d)
          (ClearDataProcessStatus (comm_pkg d)))\<rparr>"

definition started :: "LDLidarDriver \<Rightarrow> LDLidarDriver" where
  "started d = SetIsOkStatus True (d\<lparr>is_start_flag := True\<rparr>)"

definition Start_serial ::
  "LDType \<Rightarrow> string \<Rightarrow> u32 \<Rightarrow> CommunicationMode \<Rightarrow> bool \<Rightarrow> LDLidarDriver \<Rightarrow> bool \<times> LDLidarDriver" where
  "Start_serial product_name serial_port_name serial_baudrate comm_mode open_ok d =
     (if is_start_flag d then (True, d)
      else if product_name = NO_VERSION then (False, d)
      else if serial_port_name = [] \<or> serial_baudrate = 0 then (False, d)
      else if register_get_timestamp_handle d = None then (False, d)
      else
        let d1 = prepare_pkg product_name d in
        if comm_mode = COMM_SERIAL_MODE then
          if \<not> open_ok then (False, d1)
          else (True, started (d1\<lparr>serial_open := True\<rparr>))
        else (False, d1))"

text \<open>\<open>while (!IsClientAck()) usleep(1000)\<close>: \<open>None\<close> when no client ever answers.\<close>

partial_function (option) wait_client_ack :: "(nat \<Rightarrow> bool) \<Rightarrow> nat \<Rightarrow> nat option" where
  "wait_client_ack ack k = (if ack k then Some k else wait_client_ack ack (Suc k))"

text \<open>
  The socket overload. \<open>socket_ok\<close>: \<open>CreateSocket\<close> succeeds; \<open>sent\<close>: \<open>TransToNet\<close> of the
  greeting succeeds; \<open>ack\<close>: what \<open>IsClientAck\<close> answers at each poll. \<open>None\<close>: it never returns.
\<close>

definition Start_network ::
  "LDType \<Rightarrow> string option \<Rightarrow> string option \<Rightarrow> CommunicationMode \<Rightarrow> bool \<Rightarrow> bool \<Rightarrow> (nat \<Rightarrow> bool)
   \<Rightarrow> LDLidarDriver \<Rightarrow> (bool \<times> LDLidarDriver) option" where
  "Start_network product_name server_ip server_port comm_mode socket_ok sent ack d =
     (if is_start_flag d then Some (True, d)
      else if product_name = NO_VERSION then Some (False, d)
      else if server_ip = None \<or> server_port = None then Some (False, d)
      else if comm_mode = COMM_NO_NULL \<or> comm_mode = COMM_SERIAL_MODE then Some (False, d)
      else if register_get_timestamp_handle d = None then Some (False, d)
      else
        let d1 = prepare_pkg product_name d in
        case comm_mode of
          COMM_TCP_CLIENT_MODE \<Rightarrow>
            if \<not> socket_ok then Some (False, d1) else Some (True, started (d1\<lparr>tcp_open := True\<rparr>))
        | COMM_TCP_SERVER_MODE \<Rightarrow>
            if \<not> socket_ok then Some (False, d1) else Some (True, started (d1\<lparr>tcp_open := True\<rparr>))
        | COMM_UDP_CLIENT_MODE \<Rightarrow>
            if \<not> socket_ok then Some (False, d1)
            else if \<not> sent then Some (False, d1\<lparr>udp_open := True\<rparr>)
            else Some (True, started (d1\<lparr>udp_open := True\<rparr>))
        | COMM_UDP_SERVER_MODE \<Rightarrow>
            if \<not> socket_ok then Some (False, d1)
            else (case wait_client_ack ack 0 of
                    None \<Rightarrow> None
                  | Some _ \<Rightarrow> Some (True, started (d1\<lparr>udp_open := True\<rparr>)))
        | _ \<Rightarrow> Some (False, d1))"

definition Stop :: "LDLidarDriver \<Rightarrow> bool \<times> LDLidarDriver" where
  "Stop d =
     (if \<not> is_start_flag d then (True, d)
      else (True, SetIsOkStatus False
              (d\<lparr>serial_open := False, tcp_open := False, udp_open := False, is_start_flag := False\<rparr>)))"

text \<open>
  \<open>WaitLidarCommConnect\<close>: \<open>rcv k\<close> is what the receive thread does to the packet handler before the
  \<open>k\<close>-th poll, \<open>now k\<close> the clock after it. The loop polls at least once and stops at the first
  poll that sees a frame or ends with the timeout reached.
\<close>

partial_function (option) wait_comm_loop ::
  "(nat \<Rightarrow> LiPkg \<Rightarrow> LiPkg) \<Rightarrow> (nat \<Rightarrow> int) \<Rightarrow> int \<Rightarrow> int \<Rightarrow> nat \<Rightarrow> LiPkg \<Rightarrow> (bool \<times> nat \<times> LiPkg) option" where
  "wait_comm_loop rcv now last_time timeout k p =
     (let (seen, p1) = GetLidarPowerOnCommStatus (rcv k p) in
      if \<not> seen \<and> ms_since (now k) last_time < timeout
      then wait_comm_loop rcv now last_time timeout (Suc k) p1
      else Some (seen, k, p1))"

definition WaitLidarCommConnect ::
  "(nat \<Rightarrow> LiPkg \<Rightarrow> LiPkg) \<Rightarrow> (nat \<Rightarrow> int) \<Rightarrow> int \<Rightarrow> int \<Rightarrow> LDLidarDriver \<Rightarrow> (bool \<times> LDLidarDriver) option" where
  "WaitLidarCommConnect rcv now last_time timeout d =
     (case wait_comm_loop rcv now last_time timeout 0 (comm_pkg d) of
        None \<Rightarrow> None
      | Some (is_recvflag, k, p) \<Rightarrow>
          if is_recvflag then Some (True, d\<lparr>comm_pkg := p, last_pubdata_times := now k\<rparr>)
          else Some (False, d\<lparr>comm_pkg := p\<rparr>))"

text \<open>
  \<open>GetLaserScanData(Points2D&, timeout)\<close>; \<open>now\<close> is the clock at the call, \<open>m1\<close> and \<open>m2\<close> what the
  receive thread does between the critical sections of the poll.
\<close>

definition GetLaserScanData ::
  "(LiPkg \<Rightarrow> LiPkg) \<Rightarrow> (LiPkg \<Rightarrow> LiPkg) \<Rightarrow> int \<Rightarrow> int \<Rightarrow> LDLidarDriver \<Rightarrow> LidarStatus \<times> PointData list option \<times> LDLidarDriver" where
  "GetLaserScanData m1 m2 now timeout d =
     (if \<not> is_start_flag d then (STOP, None, d)
      else
        let status = GetLidarStatus (comm_pkg d) in
        if status = NORMAL then
          let (dst, p) = pkg_GetLaserScanData m1 m2 (comm_pkg d) in
          (case dst of
             Some pts \<Rightarrow> (NORMAL, Some pts, d\<lparr>comm_pkg := p, last_pubdata_times := now\<rparr>)
           | None \<Rightarrow>
               if ms_since now (last_pubdata_times d) > timeout
               then (DATA_TIME_OUT, None, d\<lparr>comm_pkg := p\<rparr>)
               else (DATA_WAIT, None, d\<lparr>comm_pkg := p\<rparr>))
        else (status, None, d\<lparr>last_pubdata_times := now\<rparr>))"

record LaserScan =
  scan_stamp :: u64
  scan_points :: "PointData list"

text \<open>\<open>GetLaserScanData(LaserScan&, timeout)\<close>: \<open>front()\<close> of an empty vector is undefined.\<close>

definition GetLaserScan ::
  "(LiPkg \<Rightarrow> LiPkg) \<Rightarrow> (LiPkg \<Rightarrow> LiPkg) \<Rightarrow> int \<Rightarrow> int \<Rightarrow> LDLidarDriver \<Rightarrow> fault + (LidarStatus \<times> LaserScan option \<times> LDLidarDriver)" where
  "GetLaserScan m1 m2 now timeout d =
     (case GetLaserScanData m1 m2 now timeout d of
        (st, Some pts, d1) \<Rightarrow>
          (case pts of
             [] \<Rightarrow> Inl Undefined_Behaviour
           | q # _ \<Rightarrow> Inr (st, Some \<lparr>scan_stamp = stamp q, scan_points = pts\<rparr>, d1))
      | (st, None, d1) \<Rightarrow> Inr (st, None, d1))"

definition GetLidarScanFreq :: "LDLidarDriver \<Rightarrow> double option" where
  "GetLidarScanFreq d = (if \<not> is_start_flag d then None else Some (GetSpeed (comm_pkg d)))"

section \<open>The driver as a state machine\<close>

datatype drv_event =
    Register "(nat \<Rightarrow> u64) option"
  | Enable_Filter bool
  | Start_Serial LDType string u32 CommunicationMode bool
  | Start_Network LDType "string option" "string option" CommunicationMode bool bool "nat \<Rightarrow> bool"
  | Stop_Driver
  | Receive "u8 list"
  | Poll "u8 list list" "u8 list list" int int

text \<open>
  A \<open>Start\<close> that never returns leaves no later state: it is a fault of the run. Bytes arrive only
  over an open transport, also between the critical sections of a poll.
\<close>

definition drv_step :: "Tofbf \<Rightarrow> LDLidarDriver \<Rightarrow> drv_event \<Rightarrow> fault + LDLidarDriver" where
  "drv_step junk d e =
     (case e of
        Register h \<Rightarrow> Inr (RegisterGetTimestampFunctional h d)
      | Enable_Filter b \<Rightarrow> Inr (EnableFilterAlgorithnmProcess b d)
      | Start_Serial ty port baud m ok \<Rightarrow> Inr (snd (Start_serial ty port baud m ok d))
      | Start_Network ty ip port m ok sent ack \<Rightarrow>
          (case Start_network ty ip port m ok sent ack d of
             None \<Rightarrow> Inl No_Return
           | Some (_, d1) \<Rightarrow> Inr d1)
      | Stop_Driver \<Rightarrow> Inr (snd (Stop d))
      | Receive bytes \<Rightarrow>
          if serial_open d \<or> tcp_open d \<or> udp_open d then
            (case CommReadCallback junk bytes (comm_pkg d) of
               Inl f \<Rightarrow> Inl f
             | Inr p \<Rightarrow> Inr (d\<lparr>comm_pkg := p\<rparr>))
          else Inr d
      | Poll b1 b2 now timeout \<Rightarrow>
          Inr (snd (snd (GetLaserScanData (reads junk b1) (reads junk b2) now timeout d))))"

section \<open>What a read leaves alone\<close>

definition same_setup :: "LiPkg \<Rightarrow> LiPkg \<Rightarrow> bool" where
  "same_setup p q \<longleftrightarrow> get_timestamp q = get_timestamp p \<and> product_type q = product_type p \<and>
     lidarstatus q = lidarstatus p"

definition mailbox_ok :: "LiPkg \<Rightarrow> bool" where
  "mailbox_ok p \<longleftrightarrow> (is_frame_ready p \<longrightarrow> laser_scan_data p \<noteq> [])"

lemma same_setup_refl [simp]: "same_setup p p"
  by (simp add: same_setup_def)

lemma same_setup_trans: "same_setup p q \<Longrightarrow> same_setup q r \<Longrightarrow> same_setup p r"
  by (simp add: same_setup_def)

lemma call_clock_frame:
  "call_clock p = Inr (t, q) \<Longrightarrow> q = p\<lparr>clock_reads := Suc (clock_reads p)\<rparr>"
  by (auto simp: call_clock_def split: option.splits)

lemma process_pkg_frame:
  "process_pkg p = Inr q \<Longrightarrow> same_setup p q \<and> (mailbox_ok p \<longrightarrow> mailbox_ok q)"
  by (auto simp: process_pkg_def Let_def same_setup_def mailbox_ok_def dest!: call_clock_frame
      split: if_splits sum.splits option.splits simp del: POINT_PER_PACK_eq)

lemma Parse_frame: "Parse bs p = Inr q \<Longrightarrow> same_setup p q \<and> (mailbox_ok p \<longrightarrow> mailbox_ok q)"
proof (induction bs arbitrary: p)
  case (Cons b bs)
  obtain ok r where a: "AnalysisOne b (parser p) = (ok, r)" by (cases "AnalysisOne b (parser p)")
  have s: "same_setup p (p\<lparr>parser := r\<rparr>) \<and> (mailbox_ok p \<longrightarrow> mailbox_ok (p\<lparr>parser := r\<rparr>))"
    by (simp add: same_setup_def mailbox_ok_def)
  from Cons.prems a show ?case
    using Cons.IH process_pkg_frame s
    by (auto simp: Let_def split: if_splits sum.splits) (metis same_setup_trans)+
qed simp

lemma assemble_loop_frame:
  "assemble_loop junk ns cnt la data p = Inr (r, q) \<Longrightarrow> same_setup p q \<and> (mailbox_ok p \<longrightarrow> mailbox_ok q)"
  by (induction ns arbitrary: cnt la data)
    (auto simp: Let_def erase_front_drop same_setup_def mailbox_ok_def SetFrameReady_def SetLaserScanData_def
      split: if_splits sum.splits)

lemma CommReadCallback_frame:
  "CommReadCallback junk bs p = Inr q \<Longrightarrow> same_setup p q \<and> (mailbox_ok p \<longrightarrow> mailbox_ok q)"
  by (auto simp: CommReadCallback_def AssemblePacket_def split: sum.splits
      dest!: Parse_frame assemble_loop_frame intro: same_setup_trans)

lemma reads_frame: "same_setup p (reads junk bss p) \<and> (mailbox_ok p \<longrightarrow> mailbox_ok (reads junk bss p))"
proof (induction bss arbitrary: p)
  case (Cons bs bss)
  then show ?case
    by (auto split: sum.split dest!: CommReadCallback_frame intro: same_setup_trans)
qed simp

lemma process_pkg_no_exception:
  "get_timestamp p \<noteq> None \<Longrightarrow> process_pkg p \<noteq> Inl Uncaught_Exception"
  by (auto simp: process_pkg_def Let_def call_clock_def split: option.splits simp del: POINT_PER_PACK_eq)

lemma Parse_no_exception:
  "get_timestamp p \<noteq> None \<Longrightarrow> Parse bs p \<noteq> Inl Uncaught_Exception"
proof (induction bs arbitrary: p)
  case (Cons b bs)
  obtain ok r where a: "AnalysisOne b (parser p) = (ok, r)" by (cases "AnalysisOne b (parser p)")
  let ?p = "p\<lparr>parser := r\<rparr>"
  have n: "process_pkg ?p \<noteq> Inl Uncaught_Exception"
    using Cons.prems by (intro process_pkg_no_exception) simp
  show ?case
  proof (cases "process_pkg ?p")
    case (Inr p2)
    with process_pkg_frame [OF Inr] Cons.prems have "get_timestamp p2 \<noteq> None"
      by (simp add: same_setup_def)
    with Cons.IH [of p2] Cons.IH [of ?p] Cons.prems a Inr show ?thesis by (simp add: Let_def)
  qed (use n a Cons.IH [of ?p] Cons.prems in \<open>auto simp: Let_def\<close>)
qed simp

lemma Filter_fault: "Filter t tmp = Inl f \<Longrightarrow> f = Undefined_Behaviour"
  by (auto simp: Filter_def NearFilter_def near_join_def Let_def
      split: FilterType.splits if_splits sum.splits prod.splits)

lemma assemble_loop_fault: "assemble_loop junk ns cnt la data p = Inl f \<Longrightarrow> f = Undefined_Behaviour"
  by (induction ns arbitrary: cnt la data)
    (auto simp: Let_def run_filter_def split: if_splits sum.splits dest: Filter_fault)

lemma CommReadCallback_no_exception:
  "get_timestamp p \<noteq> None \<Longrightarrow> CommReadCallback junk bs p \<noteq> Inl Uncaught_Exception"
  using Parse_no_exception [of p bs]
  by (auto simp: CommReadCallback_def AssemblePacket_def split: sum.splits dest: assemble_loop_fault)

section \<open>The invariant of the driver\<close>

definition drv_inv :: "LDLidarDriver \<Rightarrow> bool" where
  "drv_inv d \<longleftrightarrow> is_ok d = is_start_flag d \<and>
     (is_start_flag d \<or> serial_open d \<or> tcp_open d \<or> udp_open d \<longrightarrow>
        get_timestamp (comm_pkg d) \<noteq> None \<and> product_type (comm_pkg d) \<noteq> NO_VERSION) \<and>
     lidarstatus (comm_pkg d) = NORMAL \<and> mailbox_ok (comm_pkg d)"

lemma drv_inv_init: "drv_inv (new_LDLidarDriver r now)"
  by (simp add: drv_inv_def new_LDLidarDriver_def new_LiPkg_def mailbox_ok_def)

lemma prepare_pkg_fields:
  "get_timestamp (comm_pkg (prepare_pkg ty d)) = register_get_timestamp_handle d"
  "product_type (comm_pkg (prepare_pkg ty d)) = ty"
  "lidarstatus (comm_pkg (prepare_pkg ty d)) = NORMAL"
  "is_frame_ready (comm_pkg (prepare_pkg ty d)) = False"
  "is_ok (prepare_pkg ty d) = is_ok d" "is_start_flag (prepare_pkg ty d) = is_start_flag d"
  by (cases ty; simp add: prepare_pkg_def SetProductType_def Lidar_Pkg.RegisterTimestampGetFunctional_def
      ClearDataProcessStatus_def)+

lemmas driver_ops = Start_serial_def Start_network_def Stop_def started_def SetIsOkStatus_def
  RegisterGetTimestampFunctional_def EnableFilterAlgorithnmProcess_def EnableFilter_def
  GetLaserScanData_def pkg_GetLaserScanData_def ResetFrameReady_def IsFrameReady_def

lemma prepared_inv:
  assumes "drv_inv d" "register_get_timestamp_handle d \<noteq> None" "ty \<noteq> NO_VERSION"
  shows "drv_inv (prepare_pkg ty d)" "drv_inv (started (prepare_pkg ty d))"
    "drv_inv (prepare_pkg ty d\<lparr>udp_open := True\<rparr>)"
    "drv_inv (started (prepare_pkg ty d\<lparr>serial_open := True\<rparr>))"
    "drv_inv (started (prepare_pkg ty d\<lparr>tcp_open := True\<rparr>))"
    "drv_inv (started (prepare_pkg ty d\<lparr>udp_open := True\<rparr>))"
  using assms
  by (simp_all add: drv_inv_def mailbox_ok_def prepare_pkg_fields started_def SetIsOkStatus_def)

lemma Start_serial_inv: "drv_inv d \<Longrightarrow> drv_inv (snd (Start_serial ty port baud m ok d))"
  by (simp add: Start_serial_def Let_def prepared_inv)

lemma Start_network_inv:
  "drv_inv d \<Longrightarrow> Start_network ty ip port m ok sent ack d = Some (r, d') \<Longrightarrow> drv_inv d'"
  by (cases m) (auto simp: Start_network_def Let_def prepared_inv split: if_splits option.splits)

lemma Stop_inv: "drv_inv d \<Longrightarrow> drv_inv (snd (Stop d))"
  by (simp add: drv_inv_def Stop_def SetIsOkStatus_def)

lemma GetLaserScanData_inv:
  assumes "drv_inv d"
  shows "drv_inv (snd (snd (GetLaserScanData (reads junk b1) (reads junk b2) now timeout d)))"
proof -
  let ?p1 = "ResetFrameReady (reads junk b1 (comm_pkg d))"
  have "same_setup (comm_pkg d) (reads junk b1 (comm_pkg d))" using reads_frame by blast
  then have s1: "same_setup (comm_pkg d) ?p1" by (simp add: same_setup_def ResetFrameReady_def)
  have "mailbox_ok ?p1" by (simp add: mailbox_ok_def ResetFrameReady_def)
  then have "mailbox_ok (reads junk b2 ?p1)" "same_setup ?p1 (reads junk b2 ?p1)" using reads_frame by blast+
  with s1 assms show ?thesis
    by (auto simp: drv_inv_def same_setup_def GetLaserScanData_def pkg_GetLaserScanData_def IsFrameReady_def
        GetLidarStatus_def Let_def)
qed

lemma Receive_inv:
  "drv_inv d \<Longrightarrow> CommReadCallback junk bytes (comm_pkg d) = Inr p \<Longrightarrow> drv_inv (d\<lparr>comm_pkg := p\<rparr>)"
  by (auto simp: drv_inv_def same_setup_def dest!: CommReadCallback_frame)

lemma Register_inv: "drv_inv d \<Longrightarrow> drv_inv (RegisterGetTimestampFunctional h d)"
  by (simp add: drv_inv_def RegisterGetTimestampFunctional_def)

lemma Enable_inv: "drv_inv d \<Longrightarrow> drv_inv (EnableFilterAlgorithnmProcess b d)"
  by (simp add: drv_inv_def EnableFilterAlgorithnmProcess_def EnableFilter_def mailbox_ok_def)

lemma drv_step_inv:
  assumes "drv_inv d" "drv_step junk d e = Inr d'"
  shows "drv_inv d'"
proof (cases e)
  case (Start_Network ty ip port m ok sent ack)
  with assms obtain r where "Start_network ty ip port m ok sent ack d = Some (r, d')"
    by (auto simp: drv_step_def split: option.splits)
  with assms(1) show ?thesis by (rule Start_network_inv)
next
  case (Receive bytes)
  show ?thesis
  proof (cases "d' = d")
    case False
    with assms(2) Receive obtain p where "CommReadCallback junk bytes (comm_pkg d) = Inr p" "d' = d\<lparr>comm_pkg := p\<rparr>"
      by (auto simp: drv_step_def split: if_splits sum.splits)
    with assms(1) show ?thesis by (simp add: Receive_inv)
  qed (use assms in simp)
qed (use assms in \<open>auto simp: drv_step_def Register_inv Enable_inv Start_serial_inv Stop_inv GetLaserScanData_inv\<close>)

interpretation lidar_driver: fault_machine "drv_step junk" drv_inv for junk
  by unfold_locales (rule drv_step_inv)

lemma drv_step_no_exception: "drv_inv d \<Longrightarrow> drv_step junk d e \<noteq> Inl Uncaught_Exception"
  using CommReadCallback_no_exception [of "comm_pkg d" junk]
  by (cases e) (auto simp: drv_step_def drv_inv_def split: option.splits sum.splits)

lemma wait_comm_loop_Suc:
  "wait_comm_loop rcv now t0 timeout k p \<noteq> None" if "\<exists>n. timeout \<le> ms_since (now (k + n)) t0"
proof -
  from that obtain n where "timeout \<le> ms_since (now (k + n)) t0" by blast
  then show ?thesis
  proof (induction n arbitrary: k p)
    case 0
    then show ?case
      by (subst wait_comm_loop.simps) (auto simp: Let_def split: prod.splits)
  next
    case (Suc n)
    then show ?case
      using Suc.IH [of "Suc k"]
      by (subst wait_comm_loop.simps) (auto simp: Let_def split: prod.splits)
  qed
qed

section \<open>Properties\<close>

text \<open>In every state the driver can reach, the global ok flag is the start flag, a started
  driver has a clock and a product type, and the lidar status is NORMAL: no code sets another one.\<close>

theorem driver_reachable:
  assumes "run_res (drv_step junk) (new_LDLidarDriver r t0) es = Inr d"
  shows "is_ok d = is_start_flag d \<and>
    (is_start_flag d \<longrightarrow> get_timestamp (comm_pkg d) \<noteq> None \<and> product_type (comm_pkg d) \<noteq> NO_VERSION) \<and>
    GetLidarStatus (comm_pkg d) = NORMAL"
  using lidar_driver.run_res_inv [OF drv_inv_init assms]
  by (simp add: drv_inv_def GetLidarStatus_def)

text \<open>No run of the driver ends in a call of an unregistered clock: bytes are interpreted only
  behind a \<open>Start\<close> that has checked and installed one.\<close>

theorem driver_no_exception:
  "run_res (drv_step junk) (new_LDLidarDriver r t0) es \<noteq> Inl Uncaught_Exception"
proof -
  have "drv_inv d \<Longrightarrow> run_res (drv_step junk) d es \<noteq> Inl Uncaught_Exception" for d
    by (induction es arbitrary: d)
      (auto split: sum.splits dest: drv_step_inv drv_step_no_exception)
  then show ?thesis using drv_inv_init by blast
qed

text \<open>What a series of reads does to the mailbox: it holds the last turn completed.\<close>

lemma process_pkg_mailbox:
  "process_pkg p = Inr q \<Longrightarrow> is_frame_ready q = is_frame_ready p \<and> laser_scan_data q = laser_scan_data p"
  by (auto simp: process_pkg_def Let_def dest!: call_clock_frame split: if_splits sum.splits option.splits
      simp del: POINT_PER_PACK_eq)

lemma Parse_mailbox:
  "Parse bs p = Inr q \<Longrightarrow> is_frame_ready q = is_frame_ready p \<and> laser_scan_data q = laser_scan_data p"
proof (induction bs arbitrary: p)
  case (Cons b bs)
  obtain ok r where a: "AnalysisOne b (parser p) = (ok, r)" by (cases "AnalysisOne b (parser p)")
  from Cons.prems a show ?case
    using Cons.IH process_pkg_mailbox by (fastforce simp: Let_def split: if_splits sum.splits)
qed simp

lemma last_append_Cons: "last (x # ys @ zs) = last (last (x # ys) # zs)"
  by (cases zs) auto

lemma CommReadCallback_mailbox:
  assumes "CommReadCallback junk bs p = Inr q"
  shows "is_frame_ready q = (is_frame_ready p \<or> completed junk bs p \<noteq> []) \<and>
    laser_scan_data q = last (laser_scan_data p # completed junk bs p)"
proof -
  from assms obtain p1 r where p1: "Parse bs p = Inr p1" and q: "AssemblePacket junk p1 = Inr (r, q)"
    by (auto simp: CommReadCallback_def split: sum.splits)
  have "(r \<longrightarrow> turn_taken junk p1 q) \<and> (\<not> r \<longrightarrow> (\<exists>c. q = p1\<lparr>frame_tmp := drop c (frame_tmp p1)\<rparr>))"
    using q assemble_loop_turn [of junk "frame_tmp p1" 0 0 p1 q] assemble_loop_False [of junk "frame_tmp p1" 0 0 "[]" p1 q]
    unfolding AssemblePacket_def by (cases r) auto
  with Parse_mailbox [OF p1] show ?thesis
    by (auto simp: completed_def p1 q turn_taken_def)
qed

lemma reads_mailbox:
  "is_frame_ready (reads junk bss p) = (is_frame_ready p \<or> turns junk bss p \<noteq> []) \<and>
   laser_scan_data (reads junk bss p) = last (laser_scan_data p # turns junk bss p)"
proof (induction bss arbitrary: p)
  case (Cons bs bss)
  show ?case
  proof (cases "CommReadCallback junk bs p")
    case (Inr q)
    with CommReadCallback_mailbox [OF Inr] Cons.IH [of q] show ?thesis
      using last_append_Cons [of "laser_scan_data p" "completed junk bs p"] by auto
  qed simp
qed simp

text \<open>C26: Polling a reachable driver always returns, whatever the receive thread reads meanwhile (\<open>b1\<close>
  between the look at the flag and its reset, \<open>b2\<close> between the reset and the copy). It reports NORMAL
  exactly when the driver is started and a turn was ready at its first look, and then hands out the
  newest turn completed before the copy, with the stamp of its first point. After further reads \<open>b3\<close>
  the next poll reports NORMAL exactly when a turn has been completed since the reset. So no turn is
  handed out twice, with one exception that the code has: a turn completed between the reset and the
  copy is handed out by this poll and, when no other follows, once more by the next.\<close>

theorem GetLaserScan_once:
  assumes "run_res (drv_step junk) (new_LDLidarDriver r t0) es = Inr d"
  shows "\<exists>st scan d'. GetLaserScan (reads junk b1) (reads junk b2) now timeout d = Inr (st, scan, d') \<and>
    (st = NORMAL \<longleftrightarrow> is_start_flag d \<and> is_frame_ready (comm_pkg d)) \<and> (scan \<noteq> None \<longleftrightarrow> st = NORMAL) \<and>
    (st = NORMAL \<longrightarrow>
      (let p = ResetFrameReady (reads junk b1 (comm_pkg d));
           newest_turn = last (laser_scan_data (comm_pkg d) # turns junk b1 (comm_pkg d) @ turns junk b2 p);
           next_poll = GetLaserScan m1 m2 now' timeout' (d'\<lparr>comm_pkg := reads junk b3 (comm_pkg d')\<rparr>)
       in scan = Some \<lparr>scan_stamp = stamp (hd newest_turn), scan_points = newest_turn\<rparr> \<and> newest_turn \<noteq> [] \<and>
          (\<forall>st' scan' d''. next_poll = Inr (st', scan', d'') \<longrightarrow>
             (st' = NORMAL \<longleftrightarrow> turns junk b2 p \<noteq> [] \<or> turns junk b3 (comm_pkg d') \<noteq> []) \<and>
             (m1 = id \<and> m2 = id \<and> st' = NORMAL \<and> turns junk b3 (comm_pkg d') = [] \<longrightarrow> scan' = scan))))"
proof -
  have inv: "drv_inv d" using lidar_driver.run_res_inv [OF drv_inv_init assms] .
  have status: "GetLidarStatus (comm_pkg d) = NORMAL" using inv by (simp add: drv_inv_def GetLidarStatus_def)
  let ?p1 = "reads junk b1 (comm_pkg d)" and ?p = "ResetFrameReady (reads junk b1 (comm_pkg d))"
  let ?p2 = "reads junk b2 ?p"
  let ?new = "last (laser_scan_data (comm_pkg d) # turns junk b1 (comm_pkg d) @ turns junk b2 ?p)"
  show ?thesis
  proof (cases "is_start_flag d \<and> is_frame_ready (comm_pkg d)")
    case True
    let ?d = "d\<lparr>comm_pkg := ?p2, last_pubdata_times := now\<rparr>"
    have p: "laser_scan_data ?p = last (laser_scan_data (comm_pkg d) # turns junk b1 (comm_pkg d))"
      "\<not> is_frame_ready ?p"
      using reads_mailbox [of junk b1 "comm_pkg d"] by (simp_all add: ResetFrameReady_def)
    have new: "laser_scan_data ?p2 = ?new"
      using reads_mailbox [of junk b2 ?p] p(1) by (simp only: last_append_Cons)
    have ready: "is_frame_ready ?p2 \<longleftrightarrow> turns junk b2 ?p \<noteq> []"
      using reads_mailbox [of junk b2 ?p] p(2) by simp
    have "mailbox_ok (comm_pkg d)" using inv by (simp add: drv_inv_def)
    then have "mailbox_ok ?p1" using reads_frame by blast
    moreover have "is_frame_ready ?p1" using True reads_mailbox [of junk b1 "comm_pkg d"] by simp
    ultimately have "laser_scan_data ?p \<noteq> []" by (simp add: mailbox_ok_def ResetFrameReady_def)
    moreover have "mailbox_ok ?p2"
      using reads_frame [of ?p junk b2] p(2) by (simp add: mailbox_ok_def)
    ultimately have ne: "laser_scan_data ?p2 \<noteq> []"
      using reads_mailbox [of junk b2 ?p] ready by (cases "turns junk b2 ?p = []") (auto simp: mailbox_ok_def)
    have g: "GetLaserScanData (reads junk b1) (reads junk b2) now timeout d = (NORMAL, Some (laser_scan_data ?p2), ?d)"
      using True status by (simp add: GetLaserScanData_def pkg_GetLaserScanData_def IsFrameReady_def Let_def)
    then have first: "GetLaserScan (reads junk b1) (reads junk b2) now timeout d =
        Inr (NORMAL, Some \<lparr>scan_stamp = stamp (hd ?new), scan_points = ?new\<rparr>, ?d)"
      using ne unfolding GetLaserScan_def g new by (cases ?new) (simp_all add: new)
    let ?q = "reads junk b3 ?p2"
    have q: "is_frame_ready ?q \<longleftrightarrow> turns junk b2 ?p \<noteq> [] \<or> turns junk b3 ?p2 \<noteq> []"
      "turns junk b3 ?p2 = [] \<Longrightarrow> laser_scan_data ?q = ?new"
      using reads_mailbox [of junk b3 ?p2] ready new by simp_all
    have "lidarstatus ?q = NORMAL"
      using status reads_frame [of "comm_pkg d" junk b1] reads_frame [of ?p junk b2] reads_frame [of ?p2 junk b3]
      by (simp add: same_setup_def GetLidarStatus_def ResetFrameReady_def)
    then have second: "(st' = NORMAL \<longleftrightarrow> is_frame_ready ?q) \<and> (m1 = id \<and> m2 = id \<and> st' = NORMAL \<longrightarrow>
         scan' = Some \<lparr>scan_stamp = stamp (hd (laser_scan_data ?q)), scan_points = laser_scan_data ?q\<rparr>)"
      if "GetLaserScan m1 m2 now' timeout' (?d\<lparr>comm_pkg := ?q\<rparr>) = Inr (st', scan', d'')" for st' scan' d''
      using that True
      by (cases "is_frame_ready ?q")
        (auto simp: GetLaserScan_def GetLaserScanData_def pkg_GetLaserScanData_def IsFrameReady_def GetLidarStatus_def
          ResetFrameReady_def Let_def split: list.splits if_splits)
    have rest: "(st' = NORMAL \<longleftrightarrow> turns junk b2 ?p \<noteq> [] \<or> turns junk b3 ?p2 \<noteq> []) \<and>
        (m1 = id \<and> m2 = id \<and> st' = NORMAL \<and> turns junk b3 ?p2 = [] \<longrightarrow>
           scan' = Some \<lparr>scan_stamp = stamp (hd ?new), scan_points = ?new\<rparr>)"
      if "GetLaserScan m1 m2 now' timeout' (?d\<lparr>comm_pkg := ?q\<rparr>) = Inr (st', scan', d'')" for st' scan' d''
      using second [OF that] q by metis
    have pkg: "comm_pkg ?d = ?p2" by simp
    show ?thesis
      unfolding Let_def
    proof (intro exI [of _ NORMAL] exI [of _ "Some \<lparr>scan_stamp = stamp (hd ?new), scan_points = ?new\<rparr>"] exI [of _ ?d]
        conjI impI)
      show "\<forall>st' scan' d''. GetLaserScan m1 m2 now' timeout' (?d\<lparr>comm_pkg := reads junk b3 (comm_pkg ?d)\<rparr>) = Inr (st', scan', d'') \<longrightarrow>
          (st' = NORMAL \<longleftrightarrow> turns junk b2 ?p \<noteq> [] \<or> turns junk b3 (comm_pkg ?d) \<noteq> []) \<and>
          (m1 = id \<and> m2 = id \<and> st' = NORMAL \<and> turns junk b3 (comm_pkg ?d) = [] \<longrightarrow>
             scan' = Some \<lparr>scan_stamp = stamp (hd ?new), scan_points = ?new\<rparr>)"
        unfolding pkg using rest by blast
    qed (use True first ne new in simp_all)
  next
    case False
    with status mailbox.poll_ready [of "reads junk b1" "reads junk b2" "comm_pkg d"] show ?thesis
      by (auto simp: GetLaserScan_def GetLaserScanData_def IsFrameReady_def Let_def split: prod.splits option.splits)
  qed
qed

text \<open>Waiting for the lidar ends: if the clock reaches the timeout at some poll, the wait
  returns, whatever the receive thread does.\<close>

theorem WaitLidarCommConnect_returns:
  assumes "timeout \<le> ms_since (now k) last_time"
  shows "\<exists>r. WaitLidarCommConnect rcv now last_time timeout d = Some r"
  using wait_comm_loop_Suc [of timeout now 0 last_time rcv "comm_pkg d"] assms
  by (auto simp: WaitLidarCommConnect_def split: option.splits)

text \<open>When the greeting of a UDP client cannot be sent, \<open>Start\<close> fails with the socket open and
  the receive callback installed, and \<open>Stop\<close>, which looks at the start flag only, never closes it.\<close>

theorem failed_udp_start_leaks_socket:
  assumes "\<not> is_start_flag d" "register_get_timestamp_handle d = Some h" "ty \<noteq> NO_VERSION"
  shows "\<exists>d'. Start_network ty (Some ip) (Some port) COMM_UDP_CLIENT_MODE True False ack d = Some (False, d') \<and>
    udp_open d' \<and> \<not> is_start_flag d' \<and> Stop d' = (True, d')"
  using assms by (simp add: Start_network_def Stop_def prepare_pkg_fields Let_def)

section \<open>Witnesses\<close>

definition sample_run :: "drv_event list" where
  "sample_run = [Register (Some (\<lambda>_. 1000)), Start_Serial LD_19 ''/dev/ttyUSB0'' 230400 COMM_SERIAL_MODE True]"

lemma sample_run_state:
  "\<exists>d. run_res (drv_step (sample_tofbf NO_FILTER)) (new_LDLidarDriver (rx_init sample_frame) 0) sample_run = Inr d
     \<and> is_start_flag d"
  by (simp add: sample_run_def drv_step_def new_LDLidarDriver_def RegisterGetTimestampFunctional_def
      Start_serial_def Let_def started_def SetIsOkStatus_def prepare_pkg_def)

theorem driver_reachable_witness:
  "\<exists>d. run_res (drv_step (sample_tofbf NO_FILTER)) (new_LDLidarDriver (rx_init sample_frame) 0) sample_run = Inr d
     \<and> is_ok d \<and> get_timestamp (comm_pkg d) \<noteq> None"
  using sample_run_state driver_reachable by blast

theorem GetLaserScan_once_witness:
  "\<exists>d. run_res (drv_step (sample_tofbf NO_FILTER)) (new_LDLidarDriver (rx_init sample_frame) 0) sample_run = Inr d
     \<and> (\<exists>r. GetLaserScan (reads (sample_tofbf NO_FILTER) [[1]]) (reads (sample_tofbf NO_FILTER) []) 5 1500 d = Inr r)"
  using sample_run_state GetLaserScan_once by blast

theorem WaitLidarCommConnect_returns_witness:
  "\<exists>r. WaitLidarCommConnect (\<lambda>_ p. p) (\<lambda>k. 1000000 * int k) 0 3000
     (new_LDLidarDriver (rx_init sample_frame) 0) = Some r"
  by (rule WaitLidarCommConnect_returns [of _ _ 3000])
    (simp add: ms_since_def signed_divide_int_def)

theorem failed_udp_start_leaks_socket_witness:
  "\<exists>d'. Start_network LD_06 (Some ''1'') (Some ''2'') COMM_UDP_CLIENT_MODE True False (\<lambda>_. True)
      ((new_LDLidarDriver (rx_init sample_frame) 0)\<lparr>register_get_timestamp_handle := Some (\<lambda>_. 1)\<rparr>) = Some (False, d')
     \<and> udp_open d'"
  using failed_udp_start_leaks_socket
    [of "(new_LDLidarDriver (rx_init sample_frame) 0)\<lparr>register_get_timestamp_handle := Some (\<lambda>_. 1)\<rparr>"
      "\<lambda>_. 1" LD_06 "''1''" "''2''" "\<lambda>_. True"]
  by (auto simp: new_LDLidarDriver_def)

end
