(* ===== verification/Lidar_Publish.thy ===== *)
theory Lidar_Publish
  imports Lidar_Driver
begin

text \<open>
  The lidar node, \<^verbatim>\<open>ldlidar_stl_ros2/src/demo.cpp\<close>: the conversion of a turn of points into a ROS
  \<open>LaserScan\<close> with one beam per index, the start sequence of \<open>main\<close> and one round of its loop.
  A \<open>float\<close> that may be NaN is an \<open>option\<close>, \<open>None\<close> being NaN. ROS times are nanoseconds.
\<close>

section \<open>Scans\<close>

record LaserScanSetting =
  set_frame_id :: string
  laser_scan_dir :: bool
  enable_angle_crop_func :: bool
  angle_crop_min :: double
  angle_crop_max :: double

record laser_scan_msg =
  msg_stamp :: int
  msg_frame_id :: string
  msg_angle_min :: double
  msg_angle_max :: double
  msg_angle_increment :: "double option"
  msg_time_increment :: double
  msg_scan_time :: double
  msg_range_min :: double
  msg_range_max :: double
  ranges :: "double option list"
  intensities :: "double option list"

text \<open>The function statics: the time of the last scan and whether there was none yet.\<close>

record scan_clock =
  end_scan_time :: int
  first_scan :: bool

definition scan_clock_init :: scan_clock where
  "scan_clock_init = \<lparr>end_scan_time = 0, first_scan = True\<rparr>"

definition ANGLE_TO_RADIAN :: "double \<Rightarrow> double" where
  "ANGLE_TO_RADIAN x = x * 3141.59 / 180000"

text \<open>The step between beams; \<open>None\<close> is the infinite quotient of a scan of one point.\<close>

definition angle_increment :: "int \<Rightarrow> double option" where
  "angle_increment beam_size = (if beam_size - 1 = 0 then None else Some ((2 * pi - 0) / real_of_int (beam_size - 1)))"

definition masked :: "LaserScanSetting \<Rightarrow> PointData \<Rightarrow> bool" where
  "masked setting p \<longleftrightarrow> distance p = 0 \<and> intensity p = 0 \<or>
     enable_angle_crop_func setting \<and> angle p \<ge> angle_crop_min setting \<and> angle p \<le> angle_crop_max setting"

definition point_range :: "LaserScanSetting \<Rightarrow> PointData \<Rightarrow> double option" where
  "point_range setting p = (if masked setting p then None else Some (real (unat (distance p)) / 1000))"

definition point_intensity :: "LaserScanSetting \<Rightarrow> PointData \<Rightarrow> double option" where
  "point_intensity setting p = (if masked setting p then None else Some (real (unat (intensity p))))"

text \<open>\<open>static_cast<int>(ceil((angle - angle_min) / angle_increment))\<close>; a quotient by infinity is 0.\<close>

definition beam_index :: "int \<Rightarrow> PointData \<Rightarrow> int" where
  "beam_index beam_size p = (case angle_increment beam_size of
     None \<Rightarrow> 0
   | Some inc \<Rightarrow> \<lceil>(ANGLE_TO_RADIAN (angle p) - 0) / inc\<rceil>)"

text \<open>The nearer of the stored range and a new one: NaN is replaced, and compares less than nothing.\<close>

definition closer :: "double option \<Rightarrow> double option \<Rightarrow> double option" where
  "closer cur new_range = (case cur of
     None \<Rightarrow> new_range
   | Some c \<Rightarrow> (case new_range of None \<Rightarrow> cur | Some r \<Rightarrow> if r < c then new_range else cur))"

text \<open>One point; an index outside the vectors is undefined, and so is a ceiling no \<open>int\<close> holds.\<close>

definition put_point ::
  "LaserScanSetting \<Rightarrow> int \<Rightarrow> PointData \<Rightarrow> laser_scan_msg \<Rightarrow> fault + laser_scan_msg" where
  "put_point setting beam_size p out =
     (let index = beam_index beam_size p in
      if \<not> fits_signed 32 index then Inl Undefined_Behaviour
      else if index < beam_size then
        let i = (if laser_scan_dir setting then beam_size - index - 1 else index) in
        if 0 \<le> i \<and> i < int (length (ranges out)) then
          Inr (out\<lparr>ranges := (ranges out)[nat i := closer (ranges out ! nat i) (point_range setting p)],
                   intensities := (intensities out)[nat i := point_intensity setting p]\<rparr>)
        else Inl Undefined_Behaviour
      else Inr out)"

fun put_points ::
  "LaserScanSetting \<Rightarrow> int \<Rightarrow> PointData list \<Rightarrow> laser_scan_msg \<Rightarrow> fault + laser_scan_msg" where
  "put_points setting beam_size [] out = Inr out"
| "put_points setting beam_size (p # ps) out = (case put_point setting beam_size p out of
     Inl f \<Rightarrow> Inl f
   | Inr out' \<Rightarrow> put_points setting beam_size ps out')"

definition empty_scan :: "LaserScanSetting \<Rightarrow> int \<Rightarrow> double \<Rightarrow> nat \<Rightarrow> laser_scan_msg" where
  "empty_scan setting start_scan_time scan_time n =
     \<lparr>msg_stamp = start_scan_time, msg_frame_id = set_frame_id setting, msg_angle_min = 0, msg_angle_max = 2 * pi,
      msg_angle_increment = angle_increment (int n),
      msg_time_increment = (if int n \<le> 1 then 0 else scan_time / real_of_int (int n - 1)),
      msg_scan_time = scan_time, msg_range_min = 0.02, msg_range_max = 25,
      ranges = replicate n None, intensities = replicate n None\<rparr>"

definition ToLaserscanMessagePublish ::
  "PointData list \<Rightarrow> double \<Rightarrow> LaserScanSetting \<Rightarrow> int \<Rightarrow> scan_clock \<Rightarrow> fault + (laser_scan_msg option \<times> scan_clock)" where
  "ToLaserscanMessagePublish src lidar_spin_freq setting now c =
     (let start_scan_time = now;
          scan_time = real_of_int (start_scan_time - end_scan_time c) / 1000000000
      in if first_scan c then Inr (None, c\<lparr>first_scan := False, end_scan_time := start_scan_time\<rparr>)
         else
           let beam_size = int (length src) in
           if lidar_spin_freq > 0 then
             (case put_points setting beam_size src (empty_scan setting start_scan_time scan_time (length src)) of
                Inl f \<Rightarrow> Inl f
              | Inr out \<Rightarrow> Inr (Some out, c\<lparr>end_scan_time := start_scan_time\<rparr>))
           else Inr (None, c))"

section \<open>The program\<close>

definition lidar_type :: "string \<Rightarrow> LDType option" where
  "lidar_type product_name =
     (if product_name = ''LDLiDAR_LD06'' then Some LD_06
      else if product_name = ''LDLiDAR_LD19'' then Some LD_19
      else if product_name = ''LDLiDAR_STL27L'' then Some STL_27L
      else None)"

text \<open>\<open>main\<close> up to its loop: the driver it polls, or its exit; \<open>None\<close> when it waits forever.\<close>

definition lidar_main ::
  "string \<Rightarrow> string \<Rightarrow> u32 \<Rightarrow> (nat \<Rightarrow> u64) \<Rightarrow> bool \<Rightarrow> (nat \<Rightarrow> LiPkg \<Rightarrow> LiPkg) \<Rightarrow> (nat \<Rightarrow> int) \<Rightarrow> int
   \<Rightarrow> LDLidarDriver \<Rightarrow> (fault + LDLidarDriver) option" where
  "lidar_main product_name port_name serial_port_baudrate clock open_ok rcv now t0 d0 =
     (case lidar_type product_name of
        None \<Rightarrow> Some (Inl (Process_Exit 1))
      | Some type_name \<Rightarrow>
          let d1 = EnableFilterAlgorithnmProcess True (RegisterGetTimestampFunctional (Some clock) d0) in
          (case Start_serial type_name port_name serial_port_baudrate COMM_SERIAL_MODE open_ok d1 of
             (ok, d2) \<Rightarrow>
               if ok then
                 (case WaitLidarCommConnect rcv now t0 3000 d2 of
                    None \<Rightarrow> None
                  | Some (is_connect, d3) \<Rightarrow> if is_connect then Some (Inr d3) else Some (Inl (Process_Exit 1)))
               else Some (Inl (Process_Exit 1))))"

text \<open>
  One round of the loop; \<open>m1\<close> and \<open>m2\<close> are what the receive thread does during its poll. The
  frequency is only read where the driver writes it.
\<close>

definition lidar_loop ::
  "(LiPkg \<Rightarrow> LiPkg) \<Rightarrow> (LiPkg \<Rightarrow> LiPkg) \<Rightarrow> LaserScanSetting \<Rightarrow> int \<Rightarrow> int \<Rightarrow> LDLidarDriver \<times> scan_clock
   \<Rightarrow> fault + (laser_scan_msg option \<times> LDLidarDriver \<times> scan_clock)" where
  "lidar_loop m1 m2 setting now ros_now = (\<lambda>(d, c).
     case GetLaserScanData m1 m2 now 1500 d of
       (NORMAL, Some laser_scan_points, d') \<Rightarrow>
         (case GetLidarScanFreq d' of
            None \<Rightarrow> Inl Undefined_Behaviour
          | Some lidar_scan_freq \<Rightarrow>
              (case ToLaserscanMessagePublish laser_scan_points lidar_scan_freq setting ros_now c of
                 Inl f \<Rightarrow> Inl f
               | Inr (out, c') \<Rightarrow> Inr (out, d', c')))
     | (_, _, d') \<Rightarrow> Inr (None, d', c))"

text \<open>The program after its start: the receive thread and the rounds of the loop.\<close>

datatype lidar_event = Read_bytes "u8 list" | Round "u8 list list" "u8 list list" int int

definition lidar_step :: "Tofbf \<Rightarrow> LaserScanSetting \<Rightarrow> LDLidarDriver \<times> scan_clock \<Rightarrow> lidar_event
    \<Rightarrow> fault + (LDLidarDriver \<times> scan_clock)" where
  "lidar_step junk setting s e = (case e of
     Read_bytes bytes \<Rightarrow> (case drv_step junk (fst s) (Receive bytes) of Inl f \<Rightarrow> Inl f | Inr d \<Rightarrow> Inr (d, snd s))
   | Round b1 b2 now ros_now \<Rightarrow>
       (case lidar_loop (reads junk b1) (reads junk b2) setting now ros_now s of Inl f \<Rightarrow> Inl f | Inr (_, s') \<Rightarrow> Inr s'))"

section \<open>Indices\<close>

text \<open>The index of a point stays in range: angles are never negative, and a number of beams up to a
  million keeps the ceiling in an \<open>int\<close>.\<close>

definition angle_ok :: "double \<Rightarrow> bool" where
  "angle_ok a \<longleftrightarrow> 0 \<le> a \<and> a \<le> 1100"

lemma angle_increment_pos: "n > 1 \<Longrightarrow> angle_increment (int n) = Some (2 * pi / (real n - 1)) \<and> 0 < 2 * pi / (real n - 1)"
  by (simp add: angle_increment_def)

lemma beam_index_eq:
  assumes "n > 1"
  shows "beam_index (int n) p = \<lceil>angle p * 3141.59 / 180000 * (real n - 1) / (2 * pi)\<rceil>"
proof -
  have "angle p * 3141.59 / 180000 / (2 * pi / (real n - 1)) = angle p * 3141.59 / 180000 * (real n - 1) / (2 * pi)"
    by simp
  with angle_increment_pos [OF assms] show ?thesis by (simp add: beam_index_def ANGLE_TO_RADIAN_def)
qed

lemma beam_index_range:
  assumes "angle_ok (angle p)" "0 < n" "n \<le> 1000000"
  shows "0 \<le> beam_index (int n) p" "beam_index (int n) p \<le> 5000000"
proof -
  have "0 \<le> beam_index (int n) p \<and> beam_index (int n) p \<le> 5000000"
  proof (cases "n = 1")
    case True
    then show ?thesis by (simp add: beam_index_def angle_increment_def)
  next
    case False
    with assms(2) have n: "n > 1" by simp
    let ?x = "angle p * 3141.59 / 180000 * (real n - 1) / (2 * pi)"
    have a: "0 \<le> angle p" "angle p \<le> 1100" using assms(1) by (simp_all add: angle_ok_def)
    have "0 \<le> ?x" using a n by simp
    moreover have "?x \<le> 5000000"
    proof -
      have "angle p * 3141.59 / 180000 \<le> 20" using a by simp
      moreover have "real n - 1 \<le> 1000000" "0 \<le> real n - 1" using assms(3) n by simp_all
      ultimately have "angle p * 3141.59 / 180000 * (real n - 1) \<le> 20 * 1000000"
        using a by (intro mult_mono) auto
      moreover have "4 \<le> 2 * pi" using pi_ge_two by simp
      ultimately have "?x \<le> 20 * 1000000 / 4"
        by (intro frac_le) auto
      then show ?thesis by simp
    qed
    ultimately show ?thesis by (simp add: beam_index_eq [OF n] ceiling_le_iff)
  qed
  then show "0 \<le> beam_index (int n) p" "beam_index (int n) p \<le> 5000000" by simp_all
qed

section \<open>What a scan holds\<close>

text \<open>The place of a point in the vectors, if it has one.\<close>

definition beam_slot :: "LaserScanSetting \<Rightarrow> nat \<Rightarrow> PointData \<Rightarrow> nat option" where
  "beam_slot setting n p =
     (if beam_index (int n) p < int n then
        Some (nat (if laser_scan_dir setting then int n - beam_index (int n) p - 1 else beam_index (int n) p))
      else None)"

definition in_slot :: "LaserScanSetting \<Rightarrow> nat \<Rightarrow> nat \<Rightarrow> PointData list \<Rightarrow> PointData list" where
  "in_slot setting n k src = filter (\<lambda>p. beam_slot setting n p = Some k) src"

lemma in_slot_simps [simp]:
  "in_slot setting n k [] = []"
  "in_slot setting n k (p # ps) = (if beam_slot setting n p = Some k then p # in_slot setting n k ps else in_slot setting n k ps)"
  by (simp_all add: in_slot_def)

definition nearest :: "double option list \<Rightarrow> double option" where
  "nearest xs = (if {r. Some r \<in> set xs} = {} then None else Some (Min {r. Some r \<in> set xs}))"

lemma finite_Somes [simp]: "finite {r. Some r \<in> set xs}"
proof -
  have "{r. Some r \<in> set xs} = (\<lambda>x. the x) ` (set xs - {None})" by force
  then show ?thesis by simp
qed

lemma nearest_snoc: "nearest (xs @ [x]) = closer (nearest xs) x"
proof (cases x)
  case None
  then show ?thesis by (simp add: nearest_def closer_def split: option.split)
next
  case (Some r)
  let ?A = "{r. Some r \<in> set xs}"
  have A: "{r'. Some r' \<in> set (xs @ [x])} = insert r ?A" using Some by auto
  have "Min (insert r ?A) = min r (Min ?A)" if "?A \<noteq> {}"
    using that by (intro Min_insert) simp_all
  then show ?thesis
    unfolding nearest_def closer_def A using Some by (cases "?A = {}") (auto simp: min_def simp del: Collect_empty_eq empty_Collect_eq Min_le_iff Min_ge_iff Min_less_iff Min_gr_iff)
qed

lemma foldl_closer: "foldl closer None xs = nearest xs"
proof (induction xs rule: rev_induct)
  case Nil
  then show ?case by (simp add: nearest_def)
next
  case (snoc x xs)
  then show ?case by (simp add: nearest_snoc)
qed

definition last_of :: "'a \<Rightarrow> 'a list \<Rightarrow> 'a" where
  "last_of x xs = foldl (\<lambda>_ y. y) x xs"

lemma last_of_simps [simp]: "last_of x [] = x" "last_of x (y # ys) = last_of y ys"
  by (simp_all add: last_of_def)

lemma last_of_last: "last_of x xs = (if xs = [] then x else last xs)"
  by (induction xs arbitrary: x) auto

lemma put_point_ok:
  assumes "angle_ok (angle p)" "0 < n" "n \<le> 1000000" "length (ranges out) = n"
  shows "put_point setting (int n) p out = Inr (case beam_slot setting n p of
      None \<Rightarrow> out
    | Some k \<Rightarrow> out\<lparr>ranges := (ranges out)[k := closer (ranges out ! k) (point_range setting p)],
                   intensities := (intensities out)[k := point_intensity setting p]\<rparr>) \<and>
    (\<forall>k. beam_slot setting n p = Some k \<longrightarrow> k < n)"
proof -
  note b = beam_index_range [OF assms(1-3)]
  then have "fits_signed 32 (beam_index (int n) p)" by (simp add: fits_signed_def)
  with b assms(4) show ?thesis by (auto simp: put_point_def Let_def beam_slot_def)
qed

lemma put_points_ok:
  assumes "\<forall>p \<in> set src. angle_ok (angle p)" "0 < n" "n \<le> 1000000"
    and "length (ranges out) = n" "length (intensities out) = n"
  shows "\<exists>rs ints. put_points setting (int n) src out = Inr (out\<lparr>ranges := rs, intensities := ints\<rparr>) \<and>
    length rs = n \<and> length ints = n \<and>
    (\<forall>k < n. rs ! k = foldl closer (ranges out ! k) (map (point_range setting) (in_slot setting n k src)) \<and>
       ints ! k = last_of (intensities out ! k) (map (point_intensity setting) (in_slot setting n k src)))"
  using assms(1,4,5)
proof (induction src arbitrary: out)
  case Nil
  then show ?case by (intro exI [of _ "ranges out"] exI [of _ "intensities out"]) simp
next
  case (Cons p ps)
  have p: "angle_ok (angle p)" and ps: "\<forall>p \<in> set ps. angle_ok (angle p)" using Cons.prems(1) by simp_all
  note put = put_point_ok [OF p assms(2,3) Cons.prems(2), of setting]
  show ?case
  proof (cases "beam_slot setting n p")
    case None
    with put Cons.IH [OF ps Cons.prems(2,3)] show ?thesis by simp
  next
    case (Some k)
    let ?out = "out\<lparr>ranges := (ranges out)[k := closer (ranges out ! k) (point_range setting p)],
      intensities := (intensities out)[k := point_intensity setting p]\<rparr>"
    have k: "k < n" using put Some by simp
    have step: "put_point setting (int n) p out = Inr ?out" using put Some by simp
    have len: "length (ranges ?out) = n" "length (intensities ?out) = n" using Cons.prems(2,3) by simp_all
    from Cons.IH [OF ps len] obtain rs ints where r: "put_points setting (int n) ps ?out = Inr (?out\<lparr>ranges := rs, intensities := ints\<rparr>)"
      "length rs = n" "length ints = n"
      "\<forall>j < n. rs ! j = foldl closer (ranges ?out ! j) (map (point_range setting) (in_slot setting n j ps)) \<and>
        ints ! j = last_of (intensities ?out ! j) (map (point_intensity setting) (in_slot setting n j ps))" by blast
    have "put_points setting (int n) (p # ps) out = Inr (out\<lparr>ranges := rs, intensities := ints\<rparr>)"
      using step r(1) by simp
    moreover have "\<forall>j < n. rs ! j = foldl closer (ranges out ! j) (map (point_range setting) (in_slot setting n j (p # ps))) \<and>
        ints ! j = last_of (intensities out ! j) (map (point_intensity setting) (in_slot setting n j (p # ps)))"
      using r(4) Some k Cons.prems(2,3) by (auto simp: nth_list_update)
    ultimately show ?thesis using r(2,3) by blast
  qed
qed

lemma publish_ok:
  assumes "\<forall>p \<in> set src. angle_ok (angle p)" "src \<noteq> []" "length src \<le> 1000000"
    and "\<not> first_scan c" "freq > 0"
  shows "\<exists>out. ToLaserscanMessagePublish src freq setting now c = Inr (Some out, c\<lparr>end_scan_time := now\<rparr>) \<and>
    msg_stamp out = now \<and> length (ranges out) = length src \<and> length (intensities out) = length src \<and>
    (\<forall>k < length src. ranges out ! k = nearest (map (point_range setting) (in_slot setting (length src) k src)) \<and>
       intensities out ! k = (if in_slot setting (length src) k src = [] then None
         else point_intensity setting (last (in_slot setting (length src) k src))))"
proof -
  let ?e = "empty_scan setting now (real_of_int (now - end_scan_time c) / 1000000000) (length src)"
  have "0 < length src" "length (ranges ?e) = length src" "length (intensities ?e) = length src"
    using assms(2) by (simp_all add: empty_scan_def)
  from put_points_ok [OF assms(1) this(1) assms(3) this(2,3), of setting]
  obtain rs ints where r: "put_points setting (int (length src)) src ?e = Inr (?e\<lparr>ranges := rs, intensities := ints\<rparr>)"
    "length rs = length src" "length ints = length src"
    "\<forall>k < length src. rs ! k = foldl closer (ranges ?e ! k) (map (point_range setting) (in_slot setting (length src) k src)) \<and>
       ints ! k = last_of (intensities ?e ! k) (map (point_intensity setting) (in_slot setting (length src) k src))" by blast
  have "ToLaserscanMessagePublish src freq setting now c =
      Inr (Some (?e\<lparr>ranges := rs, intensities := ints\<rparr>), c\<lparr>end_scan_time := now\<rparr>)"
    using assms(4,5) r(1) by (simp add: ToLaserscanMessagePublish_def Let_def)
  with r(2-4) show ?thesis
    by (simp add: empty_scan_def foldl_closer last_of_last last_map)
qed

section \<open>Angles over a run\<close>

definition angles :: "LiPkg \<Rightarrow> double set" where
  "angles p = angle ` (set (frame_tmp p) \<union> set (laser_scan_data p))"

lemma point_angle_ok: "i < 12 \<Longrightarrow> angle_ok (point_angle f i)"
proof -
  assume i: "i < 12"
  have s: "unat (start_angle f) < 65536" using unsigned_less [of "start_angle f", where ?'a = nat] by simp
  have "unat (angle_diff f) < 36000"
    by (simp add: angle_diff_def unat_mod)
  then have d: "real (unat (angle_diff f) div 11) \<le> 3272" by simp
  have "real i * (real (unat (angle_diff f) div 11) / 100) \<le> 11 * 32.72"
    using i d by (intro mult_mono) auto
  moreover have "0 \<le> real i * (real (unat (angle_diff f) div 11) / 100)" by simp
  moreover have "real (unat (start_angle f)) / 100 \<le> 655.36" "0 \<le> real (unat (start_angle f)) / 100" using s by simp_all
  ultimately show "angle_ok (point_angle f i)" by (simp add: point_angle_def angle_ok_def Let_def)
qed

lemma parse_point_angle: "parse_point f lst cur i = Some q \<Longrightarrow> angle q = point_angle f i"
  by (auto simp: parse_point_def mk_PointData_def split: option.splits)

lemma call_clock_angles: "call_clock p = Inr (t, q) \<Longrightarrow> angles q = angles p"
  by (auto simp: call_clock_def angles_def split: option.splits)

lemma parsed_angles:
  assumes "those (map (parse_point f lst cur) [0..<POINT_PER_PACK]) = Some pts"
  shows "\<forall>q \<in> set pts. angle_ok (angle q)"
proof -
  have "those (map (parse_point f lst cur) xs) = Some pts \<Longrightarrow> q \<in> set pts \<Longrightarrow>
      \<exists>i \<in> set xs. parse_point f lst cur i = Some q" for xs pts q
  proof (induction xs arbitrary: pts)
    case (Cons x xs)
    from Cons.prems Cons.IH show ?case by (cases "q = hd pts") (auto split: option.splits)
  qed simp
  from this [OF assms] have "\<forall>q \<in> set pts. \<exists>i < 12. parse_point f lst cur i = Some q"
    by (fastforce simp del: upt.simps)
  then show ?thesis using parse_point_angle point_angle_ok by metis
qed

definition angles_ok :: "LiPkg \<Rightarrow> bool" where
  "angles_ok p \<longleftrightarrow> (\<forall>a \<in> angles p. angle_ok a)"

lemma process_pkg_angles: "angles_ok p \<Longrightarrow> process_pkg p = Inr q \<Longrightarrow> angles_ok q"
  by (auto simp: process_pkg_def Let_def angles_ok_def angles_def dest!: call_clock_frame parsed_angles
      split: if_splits sum.splits option.splits simp del: POINT_PER_PACK_eq)

lemma Parse_angles: "angles_ok p \<Longrightarrow> Parse bs p = Inr q \<Longrightarrow> angles_ok q"
proof (induction bs arbitrary: p)
  case (Cons b bs)
  obtain ok r where a: "AnalysisOne b (parser p) = (ok, r)" by (cases "AnalysisOne b (parser p)")
  have s: "angles_ok (p\<lparr>parser := r\<rparr>)" using Cons.prems(1) by (simp add: angles_ok_def angles_def)
  from Cons.prems(2) a show ?case
    using Cons.IH s process_pkg_angles [OF s] by (auto simp: Let_def split: if_splits sum.splits)
qed simp

lemma run_filter_angles:
  assumes "run_filter junk data p = Inr out"
  shows "angle ` set out \<subseteq> angle ` set data"
proof (cases "is_filter p")
  case True
  with assms have "Filter (new_Tofbf junk (trunc_int (pkg_speed p)) (product_type p)) data = Inr out"
    by (simp add: run_filter_def)
  from Filter_keeps_points_all [OF this] have "set out \<subseteq> set data \<union> blank ` set data" by simp
  then have "angle ` set out \<subseteq> angle ` (set data \<union> blank ` set data)" by (rule image_mono)
  also have "\<dots> = angle ` set data" by (auto simp: image_Un image_image blank_def)
  finally show ?thesis .
qed (use assms in \<open>auto simp: run_filter_def\<close>)

lemma erase_front_angles: "angles (erase_front k p) \<subseteq> angles p"
  by (auto simp: erase_front_def angles_def dest: in_set_dropD)

lemma assemble_loop_angles:
  "assemble_loop junk ns cnt la data p = Inr (r, q) \<Longrightarrow> angles q \<subseteq> angles p \<union> angle ` set data"
proof (induction ns arbitrary: cnt la data)
  case (Cons n ns)
  let ?data = "take cnt (frame_tmp p) @ data"
  have data: "angle ` set ?data \<subseteq> angles p \<union> angle ` set data"
    by (auto simp: angles_def dest: in_set_takeD)
  have cont: "angles q \<subseteq> angles p \<union> angle ` set data"
    if "(if real (Suc cnt) * GetSpeed p > of_int (measure_point_frequence p) * 2
            then Inr (False, erase_front (Suc cnt) p)
            else assemble_loop junk ns (Suc cnt) (angle n) d p) = Inr (r, q)"
      "angle ` set d \<subseteq> angles p \<union> angle ` set data" for d
    using that Cons.IH [of "Suc cnt" "angle n" d] erase_front_angles [of "Suc cnt" p]
    by (simp split: if_splits; blast)
  show ?case
  proof (cases "angle n < 20 \<and> la > 340")
    case False
    with Cons.prems cont [of data] show ?thesis by (simp add: Let_def)
  next
    case turn: True
    show ?thesis
    proof (cases "real cnt * GetSpeed p > of_int (measure_point_frequence p) * 1.4")
      case True
      with turn Cons.prems have "q = erase_front cnt p" by (simp add: Let_def)
      with erase_front_angles [of cnt p] show ?thesis by auto
    next
      case False
      with turn Cons.prems obtain tmp0 where f: "run_filter junk ?data p = Inr tmp0"
        by (auto simp: Let_def split: sum.splits)
      note tmp = run_filter_angles [OF f]
      show ?thesis
      proof (cases "tmp0 = []")
        case True
        with False turn Cons.prems f cont [of ?data] data show ?thesis by (simp add: Let_def)
      next
        case nonempty: False
        let ?p1 = "if first_frame p then p\<lparr>first_frame := False\<rparr> else SetFrameReady (SetLaserScanData (sort_key stamp tmp0) p)"
        from nonempty have "sort_key stamp tmp0 \<noteq> []" by (metis set_empty set_sort)
        with False turn Cons.prems f have "q = erase_front cnt ?p1" by (simp add: Let_def)
        moreover have "angles ?p1 \<subseteq> angles p \<union> angle ` set tmp0"
          by (auto simp: angles_def SetFrameReady_def SetLaserScanData_def)
        ultimately show ?thesis using erase_front_angles [of cnt ?p1] tmp data by blast
      qed
    qed
  qed
qed simp

lemma CommReadCallback_angles:
  assumes "angles_ok p" "CommReadCallback junk bs p = Inr q"
  shows "angles_ok q"
proof -
  from assms(2) obtain p1 r where "Parse bs p = Inr p1" "AssemblePacket junk p1 = Inr (r, q)"
    by (auto simp: CommReadCallback_def split: sum.splits)
  with Parse_angles [OF assms(1)] assemble_loop_angles [of junk "frame_tmp p1" 0 0 "[]" p1 r q] show ?thesis
    by (auto simp: AssemblePacket_def angles_ok_def)
qed

section \<open>The program over a run\<close>

definition lidar_inv :: "LDLidarDriver \<Rightarrow> bool" where
  "lidar_inv d \<longleftrightarrow> drv_inv d \<and> angles_ok (comm_pkg d)"

lemma lidar_inv_init: "lidar_inv (new_LDLidarDriver r now)"
  using drv_inv_init [of r now]
  by (simp add: lidar_inv_def) (simp add: angles_ok_def angles_def new_LDLidarDriver_def new_LiPkg_def)

lemma prepare_pkg_angles [simp]: "angles (comm_pkg (prepare_pkg ty d)) = angles (comm_pkg d)"
  by (cases ty) (simp_all add: prepare_pkg_def SetProductType_def Lidar_Pkg.RegisterTimestampGetFunctional_def
      ClearDataProcessStatus_def angles_def)

lemma angles_filter [simp]: "angles (p\<lparr>is_filter := b\<rparr>) = angles p"
  by (simp add: angles_def)

lemma Start_angles:
  "angles (comm_pkg (snd (Start_serial ty port baud m ok d))) = angles (comm_pkg d)"
  "Start_network ty ip po m ok sent ack d = Some (b, d') \<Longrightarrow> angles (comm_pkg d') = angles (comm_pkg d)"
  by (simp add: Start_serial_def Let_def started_def SetIsOkStatus_def)
    (cases m; auto simp: Start_network_def Let_def started_def SetIsOkStatus_def split: if_splits option.splits)

lemma Stop_angles: "angles (comm_pkg (snd (Stop d))) = angles (comm_pkg d)"
  by (simp add: Stop_def SetIsOkStatus_def)

lemma reads_angles: "angles_ok p \<Longrightarrow> angles_ok (reads junk bss p)"
  by (induction bss arbitrary: p) (auto split: sum.split intro: CommReadCallback_angles)

lemma GetLaserScanData_angles:
  assumes "angles_ok (comm_pkg d)"
  shows "angles_ok (comm_pkg (snd (snd (GetLaserScanData (reads junk b1) (reads junk b2) now t d))))"
proof -
  have "angles_ok (ResetFrameReady (reads junk b1 (comm_pkg d)))"
    using reads_angles [OF assms, of junk b1] by (simp add: angles_ok_def angles_def ResetFrameReady_def)
  then have "angles_ok (reads junk b2 (ResetFrameReady (reads junk b1 (comm_pkg d))))" by (rule reads_angles)
  with assms show ?thesis by (simp add: GetLaserScanData_def pkg_GetLaserScanData_def Let_def)
qed

lemma drv_step_lidar_inv:
  assumes "lidar_inv d" "drv_step junk d e = Inr d'"
  shows "lidar_inv d'"
proof -
  have "angles_ok (comm_pkg d')"
  proof (cases "\<exists>bytes. e = Receive bytes")
    case True
    with assms CommReadCallback_angles [of "comm_pkg d" junk] show ?thesis
      by (auto simp: drv_step_def lidar_inv_def split: if_splits sum.splits)
  next
    case no_bytes: False
    show ?thesis
    proof (cases "\<exists>b1 b2 now t. e = Poll b1 b2 now t")
      case True
      with assms GetLaserScanData_angles [of d junk] show ?thesis by (auto simp: drv_step_def lidar_inv_def)
    next
      case False
      with assms(2) no_bytes have "angles (comm_pkg d') = angles (comm_pkg d)"
        by (cases e) (auto simp: drv_step_def Start_angles RegisterGetTimestampFunctional_def
            EnableFilterAlgorithnmProcess_def EnableFilter_def Stop_angles split: option.splits)
      with assms(1) show ?thesis by (simp add: lidar_inv_def angles_ok_def)
    qed
  qed
  with drv_step_inv [of d junk e d'] assms show ?thesis by (simp add: lidar_inv_def)
qed

lemma lidar_loop_driver:
  "lidar_loop m1 m2 setting now ros_now (d, c) = Inr (out, d', c') \<Longrightarrow>
   d' = snd (snd (GetLaserScanData m1 m2 now 1500 d))"
  by (auto simp: lidar_loop_def split: prod.splits LidarStatus.splits option.splits sum.splits)

lemma lidar_loop_inv:
  assumes "lidar_inv d" "lidar_loop (reads junk b1) (reads junk b2) setting now ros_now (d, c) = Inr (out, d', c')"
  shows "lidar_inv d'"
  using assms(1) lidar_loop_driver [OF assms(2)] GetLaserScanData_angles [of d junk b1 b2 now 1500]
  by (auto simp: lidar_inv_def GetLaserScanData_inv)

interpretation lidar_node: fault_machine "drv_step junk" lidar_inv for junk
  by unfold_locales (rule drv_step_lidar_inv)

interpretation lidar_program: fault_machine "lidar_step junk setting" "\<lambda>s. lidar_inv (fst s)" for junk setting
  by unfold_locales
    (auto simp: lidar_step_def split: lidar_event.splits sum.splits intro: lidar_loop_inv drv_step_lidar_inv)

text \<open>What a round does in such a state.\<close>

lemma GetLaserScanData_cases:
  assumes "drv_inv d"
  shows "is_start_flag d \<and> is_frame_ready (comm_pkg d) \<and>
      GetLaserScanData m1 m2 now t d = (NORMAL, Some (laser_scan_data (m2 (ResetFrameReady (m1 (comm_pkg d))))),
        d\<lparr>comm_pkg := m2 (ResetFrameReady (m1 (comm_pkg d))), last_pubdata_times := now\<rparr>)
    \<or> \<not> (is_start_flag d \<and> is_frame_ready (comm_pkg d)) \<and>
      (\<exists>st d'. GetLaserScanData m1 m2 now t d = (st, None, d'))"
  using assms
  by (auto simp: GetLaserScanData_def pkg_GetLaserScanData_def IsFrameReady_def GetLidarStatus_def drv_inv_def Let_def)

lemma polled_mailbox_ok:
  assumes "mailbox_ok p" "is_frame_ready p"
  shows "laser_scan_data (reads junk b2 (ResetFrameReady (reads junk b1 p))) \<noteq> []"
proof -
  let ?p1 = "reads junk b1 p"
  have "mailbox_ok ?p1" "is_frame_ready ?p1"
    using assms reads_frame [of p junk b1] reads_mailbox [of junk b1 p] by simp_all
  then have ne: "laser_scan_data (ResetFrameReady ?p1) \<noteq> []" by (simp add: mailbox_ok_def ResetFrameReady_def)
  have "mailbox_ok (reads junk b2 (ResetFrameReady ?p1))"
    using reads_frame [of "ResetFrameReady ?p1" junk b2] by (simp add: mailbox_ok_def ResetFrameReady_def)
  with ne show ?thesis
    using reads_mailbox [of junk b2 "ResetFrameReady ?p1"]
    by (cases "turns junk b2 (ResetFrameReady ?p1) = []") (auto simp: mailbox_ok_def)
qed

lemma lidar_loop_total:
  fixes junk b1 b2 d
  defines "p \<equiv> reads junk b2 (ResetFrameReady (reads junk b1 (comm_pkg d)))"
  assumes "lidar_inv d" "length (laser_scan_data p) \<le> 1000000"
  shows "\<exists>out d' c'. lidar_loop (reads junk b1) (reads junk b2) setting now ros_now (d, c) = Inr (out, d', c') \<and>
    (out \<noteq> None \<longleftrightarrow> is_start_flag d \<and> is_frame_ready (comm_pkg d) \<and> \<not> first_scan c \<and> GetSpeed p > 0)"
proof (cases "is_start_flag d \<and> is_frame_ready (comm_pkg d)")
  case False
  with assms(2) GetLaserScanData_cases [of d "reads junk b1" "reads junk b2" now 1500] obtain st d' where
    "GetLaserScanData (reads junk b1) (reads junk b2) now 1500 d = (st, None, d')" by (auto simp: lidar_inv_def)
  with False show ?thesis by (cases st) (auto simp: lidar_loop_def)
next
  case True
  let ?src = "laser_scan_data p"
  let ?d = "d\<lparr>comm_pkg := p, last_pubdata_times := now\<rparr>"
  from True assms(2) GetLaserScanData_cases [of d "reads junk b1" "reads junk b2" now 1500]
  have g: "GetLaserScanData (reads junk b1) (reads junk b2) now 1500 d = (NORMAL, Some ?src, ?d)"
    by (auto simp: lidar_inv_def p_def)
  have freq: "GetLidarScanFreq ?d = Some (GetSpeed p)"
    using True by (simp add: GetLidarScanFreq_def GetSpeed_def)
  have "angles_ok p"
    using assms(2) GetLaserScanData_angles [of d junk b1 b2 now 1500] g by (simp add: lidar_inv_def)
  moreover have "?src \<noteq> []"
    unfolding p_def using assms(2) True by (intro polled_mailbox_ok) (simp_all add: lidar_inv_def drv_inv_def)
  ultimately have src: "\<forall>q \<in> set ?src. angle_ok (angle q)" "?src \<noteq> []"
    by (auto simp: angles_ok_def angles_def)
  show ?thesis
  proof (cases "\<not> first_scan c \<and> GetSpeed p > 0")
    case True
    with publish_ok [OF src assms(3), of c "GetSpeed p" setting ros_now] g freq \<open>is_start_flag d \<and> _\<close>
    show ?thesis by (auto simp: lidar_loop_def)
  next
    case False
    then have "\<exists>c'. ToLaserscanMessagePublish ?src (GetSpeed p) setting ros_now c = Inr (None, c')"
      by (auto simp: ToLaserscanMessagePublish_def Let_def)
    with False g freq show ?thesis by (auto simp: lidar_loop_def)
  qed
qed

section \<open>Properties\<close>

text \<open>C11: Each beam of a published scan holds the nearest range. The scan has one beam for each point;
  a beam's range is the least distance in metres among the points of its direction that are neither
  blank nor cropped, and NaN when there is none; its intensity is that of the last point of its
  direction, whatever its distance.\<close>

theorem published_scan_nearest:
  assumes "\<forall>p \<in> set src. angle_ok (angle p)" "src \<noteq> []" "length src \<le> 1000000" "\<not> first_scan c" "freq > 0"
  shows "\<exists>out. ToLaserscanMessagePublish src freq setting now c = Inr (Some out, c\<lparr>end_scan_time := now\<rparr>) \<and>
    length (ranges out) = length src \<and>
    (\<forall>k < length src. ranges out ! k = nearest (map (point_range setting) (in_slot setting (length src) k src)) \<and>
       intensities out ! k = (if in_slot setting (length src) k src = [] then None
         else point_intensity setting (last (in_slot setting (length src) k src))))"
  using publish_ok [OF assms] by blast

text \<open>C10: The lidar program never writes outside a scan. Whatever bytes the serial line brings, before and
  between the rounds of the loop and during the round itself (\<open>b1\<close> between the look at the flag and its
  reset, \<open>b2\<close> between the reset and the copy), a round in which the turn handed out has at most a
  million points returns; it publishes a scan exactly when the driver is started, a turn is ready, the
  program has seen one before and the lidar turns.\<close>

theorem lidar_round_safe:
  assumes "run_res (drv_step junk) (new_LDLidarDriver r t0) es = Inr d0"
    and "run_res (lidar_step junk setting) (d0, scan_clock_init) evs = Inr (d, c)"
    and "length (laser_scan_data (reads junk b2 (ResetFrameReady (reads junk b1 (comm_pkg d))))) \<le> 1000000"
  shows "\<exists>out d' c'. lidar_loop (reads junk b1) (reads junk b2) setting now ros_now (d, c) = Inr (out, d', c') \<and>
    (out \<noteq> None \<longleftrightarrow> is_start_flag d \<and> is_frame_ready (comm_pkg d) \<and> \<not> first_scan c \<and>
       GetSpeed (reads junk b2 (ResetFrameReady (reads junk b1 (comm_pkg d)))) > 0)"
proof -
  have "lidar_inv d0" by (rule lidar_node.run_res_inv [OF lidar_inv_init assms(1)])
  then have "lidar_inv d" using lidar_program.run_res_inv [OF _ assms(2)] by simp
  then show ?thesis by (rule lidar_loop_total [OF _ assms(3)])
qed

text \<open>The start of the lidar program ends: if the clock goes on for three seconds, \<open>main\<close> either exits
  with status 1 or goes on with a started driver with an open serial line and a registered clock.
  It exits for every product name but the three it knows, whatever the driver supports.\<close>

theorem lidar_main_ends:
  assumes "3000 \<le> ms_since (now n) t0"
  shows "(\<exists>d. lidar_main product port baud clock open_ok rcv now t0 (new_LDLidarDriver r t) = Some (Inr d) \<and>
        is_start_flag d \<and> serial_open d \<and> register_get_timestamp_handle d = Some clock \<and>
        port \<noteq> [] \<and> baud \<noteq> 0 \<and> open_ok \<and>
        product \<in> {''LDLiDAR_LD06'', ''LDLiDAR_LD19'', ''LDLiDAR_STL27L''}) \<or>
    lidar_main product port baud clock open_ok rcv now t0 (new_LDLidarDriver r t) = Some (Inl (Process_Exit 1))"
proof -
  have ends: "wait_comm_loop rcv now t0 3000 0 p \<noteq> None" for p
    by (rule wait_comm_loop_Suc) (use assms in \<open>auto intro: exI [of _ n]\<close>)
  let ?d = "EnableFilterAlgorithnmProcess True (RegisterGetTimestampFunctional (Some clock) (new_LDLidarDriver r t))"
  have start: "Start_serial ty port baud COMM_SERIAL_MODE open_ok ?d =
      (if ty = NO_VERSION \<or> port = [] \<or> baud = 0 then (False, ?d)
       else if open_ok then (True, started ((prepare_pkg ty ?d)\<lparr>serial_open := True\<rparr>)) else (False, prepare_pkg ty ?d))" for ty
    by (simp add: Start_serial_def Let_def new_LDLidarDriver_def RegisterGetTimestampFunctional_def
        EnableFilterAlgorithnmProcess_def)
  have reg: "register_get_timestamp_handle (prepare_pkg ty ?d) = Some clock" for ty
    by (simp add: prepare_pkg_def RegisterGetTimestampFunctional_def EnableFilterAlgorithnmProcess_def)
  show ?thesis
  proof (cases "lidar_type product")
    case None
    then show ?thesis by (simp add: lidar_main_def)
  next
    case (Some ty)
    then have product: "product \<in> {''LDLiDAR_LD06'', ''LDLiDAR_LD19'', ''LDLiDAR_STL27L''}" "ty \<noteq> NO_VERSION"
      by (auto simp: lidar_type_def split: if_splits)
    show ?thesis
    proof (cases "port = [] \<or> baud = 0 \<or> \<not> open_ok")
      case True
      with Some start [of ty] show ?thesis by (auto simp: lidar_main_def Let_def)
    next
      case False
      let ?s = "started ((prepare_pkg ty ?d)\<lparr>serial_open := True\<rparr>)"
      have s: "is_start_flag ?s" "serial_open ?s" "register_get_timestamp_handle ?s = Some clock"
        by (simp_all add: started_def SetIsOkStatus_def reg)
      obtain b k p where w: "wait_comm_loop rcv now t0 3000 0 (comm_pkg ?s) = Some (b, k, p)"
        using ends [of "comm_pkg ?s"] by (cases "wait_comm_loop rcv now t0 3000 0 (comm_pkg ?s)") auto
      from False product Some start [of ty] have "lidar_main product port baud clock open_ok rcv now t0 (new_LDLidarDriver r t) =
          Some (if b then Inr (?s\<lparr>comm_pkg := p, last_pubdata_times := now k\<rparr>) else Inl (Process_Exit 1))"
        by (simp add: lidar_main_def Let_def WaitLidarCommConnect_def w)
      with s False product show ?thesis by (cases b) simp_all
    qed
  qed
qed

section \<open>Witnesses\<close>

definition sample_setting :: LaserScanSetting where
  "sample_setting = \<lparr>set_frame_id = ''base_laser'', laser_scan_dir = False, enable_angle_crop_func = False,
     angle_crop_min = 0, angle_crop_max = 0\<rparr>"

text \<open>Two points in the first direction, the nearer one first: its range is kept, its intensity is not.\<close>

definition sample_turn :: "PointData list" where
  "sample_turn = [mk_PointData 0 1000 20 0, mk_PointData 0 3000 7 1]"

theorem published_scan_nearest_witness:
  "\<exists>out c. ToLaserscanMessagePublish sample_turn 10 sample_setting 5 \<lparr>end_scan_time = 0, first_scan = False\<rparr> = Inr (Some out, c) \<and>
     ranges out ! 0 = Some 1 \<and> intensities out ! 0 = Some 7"
proof -
  let ?c = "\<lparr>end_scan_time = 0, first_scan = False\<rparr>"
  have ok: "\<forall>p \<in> set sample_turn. angle_ok (angle p)" "sample_turn \<noteq> []" "length sample_turn \<le> 1000000"
    by (simp_all add: sample_turn_def mk_PointData_def angle_ok_def)
  have slot: "in_slot sample_setting 2 0 sample_turn = sample_turn"
    by (simp add: sample_turn_def beam_slot_def beam_index_def angle_increment_def ANGLE_TO_RADIAN_def mk_PointData_def
        sample_setting_def)
  have "{r. Some r \<in> set (map (point_range sample_setting) sample_turn)} = {1, 3}"
    by (auto simp: sample_turn_def point_range_def masked_def mk_PointData_def sample_setting_def)
  then have "nearest (map (point_range sample_setting) sample_turn) = Some 1"
    by (simp add: nearest_def del: set_map)
  moreover have "point_intensity sample_setting (last sample_turn) = Some 7" "sample_turn \<noteq> []" "length sample_turn = 2"
    by (simp_all add: sample_turn_def point_intensity_def masked_def mk_PointData_def sample_setting_def)
  ultimately show ?thesis
    using published_scan_nearest [OF ok, of ?c 10 sample_setting 5] slot by auto
qed

theorem lidar_round_safe_witness:
  "\<exists>out d' c'. lidar_loop id id sample_setting 0 0 (new_LDLidarDriver (rx_init sample_frame) 0, scan_clock_init) = Inr (out, d', c')"
proof -
  let ?d = "new_LDLidarDriver (rx_init sample_frame) 0" and ?junk = "sample_tofbf NEAR_FILTER"
  have r: "reads ?junk [] = id" by (simp add: fun_eq_iff)
  have "run_res (drv_step ?junk) ?d [] = Inr ?d"
    "run_res (lidar_step ?junk sample_setting) (?d, scan_clock_init) [] = Inr (?d, scan_clock_init)"
    "length (laser_scan_data (reads ?junk [] (ResetFrameReady (reads ?junk [] (comm_pkg ?d))))) \<le> 1000000"
    by (simp_all add: new_LDLidarDriver_def new_LiPkg_def ResetFrameReady_def)
  from lidar_round_safe [OF this, of 0 0] show ?thesis unfolding r by blast
qed

theorem lidar_main_ends_witness:
  "lidar_main ''LDLiDAR_STL06P'' ''/dev/ttyUSB0'' 230400 (\<lambda>_. 0) True (\<lambda>_ p. p) (\<lambda>k. int k * 4000000000) 0
     (new_LDLidarDriver (rx_init sample_frame) 0) = Some (Inl (Process_Exit 1))"
  using lidar_main_ends [of "\<lambda>k. int k * 4000000000" 1 0 "''LDLiDAR_STL06P''" "''/dev/ttyUSB0''" 230400 "\<lambda>_. 0"
      True "\<lambda>_ p. p" "rx_init sample_frame" 0]
  by (simp add: ms_since_def signed_divide_int_def)

end
