(* ===== verification/Lidar_Transport.thy ===== *)
theory Lidar_Transport
  imports Prelude
begin

text \<open>
  The transports of the lidar: \<open>SerialInterfaceLinux\<close> (\<^verbatim>\<open>serialcom/serial_interface_linux.cpp\<close>),
  \<open>UDPSocketInterfaceLinux\<close> and \<open>TCPSocketInterfaceLinux\<close>
  (\<^verbatim>\<open>networkcom/network_socket_interface_linux.cpp\<close>): opening, closing, sending, and the receive thread,
  which runs between the statements of the thread that opens and closes.

  The three classes have the same members, their receive threads and their ways to close are the same
  text; they share the record \<open>link\<close>. What a system call answers is an argument. A statement that reads
  or writes a member the other thread uses is a step of its own.
\<close>

section \<open>State\<close>

datatype NetCommDev = NET_NULL | UDP_SERVER | UDP_CLIENT | TCP_SERVER | TCP_CLIENT

text \<open>
  Where the receive thread stands: before the test of its loop, before \<open>IsOpened\<close>, before \<open>FD_SET\<close>, in
  \<open>pselect\<close> with a descriptor in its set, before \<open>FD_ISSET\<close>, before \<open>read\<close>. Where the other thread
  stands: outside, before the last statement of opening, or before a statement of closing.
\<close>

datatype rx_pc = At_test | At_opened | At_set | At_select int | At_isset int | At_recv | Ended

datatype main_pc = Main_idle | Mark | Close_fd | Forget_fd | Close_listend | Forget_listend | Join | Unmark

text \<open>
  \<open>listend_fd\<close> is -1 but for a TCP server, \<open>ncd\<close> is \<open>NET_NULL\<close> in the serial class. An atomic that the
  constructor leaves out is \<open>None\<close>. \<open>rx_thread\<close>: the pointer is set, to the newest of \<open>threads\<close>. \<open>os_fds\<close>:
  the descriptors that were opened and are not closed yet; \<open>delivered\<close>: what the callback was called with.
\<close>

record link =
  com_fd :: int
  listend_fd :: int
  ncd :: NetCommDev
  created :: "bool option"
  rx_exit :: "bool option"
  threads :: "rx_pc list"
  rx_thread :: bool
  rx_count :: int
  has_callback :: bool
  main_pc :: main_pc
  os_fds :: "int list"
  delivered :: "u8 list list"

type_synonym address = "string \<times> string"

record udp = link +
  server_addr :: address
  client_ack :: bool
  client_addr :: address

definition new_serial :: link where
  "new_serial = \<lparr>com_fd = -1, listend_fd = -1, ncd = NET_NULL, created = None, rx_exit = None, threads = [],
     rx_thread = False, rx_count = 0, has_callback = False, main_pc = Main_idle, os_fds = [], delivered = []\<rparr>"

definition new_udp :: udp where
  "new_udp = \<lparr>com_fd = -1, listend_fd = -1, ncd = NET_NULL, created = Some False, rx_exit = Some True, threads = [],
     rx_thread = False, rx_count = 0, has_callback = False, main_pc = Main_idle, os_fds = [], delivered = [],
     server_addr = ([], []), client_ack = False, client_addr = ([], [])\<rparr>"

text \<open>The constructor of the TCP class does not set \<open>ncd_\<close>.\<close>

definition new_tcp :: "NetCommDev \<Rightarrow> link" where
  "new_tcp uninitialised = \<lparr>com_fd = -1, listend_fd = -1, ncd = uninitialised, created = Some False, rx_exit = Some False,
     threads = [], rx_thread = False, rx_count = 0, has_callback = False, main_pc = Main_idle, os_fds = [], delivered = []\<rparr>"

definition SetRecvCallback :: "'a link_scheme \<Rightarrow> 'a link_scheme" where
  "SetRecvCallback s = s\<lparr>has_callback := True\<rparr>"

section \<open>Opening\<close>

text \<open>\<open>open\<close> or \<open>socket\<close> has answered \<open>fd\<close>; \<open>close_com\<close> is what a failure behind it does.\<close>

definition opened_fd :: "int \<Rightarrow> 'a link_scheme \<Rightarrow> 'a link_scheme" where
  "opened_fd fd s = (if fd = -1 then s\<lparr>com_fd := -1\<rparr> else s\<lparr>com_fd := fd, os_fds := fd # os_fds s\<rparr>)"

definition close_com :: "'a link_scheme \<Rightarrow> 'a link_scheme" where
  "close_com s = (if com_fd s \<noteq> -1 then s\<lparr>os_fds := remove1 (com_fd s) (os_fds s), com_fd := -1\<rparr> else s)"

definition start_thread :: "'a link_scheme \<Rightarrow> 'a link_scheme" where
  "start_thread s = s\<lparr>rx_exit := Some False, threads := At_test # threads s, rx_thread := True, main_pc := Mark\<rparr>"

text \<open>
  The result is \<open>None\<close> when only the last statements are left, the mark and \<open>return true\<close>. Serial: the
  answers of \<open>open\<close> and of the three \<open>ioctl\<close> calls (\<open>True\<close>: no error).
\<close>

definition serial_Open :: "int \<times> bool \<times> bool \<times> bool \<Rightarrow> 'a link_scheme \<Rightarrow> bool option \<times> 'a link_scheme" where
  "serial_Open = (\<lambda>(fd, get1, set, get2) s.
     let s1 = opened_fd fd s in
     if fd = -1 then (Some False, s1)
     else if \<not> get1 then (Some False, close_com s1)
     else if \<not> set then (Some False, close_com s1)
     else if \<not> get2 then (Some False, close_com s1)
     else (None, start_thread s1))"

record udp_call =
  u_obj :: NetCommDev
  u_ip :: "string option"
  u_port :: "string option"
  u_socket :: int
  u_bind :: bool

definition UDP_CreateSocket :: "udp_call \<Rightarrow> udp \<Rightarrow> bool option \<times> udp" where
  "UDP_CreateSocket c s =
     (if created s = Some True then (Some True, s)
      else case (u_ip c, u_port c) of
        (Some ip, Some port) \<Rightarrow>
          if u_obj c = UDP_CLIENT \<or> u_obj c = UDP_SERVER then
            let s1 = opened_fd (u_socket c) s in
            if u_socket c = -1 then (Some False, s1)
            else if u_obj c = UDP_SERVER \<and> \<not> u_bind c then (Some False, close_com s1)
            else (None, start_thread (s1\<lparr>ncd := u_obj c, server_addr := (ip, port)\<rparr>))
          else (Some False, s)
      | _ \<Rightarrow> (Some False, s))"

text \<open>\<open>t_accept\<close>: the descriptor of the client that \<open>accept\<close> waits for, or -1.\<close>

record tcp_call =
  t_obj :: NetCommDev
  t_ip :: "string option"
  t_port :: "string option"
  t_socket :: int
  t_bind :: bool
  t_listen :: bool
  t_accept :: int
  t_connect :: bool

definition TCP_CreateSocket :: "tcp_call \<Rightarrow> link \<Rightarrow> bool option \<times> link" where
  "TCP_CreateSocket c s =
     (if created s = Some True then (Some True, s)
      else if t_ip c = None \<or> t_port c = None then (Some False, s)
      else if t_obj c = TCP_CLIENT \<or> t_obj c = TCP_SERVER then
        let s1 = opened_fd (t_socket c) s in
        if t_socket c = -1 then (Some False, s1)
        else
          let s2 = s1\<lparr>ncd := t_obj c\<rparr> in
          if t_obj c = TCP_SERVER then
            if \<not> t_bind c then (Some False, close_com s2)
            else if \<not> t_listen c then (Some False, close_com s2)
            else if t_accept c = -1 then (Some False, close_com (s2\<lparr>listend_fd := -1\<rparr>))
            else (None, start_thread (s2\<lparr>listend_fd := t_accept c, os_fds := os_fds s2 @ [t_accept c]\<rparr>))
          else if \<not> t_connect c then (Some False, close_com s2)
          else (None, start_thread s2)
      else (Some False, s))"

section \<open>Closing\<close>

definition Close_call :: "'a link_scheme \<Rightarrow> fault + 'a link_scheme" where
  "Close_call s = (case created s of
     None \<Rightarrow> Inl Undefined_Behaviour
   | Some False \<Rightarrow> Inr s
   | Some True \<Rightarrow> Inr (s\<lparr>rx_exit := Some True, main_pc := Close_fd\<rparr>))"

text \<open>One statement of opening or closing. \<open>join\<close> waits, the state stays as it is.\<close>

definition main_step :: "'a link_scheme \<Rightarrow> 'a link_scheme" where
  "main_step s = (case main_pc s of
     Main_idle \<Rightarrow> s
   | Mark \<Rightarrow> s\<lparr>created := Some True, main_pc := Main_idle\<rparr>
   | Close_fd \<Rightarrow>
       if com_fd s \<noteq> -1 then s\<lparr>os_fds := remove1 (com_fd s) (os_fds s), main_pc := Forget_fd\<rparr>
       else s\<lparr>main_pc := Close_listend\<rparr>
   | Forget_fd \<Rightarrow> s\<lparr>com_fd := -1, main_pc := Close_listend\<rparr>
   | Close_listend \<Rightarrow>
       if listend_fd s \<noteq> -1 then s\<lparr>os_fds := remove1 (listend_fd s) (os_fds s), main_pc := Forget_listend\<rparr>
       else s\<lparr>main_pc := Join\<rparr>
   | Forget_listend \<Rightarrow> s\<lparr>listend_fd := -1, main_pc := Join\<rparr>
   | Join \<Rightarrow>
       if rx_thread s then
         (case threads s of
            Ended # ts \<Rightarrow> s\<lparr>threads := ts, rx_thread := False, main_pc := Unmark\<rparr>
          | _ \<Rightarrow> s)
       else s\<lparr>main_pc := Unmark\<rparr>
   | Unmark \<Rightarrow> s\<lparr>created := Some False, main_pc := Main_idle\<rparr>)"

section \<open>The receive thread\<close>

datatype select_answer = Ready | Select_timeout | Interrupted | Select_error

definition MAX_RECV_BUF_LEN :: nat where "MAX_RECV_BUF_LEN = 4096"

definition FD_SETSIZE :: int where "FD_SETSIZE = 1024"

definition fd_set_ok :: "int \<Rightarrow> bool" where
  "fd_set_ok fd \<longleftrightarrow> 0 \<le> fd \<and> fd < FD_SETSIZE"

definition rx_fd :: "'a link_scheme \<Rightarrow> int" where
  "rx_fd s = (if ncd s = TCP_SERVER then listend_fd s else com_fd s)"

text \<open>
  One step of the thread. \<open>FD_SET\<close> and \<open>FD_ISSET\<close> are undefined for a descriptor that is negative or too
  large. After an error that is not an interrupt the set is as it was. A read of descriptor -1 fails.
\<close>

definition hand_over :: "u8 list \<Rightarrow> 'a link_scheme \<Rightarrow> 'a link_scheme" where
  "hand_over bytes s =
     (if bytes = [] then s
      else let s1 = s\<lparr>rx_count := rx_count s + int (length bytes)\<rparr> in
        if has_callback s1 then s1\<lparr>delivered := delivered s1 @ [bytes]\<rparr> else s1)"

fun rx_step :: "(address \<Rightarrow> 'a link_scheme \<Rightarrow> 'a link_scheme) \<Rightarrow> select_answer \<Rightarrow> u8 list option \<Rightarrow> address \<Rightarrow>
    rx_pc \<Rightarrow> 'a link_scheme \<Rightarrow> fault + (rx_pc \<times> 'a link_scheme)" where
  "rx_step learn sel data src At_test s = (case rx_exit s of
     None \<Rightarrow> Inl Undefined_Behaviour | Some stop \<Rightarrow> Inr (if stop then Ended else At_opened, s))"
| "rx_step learn sel data src At_opened s = (case created s of
     None \<Rightarrow> Inl Undefined_Behaviour | Some yes \<Rightarrow> Inr (if yes then At_set else At_test, s))"
| "rx_step learn sel data src At_set s =
     (if fd_set_ok (rx_fd s) then Inr (At_select (rx_fd s), s) else Inl Undefined_Behaviour)"
| "rx_step learn sel data src (At_select fd) s =
     (if sel = Interrupted \<or> sel = Select_timeout then Inr (At_test, s) else Inr (At_isset fd, s))"
| "rx_step learn sel data src (At_isset fd) s =
     (if fd_set_ok (rx_fd s) then Inr (if rx_fd s = fd then At_recv else At_test, s) else Inl Undefined_Behaviour)"
| "rx_step learn sel data src At_recv s = (case data of
     Some bytes \<Rightarrow> if rx_fd s = -1 then Inr (At_test, s)
       else Inr (At_test, hand_over (take MAX_RECV_BUF_LEN bytes) (learn src s))
   | None \<Rightarrow> Inr (At_test, s))"
| "rx_step learn sel data src Ended s = Inr (Ended, s)"

text \<open>Only a UDP server looks at the sender: it keeps the first one.\<close>

definition no_learn :: "address \<Rightarrow> 'a link_scheme \<Rightarrow> 'a link_scheme" where
  "no_learn src s = s"

definition udp_learn :: "address \<Rightarrow> udp \<Rightarrow> udp" where
  "udp_learn src s = (if ncd s = UDP_SERVER \<and> \<not> client_ack s then s\<lparr>client_addr := src, client_ack := True\<rparr> else s)"

section \<open>Sending\<close>

text \<open>\<open>len\<close>: what \<open>write\<close>, \<open>sendto\<close> or \<open>send\<close> answers. The results: what is returned, what is stored as
  the length sent, and where a datagram went. \<open>null\<close>: the caller gave no place for the length.\<close>

definition WriteToIo :: "bool \<Rightarrow> int \<Rightarrow> 'a link_scheme \<Rightarrow> fault + (bool \<times> int option)" where
  "WriteToIo null len s = (case created s of
     None \<Rightarrow> Inl Undefined_Behaviour
   | Some False \<Rightarrow> Inr (False, None)
   | Some True \<Rightarrow> Inr (len \<noteq> -1, if len \<noteq> -1 \<and> \<not> null then Some len else None))"

definition UDP_TransToNet :: "bool \<Rightarrow> int \<Rightarrow> udp \<Rightarrow> bool \<times> int option \<times> address option" where
  "UDP_TransToNet null len s =
     (if created s \<noteq> Some True then (False, None, None)
      else if ncd s = UDP_SERVER \<and> \<not> client_ack s then (False, None, None)
      else (len \<noteq> -1, if len \<noteq> -1 \<and> \<not> null then Some len else None,
        if ncd s = UDP_CLIENT then Some (server_addr s)
        else if ncd s = UDP_SERVER then Some (client_addr s) else None))"

definition TCP_TransToNet :: "bool \<Rightarrow> int \<Rightarrow> link \<Rightarrow> fault + (bool \<times> int option)" where
  "TCP_TransToNet null len s =
     (if created s \<noteq> Some True then Inr (True, None)
      else if ncd s = TCP_CLIENT then
        if len \<noteq> -1 \<and> null then Inl Null_Pointer else Inr (len \<noteq> -1, None)
      else if ncd s = TCP_SERVER then Inr (len \<noteq> -1, if len \<noteq> -1 \<and> \<not> null then Some len else None)
      else Inr (True, None))"

definition IsClientAck :: "udp \<Rightarrow> bool" where
  "IsClientAck s = client_ack s"

section \<open>The two threads\<close>

datatype 'c link_event = Create 'c | Close | Main | Receiver nat select_answer "u8 list option" address

definition link_step :: "('c \<Rightarrow> 'a link_scheme \<Rightarrow> bool option \<times> 'a link_scheme) \<Rightarrow> (address \<Rightarrow> 'a link_scheme \<Rightarrow> 'a link_scheme) \<Rightarrow>
    'a link_scheme \<Rightarrow> 'c link_event \<Rightarrow> fault + 'a link_scheme" where
  "link_step create learn s e = (case e of
     Create c \<Rightarrow> Inr (if main_pc s = Main_idle then snd (create c s) else s)
   | Close \<Rightarrow> if main_pc s = Main_idle then Close_call s else Inr s
   | Main \<Rightarrow> Inr (main_step s)
   | Receiver i sel data src \<Rightarrow>
       if i < length (threads s) then
         (case rx_step learn sel data src (threads s ! i) s of
            Inl f \<Rightarrow> Inl f
          | Inr (pc, s') \<Rightarrow> Inr (s'\<lparr>threads := (threads s)[i := pc]\<rparr>))
       else Inr s)"

text \<open>The driver opens its serial port only when it is not started.\<close>

definition driver_Open :: "int \<times> bool \<times> bool \<times> bool \<Rightarrow> 'a link_scheme \<Rightarrow> bool option \<times> 'a link_scheme" where
  "driver_Open c s = (if created s = Some True then (Some True, s) else serial_Open c s)"

section \<open>The phases of a connection\<close>

text \<open>The descriptors a connection holds while it is open, and what holds before, while and after.\<close>

definition held :: "'a link_scheme \<Rightarrow> int list" where
  "held s = com_fd s # (if ncd s = TCP_SERVER then [listend_fd s] else [])"

definition lone_thread :: "'a link_scheme \<Rightarrow> bool" where
  "lone_thread s \<longleftrightarrow> rx_thread s \<and> (\<exists>pc. threads s = [pc] \<and> (rx_exit s = Some False \<longrightarrow> pc \<noteq> Ended))"

definition fds_forgotten :: "'a link_scheme \<Rightarrow> bool" where
  "fds_forgotten s \<longleftrightarrow> com_fd s = -1 \<and> listend_fd s = -1 \<and> os_fds s = []"

definition closed :: "'a link_scheme \<Rightarrow> bool" where
  "closed s \<longleftrightarrow> main_pc s = Main_idle \<and> created s \<noteq> Some True \<and> \<not> rx_thread s \<and> threads s = [] \<and> fds_forgotten s"

definition holds_fds :: "'a link_scheme \<Rightarrow> bool" where
  "holds_fds s \<longleftrightarrow> os_fds s = held s \<and> (\<forall>fd \<in> set (held s). fd_set_ok fd) \<and> (ncd s \<noteq> TCP_SERVER \<longrightarrow> listend_fd s = -1)"

definition starting :: "'a link_scheme \<Rightarrow> bool" where
  "starting s \<longleftrightarrow> main_pc s = Mark \<and> created s \<noteq> Some True \<and> rx_exit s = Some False \<and> lone_thread s \<and> holds_fds s"

definition opened :: "'a link_scheme \<Rightarrow> bool" where
  "opened s \<longleftrightarrow> main_pc s = Main_idle \<and> created s = Some True \<and> rx_exit s = Some False \<and> lone_thread s \<and> holds_fds s"

definition closing :: "'a link_scheme \<Rightarrow> bool" where
  "closing s \<longleftrightarrow> created s = Some True \<and> rx_exit s = Some True \<and>
     (case main_pc s of
        Close_fd \<Rightarrow> lone_thread s \<and> holds_fds s
      | Forget_fd \<Rightarrow> lone_thread s \<and> os_fds s = tl (held s) \<and> (\<forall>fd \<in> set (held s). fd_set_ok fd) \<and>
          (ncd s \<noteq> TCP_SERVER \<longrightarrow> listend_fd s = -1)
      | Close_listend \<Rightarrow> lone_thread s \<and> com_fd s = -1 \<and> os_fds s = tl (held s) \<and> (\<forall>fd \<in> set (tl (held s)). fd_set_ok fd) \<and>
          (ncd s \<noteq> TCP_SERVER \<longrightarrow> listend_fd s = -1)
      | Forget_listend \<Rightarrow> lone_thread s \<and> com_fd s = -1 \<and> os_fds s = [] \<and> ncd s = TCP_SERVER \<and> fd_set_ok (listend_fd s)
      | Join \<Rightarrow> lone_thread s \<and> fds_forgotten s
      | Unmark \<Rightarrow> \<not> rx_thread s \<and> threads s = [] \<and> fds_forgotten s
      | _ \<Rightarrow> False)"

text \<open>What the callback got: no empty chunk, none over the buffer, and every byte is counted.\<close>

definition chunks_ok :: "'a link_scheme \<Rightarrow> bool" where
  "chunks_ok s \<longleftrightarrow> (\<forall>c \<in> set (delivered s). c \<noteq> [] \<and> length c \<le> MAX_RECV_BUF_LEN)"

definition link_inv :: "'a link_scheme \<Rightarrow> bool" where
  "link_inv s \<longleftrightarrow> (closed s \<or> starting s \<or> opened s \<or> closing s) \<and> chunks_ok s"

lemmas phase_defs = closed_def starting_def opened_def closing_def lone_thread_def fds_forgotten_def holds_fds_def held_def

lemma fd_set_ok_not_minus1 [simp]: "\<not> fd_set_ok (-1)"
  by (simp add: fd_set_ok_def)

lemma fd_set_ok_neq: "fd_set_ok fd \<Longrightarrow> fd \<noteq> -1"
  by auto

text \<open>
  Members the steps do not look at. A change of the chunks and of the count keeps every phase; so does
  a change of the members a class adds.
\<close>

definition same_link :: "'a link_scheme \<Rightarrow> 'a link_scheme \<Rightarrow> bool" where
  "same_link s s' \<longleftrightarrow> com_fd s' = com_fd s \<and> listend_fd s' = listend_fd s \<and> ncd s' = ncd s \<and> created s' = created s \<and>
     rx_exit s' = rx_exit s \<and> threads s' = threads s \<and> rx_thread s' = rx_thread s \<and> main_pc s' = main_pc s \<and> os_fds s' = os_fds s"

lemma same_link_phase:
  assumes "same_link s s'"
  shows "closed s' = closed s" "starting s' = starting s" "opened s' = opened s" "closing s' = closing s" "rx_fd s' = rx_fd s"
  using assms by (simp_all add: same_link_def phase_defs rx_fd_def cong: main_pc.case_cong)

lemma link_inv_idle: "link_inv s \<Longrightarrow> main_pc s = Main_idle \<Longrightarrow> closed s \<or> opened s"
  by (auto simp: link_inv_def starting_def closing_def)

lemma hand_over_same: "same_link s (hand_over bytes s)"
  by (simp add: same_link_def hand_over_def Let_def)

lemma hand_over_chunks: "chunks_ok s \<Longrightarrow> length bytes \<le> MAX_RECV_BUF_LEN \<Longrightarrow> chunks_ok (hand_over bytes s)"
  by (auto simp: chunks_ok_def hand_over_def Let_def)

lemma same_link_trans: "same_link s s' \<Longrightarrow> same_link s' s'' \<Longrightarrow> same_link s s''"
  by (simp add: same_link_def)

lemma closing_main_step:
  assumes "closing s"
  shows "closing (main_step s) \<or> closed (main_step s)"
proof (cases "main_pc s")
  case Join
  with assms obtain pc where "threads s = [pc]" "rx_thread s" by (auto simp: closing_def lone_thread_def)
  with Join assms show ?thesis by (cases pc) (simp_all add: main_step_def closing_def fds_forgotten_def)
next
  case Close_fd
  with assms have "com_fd s \<noteq> -1" by (auto simp: closing_def holds_fds_def held_def)
  with Close_fd assms show ?thesis
    by (auto simp: main_step_def closing_def holds_fds_def lone_thread_def held_def)
next
  case Close_listend
  then show ?thesis
  proof (cases "ncd s = TCP_SERVER")
    case True
    with Close_listend assms have "listend_fd s \<noteq> -1" by (auto simp: closing_def held_def)
    with Close_listend True assms show ?thesis by (auto simp: main_step_def closing_def lone_thread_def held_def)
  next
    case False
    with Close_listend assms show ?thesis by (auto simp: main_step_def closing_def lone_thread_def held_def fds_forgotten_def)
  qed
qed (use assms in \<open>auto simp: main_step_def closing_def closed_def lone_thread_def held_def fds_forgotten_def\<close>)

definition small_event :: "('c \<Rightarrow> bool) \<Rightarrow> 'c link_event \<Rightarrow> bool" where
  "small_event small e = (case e of Create c \<Rightarrow> small c | _ \<Rightarrow> True)"

text \<open>What a user sees between the calls: an open connection has its descriptors and one live thread,
  a closed one has nothing.\<close>

definition tidy :: "'a link_scheme \<Rightarrow> bool" where
  "tidy s \<longleftrightarrow> main_pc s = Main_idle \<longrightarrow>
     (if created s = Some True then os_fds s = held s \<and> (\<exists>pc. threads s = [pc] \<and> pc \<noteq> Ended)
      else os_fds s = [] \<and> threads s = [])"

lemma link_inv_tidy: "link_inv s \<Longrightarrow> tidy s"
  by (auto simp: tidy_def link_inv_def phase_defs)

section \<open>The interface of the three classes\<close>

text \<open>
  What the steps need of a class: opening a closed connection leaves it closed or starts the thread, an
  open one is left alone, and what a receive thread learns of the sender is no business of the link.
  \<open>small\<close>: the descriptors the system answers fit a set; \<open>kind\<close>: the values \<open>ncd\<close> has in the class.
\<close>

locale connection =
  fixes create :: "'c \<Rightarrow> 'a link_scheme \<Rightarrow> bool option \<times> 'a link_scheme"
    and learn :: "address \<Rightarrow> 'a link_scheme \<Rightarrow> 'a link_scheme"
    and small :: "'c \<Rightarrow> bool"
    and kind :: "NetCommDev \<Rightarrow> bool"
  assumes create_closed: "closed s \<Longrightarrow> kind (ncd s) \<Longrightarrow> small c \<Longrightarrow>
      (fst (create c s) = Some False \<and> closed (snd (create c s))) \<or> (fst (create c s) = None \<and> starting (snd (create c s)))"
    and create_kind: "kind (ncd s) \<Longrightarrow> kind (ncd (snd (create c s)))"
    and create_opened: "opened s \<Longrightarrow> create c s = (Some True, s)"
    and create_chunks: "delivered (snd (create c s)) = delivered s"
    and learn_same: "same_link s (learn src s) \<and> delivered (learn src s) = delivered s"
begin

lemma rx_step_frame:
  "rx_step learn sel data src pc s = Inr (pc', s') \<Longrightarrow> same_link s s' \<and> (chunks_ok s \<longrightarrow> chunks_ok s')"
proof (cases pc)
  case At_recv
  assume "rx_step learn sel data src pc s = Inr (pc', s')"
  moreover have "chunks_ok (learn src s) = chunks_ok s" using learn_same by (simp add: chunks_ok_def)
  moreover have "same_link s (hand_over bytes (learn src s))" for bytes
    using same_link_trans [of s "learn src s"] learn_same hand_over_same by blast
  ultimately show ?thesis unfolding At_recv
    by (auto simp: same_link_def split: option.splits if_splits intro!: hand_over_chunks)
qed (auto simp: same_link_def split: option.splits if_splits)

lemma rx_step_pc:
  "rx_step learn sel data src pc s = Inr (pc', s') \<Longrightarrow> rx_exit s = Some False \<Longrightarrow> pc \<noteq> Ended \<Longrightarrow> pc' \<noteq> Ended"
  by (cases pc) (auto split: option.splits if_splits)

lemma receiver_lone:
  assumes "i < length (threads s)" "rx_step learn sel data src (threads s ! i) s = Inr (pc, s')" "lone_thread s"
  shows "lone_thread (s'\<lparr>threads := (threads s)[i := pc]\<rparr>)"
  using assms rx_step_frame [OF assms(2)] rx_step_pc [OF assms(2)] by (auto simp: lone_thread_def same_link_def)

lemma receiver_closing:
  assumes "i < length (threads s)" "rx_step learn sel data src (threads s ! i) s = Inr (pc, s')" "closing s"
  shows "closing (s'\<lparr>threads := (threads s)[i := pc]\<rparr>)"
  using receiver_lone [OF assms(1,2)] rx_step_frame [OF assms(2)] assms(1,3)
  by (cases "main_pc s") (simp_all add: closing_def holds_fds_def held_def fds_forgotten_def same_link_def)

lemma receiver_inv:
  assumes "link_inv s" "i < length (threads s)" "rx_step learn sel data src (threads s ! i) s = Inr (pc, s')"
  shows "link_inv (s'\<lparr>threads := (threads s)[i := pc]\<rparr>)"
proof -
  have frame: "same_link s s'" "chunks_ok s \<longrightarrow> chunks_ok s'" using rx_step_frame [OF assms(3)] by simp_all
  note lone = receiver_lone [OF assms(2,3)]
  have "\<not> closed s" using assms(2) by (auto simp: closed_def)
  moreover have "starting s \<Longrightarrow> starting (s'\<lparr>threads := (threads s)[i := pc]\<rparr>)"
    using lone frame(1) by (simp add: starting_def holds_fds_def held_def same_link_def)
  moreover have "opened s \<Longrightarrow> opened (s'\<lparr>threads := (threads s)[i := pc]\<rparr>)"
    using lone frame(1) by (simp add: opened_def holds_fds_def held_def same_link_def)
  ultimately show ?thesis using assms(1) frame(2) receiver_closing [OF assms(2,3)] by (auto simp: link_inv_def chunks_ok_def)
qed

lemma main_step_inv: "link_inv s \<Longrightarrow> link_inv (main_step s)"
proof -
  assume inv: "link_inv s"
  have chunks: "chunks_ok (main_step s) = chunks_ok s"
    by (auto simp: main_step_def chunks_ok_def split: main_pc.split list.split rx_pc.split)
  have "closed s \<Longrightarrow> closed (main_step s)" "starting s \<Longrightarrow> opened (main_step s)" "opened s \<Longrightarrow> opened (main_step s)"
    by (auto simp: phase_defs main_step_def)
  moreover have "closing s \<Longrightarrow> closing (main_step s) \<or> closed (main_step s)"
    by (rule closing_main_step)
  ultimately show ?thesis using inv chunks by (auto simp: link_inv_def)
qed

lemma Close_call_inv: "link_inv s \<Longrightarrow> main_pc s = Main_idle \<Longrightarrow> Close_call s = Inr s' \<Longrightarrow> link_inv s'"
proof -
  assume inv: "link_inv s" and idle: "main_pc s = Main_idle" and call: "Close_call s = Inr s'"
  from link_inv_idle [OF inv idle] show "link_inv s'"
  proof
    assume "closed s"
    with inv call show ?thesis by (auto simp: Close_call_def closed_def split: option.splits)
  next
    assume o: "opened s"
    with call have s': "s' = s\<lparr>rx_exit := Some True, main_pc := Close_fd\<rparr>" by (simp add: Close_call_def opened_def)
    have "closing s'" using o unfolding s' by (auto simp: opened_def closing_def lone_thread_def holds_fds_def held_def)
    with inv show ?thesis by (simp add: link_inv_def chunks_ok_def s')
  qed
qed

lemma create_inv: "link_inv s \<Longrightarrow> kind (ncd s) \<Longrightarrow> main_pc s = Main_idle \<Longrightarrow> small c \<Longrightarrow> link_inv (snd (create c s))"
  using create_closed [of s c] create_opened [of s c] create_chunks [of c s] link_inv_idle [of s]
  unfolding link_inv_def chunks_ok_def by (metis snd_conv)

lemma main_step_ncd: "ncd (main_step s) = ncd s"
  by (simp add: main_step_def split: main_pc.split list.split rx_pc.split)

lemma link_step_ncd: "kind (ncd s) \<Longrightarrow> link_step create learn s e = Inr s' \<Longrightarrow> kind (ncd s')"
  by (auto simp: link_step_def Close_call_def main_step_ncd same_link_def create_kind
      split: link_event.splits if_splits sum.splits option.splits bool.splits dest!: rx_step_frame)

lemma link_step_inv:
  "link_inv s \<Longrightarrow> kind (ncd s) \<Longrightarrow> small_event small e \<Longrightarrow> link_step create learn s e = Inr s' \<Longrightarrow> link_inv s'"
  by (auto simp: link_step_def small_event_def split: link_event.splits if_splits sum.splits
      intro: create_inv Close_call_inv main_step_inv receiver_inv)

lemma run_inv:
  "link_inv s \<Longrightarrow> kind (ncd s) \<Longrightarrow> list_all (small_event small) es \<Longrightarrow> run_res (link_step create learn) s es = Inr s' \<Longrightarrow>
    link_inv s' \<and> kind (ncd s')"
  by (induction es arbitrary: s) (auto split: sum.splits dest: link_step_inv link_step_ncd)

lemma run_tidy:
  "link_inv s \<Longrightarrow> kind (ncd s) \<Longrightarrow> list_all (small_event small) es \<Longrightarrow> run_res (link_step create learn) s es = Inr s' \<Longrightarrow>
    tidy s' \<and> chunks_ok s'"
  using run_inv [of s es s'] link_inv_tidy [of s'] by (auto simp: link_inv_def)

text \<open>A fault: the descriptor of the thread was taken away by a close in progress, or a flag was never set.\<close>

lemma step_fault:
  assumes "link_inv s" "created s \<noteq> None" "link_step create learn s e = Inl f"
  shows "f = Undefined_Behaviour \<and> closing s \<and> rx_fd s = -1"
proof -
  obtain i sel data src where e: "e = Receiver i sel data src" "i < length (threads s)"
    and f: "rx_step learn sel data src (threads s ! i) s = Inl f"
    using assms(2,3) by (auto simp: link_step_def Close_call_def split: link_event.splits if_splits sum.splits option.splits bool.splits)
  have "\<not> closed s" using e(2) by (auto simp: closed_def)
  then have exit: "rx_exit s \<noteq> None" using assms(1) by (auto simp: link_inv_def starting_def opened_def closing_def)
  have "f = Undefined_Behaviour" "\<not> fd_set_ok (rx_fd s)"
    using f exit assms(2) by (cases "threads s ! i"; auto split: option.splits if_splits)+
  moreover have "closing s \<and> rx_fd s = -1"
    using \<open>\<not> closed s\<close> \<open>\<not> fd_set_ok (rx_fd s)\<close> assms(1) e(2)
    by (cases "main_pc s") (auto simp: link_inv_def phase_defs rx_fd_def split: if_splits)
  ultimately show ?thesis by blast
qed

end

text \<open>
  Closing ends: each round of the thread brings it nearer to the test of its loop, which the flag ends,
  and then every statement of closing goes on.
\<close>

fun rx_rank :: "rx_pc \<Rightarrow> nat" where
  "rx_rank Ended = 0"
| "rx_rank At_test = 1"
| "rx_rank At_recv = 2"
| "rx_rank (At_isset fd) = 3"
| "rx_rank (At_select fd) = 4"
| "rx_rank At_set = 5"
| "rx_rank At_opened = 6"

lemma rx_rank_bound: "rx_rank pc \<le> 6"
  by (cases pc) simp_all

lemma rx_rank_zero: "rx_rank pc = 0 \<Longrightarrow> pc = Ended"
  by (cases pc) simp_all

fun main_rank :: "main_pc \<Rightarrow> nat" where
  "main_rank Unmark = 1"
| "main_rank Join = 2"
| "main_rank Forget_listend = 3"
| "main_rank Close_listend = 4"
| "main_rank Forget_fd = 5"
| "main_rank Close_fd = 6"
| "main_rank _ = 0"

definition thread_ended :: "'a link_scheme \<Rightarrow> bool" where
  "thread_ended s \<longleftrightarrow> (\<forall>pc \<in> set (threads s). pc = Ended)"

lemma rx_rank_less:
  "rx_step learn sel data src pc s = Inr (pc', s') \<Longrightarrow> rx_exit s = Some True \<Longrightarrow> rx_rank pc' \<le> rx_rank pc - 1"
  by (cases pc) (auto split: option.splits if_splits)

lemma closing_main_rank:
  assumes "closing s" "thread_ended s"
  shows "closed (main_step s) \<or> closing (main_step s) \<and> thread_ended (main_step s) \<and>
    main_rank (main_pc (main_step s)) < main_rank (main_pc s)"
proof -
  have "main_rank (main_pc (main_step s)) < main_rank (main_pc s) \<or> main_pc s = Mark \<or> main_pc s = Main_idle"
    using assms
    by (cases "main_pc s") (auto simp: main_step_def closing_def lone_thread_def thread_ended_def)
  moreover have "thread_ended (main_step s)"
    using assms(2) by (auto simp: main_step_def thread_ended_def split: main_pc.split list.split rx_pc.split)
  moreover have "main_pc s \<noteq> Mark" "main_pc s \<noteq> Main_idle" using assms(1) by (auto simp: closing_def)
  ultimately show ?thesis using closing_main_step [OF assms(1)] by blast
qed

text \<open>The steps of the two threads, in any order.\<close>

definition is_main :: "'c link_event \<Rightarrow> bool" where
  "is_main e = (case e of Main \<Rightarrow> True | _ \<Rightarrow> False)"

definition is_receiver :: "'c link_event \<Rightarrow> bool" where
  "is_receiver e = (case e of Receiver i _ _ _ \<Rightarrow> i = 0 | _ \<Rightarrow> False)"

definition thread_step :: "'c link_event \<Rightarrow> bool" where
  "thread_step e \<longleftrightarrow> is_main e \<or> is_receiver e"

lemma thread_stepE:
  assumes "thread_step e"
  obtains "e = Main" | sel data src where "e = Receiver 0 sel data src"
  using assms by (cases e) (auto simp: thread_step_def is_main_def is_receiver_def)

lemma closed_main_step: "closed s \<Longrightarrow> main_step s = s"
  by (simp add: closed_def main_step_def)

lemma closed_step: "closed s \<Longrightarrow> thread_step e \<Longrightarrow> link_step create learn s e = Inr s"
  by (elim thread_stepE) (simp_all add: link_step_def closed_main_step closed_def)

lemma closed_steps: "closed s \<Longrightarrow> list_all thread_step es \<Longrightarrow> run_res (link_step create learn) s es = Inr s"
  by (induction es) (simp_all add: closed_step)

lemma ended_step:
  assumes "thread_ended s" "link_step create learn s (Receiver 0 sel data src) = r"
  shows "r = Inr s"
proof (cases "threads s")
  case (Cons pc ts)
  with assms(1) have "pc = Ended" by (simp add: thread_ended_def)
  with Cons assms(2) show ?thesis by (auto simp: link_step_def)
qed (use assms in \<open>simp add: link_step_def\<close>)

text \<open>With the thread at its end as many steps of the closing as it has statements finish it.\<close>

lemma main_steps_close:
  "closed s \<or> closing s \<and> thread_ended s \<and> main_rank (main_pc s) \<le> length (filter is_main es) \<Longrightarrow> list_all thread_step es \<Longrightarrow>
    \<exists>s'. run_res (link_step create learn) s es = Inr s' \<and> closed s'"
proof (induction es arbitrary: s)
  case Nil
  then show ?case by (cases "main_pc s") (auto simp: closing_def)
next
  case (Cons e es)
  have steps: "list_all thread_step es" "thread_step e" using Cons.prems(2) by simp_all
  show ?case
  proof (cases "closed s")
    case True
    then show ?thesis using closed_steps [OF True Cons.prems(2), of create learn] by blast
  next
    case False
    with Cons.prems(1) have cl: "closing s" "thread_ended s" "main_rank (main_pc s) \<le> length (filter is_main (e # es))" by auto
    from steps(2) show ?thesis
    proof (cases rule: thread_stepE)
      case 1
      with closing_main_rank [OF cl(1,2)] cl(3)
      have "closed (main_step s) \<or> closing (main_step s) \<and> thread_ended (main_step s) \<and>
          main_rank (main_pc (main_step s)) \<le> length (filter is_main es)" by (auto simp: is_main_def)
      from Cons.IH [OF this steps(1)] show ?thesis by (simp add: 1 link_step_def)
    next
      case (2 sel data src)
      have "main_rank (main_pc s) \<le> length (filter is_main es)" using cl(3) by (simp add: 2 is_main_def)
      with Cons.IH [OF _ steps(1), of s] cl ended_step [OF cl(2) refl, of create learn sel data src] show ?thesis
        by (simp add: 2)
    qed
  qed
qed

context connection
begin

lemma main_step_created: "created s \<noteq> None \<Longrightarrow> created (main_step s) \<noteq> None"
  by (auto simp: main_step_def split: main_pc.split list.split rx_pc.split)

lemma main_step_ranks: "\<forall>pc \<in> set (threads s). rx_rank pc \<le> k \<Longrightarrow> \<forall>pc \<in> set (threads (main_step s)). rx_rank pc \<le> k"
  by (auto simp: main_step_def split: main_pc.split list.split rx_pc.split)

text \<open>However the two threads take turns, the receive thread has ended after as many rounds as its loop has statements.\<close>

lemma receivers_end:
  assumes "closed s \<or> closing s \<and> (\<forall>pc \<in> set (threads s). rx_rank pc \<le> k)" "link_inv s" "created s \<noteq> None" "list_all thread_step es"
  shows "run_res (link_step create learn) s es = Inl Undefined_Behaviour \<or>
    (\<exists>s'. run_res (link_step create learn) s es = Inr s' \<and>
      (closed s' \<or> closing s' \<and> (\<forall>pc \<in> set (threads s'). rx_rank pc \<le> k - length (filter is_receiver es))))"
  using assms
proof (induction es arbitrary: s k)
  case Nil
  then show ?case by auto
next
  case (Cons e es)
  have steps: "list_all thread_step es" "thread_step e" using Cons.prems(4) by simp_all
  show ?case
  proof (cases "closed s")
    case True
    then show ?thesis using closed_steps [OF True Cons.prems(4), of create learn] by simp
  next
    case False
    with Cons.prems(1) have cl: "closing s" "\<forall>pc \<in> set (threads s). rx_rank pc \<le> k" by simp_all
    from steps(2) show ?thesis
    proof (cases rule: thread_stepE)
      case 1
      have "closed (main_step s) \<or> closing (main_step s) \<and> (\<forall>pc \<in> set (threads (main_step s)). rx_rank pc \<le> k)"
        using closing_main_step [OF cl(1)] main_step_ranks [OF cl(2)] by blast
      from Cons.IH [OF this main_step_inv [OF Cons.prems(2)] main_step_created [OF Cons.prems(3)] steps(1)]
      show ?thesis by (simp add: 1 link_step_def is_receiver_def)
    next
      case (2 sel data src)
      show ?thesis
      proof (cases "threads s")
        case Nil
        then have "link_step create learn s e = Inr s" by (simp add: 2 link_step_def)
        moreover have "closing s \<and> (\<forall>pc \<in> set (threads s). rx_rank pc \<le> k - 1)" using cl Nil by simp
        ultimately show ?thesis using Cons.IH [of s "k - 1"] Cons.prems(2,3) steps(1) by (simp add: 2 is_receiver_def)
      next
        case (Cons pc ts)
        show ?thesis
        proof (cases "rx_step learn sel data src pc s")
          case (Inl f)
          then have "link_step create learn s e = Inl f" by (simp add: 2 link_step_def Cons)
          with step_fault [OF Cons.prems(2,3) this] show ?thesis by simp
        next
          case (Inr x)
          obtain pc' s' where x: "x = (pc', s')" by (cases x)
          let ?s = "s'\<lparr>threads := (threads s)[0 := pc']\<rparr>"
          have step: "rx_step learn sel data src (threads s ! 0) s = Inr (pc', s')" using Inr by (simp add: Cons x)
          have len: "0 < length (threads s)" by (simp add: Cons)
          have ts: "ts = []" using cl(1) Cons by (cases "main_pc s") (auto simp: closing_def lone_thread_def)
          have "rx_rank pc' \<le> k - 1"
            using rx_rank_less [of learn sel data src pc s pc' s'] Inr x cl by (auto simp: closing_def Cons)
          then have "\<forall>pc \<in> set (threads ?s). rx_rank pc \<le> k - 1" by (simp add: Cons ts)
          with receiver_closing [OF len step cl(1)]
          have "closed ?s \<or> closing ?s \<and> (\<forall>pc \<in> set (threads ?s). rx_rank pc \<le> k - 1)" by blast
          moreover have "created ?s \<noteq> None" using rx_step_frame [OF step] Cons.prems(3) by (simp add: same_link_def)
          ultimately show ?thesis using Cons.IH [of ?s "k - 1"] receiver_inv [OF Cons.prems(2) len step] steps(1)
            by (simp add: 2 link_step_def Cons Inr x is_receiver_def)
        qed
      qed
    qed
  qed
qed

lemma closing_completes:
  assumes "closing s" "link_inv s" "list_all thread_step es" "list_all thread_step es'"
    and "6 \<le> length (filter is_receiver es)" "6 \<le> length (filter is_main es')"
  shows "run_res (link_step create learn) s (es @ es') = Inl Undefined_Behaviour \<or>
    (\<exists>s'. run_res (link_step create learn) s (es @ es') = Inr s' \<and> closed s')"
proof -
  have "closed s \<or> closing s \<and> (\<forall>pc \<in> set (threads s). rx_rank pc \<le> 6)" using assms(1) by (simp add: rx_rank_bound)
  moreover have "created s \<noteq> None" using assms(1) by (simp add: closing_def)
  ultimately consider "run_res (link_step create learn) s es = Inl Undefined_Behaviour"
    | s' where "run_res (link_step create learn) s es = Inr s'"
        "closed s' \<or> closing s' \<and> (\<forall>pc \<in> set (threads s'). rx_rank pc \<le> 6 - length (filter is_receiver es))"
    using receivers_end [OF _ assms(2) _ assms(3)] by blast
  then show ?thesis
  proof cases
    case 1
    then show ?thesis by (simp add: run_res_append)
  next
    case 2
    have "main_rank (main_pc s') \<le> 6" by (cases "main_pc s'") simp_all
    then have "closed s' \<or> closing s' \<and> thread_ended s' \<and> main_rank (main_pc s') \<le> length (filter is_main es')"
      using 2(2) assms(5,6) rx_rank_zero by (auto simp: thread_ended_def)
    from main_steps_close [OF this assms(4), of create learn] 2(1) show ?thesis by (auto simp: run_res_append)
  qed
qed

text \<open>The call of \<open>Close\<close> on an open connection begins it.\<close>

lemma Close_opened:
  assumes "opened s" "link_inv s"
  shows "\<exists>s'. link_step create learn s Close = Inr s' \<and> closing s' \<and> link_inv s'"
proof -
  have idle: "main_pc s = Main_idle" and call: "Close_call s = Inr (s\<lparr>rx_exit := Some True, main_pc := Close_fd\<rparr>)"
    using assms(1) by (simp_all add: opened_def Close_call_def)
  have "closing (s\<lparr>rx_exit := Some True, main_pc := Close_fd\<rparr>)"
    using assms(1) by (auto simp: opened_def closing_def lone_thread_def holds_fds_def held_def)
  with idle call Close_call_inv [OF assms(2) idle call] show ?thesis by (simp add: link_step_def)
qed

end

section \<open>The three classes provide it\<close>

definition fd_answer :: "int \<Rightarrow> bool" where
  "fd_answer fd \<longleftrightarrow> fd = -1 \<or> fd_set_ok fd"

lemma fd_answer_cases: "fd_answer fd \<Longrightarrow> fd \<noteq> -1 \<Longrightarrow> fd_set_ok fd"
  by (simp add: fd_answer_def)

lemma close_com_closed:
  "closed s \<Longrightarrow> closed (close_com (opened_fd fd s))" "closed s \<Longrightarrow> closed (opened_fd (-1) s)"
  by (auto simp: closed_def fds_forgotten_def close_com_def opened_fd_def)

lemma serial_start: "closed s \<Longrightarrow> ncd s = NET_NULL \<Longrightarrow> fd_set_ok fd \<Longrightarrow> starting (start_thread (opened_fd fd s))"
  by (auto simp: phase_defs start_thread_def opened_fd_def)

definition serial_small :: "int \<times> bool \<times> bool \<times> bool \<Rightarrow> bool" where
  "serial_small c = fd_answer (fst c)"

interpretation serial_link: connection driver_Open no_learn serial_small "\<lambda>n. n = NET_NULL"
proof
  show "(fst (driver_Open c s) = Some False \<and> closed (snd (driver_Open c s))) \<or>
      (fst (driver_Open c s) = None \<and> starting (snd (driver_Open c s)))"
    if "closed s" "ncd s = NET_NULL" "serial_small c" for s :: "'a link_scheme" and c
    using that close_com_closed [of s] serial_start [of s] fd_answer_cases [of "fst c"]
    by (cases c) (auto simp: driver_Open_def serial_Open_def serial_small_def Let_def closed_def)
  show "driver_Open c s = (Some True, s)" if "opened s" for s :: "'a link_scheme" and c
    using that by (simp add: driver_Open_def opened_def)
  show "delivered (snd (driver_Open c s)) = delivered s" for s :: "'a link_scheme" and c
    by (cases c) (simp add: driver_Open_def serial_Open_def opened_fd_def close_com_def start_thread_def Let_def)
  show "ncd (snd (driver_Open c s)) = NET_NULL" if "ncd s = NET_NULL" for s :: "'a link_scheme" and c
    using that by (cases c) (simp add: driver_Open_def serial_Open_def opened_fd_def close_com_def start_thread_def Let_def)
  show "same_link s (no_learn src s) \<and> delivered (no_learn src s) = delivered s" for s :: "'a link_scheme" and src
    by (simp add: no_learn_def same_link_def)
qed

lemmas socket_defs = opened_fd_def close_com_def start_thread_def Let_def

lemma udp_start:
  "closed (s :: udp) \<Longrightarrow> fd_set_ok fd \<Longrightarrow> obj \<noteq> TCP_SERVER \<Longrightarrow> starting (start_thread (opened_fd fd s\<lparr>ncd := obj, server_addr := addr\<rparr>))"
  by (auto simp: phase_defs start_thread_def opened_fd_def)

definition udp_small :: "udp_call \<Rightarrow> bool" where
  "udp_small c = fd_answer (u_socket c)"

definition udp_kind :: "NetCommDev \<Rightarrow> bool" where
  "udp_kind n \<longleftrightarrow> n = NET_NULL \<or> n = UDP_CLIENT \<or> n = UDP_SERVER"

interpretation udp_link: connection UDP_CreateSocket udp_learn udp_small udp_kind
proof
  fix s :: udp and c :: udp_call and src :: address
  show "(fst (UDP_CreateSocket c s) = Some False \<and> closed (snd (UDP_CreateSocket c s))) \<or>
      (fst (UDP_CreateSocket c s) = None \<and> starting (snd (UDP_CreateSocket c s)))"
    if s: "closed s" "udp_kind (ncd s)" and c: "udp_small c"
  proof (cases "u_socket c = -1")
    case True
    with s(1) close_com_closed [OF s(1)] show ?thesis
      by (simp add: UDP_CreateSocket_def closed_def Let_def split: option.split)
  next
    case False
    with c have "fd_set_ok (u_socket c)" by (simp add: udp_small_def fd_answer_cases)
    with False s(1) close_com_closed(1) [OF s(1), of "u_socket c"] udp_start [OF s(1), of "u_socket c"] show ?thesis
      by (auto simp: UDP_CreateSocket_def closed_def Let_def split: option.split)
  qed
  show "UDP_CreateSocket c s = (Some True, s)" if "opened s"
    using that by (simp add: UDP_CreateSocket_def opened_def)
  show "delivered (snd (UDP_CreateSocket c s)) = delivered s"
    by (simp add: UDP_CreateSocket_def socket_defs split: option.split)
  show "udp_kind (ncd (snd (UDP_CreateSocket c s)))" if "udp_kind (ncd s)"
    using that by (auto simp: UDP_CreateSocket_def udp_kind_def socket_defs split: option.split)
  show "same_link s (udp_learn src s) \<and> delivered (udp_learn src s) = delivered s"
    by (simp add: udp_learn_def same_link_def)
qed

lemma tcp_start:
  assumes "closed s" "fd_set_ok fd"
  shows "starting (start_thread (opened_fd fd s\<lparr>ncd := TCP_CLIENT\<rparr>))"
    and "fd_set_ok fd' \<Longrightarrow> starting (start_thread (opened_fd fd s\<lparr>ncd := TCP_SERVER, listend_fd := fd', os_fds := fd # os_fds s @ [fd']\<rparr>))"
  using assms by (auto simp: phase_defs start_thread_def opened_fd_def)

lemma closed_any_kind: "closed (s\<lparr>ncd := n\<rparr>) = closed s"
  by (simp add: closed_def fds_forgotten_def)

definition tcp_small :: "tcp_call \<Rightarrow> bool" where
  "tcp_small c \<longleftrightarrow> fd_answer (t_socket c) \<and> fd_answer (t_accept c)"

interpretation tcp_link: connection TCP_CreateSocket no_learn tcp_small "\<lambda>_. True"
proof
  fix s :: link and c :: tcp_call and src :: address
  show "(fst (TCP_CreateSocket c s) = Some False \<and> closed (snd (TCP_CreateSocket c s))) \<or>
      (fst (TCP_CreateSocket c s) = None \<and> starting (snd (TCP_CreateSocket c s)))"
    if s: "closed s" and c: "tcp_small c"
  proof (cases "t_socket c = -1")
    case True
    with s close_com_closed [OF s] show ?thesis by (simp add: TCP_CreateSocket_def closed_def Let_def)
  next
    case False
    with c have "fd_set_ok (t_socket c)" by (simp add: tcp_small_def fd_answer_cases)
    moreover from c have "t_accept c \<noteq> -1 \<Longrightarrow> fd_set_ok (t_accept c)" by (simp add: tcp_small_def fd_answer_cases)
    ultimately show ?thesis using False s by (auto simp: TCP_CreateSocket_def phase_defs socket_defs)
  qed
  show "TCP_CreateSocket c s = (Some True, s)" if "opened s"
    using that by (simp add: TCP_CreateSocket_def opened_def)
  show "delivered (snd (TCP_CreateSocket c s)) = delivered s"
    by (simp add: TCP_CreateSocket_def socket_defs)
  show "same_link s (no_learn src s) \<and> delivered (no_learn src s) = delivered s"
    by (simp add: no_learn_def same_link_def)
qed simp_all

section \<open>Properties\<close>

text \<open>What a run starts from.\<close>

lemma new_inv: "link_inv new_serial" "link_inv new_udp" "link_inv (new_tcp n)"
  by (simp_all add: link_inv_def closed_def fds_forgotten_def chunks_ok_def new_serial_def new_udp_def new_tcp_def)

lemma new_created: "created new_udp = Some False" "created (new_tcp n) = Some False"
  by (simp_all add: new_udp_def new_tcp_def)

lemma six_times: "replicate 6 x = [x, x, x, x, x, x]"
  by (simp add: numeral_eq_Suc)

lemma main_step_client:
  "client_ack (main_step s) = client_ack s" "client_addr (main_step s) = client_addr (s :: udp)"
  by (simp_all add: main_step_def split: main_pc.split list.split rx_pc.split)

lemma udp_create_client:
  "client_ack (snd (UDP_CreateSocket c s)) = client_ack s" "client_addr (snd (UDP_CreateSocket c s)) = client_addr s"
  by (simp_all add: UDP_CreateSocket_def socket_defs split: option.split)

lemma udp_rx_client:
  "rx_step udp_learn sel data src pc s = Inr (pc', s') \<Longrightarrow> client_ack s \<Longrightarrow> client_ack s' \<and> client_addr s' = client_addr s"
  by (cases pc) (auto simp: udp_learn_def hand_over_def Let_def split: option.splits if_splits)

lemma udp_run_client:
  "run_res (link_step UDP_CreateSocket udp_learn) s es = Inr s' \<Longrightarrow> client_ack s \<Longrightarrow> client_ack s' \<and> client_addr s' = client_addr s"
proof (induction es arbitrary: s)
  case (Cons e es)
  then obtain s1 where s1: "link_step UDP_CreateSocket udp_learn s e = Inr s1"
    "run_res (link_step UDP_CreateSocket udp_learn) s1 es = Inr s'" by (auto split: sum.splits)
  have "client_ack s1 \<and> client_addr s1 = client_addr s" using s1(1) Cons.prems(2)
    by (auto simp: link_step_def Close_call_def main_step_client udp_create_client
        split: link_event.splits if_splits sum.splits option.splits bool.splits dest!: udp_rx_client)
  with Cons.IH [OF s1(2)] show ?case by simp
qed simp

lemma tcp_created:
  "created s \<noteq> None \<Longrightarrow> run_res (link_step TCP_CreateSocket no_learn) s es = Inr s' \<Longrightarrow> created s' \<noteq> None"
proof (induction es arbitrary: s)
  case (Cons e es)
  then obtain s1 where s1: "link_step TCP_CreateSocket no_learn s e = Inr s1"
    "run_res (link_step TCP_CreateSocket no_learn) s1 es = Inr s'" by (auto split: sum.splits)
  have "created (main_step s) \<noteq> None" using Cons.prems(1)
    by (auto simp: main_step_def split: main_pc.split list.split rx_pc.split)
  moreover have "created (snd (TCP_CreateSocket c s)) = created s" for c
    by (simp add: TCP_CreateSocket_def socket_defs)
  ultimately have "created s1 \<noteq> None" using s1(1) Cons.prems(1)
    by (auto simp: link_step_def Close_call_def same_link_def dest!: tcp_link.rx_step_frame
        split: link_event.splits if_splits sum.splits option.splits bool.splits)
  with Cons.IH s1(2) show ?case by blast
qed simp

text \<open>C19: 
  However opening, closing and the receive thread of a TCP connection interleave and whatever the system
  answers: between the calls an open connection holds exactly its descriptors and has one live thread, a
  closed one, also after a failed start, holds no descriptor and has no thread; and the callback never
  got an empty chunk or one longer than the buffer.
\<close>

theorem tcp_connection_tidy:
  assumes "list_all (small_event tcp_small) es" "run_res (link_step TCP_CreateSocket no_learn) (new_tcp n) es = Inr s"
  shows "tidy s \<and> chunks_ok s"
  using tcp_link.run_tidy [OF new_inv(3) TrueI assms] .

text \<open>The same of a UDP connection.\<close>

theorem udp_connection_tidy:
  assumes "list_all (small_event udp_small) es" "run_res (link_step UDP_CreateSocket udp_learn) new_udp es = Inr s"
  shows "tidy s \<and> chunks_ok s"
  using assms by (intro udp_link.run_tidy [OF new_inv(2)]) (simp_all add: udp_kind_def new_udp_def)

text \<open>The same of a serial line, which the driver opens only while it is not started.\<close>

theorem serial_connection_tidy:
  assumes "list_all (small_event serial_small) es" "run_res (link_step driver_Open no_learn) new_serial es = Inr s"
  shows "tidy s \<and> chunks_ok s"
  using assms by (intro serial_link.run_tidy [OF new_inv(1)]) (simp_all add: new_serial_def)

text \<open>C40: 
  The only thing that can go wrong: while a close is in progress that has taken the descriptor away, the
  receive thread puts -1 into a descriptor set.
\<close>

theorem tcp_fault_only_in_close:
  assumes "list_all (small_event tcp_small) es" "run_res (link_step TCP_CreateSocket no_learn) (new_tcp n) es = Inr s"
    and "link_step TCP_CreateSocket no_learn s e = Inl f"
  shows "f = Undefined_Behaviour \<and> closing s \<and> rx_fd s = -1"
proof -
  have inv: "link_inv s" using tcp_link.run_inv [OF new_inv(3) TrueI assms(1,2)] by blast
  have "created s \<noteq> None" using tcp_created [of "new_tcp n" es s] assms(2) new_created by simp
  with inv assms(3) show ?thesis using tcp_link.step_fault by blast
qed

text \<open>
  It can happen: the thread looks whether the connection is open, the connection is closed, and the
  thread goes on with descriptor -1.
\<close>

theorem close_races_receiver:
  "run_res (link_step driver_Open no_learn) new_serial
     [Create (5, True, True, True), Main, Receiver 0 Ready None ([], []), Receiver 0 Ready None ([], []),
      Close, Main, Main, Receiver 0 Ready None ([], [])] = Inl Undefined_Behaviour"
  by (simp add: new_serial_def link_step_def driver_Open_def serial_Open_def opened_fd_def start_thread_def main_step_def
      Close_call_def rx_fd_def fd_set_ok_def FD_SETSIZE_def)

text \<open>C33: Closing a TCP connection ends. In any state the two threads can reach with the connection open, the
  call of \<open>Close\<close>, followed by the steps of the closing and of the receive thread in any order and
  whatever the system answers, leads to a connection that is closed, holds no descriptor and has no
  thread, as soon as the receive thread has taken six steps and the closing six after them; unless the
  thread used the descriptor that was taken away (the race of \<open>close_races_receiver\<close>). Descriptors the
  system answers are -1 or below 1024.\<close>

theorem tcp_close_ends:
  assumes "list_all (small_event tcp_small) es" "run_res (link_step TCP_CreateSocket no_learn) (new_tcp n) es = Inr s"
    and "created s = Some True" "main_pc s = Main_idle"
    and "list_all thread_step mid" "list_all thread_step tail"
    and "6 \<le> length (filter is_receiver mid)" "6 \<le> length (filter is_main tail)"
  shows "run_res (link_step TCP_CreateSocket no_learn) s (Close # mid @ tail) = Inl Undefined_Behaviour \<or>
    (\<exists>s'. run_res (link_step TCP_CreateSocket no_learn) s (Close # mid @ tail) = Inr s' \<and>
      created s' = Some False \<and> main_pc s' = Main_idle \<and> com_fd s' = -1 \<and> listend_fd s' = -1 \<and> os_fds s' = [] \<and>
      \<not> rx_thread s' \<and> threads s' = [])"
proof -
  have inv: "link_inv s" using tcp_link.run_inv [OF new_inv(3) TrueI assms(1,2)] by blast
  have "opened s" using link_inv_idle [OF inv assms(4)] assms(3) by (auto simp: closed_def)
  from tcp_link.Close_opened [OF this inv] obtain s1 where s1: "link_step TCP_CreateSocket no_learn s Close = Inr s1"
    "closing s1" "link_inv s1" by blast
  from tcp_link.closing_completes [OF s1(2,3) assms(5-8)] s1(1)
  consider "run_res (link_step TCP_CreateSocket no_learn) s (Close # mid @ tail) = Inl Undefined_Behaviour"
    | s' where "run_res (link_step TCP_CreateSocket no_learn) s (Close # mid @ tail) = Inr s'" "closed s'" by auto
  then show ?thesis
  proof cases
    case 2
    have "created s' \<noteq> None" using tcp_created [OF _ 2(1)] assms(3) by simp
    with 2 show ?thesis by (auto simp: closed_def fds_forgotten_def)
  qed blast
qed

text \<open>
  A round of the receive thread of an open connection hands over what the system read, no more and no
  less, up to the size of the buffer, and stands at the start of the loop again. An end of the stream
  (nothing read) changes nothing: a connection that the other side has closed is asked again for ever,
  and nobody is told.
\<close>

theorem receive_round:
  assumes "opened s" "threads s = [At_test]" "has_callback s"
  shows "run_res (link_step TCP_CreateSocket no_learn) s (replicate 6 (Receiver 0 Ready (Some bytes) src)) =
    Inr (if bytes = [] then s
      else s\<lparr>rx_count := rx_count s + int (length (take MAX_RECV_BUF_LEN bytes)), delivered := delivered s @ [take MAX_RECV_BUF_LEN bytes]\<rparr>)"
proof -
  have "fd_set_ok (rx_fd s)" using assms(1) by (auto simp: opened_def holds_fds_def held_def rx_fd_def)
  moreover have "rx_fd s \<noteq> -1" using calculation by auto
  moreover have "rx_exit s = Some False" "created s = Some True" using assms(1) by (simp_all add: opened_def)
  ultimately show ?thesis using assms(2,3)
    by (cases "ncd s = TCP_SERVER")
      (simp_all add: six_times link_step_def rx_fd_def no_learn_def hand_over_def Let_def MAX_RECV_BUF_LEN_def)
qed

text \<open>
  A UDP server answers the first that ever sent to it: neither closing nor opening it again forgets the
  address, so that the next start as a server finds a client at once and talks to the old one.
\<close>

theorem udp_first_client_kept:
  assumes "client_ack s" "run_res (link_step UDP_CreateSocket udp_learn) s es = Inr s'"
  shows "IsClientAck s' \<and> client_addr s' = client_addr s \<and>
    (created s' = Some True \<and> ncd s' = UDP_SERVER \<longrightarrow> UDP_TransToNet null len s' = (len \<noteq> -1, if len \<noteq> -1 \<and> \<not> null then Some len else None, Some (client_addr s)))"
  using udp_run_client [OF assms(2,1)] assms(1) by (auto simp: IsClientAck_def UDP_TransToNet_def)

section \<open>Witnesses\<close>

definition tcp_server_call :: tcp_call where
  "tcp_server_call = \<lparr>t_obj = TCP_SERVER, t_ip = Some ''127.0.0.1'', t_port = Some ''2000'', t_socket = 3, t_bind = True,
     t_listen = True, t_accept = 4, t_connect = False\<rparr>"

definition tcp_open_run :: "tcp_call link_event list" where
  "tcp_open_run = [Create tcp_server_call, Receiver 0 Ready None ([], []), Main]"

definition udp_server_call :: udp_call where
  "udp_server_call = \<lparr>u_obj = UDP_SERVER, u_ip = Some ''127.0.0.1'', u_port = Some ''2000'', u_socket = 3, u_bind = True\<rparr>"

definition open_tcp :: link where
  "open_tcp = (new_tcp TCP_SERVER)\<lparr>com_fd := 3, listend_fd := 4, created := Some True, rx_exit := Some False,
     threads := [At_opened], rx_thread := True, os_fds := [3, 4]\<rparr>"

lemmas run_defs = link_step_def start_thread_def opened_fd_def main_step_def Close_call_def rx_fd_def fd_set_ok_def FD_SETSIZE_def

lemma tcp_open_run: "run_res (link_step TCP_CreateSocket no_learn) (new_tcp TCP_SERVER) tcp_open_run = Inr open_tcp"
  by (simp add: tcp_open_run_def run_defs TCP_CreateSocket_def tcp_server_call_def new_tcp_def open_tcp_def Let_def)

lemma tcp_open_run_small: "list_all (small_event tcp_small) tcp_open_run"
  by (simp add: tcp_open_run_def small_event_def tcp_small_def tcp_server_call_def fd_answer_def fd_set_ok_def FD_SETSIZE_def)

lemma open_tcp_phase: "opened open_tcp"
  by (simp add: phase_defs open_tcp_def new_tcp_def fd_set_ok_def FD_SETSIZE_def)

theorem tcp_connection_tidy_witness: "tidy open_tcp \<and> chunks_ok open_tcp"
  by (rule tcp_connection_tidy [OF tcp_open_run_small tcp_open_run])

theorem udp_connection_tidy_witness:
  "tidy (new_udp\<lparr>com_fd := -1\<rparr>) \<and> chunks_ok (new_udp\<lparr>com_fd := -1\<rparr>)"
  by (rule udp_connection_tidy [of "[Create (udp_server_call\<lparr>u_bind := False\<rparr>)]"])
    (simp_all add: small_event_def udp_small_def udp_server_call_def fd_answer_def fd_set_ok_def FD_SETSIZE_def link_step_def
      UDP_CreateSocket_def socket_defs new_udp_def)

theorem serial_connection_tidy_witness: "tidy new_serial \<and> chunks_ok new_serial"
  by (rule serial_connection_tidy [of "[Create (5, True, False, True)]"])
    (simp_all add: small_event_def serial_small_def fd_answer_def fd_set_ok_def FD_SETSIZE_def link_step_def
      driver_Open_def serial_Open_def socket_defs new_serial_def)

text \<open>The receive thread of the open server is before \<open>FD_SET\<close> when the close takes its descriptor.\<close>

definition raced_tcp :: link where
  "raced_tcp = open_tcp\<lparr>threads := [At_set], rx_exit := Some True, com_fd := -1, listend_fd := -1, os_fds := [], main_pc := Join\<rparr>"

lemma raced_run:
  "run_res (link_step TCP_CreateSocket no_learn) (new_tcp TCP_SERVER)
    (tcp_open_run @ [Receiver 0 Ready None ([], []), Close, Main, Main, Main, Main]) = Inr raced_tcp"
  by (simp add: run_res_append tcp_open_run) (simp add: run_defs open_tcp_def new_tcp_def raced_tcp_def)

theorem tcp_fault_only_in_close_witness: "closing raced_tcp \<and> rx_fd raced_tcp = -1"
  using tcp_fault_only_in_close [OF _ raced_run, of "Receiver 0 Ready None ([], [])" Undefined_Behaviour] tcp_open_run_small
  by (simp add: small_event_def raced_tcp_def open_tcp_def new_tcp_def run_defs)

theorem tcp_close_ends_witness:
  "run_res (link_step TCP_CreateSocket no_learn) open_tcp
      (Close # (Main # replicate 6 (Receiver 0 Select_timeout None ([], []))) @ replicate 6 Main) = Inl Undefined_Behaviour \<or>
    (\<exists>s'. run_res (link_step TCP_CreateSocket no_learn) open_tcp
      (Close # (Main # replicate 6 (Receiver 0 Select_timeout None ([], []))) @ replicate 6 Main) = Inr s' \<and>
      created s' = Some False \<and> os_fds s' = [] \<and> threads s' = [])"
proof -
  let ?mid = "Main # replicate 6 (Receiver 0 Select_timeout None ([], []))"
  have "created open_tcp = Some True" "main_pc open_tcp = Main_idle" using open_tcp_phase by (simp_all add: opened_def)
  moreover have "list_all thread_step ?mid" "list_all thread_step (replicate 6 Main)" "6 \<le> length (filter is_receiver ?mid)"
    "6 \<le> length (filter is_main (replicate 6 Main))"
    by (simp_all add: six_times thread_step_def is_main_def is_receiver_def)
  ultimately show ?thesis using tcp_close_ends [OF tcp_open_run_small tcp_open_run, of ?mid "replicate 6 Main"] by blast
qed

theorem receive_round_witness:
  "run_res (link_step TCP_CreateSocket no_learn) (open_tcp\<lparr>threads := [At_test], has_callback := True\<rparr>)
      (replicate 6 (Receiver 0 Ready (Some [0x54, 0x2C]) ([], []))) =
    Inr (open_tcp\<lparr>threads := [At_test], has_callback := True, rx_count := 2, delivered := [[0x54, 0x2C]]\<rparr>)"
proof -
  have "opened (open_tcp\<lparr>threads := [At_test], has_callback := True\<rparr>)" using open_tcp_phase by (simp add: phase_defs)
  then show ?thesis
    by (subst receive_round) (simp_all add: open_tcp_def new_tcp_def MAX_RECV_BUF_LEN_def)
qed

theorem udp_first_client_kept_witness:
  "\<exists>s'. run_res (link_step UDP_CreateSocket udp_learn) (new_udp\<lparr>client_ack := True, client_addr := (''10.0.0.7'', ''4000'')\<rparr>)
      [Create udp_server_call, Main] = Inr s' \<and> UDP_TransToNet False 2 s' = (True, Some 2, Some (''10.0.0.7'', ''4000''))"
proof -
  let ?s = "new_udp\<lparr>client_ack := True, client_addr := (''10.0.0.7'', ''4000'')\<rparr>"
  obtain s' where s': "run_res (link_step UDP_CreateSocket udp_learn) ?s [Create udp_server_call, Main] = Inr s'"
    "created s' = Some True" "ncd s' = UDP_SERVER"
    by (simp add: link_step_def UDP_CreateSocket_def socket_defs main_step_def new_udp_def udp_server_call_def)
  from udp_first_client_kept [OF _ s'(1), of False 2] s' show ?thesis by simp
qed

end
