(* ===== verification/Programs.thy ===== *)
theory Programs
  imports Prelude
begin

text \<open>
  How the operations of the components are written: programs that pass a state along and may end in
  a fault, with the rules that run them, and steps with output for the components that publish,
  send or call back.
\<close>

section \<open>Programs with state and faults\<close>

type_synonym ('s, 'a) prog = "'s \<Rightarrow> fault + ('a \<times> 's)"

definition ret :: "'a \<Rightarrow> ('s, 'a) prog" where
  "ret x = (\<lambda>s. Inr (x, s))"

definition bnd :: "('s, 'a) prog \<Rightarrow> ('a \<Rightarrow> ('s, 'b) prog) \<Rightarrow> ('s, 'b) prog" where
  "bnd m k = (\<lambda>s. case m s of Inl f \<Rightarrow> Inl f | Inr (x, s') \<Rightarrow> k x s')"

definition seqp :: "('s, 'a) prog \<Rightarrow> ('s, 'b) prog \<Rightarrow> ('s, 'b) prog" where
  "seqp m n = bnd m (\<lambda>_. n)"

definition fault_with :: "fault \<Rightarrow> ('s, 'a) prog" where
  "fault_with f = (\<lambda>s. Inl f)"

definition gets :: "('s \<Rightarrow> 'a) \<Rightarrow> ('s, 'a) prog" where
  "gets g = (\<lambda>s. Inr (g s, s))"

definition modify :: "('s \<Rightarrow> 's) \<Rightarrow> ('s, unit) prog" where
  "modify g = (\<lambda>s. Inr ((), g s))"

text \<open>A conversion or an addition that may be undefined.\<close>

definition lift_opt :: "'a option \<Rightarrow> ('s, 'a) prog" where
  "lift_opt x = (case x of None \<Rightarrow> fault_with Undefined_Behaviour | Some y \<Rightarrow> ret y)"

lemma ret_apply [simp]: "ret x s = Inr (x, s)"
  by (simp add: ret_def)

lemma gets_apply [simp]: "gets g s = Inr (g s, s)"
  by (simp add: gets_def)

lemma modify_apply [simp]: "modify g s = Inr ((), g s)"
  by (simp add: modify_def)

lemma fault_with_apply [simp]: "fault_with f s = Inl f"
  by (simp add: fault_with_def)

lemma lift_opt_simps [simp]:
  "lift_opt (Some y) = ret y" "lift_opt None = fault_with Undefined_Behaviour"
  by (simp_all add: lift_opt_def)

lemma bnd_Inl [simp]: "m s = Inl f \<Longrightarrow> bnd m k s = Inl f"
  by (simp add: bnd_def)

lemma bnd_Inr [simp]: "m s = Inr (x, s') \<Longrightarrow> bnd m k s = k x s'"
  by (simp add: bnd_def)

lemma seqp_Inl [simp]: "m s = Inl f \<Longrightarrow> seqp m n s = Inl f"
  by (simp add: seqp_def)

lemma seqp_Inr [simp]: "m s = Inr (x, s') \<Longrightarrow> seqp m n s = n s'"
  by (simp add: seqp_def)

lemma bnd_InrE:
  assumes "bnd m k s = Inr r"
  obtains x s' where "m s = Inr (x, s')" "k x s' = Inr r"
  using assms by (auto simp: bnd_def split: sum.splits prod.splits)

lemma bnd_InlE:
  assumes "bnd m k s = Inl f"
  obtains "m s = Inl f" | x s' where "m s = Inr (x, s')" "k x s' = Inl f"
  using assms by (auto simp: bnd_def split: sum.splits prod.splits)

lemma lift_opt_Inr: "lift_opt x s = Inr (y, s') \<longleftrightarrow> x = Some y \<and> s' = s"
  by (cases x) (auto simp: lift_opt_def)

section \<open>Programs that keep an invariant\<close>

text \<open>Whatever a program returns with, the invariant still holds. One rule per way to build a program.\<close>

named_theorems keeps_intro "programs keep an invariant"

definition keeps :: "('s \<Rightarrow> bool) \<Rightarrow> ('s, 'a) prog \<Rightarrow> bool" where
  "keeps I m \<longleftrightarrow> (\<forall>s x s'. I s \<longrightarrow> m s = Inr (x, s') \<longrightarrow> I s')"

lemma keepsI: "(\<And>s x s'. I s \<Longrightarrow> m s = Inr (x, s') \<Longrightarrow> I s') \<Longrightarrow> keeps I m"
  by (auto simp: keeps_def)

lemma keepsD: "keeps I m \<Longrightarrow> I s \<Longrightarrow> m s = Inr (x, s') \<Longrightarrow> I s'"
  by (auto simp: keeps_def)

lemma keeps_ret [keeps_intro]: "keeps I (ret x)"
  by (simp add: keeps_def)

lemma keeps_gets [keeps_intro]: "keeps I (gets g)"
  by (simp add: keeps_def)

lemma keeps_fault [keeps_intro]: "keeps I (fault_with f)"
  by (simp add: keeps_def)

lemma keeps_lift_opt [keeps_intro]: "keeps I (lift_opt x)"
  by (simp add: keeps_def lift_opt_Inr)

lemma keeps_modify [keeps_intro]: "(\<And>s. I s \<Longrightarrow> I (g s)) \<Longrightarrow> keeps I (modify g)"
  by (simp add: keeps_def)

lemma keeps_bnd [keeps_intro]: "keeps I m \<Longrightarrow> (\<And>x. keeps I (k x)) \<Longrightarrow> keeps I (bnd m k)"
  by (intro keepsI) (auto elim!: bnd_InrE dest: keepsD)

lemma keeps_seqp [keeps_intro]: "keeps I m \<Longrightarrow> keeps I n \<Longrightarrow> keeps I (seqp m n)"
  unfolding seqp_def by (rule keeps_bnd)

lemma keeps_if [keeps_intro]: "(b \<Longrightarrow> keeps I m) \<Longrightarrow> (\<not> b \<Longrightarrow> keeps I n) \<Longrightarrow> keeps I (if b then m else n)"
  by simp

lemma keeps_option [keeps_intro]:
  "keeps I m \<Longrightarrow> (\<And>x. keeps I (k x)) \<Longrightarrow> keeps I (case x of None \<Rightarrow> m | Some y \<Rightarrow> k y)"
  by (simp split: option.split)

lemma keeps_pair [keeps_intro]: "(\<And>x y. keeps I (k x y)) \<Longrightarrow> keeps I (case p of (x, y) \<Rightarrow> k x y)"
  by (simp split: prod.split)

lemma keeps_Let [keeps_intro]: "(\<And>y. keeps I (k y)) \<Longrightarrow> keeps I (let y = x in k y)"
  by (simp add: Let_def)

section \<open>Steps with output\<close>

text \<open>A step that also emits what it publishes, sends or calls back; the outputs of a run in order.\<close>

fun emit_run :: "('s \<Rightarrow> 'e \<Rightarrow> fault + ('s \<times> 'o list)) \<Rightarrow> 's \<Rightarrow> 'e list \<Rightarrow> fault + ('s \<times> 'o list)" where
  "emit_run step s [] = Inr (s, [])"
| "emit_run step s (e # es) = (case step s e of
     Inl f \<Rightarrow> Inl f
   | Inr (s', out) \<Rightarrow> (case emit_run step s' es of Inl f \<Rightarrow> Inl f | Inr (s'', out') \<Rightarrow> Inr (s'', out @ out')))"

lemma emit_run_ConsE:
  assumes "emit_run step s (e # es) = Inr (s'', os)"
  obtains s' out out' where "step s e = Inr (s', out)" "emit_run step s' es = Inr (s'', out')" "os = out @ out'"
  using assms by (auto split: sum.splits prod.splits)

lemma emit_run_append:
  "emit_run step s (es @ es') = (case emit_run step s es of
     Inl f \<Rightarrow> Inl f
   | Inr (s', out) \<Rightarrow> (case emit_run step s' es' of Inl f \<Rightarrow> Inl f | Inr (s'', out') \<Rightarrow> Inr (s'', out @ out')))"
  by (induction es arbitrary: s) (auto split: sum.splits prod.splits)

end
