(* ===== verification/Dynamixel_Bus.thy ===== *)
theory Dynamixel_Bus
  imports Programs
begin

text \<open>
  What the Dynamixel classes call: the Dynamixel SDK, which is not part of the repository, and
  \<open>rclcpp::ok()\<close>. The calls a program makes are \<open>request\<close>s. The SDK and the hardware behind it
  are a parameter, a function from the history of requests to the reply to the newest one, so a
  reply may depend on everything sent before and any call may fail. The history, newest first,
  is the state of the bus.

  The operations of the driver are programs that pass a state along and may end in a fault.
\<close>

definition i32_add :: "i32 \<Rightarrow> i32 \<Rightarrow> i32 option" where
  "i32_add x y = (if fits_signed 32 (sint x + sint y) then Some (x + y) else None)"

lemma sint_add_fits:
  fixes x y :: i32
  assumes "fits_signed 32 (sint x + sint y)"
  shows "sint (x + y) = sint x + sint y"
proof -
  have "x + y = word_of_int (sint x + sint y)" by simp
  moreover have "sint (word_of_int (sint x + sint y) :: i32) = sint x + sint y"
    by (rule sint_word_of_int_fits) (use assms in simp)
  ultimately show ?thesis by simp
qed

lemma i32_add_SomeD: "i32_add x y = Some z \<Longrightarrow> sint z = sint x + sint y"
  using sint_add_fits by (auto simp: i32_add_def split: if_splits)

section \<open>The SDK\<close>

text \<open>
  \<open>Read\<close> and \<open>Write\<close> requests name the servo and the control table address. \<open>Bulk_\<close> requests go
  to \<open>GroupBulkWrite\<close>, \<open>Get_\<close> requests to \<open>GroupBulkRead\<close>.
\<close>

datatype request =
    Read1 u8 u16 | Read2 u8 u16 | Read4 u8 u16
  | Write1 u8 u16 u8 | Write4 u8 u16 u32
  | Reboot_packet u8 | Ros_ok | Open_port string | Set_baud int
  | Bulk_add u8 u16 u16 "u8 list" | Bulk_tx | Bulk_clear
  | Get_clear | Get_add u8 u16 u16 | Get_rx | Get_error u8 | Get_available u8 u16 u16 | Get_data u8 u16 u16

type_synonym bus = "request list"

text \<open>
  A reply: the communication result, the error byte of the servo, the data read (\<open>None\<close>: the
  output parameter is left as it was), and the boolean result of the calls that have one.
\<close>

record reply =
  comm_result :: int
  dxl_error :: u8
  rdata :: "u32 option"
  flag :: bool

text \<open>
  The SDK: how it replies, its success code, and its macros that take a number apart.
\<close>

record sdk =
  answer :: "bus \<Rightarrow> reply"
  COMM_SUCCESS :: int
  DXL_LOWORD :: "int \<Rightarrow> u16"
  DXL_HIWORD :: "int \<Rightarrow> u16"
  DXL_LOBYTE :: "u16 \<Rightarrow> u8"
  DXL_HIBYTE :: "u16 \<Rightarrow> u8"

text \<open>The documented meaning of the macros: the low and high halves of the low 32 bits.\<close>

definition macros_documented :: "sdk \<Rightarrow> bool" where
  "macros_documented D \<longleftrightarrow>
     DXL_LOWORD D = (\<lambda>x. word_of_int x) \<and> DXL_HIWORD D = (\<lambda>x. word_of_int (x div 65536)) \<and>
     DXL_LOBYTE D = lo8 \<and> DXL_HIBYTE D = hi8"

definition ask :: "sdk \<Rightarrow> request \<Rightarrow> bus \<Rightarrow> reply \<times> bus" where
  "ask D r b = (answer D (r # b), r # b)"

text \<open>The four bytes of a 32-bit goal, as both bulk writers build them.\<close>

definition dxl_bytes :: "sdk \<Rightarrow> int \<Rightarrow> u8 list" where
  "dxl_bytes D x =
     [DXL_LOBYTE D (DXL_LOWORD D x), DXL_HIBYTE D (DXL_LOWORD D x),
      DXL_LOBYTE D (DXL_HIWORD D x), DXL_HIBYTE D (DXL_HIWORD D x)]"

lemma bit_div_65536: "bit (x div 65536 :: int) n \<longleftrightarrow> bit x (n + 16)"
proof -
  have "x div 65536 = drop_bit 16 x" by (simp add: drop_bit_eq_div)
  then show ?thesis by (simp add: bit_drop_bit_eq add.commute)
qed

lemma four: "(4 :: nat) = Suc (Suc (Suc (Suc 0)))"
  by simp

lemma dxl_bytes_documented:
  assumes "macros_documented D"
  shows "dxl_bytes D x = bytes_le 4 (word_of_int x :: u32)"
proof -
  have "lo8 (word_of_int x) = (ucast (word_of_int x :: u32) :: u8)"
    "hi8 (word_of_int x) = (ucast (drop_bit 8 (word_of_int x :: u32)) :: u8)"
    "lo8 (word_of_int (x div 65536)) = (ucast (drop_bit 16 (word_of_int x :: u32)) :: u8)"
    "hi8 (word_of_int (x div 65536)) = (ucast (drop_bit 24 (word_of_int x :: u32)) :: u8)"
    by (rule bit_word_eqI;
        auto simp: lo8_def hi8_def bit_unsigned_iff bit_drop_bit_eq bit_div_65536
          bit_word_of_int_iff add.commute add.left_commute)+
  moreover have "bytes_le 4 w = [ucast w, ucast (drop_bit 8 w), ucast (drop_bit 16 w), ucast (drop_bit 24 w)]"
    for w :: u32
    by (simp only: four bytes_le.simps drop_bit_drop_bit) simp
  ultimately show ?thesis
    using assms unfolding dxl_bytes_def macros_documented_def by metis
qed

lemma dxl_bytes_roundtrip:
  "macros_documented D \<Longrightarrow> word_le (dxl_bytes D x) = (word_of_int x :: u32)"
  by (simp add: dxl_bytes_documented word_le_bytes_le)

end
