(* ===== verification/Dynamixel_Servo.thy ===== *)
theory Dynamixel_Servo
  imports Dynamixel_Bus "HOL-Library.Sublist"
begin

text \<open>
  Class \<open>DynamixelServo\<close> of \<^verbatim>\<open>dynamixel_driver/src/dynamixel_servo.cpp\<close>: one servo on the bus. Its
  state is the members of the class and the history of the bus; its operations are programs on
  that state. \<open>port_handler_\<close> and \<open>packet_handler_\<close> are set together, by \<open>Init\<close>: one flag says
  whether they are.
\<close>

section \<open>Constants and state\<close>

abbreviation ADDR_MODEL_NUMBER :: u16 where "ADDR_MODEL_NUMBER \<equiv> 0"
abbreviation ADDR_OPERATING_MODE :: u16 where "ADDR_OPERATING_MODE \<equiv> 11"
abbreviation ADDR_TORQUE_ENABLE :: u16 where "ADDR_TORQUE_ENABLE \<equiv> 64"
abbreviation ADDR_HARDWARE_ERROR_STATUS :: u16 where "ADDR_HARDWARE_ERROR_STATUS \<equiv> 70"
abbreviation ADDR_GOAL_VELOCITY :: u16 where "ADDR_GOAL_VELOCITY \<equiv> 104"
abbreviation ADDR_PROFILE_ACCELERATION :: u16 where "ADDR_PROFILE_ACCELERATION \<equiv> 108"
abbreviation ADDR_PROFILE_VELOCITY :: u16 where "ADDR_PROFILE_VELOCITY \<equiv> 112"
abbreviation ADDR_GOAL_POSITION :: u16 where "ADDR_GOAL_POSITION \<equiv> 116"
abbreviation ADDR_PRESENT_POSITION :: u16 where "ADDR_PRESENT_POSITION \<equiv> 132"
abbreviation ADDR_PRESENT_INPUT_VOLTAGE :: u16 where "ADDR_PRESENT_INPUT_VOLTAGE \<equiv> 144"
abbreviation ADDR_PRESENT_TEMPERATURE :: u16 where "ADDR_PRESENT_TEMPERATURE \<equiv> 146"

abbreviation OPERATING_MODE_VELOCITY :: u8 where "OPERATING_MODE_VELOCITY \<equiv> 1"
abbreviation OPERATING_MODE_POSITION :: u8 where "OPERATING_MODE_POSITION \<equiv> 3"
abbreviation OPERATING_MODE_EXTENDED_POSITION :: u8 where "OPERATING_MODE_EXTENDED_POSITION \<equiv> 4"
abbreviation OPERATING_MODE_PWM :: u8 where "OPERATING_MODE_PWM \<equiv> 16"

abbreviation kMinimumRPM :: double where "kMinimumRPM \<equiv> 1"
abbreviation kMaximumRPM :: double where "kMaximumRPM \<equiv> 52"
abbreviation kMaxVelocity :: i32 where "kMaxVelocity \<equiv> 229"
abbreviation kTurretAcceleration :: u32 where "kTurretAcceleration \<equiv> 10"
abbreviation kTurretMaxVelocity :: u32 where "kTurretMaxVelocity \<equiv> 96"
abbreviation kExtendedModeWheelAcceleration :: u32 where "kExtendedModeWheelAcceleration \<equiv> 10"
abbreviation kExtendedModeWheelMaxVelocity :: u32 where "kExtendedModeWheelMaxVelocity \<equiv> 44"
abbreviation kWheelAcceleration :: u32 where "kWheelAcceleration \<equiv> 10"
abbreviation kWheelMaxVelocity :: u32 where "kWheelMaxVelocity \<equiv> 218"

datatype Configuration = kConfigNone | kConfigServo | kConfigMotorClockwise | kConfigMotorAntiClockwise

datatype OperatingMode =
    kNoModeSet | kVelocityControlMode | kPositionControlMode | kExtendedPositionControlMode
  | kPulseWidthModulationMode

record DynamixelServoStatus =
  st_dxl_id :: u8
  st_hardware_status :: u8
  st_temperature_c :: int
  st_input_voltage :: double

record DynamixelServo =
  handlers_set :: bool
  model_number :: u32
  dxl_id :: u8
  config :: Configuration
  total_encoder_count :: i64
  last_encoder_count :: i32

text \<open>
  The constructor does not mention \<open>last_encoder_count_\<close>: what it holds is the argument \<open>junk\<close>.
\<close>

definition new_DynamixelServo :: "i32 \<Rightarrow> DynamixelServo" where
  "new_DynamixelServo junk =
     \<lparr>handlers_set = False, model_number = 0, dxl_id = 0, config = kConfigNone,
      total_encoder_count = 0, last_encoder_count = junk\<rparr>"

type_synonym 'a servo_op = "(DynamixelServo \<times> bus, 'a) prog"

section \<open>Access to the bus\<close>

text \<open>A call through \<open>packet_handler_\<close>, addressed to the servo's own id.\<close>

definition packet_call :: "sdk \<Rightarrow> (u8 \<Rightarrow> request) \<Rightarrow> reply servo_op" where
  "packet_call D r = (\<lambda>(s, b).
     if \<not> handlers_set s then Inl Null_Pointer
     else case ask D (r (dxl_id s)) b of (a, b') \<Rightarrow> Inr (a, s, b'))"

definition CommsCheck :: "sdk \<Rightarrow> int \<Rightarrow> u8 \<Rightarrow> bool" where
  "CommsCheck D dxl_comm_result err =
     (if dxl_comm_result \<noteq> COMM_SUCCESS D then False else if err \<noteq> 0 then False else True)"

text \<open>A read into a variable that was set to 0, with its check; a write with its check.\<close>

definition read_checked :: "sdk \<Rightarrow> (u8 \<Rightarrow> request) \<Rightarrow> (bool \<times> u32) servo_op" where
  "read_checked D r = bnd (packet_call D r) (\<lambda>a.
     ret (CommsCheck D (comm_result a) (dxl_error a), case rdata a of None \<Rightarrow> 0 | Some v \<Rightarrow> v))"

definition write_checked :: "sdk \<Rightarrow> (u8 \<Rightarrow> request) \<Rightarrow> bool servo_op" where
  "write_checked D r = bnd (packet_call D r) (\<lambda>a. ret (CommsCheck D (comm_result a) (dxl_error a)))"

definition Write4Bytes :: "sdk \<Rightarrow> u16 \<Rightarrow> u32 \<Rightarrow> bool servo_op" where
  "Write4Bytes D address v = write_checked D (\<lambda>i. Write4 i address v)"

section \<open>Reading the servo\<close>

definition GetId :: "DynamixelServo \<Rightarrow> u8" where
  "GetId s = dxl_id s"

definition GetPresentPosition :: "sdk \<Rightarrow> i32 servo_op" where
  "GetPresentPosition D = bnd (read_checked D (\<lambda>i. Read4 i ADDR_PRESENT_POSITION)) (\<lambda>(result, position).
     ret (if result then position else 0))"

definition GetHardwareErrorStatus :: "sdk \<Rightarrow> u8 servo_op" where
  "GetHardwareErrorStatus D = bnd (read_checked D (\<lambda>i. Read1 i ADDR_HARDWARE_ERROR_STATUS)) (\<lambda>(result, status).
     ret (if result then ucast status else 0))"

definition GetInputVoltage :: "sdk \<Rightarrow> double servo_op" where
  "GetInputVoltage D = bnd (read_checked D (\<lambda>i. Read2 i ADDR_PRESENT_INPUT_VOLTAGE)) (\<lambda>(result, deci_volts).
     ret (if result then real (unat (ucast deci_volts :: u16)) / 10 else 0))"

definition GetVoltage :: "sdk \<Rightarrow> double servo_op" where
  "GetVoltage D = GetInputVoltage D"

definition GetModelNumber :: "sdk \<Rightarrow> u32 servo_op" where
  "GetModelNumber D = bnd (read_checked D (\<lambda>i. Read4 i ADDR_MODEL_NUMBER)) (\<lambda>(_, number). ret number)"

text \<open>\<open>assert("...")\<close> of a string literal holds always: the default branch leaves \<open>kNoModeSet\<close>.\<close>

definition mode_of_register :: "u8 \<Rightarrow> OperatingMode" where
  "mode_of_register mode =
     (if mode = OPERATING_MODE_VELOCITY then kVelocityControlMode
      else if mode = OPERATING_MODE_POSITION then kPositionControlMode
      else if mode = OPERATING_MODE_EXTENDED_POSITION then kExtendedPositionControlMode
      else if mode = OPERATING_MODE_PWM then kPulseWidthModulationMode
      else kNoModeSet)"

definition GetOperatingMode :: "sdk \<Rightarrow> OperatingMode servo_op" where
  "GetOperatingMode D = bnd (read_checked D (\<lambda>i. Read1 i ADDR_OPERATING_MODE)) (\<lambda>(result, mode).
     ret (if result then mode_of_register (ucast mode) else kNoModeSet))"

text \<open>The temperature is returned whether or not the read succeeded.\<close>

definition GetTemperature :: "sdk \<Rightarrow> int servo_op" where
  "GetTemperature D = bnd (read_checked D (\<lambda>i. Read1 i ADDR_PRESENT_TEMPERATURE)) (\<lambda>(result, temperature_c).
     ret (uint (ucast temperature_c :: u8)))"

definition GetStatus :: "sdk \<Rightarrow> DynamixelServoStatus servo_op" where
  "GetStatus D =
     bnd (gets (dxl_id \<circ> fst)) (\<lambda>i.
     bnd (GetHardwareErrorStatus D) (\<lambda>hardware.
     bnd (GetTemperature D) (\<lambda>temperature.
     bnd (GetInputVoltage D) (\<lambda>voltage.
     ret \<lparr>st_dxl_id = i, st_hardware_status = hardware, st_temperature_c = temperature,
          st_input_voltage = voltage\<rparr>))))"

section \<open>Operations\<close>

definition EnableTorque :: "sdk \<Rightarrow> bool \<Rightarrow> bool servo_op" where
  "EnableTorque D enable = write_checked D (\<lambda>i. Write1 i ADDR_TORQUE_ENABLE (if enable then 1 else 0))"

text \<open>The difference of two \<open>int32_t\<close> and the sum of two \<open>int64_t\<close> are undefined on overflow.\<close>

definition encoder_update :: "bool \<Rightarrow> i32 \<Rightarrow> DynamixelServo \<Rightarrow> DynamixelServo option" where
  "encoder_update mode_changed encoder_count s =
     (if mode_changed then Some (s\<lparr>last_encoder_count := encoder_count\<rparr>)
      else
        let delta = sint encoder_count - sint (last_encoder_count s);
            total = sint (total_encoder_count s) + delta
        in if fits_signed 32 delta \<and> fits_signed 64 total
           then Some (s\<lparr>last_encoder_count := encoder_count, total_encoder_count := word_of_int total\<rparr>)
           else None)"

definition UpdateEncoderCount :: "sdk \<Rightarrow> bool \<Rightarrow> unit servo_op" where
  "UpdateEncoderCount D mode_changed = bnd (GetPresentPosition D) (\<lambda>encoder_count.
     \<lambda>(s, b). case encoder_update mode_changed encoder_count s of
        None \<Rightarrow> Inl Undefined_Behaviour | Some s' \<Rightarrow> Inr ((), s', b))"

definition GetTotalEncoderCount :: "sdk \<Rightarrow> i64 servo_op" where
  "GetTotalEncoderCount D = seqp (UpdateEncoderCount D False) (gets (total_encoder_count \<circ> fst))"

definition SetVelocityProfile :: "sdk \<Rightarrow> u32 \<Rightarrow> u32 \<Rightarrow> unit servo_op" where
  "SetVelocityProfile D acceleration velocity =
     seqp (Write4Bytes D ADDR_PROFILE_ACCELERATION acceleration)
    (seqp (Write4Bytes D ADDR_PROFILE_VELOCITY velocity) (ret ()))"

text \<open>The register value (0: none), acceleration and velocity of a mode.\<close>

definition mode_settings :: "Configuration \<Rightarrow> OperatingMode \<Rightarrow> u8 \<times> u32 \<times> u32" where
  "mode_settings cfg mode = (case mode of
     kVelocityControlMode \<Rightarrow> (OPERATING_MODE_VELOCITY, kWheelAcceleration, kWheelMaxVelocity)
   | kExtendedPositionControlMode \<Rightarrow>
       (OPERATING_MODE_EXTENDED_POSITION, kExtendedModeWheelAcceleration, kExtendedModeWheelMaxVelocity)
   | kPositionControlMode \<Rightarrow>
       (if cfg = kConfigServo then (OPERATING_MODE_POSITION, kTurretAcceleration, kTurretMaxVelocity)
        else (OPERATING_MODE_POSITION, 0, 0))
   | kPulseWidthModulationMode \<Rightarrow> (OPERATING_MODE_PWM, 0, 0)
   | kNoModeSet \<Rightarrow> (0, 0, 0))"

definition SetOperatingMode :: "sdk \<Rightarrow> OperatingMode \<Rightarrow> bool servo_op" where
  "SetOperatingMode D mode =
     seqp (UpdateEncoderCount D False)
    (bnd (gets (config \<circ> fst)) (\<lambda>cfg.
       case mode_settings cfg mode of (operating_mode, acceleration, velocity) \<Rightarrow>
       if operating_mode > 0 then
         bnd (write_checked D (\<lambda>i. Write1 i ADDR_OPERATING_MODE operating_mode)) (\<lambda>result.
         if \<not> result then ret False
         else seqp (SetVelocityProfile D acceleration velocity)
             (seqp (UpdateEncoderCount D True) (ret True)))
       else ret False))"

definition ConfigureControlMode :: "sdk \<Rightarrow> OperatingMode \<Rightarrow> unit servo_op" where
  "ConfigureControlMode D new_mode = bnd (GetOperatingMode D) (\<lambda>mode.
     if mode \<noteq> new_mode then
       seqp (GetPresentPosition D)
      (bnd (EnableTorque D False) (\<lambda>ok.
       if ok then bnd (SetOperatingMode D new_mode) (\<lambda>ok.
         if ok then seqp (EnableTorque D True) (ret ()) else ret ())
       else ret ()))
     else ret ())"

definition SetGoalPosition :: "sdk \<Rightarrow> i32 \<Rightarrow> unit servo_op" where
  "SetGoalPosition D goal_position = seqp (Write4Bytes D ADDR_GOAL_POSITION goal_position) (ret ())"

definition SetPosition :: "sdk \<Rightarrow> double \<Rightarrow> unit servo_op" where
  "SetPosition D angle_degrees =
     bnd (lift_opt (real_to_i32 (angle_degrees * 4096 / 360))) (SetGoalPosition D)"

text \<open>\<open>angle_radians / (2.0 * 3.1415926) * 4096.0 * -1.0\<close>, and the new goal relative to a position.\<close>

definition radians_to_counts :: "double \<Rightarrow> double" where
  "radians_to_counts angle_radians = angle_radians / (2 * 3.1415926) * 4096 * - 1"

definition relative_goal :: "double \<Rightarrow> i32 \<Rightarrow> i32 option" where
  "relative_goal angle_radians position =
     (case real_to_i32 (radians_to_counts angle_radians) of
        None \<Rightarrow> None | Some d \<Rightarrow> i32_add position d)"

definition SetRelativePosition :: "sdk \<Rightarrow> double \<Rightarrow> unit servo_op" where
  "SetRelativePosition D angle_radians =
     seqp (ConfigureControlMode D kExtendedPositionControlMode)
    (bnd (GetPresentPosition D) (\<lambda>position.
     bnd (lift_opt (relative_goal angle_radians position)) (SetGoalPosition D)))"

text \<open>
  The limiting and the reversal of \<open>SetRPM\<close>. Whether the unqualified \<open>abs\<close> is the one of \<open>int\<close> or of
  \<open>double\<close>, the test against 1 has the same outcome.
\<close>

definition limit_rpm :: "Configuration \<Rightarrow> double \<Rightarrow> double" where
  "limit_rpm cfg rpm =
     (let limited_rpm = rpm;
          limited_rpm = (if \<bar>rpm\<bar> < kMinimumRPM then 0 else limited_rpm);
          limited_rpm = (if rpm > kMaximumRPM then kMaximumRPM else limited_rpm);
          limited_rpm = (if rpm < - kMaximumRPM then - kMaximumRPM else limited_rpm)
      in if cfg = kConfigMotorClockwise then - limited_rpm else limited_rpm)"

definition clamp_velocity :: "i32 \<Rightarrow> i32" where
  "clamp_velocity velocity =
     (let velocity = (if sint velocity > sint kMaxVelocity then kMaxVelocity else velocity)
      in if sint velocity < - sint kMaxVelocity then - kMaxVelocity else velocity)"

definition SetVelocity :: "sdk \<Rightarrow> i32 \<Rightarrow> unit servo_op" where
  "SetVelocity D velocity = seqp (Write4Bytes D ADDR_GOAL_VELOCITY (clamp_velocity velocity)) (ret ())"

definition SetRPM :: "sdk \<Rightarrow> double \<Rightarrow> unit servo_op" where
  "SetRPM D rpm =
     seqp (ConfigureControlMode D kVelocityControlMode)
    (bnd (gets (config \<circ> fst)) (\<lambda>cfg.
     bnd (lift_opt (real_to_i32 (limit_rpm cfg rpm * 229 / kMaximumRPM))) (SetVelocity D)))"

text \<open>
  The wait of \<open>Reboot\<close> for the model number, where a read that fails leaves the number of the
  previous one; \<open>None\<close> when the wait never ends.
\<close>

partial_function (option) reboot_wait :: "sdk \<Rightarrow> u8 \<Rightarrow> u32 \<Rightarrow> u32 \<Rightarrow> bus \<Rightarrow> bus option" where
  "reboot_wait D i expected number b =
     (let (a, b1) = ask D (Read4 i ADDR_MODEL_NUMBER) b;
          number' = (case rdata a of None \<Rightarrow> number | Some v \<Rightarrow> v)
      in if number' \<noteq> expected then
           (let (a2, b2) = ask D Ros_ok b1
            in if flag a2 then reboot_wait D i expected number' b2 else Some b2)
         else Some b1)"

definition Reboot :: "sdk \<Rightarrow> unit servo_op" where
  "Reboot D = bnd (write_checked D Reboot_packet) (\<lambda>result. \<lambda>(s, b).
     if result then
       case reboot_wait D (dxl_id s) (model_number s) 0 b of
         None \<Rightarrow> Inl No_Return | Some b' \<Rightarrow> Inr ((), s, b')
     else Inr ((), s, b))"

definition Init :: "sdk \<Rightarrow> u32 \<Rightarrow> u8 \<Rightarrow> Configuration \<Rightarrow> unit servo_op" where
  "Init D number i cfg = (\<lambda>(s, b).
     case ask D Ros_ok b of (a, b') \<Rightarrow>
     if flag a then
       seqp (Reboot D)
      (seqp (SetOperatingMode D (if cfg = kConfigServo then kExtendedPositionControlMode else kVelocityControlMode))
      (seqp (EnableTorque D True) (ret ())))
       (s\<lparr>model_number := number, dxl_id := i, config := cfg, handlers_set := True\<rparr>, b')
     else Inr ((), s, b'))"

text \<open>The destructor switches the torque off.\<close>

definition delete_DynamixelServo :: "sdk \<Rightarrow> unit servo_op" where
  "delete_DynamixelServo D = seqp (EnableTorque D False) (ret ())"

section \<open>What an operation sends\<close>

text \<open>
  An operation keeps the identity of its servo and only extends the history, by requests that
  satisfy \<open>P\<close>. The rules follow the structure of the programs.
\<close>

definition same_servo :: "DynamixelServo \<Rightarrow> DynamixelServo \<Rightarrow> bool" where
  "same_servo s s' \<longleftrightarrow> handlers_set s' = handlers_set s \<and> dxl_id s' = dxl_id s \<and> config s' = config s \<and>
     model_number s' = model_number s"

definition emits :: "(u8 \<Rightarrow> request \<Rightarrow> bool) \<Rightarrow> 'a servo_op \<Rightarrow> bool" where
  "emits P m \<longleftrightarrow> (\<forall>s b x s' b'. m (s, b) = Inr (x, s', b') \<longrightarrow>
     same_servo s s' \<and> (\<exists>rs. b' = rs @ b \<and> (\<forall>r \<in> set rs. P (dxl_id s) r)))"

named_theorems emits_rules "what the programs send"

lemma emitsD:
  assumes "emits P m" "m (s, b) = Inr (x, s', b')"
  obtains rs where "b' = rs @ b" "\<forall>r \<in> set rs. P (dxl_id s) r" "same_servo s s'"
  using assms unfolding emits_def by blast

lemma emits_ret [emits_rules]: "emits P (ret x)"
  by (simp add: emits_def same_servo_def)

lemma emits_gets [emits_rules]: "emits P (gets g)"
  by (simp add: emits_def same_servo_def)

lemma emits_lift_opt [emits_rules]: "emits P (lift_opt v)"
  by (simp add: emits_def same_servo_def lift_opt_Inr)

lemma emits_bnd [emits_rules]:
  assumes "emits P m" "\<And>x. emits P (k x)"
  shows "emits P (bnd m k)"
  unfolding emits_def
proof (intro allI impI)
  fix s b x s' b'
  assume "bnd m k (s, b) = Inr (x, s', b')"
  then obtain y s1 b1 where m: "m (s, b) = Inr (y, s1, b1)" and k: "k y (s1, b1) = Inr (x, s', b')"
    by (elim bnd_InrE) auto
  obtain rs where rs: "b1 = rs @ b" "\<forall>r \<in> set rs. P (dxl_id s) r" "same_servo s s1"
    using emitsD [OF assms(1) m] .
  obtain rs' where "b' = rs' @ b1" "\<forall>r \<in> set rs'. P (dxl_id s1) r" "same_servo s1 s'"
    using emitsD [OF assms(2) k] .
  with rs show "same_servo s s' \<and> (\<exists>rs. b' = rs @ b \<and> (\<forall>r \<in> set rs. P (dxl_id s) r))"
    by (intro conjI exI [of _ "rs' @ rs"]) (auto simp: same_servo_def)
qed

lemma emits_seqp [emits_rules]: "emits P m \<Longrightarrow> emits P n \<Longrightarrow> emits P (seqp m n)"
  by (simp add: seqp_def emits_bnd)

lemma packet_call_Inr:
  "packet_call D r (s, b) = Inr (a, s', b') \<longleftrightarrow>
     handlers_set s \<and> s' = s \<and> b' = r (dxl_id s) # b \<and> a = answer D (r (dxl_id s) # b)"
  by (auto simp: packet_call_def ask_def)

lemma packet_call_ok: "handlers_set s \<Longrightarrow>
    packet_call D r (s, b) = Inr (answer D (r (dxl_id s) # b), s, r (dxl_id s) # b)"
  by (simp add: packet_call_def ask_def)

lemma emits_packet_call: "(\<And>i. P i (r i)) \<Longrightarrow> emits P (packet_call D r)"
  by (auto simp: emits_def packet_call_Inr same_servo_def)

lemma emits_read_checked [emits_rules]: "(\<And>i. P i (r i)) \<Longrightarrow> emits P (read_checked D r)"
  unfolding read_checked_def by (intro emits_rules emits_packet_call)

lemma emits_write_checked [emits_rules]: "(\<And>i. P i (r i)) \<Longrightarrow> emits P (write_checked D r)"
  unfolding write_checked_def by (intro emits_rules emits_packet_call)

lemma encoder_update_same: "encoder_update mc c s = Some s' \<Longrightarrow> same_servo s s'"
  by (auto simp: encoder_update_def same_servo_def Let_def split: if_splits)

lemma emits_UpdateEncoderCount [emits_rules]:
  assumes "\<And>i. P i (Read4 i ADDR_PRESENT_POSITION)"
  shows "emits P (UpdateEncoderCount D mc)"
proof -
  have position: "emits P (GetPresentPosition D)"
    unfolding GetPresentPosition_def
    by (intro emits_bnd emits_read_checked assms) (auto intro: emits_rules)
  have "emits P (\<lambda>(s, b). case encoder_update mc c s of
        None \<Rightarrow> Inl Undefined_Behaviour | Some s' \<Rightarrow> Inr ((), s', b))" for c
    by (auto simp: emits_def encoder_update_same split: option.splits)
  with position show ?thesis
    unfolding UpdateEncoderCount_def by (intro emits_bnd)
qed

lemma emits_GetPresentPosition [emits_rules]:
  "(\<And>i. P i (Read4 i ADDR_PRESENT_POSITION)) \<Longrightarrow> emits P (GetPresentPosition D)"
  unfolding GetPresentPosition_def by (intro emits_bnd emits_read_checked) (auto intro: emits_rules)

lemma emits_GetOperatingMode [emits_rules]:
  "(\<And>i. P i (Read1 i ADDR_OPERATING_MODE)) \<Longrightarrow> emits P (GetOperatingMode D)"
  unfolding GetOperatingMode_def by (intro emits_bnd emits_read_checked) (auto intro: emits_rules)

section \<open>The writes of a mode change\<close>

definition is_write :: "request \<Rightarrow> bool" where
  "is_write r = (case r of Write1 _ _ _ \<Rightarrow> True | Write4 _ _ _ \<Rightarrow> True | _ \<Rightarrow> False)"

text \<open>The writes in a piece of history, oldest first.\<close>

definition writes :: "bus \<Rightarrow> request list" where
  "writes rs = rev (filter is_write rs)"

lemma writes_simps [simp]:
  "writes [] = []" "writes (rs @ rs') = writes rs' @ writes rs"
  "writes (Write1 i a v # rs) = writes rs @ [Write1 i a v]"
  "writes (Write4 i a w # rs) = writes rs @ [Write4 i a w]"
  by (simp_all add: writes_def is_write_def)

lemma writes_none: "\<forall>r \<in> set rs. \<not> is_write r \<Longrightarrow> writes rs = []"
  by (simp add: writes_def filter_empty_conv)

text \<open>\<open>sends m s ws\<close>: run on \<open>s\<close>, \<open>m\<close> sends the writes \<open>ws r\<close> when its result is \<open>r\<close>.\<close>

definition sends :: "'a servo_op \<Rightarrow> (u8 \<Rightarrow> Configuration \<Rightarrow> 'a \<Rightarrow> request list set) \<Rightarrow> bool" where
  "sends m W \<longleftrightarrow> (\<forall>s b x s' b'. m (s, b) = Inr (x, s', b') \<longrightarrow>
     same_servo s s' \<and> (\<exists>rs. b' = rs @ b \<and> writes rs \<in> W (dxl_id s) (config s) x))"

lemma sendsD:
  assumes "sends m W" "m (s, b) = Inr (x, s', b')"
  obtains rs where "b' = rs @ b" "writes rs \<in> W (dxl_id s) (config s) x" "same_servo s s'"
  using assms unfolding sends_def by blast

lemma sends_quiet: "emits (\<lambda>_ r. \<not> is_write r) m \<Longrightarrow> sends m (\<lambda>_ _ _. {[]})"
  unfolding sends_def emits_def by (metis singletonI writes_none)

lemma sends_bnd:
  assumes "sends m V" "\<And>x. sends (k x) (W x)"
    "\<And>i c x y vs ws. vs \<in> V i c x \<Longrightarrow> ws \<in> W x i c y \<Longrightarrow> vs @ ws \<in> U i c y"
  shows "sends (bnd m k) U"
  unfolding sends_def
proof (intro allI impI)
  fix s b x s' b'
  assume "bnd m k (s, b) = Inr (x, s', b')"
  then obtain y s1 b1 where m: "m (s, b) = Inr (y, s1, b1)" and k: "k y (s1, b1) = Inr (x, s', b')"
    by (elim bnd_InrE) auto
  obtain rs where rs: "b1 = rs @ b" "writes rs \<in> V (dxl_id s) (config s) y" "same_servo s s1"
    using sendsD [OF assms(1) m] .
  obtain rs' where rs': "b' = rs' @ b1" "writes rs' \<in> W y (dxl_id s1) (config s1) x" "same_servo s1 s'"
    using sendsD [OF assms(2) k] .
  have "writes (rs' @ rs) \<in> U (dxl_id s) (config s) x"
    using assms(3) rs rs' by (simp add: same_servo_def)
  with rs rs' show "same_servo s s' \<and> (\<exists>rs. b' = rs @ b \<and> writes rs \<in> U (dxl_id s) (config s) x)"
    by (auto simp: same_servo_def intro!: exI [of _ "rs' @ rs"])
qed

lemma sends_seqp:
  assumes "sends m V" "sends n W"
    "\<And>i c x y vs ws. vs \<in> V i c x \<Longrightarrow> ws \<in> W i c y \<Longrightarrow> vs @ ws \<in> U i c y"
  shows "sends (seqp m n) U"
  unfolding seqp_def using assms by (rule sends_bnd)

lemma sends_ret: "(\<And>i c. [] \<in> W i c x) \<Longrightarrow> sends (ret x) W"
  by (auto simp: sends_def same_servo_def intro!: exI [of _ "[]"])

lemma sends_write: "(\<And>i. is_write (r i)) \<Longrightarrow> sends (write_checked D r) (\<lambda>i _ _. {[r i]})"
  by (auto simp: sends_def write_checked_def packet_call_Inr same_servo_def writes_def elim!: bnd_InrE)

lemma sends_weaken: "sends m V \<Longrightarrow> (\<And>i c x. V i c x \<subseteq> W i c x) \<Longrightarrow> sends m W"
  unfolding sends_def by blast

definition mode_writes :: "OperatingMode \<Rightarrow> u8 \<Rightarrow> Configuration \<Rightarrow> request list" where
  "mode_writes mode i cfg = (case mode_settings cfg mode of (m, acceleration, velocity) \<Rightarrow>
     [Write1 i ADDR_OPERATING_MODE m, Write4 i ADDR_PROFILE_ACCELERATION acceleration,
      Write4 i ADDR_PROFILE_VELOCITY velocity])"

lemma sends_UpdateEncoderCount: "sends (UpdateEncoderCount D mc) (\<lambda>_ _ _. {[]})"
  by (rule sends_quiet) (intro emits_rules, simp add: is_write_def)

lemma sends_Write4Bytes: "sends (Write4Bytes D a w) (\<lambda>i _ _. {[Write4 i a w]})"
  unfolding Write4Bytes_def by (rule sends_write) (simp add: is_write_def)

lemma sends_SetVelocityProfile:
  "sends (SetVelocityProfile D a v)
     (\<lambda>i _ _. {[Write4 i ADDR_PROFILE_ACCELERATION a, Write4 i ADDR_PROFILE_VELOCITY v]})"
  unfolding SetVelocityProfile_def
  by (rule sends_seqp [OF sends_Write4Bytes
        sends_seqp [where U = "\<lambda>i _ _. {[Write4 i ADDR_PROFILE_VELOCITY v]}",
          OF sends_Write4Bytes sends_ret [where W = "\<lambda>_ _ _. {[]}"]]]) auto

lemma sends_gets_config:
  assumes "\<And>c. sends (k c) (W c)" "\<And>i c x. W c i c x \<subseteq> U i c x"
  shows "sends (bnd (gets (config \<circ> fst)) k) U"
  using assms unfolding sends_def by (auto simp: bnd_def) blast

lemma sends_SetOperatingMode:
  "sends (SetOperatingMode D mode)
     (\<lambda>i cfg ok. if ok then {mode_writes mode i cfg} else {[], take 1 (mode_writes mode i cfg)})"
proof -
  let ?W = "\<lambda>c i (cfg :: Configuration) ok. if ok then {mode_writes mode i c} else {[], take 1 (mode_writes mode i c)}"
  have "sends (case mode_settings c mode of (operating_mode, acceleration, velocity) \<Rightarrow>
       if operating_mode > 0 then
         bnd (write_checked D (\<lambda>i. Write1 i ADDR_OPERATING_MODE operating_mode)) (\<lambda>result.
         if \<not> result then ret False
         else seqp (SetVelocityProfile D acceleration velocity)
             (seqp (UpdateEncoderCount D True) (ret True)))
       else ret False) (?W c)" for c
  proof (cases "mode_settings c mode")
    case (fields m a v)
    let ?V = "\<lambda>result i (_ :: Configuration) ok. if \<not> result then (if ok then {} else {[]})
         else if ok then {[Write4 i ADDR_PROFILE_ACCELERATION a, Write4 i ADDR_PROFILE_VELOCITY v]} else {}"
    have rest: "sends (if \<not> result then ret False
         else seqp (SetVelocityProfile D a v) (seqp (UpdateEncoderCount D True) (ret True))) (?V result)" for result
    proof (cases result)
      case True
      have tail: "sends (seqp (UpdateEncoderCount D True) (ret True)) (\<lambda>_ _ ok. if ok then {[]} else {})"
        by (rule sends_seqp [OF sends_UpdateEncoderCount
              sends_ret [where W = "\<lambda>_ _ ok. if ok then {[]} else {}"]]) (auto split: if_splits)
      show ?thesis using True by (simp, intro sends_seqp [OF sends_SetVelocityProfile tail])
          (auto split: if_splits)
    qed (simp add: sends_ret)
    show ?thesis
    proof (cases "m > 0")
      case True
      have "sends (write_checked D (\<lambda>i. Write1 i ADDR_OPERATING_MODE m)) (\<lambda>i _ _. {[Write1 i ADDR_OPERATING_MODE m]})"
        by (rule sends_write) (simp add: is_write_def)
      with True rest show ?thesis
        by (auto simp: fields mode_writes_def intro!: sends_bnd split: if_splits)
    next
      case False
      then show ?thesis by (simp add: fields sends_ret)
    qed
  qed
  then have "sends (bnd (gets (config \<circ> fst)) (\<lambda>c. case mode_settings c mode of (operating_mode, acceleration, velocity) \<Rightarrow>
       if operating_mode > 0 then
         bnd (write_checked D (\<lambda>i. Write1 i ADDR_OPERATING_MODE operating_mode)) (\<lambda>result.
         if \<not> result then ret False
         else seqp (SetVelocityProfile D acceleration velocity)
             (seqp (UpdateEncoderCount D True) (ret True)))
       else ret False)) (\<lambda>i cfg. ?W cfg i cfg)"
    by (rule sends_gets_config) simp
  then show ?thesis
    unfolding SetOperatingMode_def by (rule sends_seqp [OF sends_UpdateEncoderCount]) auto
qed

text \<open>The writes of a complete change of mode: torque off, mode, profile, torque on.\<close>

definition change_writes :: "OperatingMode \<Rightarrow> u8 \<Rightarrow> Configuration \<Rightarrow> request list" where
  "change_writes mode i cfg =
     Write1 i ADDR_TORQUE_ENABLE 0 # mode_writes mode i cfg @ [Write1 i ADDR_TORQUE_ENABLE 1]"

lemma sends_EnableTorque:
  "sends (EnableTorque D e) (\<lambda>i _ _. {[Write1 i ADDR_TORQUE_ENABLE (if e then 1 else 0)]})"
  unfolding EnableTorque_def by (rule sends_write) (simp add: is_write_def)

lemma sends_GetPresentPosition: "sends (GetPresentPosition D) (\<lambda>_ _ _. {[]})"
  by (rule sends_quiet) (intro emits_rules, simp add: is_write_def)

lemma sends_GetOperatingMode: "sends (GetOperatingMode D) (\<lambda>_ _ _. {[]})"
  by (rule sends_quiet) (intro emits_rules, simp add: is_write_def)

definition change_prefixes :: "OperatingMode \<Rightarrow> u8 \<Rightarrow> Configuration \<Rightarrow> request list set" where
  "change_prefixes mode i cfg =
     {[], [Write1 i ADDR_TORQUE_ENABLE 0], Write1 i ADDR_TORQUE_ENABLE 0 # take 1 (mode_writes mode i cfg),
      change_writes mode i cfg}"

lemma sends_ConfigureControlMode:
  "sends (ConfigureControlMode D mode) (\<lambda>i cfg _. change_prefixes mode i cfg)"
proof -
  let ?on = "\<lambda>i (c :: Configuration) (_ :: unit). {[Write1 i ADDR_TORQUE_ENABLE 1]}"
  let ?set = "\<lambda>i c (_ :: unit). {[], take 1 (mode_writes mode i c), mode_writes mode i c @ [Write1 i ADDR_TORQUE_ENABLE 1]}"
  have on: "sends (seqp (EnableTorque D True) (ret ())) ?on"
    by (rule sends_seqp [OF sends_EnableTorque sends_ret [where W = "\<lambda>_ _ _. {[]}"]]) auto
  have set: "sends (bnd (SetOperatingMode D mode) (\<lambda>ok. if ok then seqp (EnableTorque D True) (ret ()) else ret ())) ?set"
    by (rule sends_bnd [OF sends_SetOperatingMode,
          where W = "\<lambda>ok. if ok then ?on else (\<lambda>_ _ _. {[]})"])
      (auto simp: on intro!: sends_ret split: if_splits)
  have torque: "sends (bnd (EnableTorque D False) (\<lambda>ok.
       if ok then bnd (SetOperatingMode D mode) (\<lambda>ok. if ok then seqp (EnableTorque D True) (ret ()) else ret ())
       else ret ())) (\<lambda>i cfg _. change_prefixes mode i cfg)"
    by (rule sends_bnd [OF sends_EnableTorque, where W = "\<lambda>ok. if ok then ?set else (\<lambda>_ _ _. {[]})"])
      (use set in \<open>auto simp: change_prefixes_def change_writes_def intro!: sends_ret split: if_splits\<close>)
  have "sends (seqp (GetPresentPosition D) (bnd (EnableTorque D False) (\<lambda>ok.
       if ok then bnd (SetOperatingMode D mode) (\<lambda>ok. if ok then seqp (EnableTorque D True) (ret ()) else ret ())
       else ret ()))) (\<lambda>i cfg _. change_prefixes mode i cfg)"
    by (rule sends_seqp [OF sends_GetPresentPosition torque]) simp
  then show ?thesis
    unfolding ConfigureControlMode_def
    by (intro sends_bnd [OF sends_GetOperatingMode]) (auto simp: change_prefixes_def intro!: sends_ret)
qed

section \<open>Goals and limits\<close>

lemma goal_silent:
  "sends m W \<Longrightarrow> m (s, b) = Inr (x, s', b') \<Longrightarrow> \<exists>rs. b' = rs @ b \<and> writes rs \<in> W (dxl_id s) (config s) x \<and> same_servo s s'"
  unfolding sends_def by blast

text \<open>The requests that carry a goal for a motor.\<close>

definition is_goal :: "request \<Rightarrow> bool" where
  "is_goal r = (case r of Write4 _ a _ \<Rightarrow> a = ADDR_GOAL_VELOCITY \<or> a = ADDR_GOAL_POSITION
     | Bulk_add _ _ _ _ \<Rightarrow> True | _ \<Rightarrow> False)"

definition is_bulk_add :: "request \<Rightarrow> bool" where
  "is_bulk_add r = (case r of Bulk_add _ _ _ _ \<Rightarrow> True | _ \<Rightarrow> False)"

lemma is_goal_writes: "r \<in> set rs \<Longrightarrow> is_goal r \<Longrightarrow> \<not> is_bulk_add r \<Longrightarrow> r \<in> set (writes rs)"
  by (auto simp: writes_def is_goal_def is_write_def is_bulk_add_def split: request.splits)

lemma change_prefixes_no_goal: "ws \<in> change_prefixes mode i cfg \<Longrightarrow> \<forall>r \<in> set ws. \<not> is_goal r"
  by (auto simp: change_prefixes_def change_writes_def mode_writes_def is_goal_def split: prod.splits)

lemma emits_ConfigureControlMode: "emits (\<lambda>_ r. \<not> is_bulk_add r) (ConfigureControlMode D mode)"
proof -
  note defs = ConfigureControlMode_def SetOperatingMode_def SetVelocityProfile_def Write4Bytes_def EnableTorque_def
  show ?thesis
    unfolding defs by (intro emits_rules) (auto intro!: emits_rules simp: is_bulk_add_def split: prod.split)
qed

lemma ConfigureControlMode_no_goal:
  assumes "ConfigureControlMode D mode (s, b) = Inr (x, s', b')"
  obtains rs where "b' = rs @ b" "\<forall>r \<in> set rs. \<not> is_goal r" "same_servo s s'"
proof -
  obtain rs where rs: "b' = rs @ b" "writes rs \<in> change_prefixes mode (dxl_id s) (config s)" "same_servo s s'"
    by (rule sendsD [OF sends_ConfigureControlMode assms])
  obtain rs' where "b' = rs' @ b" "\<forall>r \<in> set rs'. \<not> is_bulk_add r"
    by (rule emitsD [OF emits_ConfigureControlMode assms])
  with rs have "\<forall>r \<in> set rs. \<not> is_goal r"
    using change_prefixes_no_goal [OF rs(2)] is_goal_writes [of _ rs] by auto
  with rs show thesis using that by blast
qed

lemma limit_rpm_bounds: "\<bar>limit_rpm cfg rpm\<bar> \<le> kMaximumRPM"
  by (auto simp: limit_rpm_def Let_def abs_le_iff)

lemma velocity_cast:
  obtains v where "real_to_i32 (limit_rpm cfg rpm * 229 / kMaximumRPM) = Some v"
    "sint v = trunc_int (limit_rpm cfg rpm * 229 / 52)" "\<bar>sint v\<bar> \<le> 229"
proof -
  let ?x = "limit_rpm cfg rpm * 229 / 52"
  have "\<bar>?x\<bar> \<le> 229" using limit_rpm_bounds [of cfg rpm] by (simp add: abs_le_iff)
  then have bound: "-229 \<le> trunc_int ?x" "trunc_int ?x \<le> 229"
    using of_int_le_trunc_int [of "-229" ?x] trunc_int_le_of_int [of ?x 229] by (auto simp: abs_le_iff)
  then have "fits_signed 32 (trunc_int ?x)" by (simp add: fits_signed_def)
  then have "real_to_i32 ?x = Some (word_of_int (trunc_int ?x))" by (simp add: real_to_i32_def)
  moreover from this have "sint (word_of_int (trunc_int ?x) :: i32) = trunc_int ?x" by (rule real_to_i32_SomeD)
  ultimately show thesis using that bound by (auto simp: abs_le_iff)
qed

lemma clamp_velocity_id: "\<bar>sint v\<bar> \<le> 229 \<Longrightarrow> clamp_velocity v = v"
  by (simp add: clamp_velocity_def Let_def abs_le_iff)

lemma Write4Bytes_Inr:
  "Write4Bytes D a w (s, b) = Inr (x, s', b') \<Longrightarrow> handlers_set s \<and> s' = s \<and> b' = Write4 (dxl_id s) a w # b"
  by (auto simp: Write4Bytes_def write_checked_def packet_call_Inr elim!: bnd_InrE)

lemma Write4Bytes_ok: "handlers_set s \<Longrightarrow> \<exists>x. Write4Bytes D a w (s, b) = Inr (x, s, Write4 (dxl_id s) a w # b)"
  by (simp add: Write4Bytes_def write_checked_def bnd_def packet_call_ok)

lemma ConfigureControlMode_handlers:
  "ConfigureControlMode D mode (s, b) = Inr (x, s', b') \<Longrightarrow> handlers_set s"
  by (auto simp: ConfigureControlMode_def GetOperatingMode_def read_checked_def packet_call_Inr elim!: bnd_InrE)

lemma SetVelocity_ok: "handlers_set s \<Longrightarrow>
    SetVelocity D v (s, b) = Inr ((), s, Write4 (dxl_id s) ADDR_GOAL_VELOCITY (clamp_velocity v) # b)"
  using Write4Bytes_ok [of s D ADDR_GOAL_VELOCITY "clamp_velocity v" b]
  by (auto simp: SetVelocity_def seqp_def bnd_def)

lemma SetRPM_result:
  "SetRPM D rpm (s, b) = (case ConfigureControlMode D kVelocityControlMode (s, b) of
     Inl f \<Rightarrow> Inl f
   | Inr (_, s', b') \<Rightarrow> Inr ((), s', Write4 (dxl_id s) ADDR_GOAL_VELOCITY
        (word_of_int (trunc_int (limit_rpm (config s) rpm * 229 / 52))) # b'))"
proof (cases "ConfigureControlMode D kVelocityControlMode (s, b)")
  case (Inr r)
  then obtain x s' b' where conf: "ConfigureControlMode D kVelocityControlMode (s, b) = Inr (x, s', b')"
    by (cases r) auto
  obtain same: "same_servo s s'"
    using ConfigureControlMode_no_goal [OF conf] by blast
  obtain v where v: "real_to_i32 (limit_rpm (config s) rpm * 229 / kMaximumRPM) = Some v"
      "sint v = trunc_int (limit_rpm (config s) rpm * 229 / 52)" "\<bar>sint v\<bar> \<le> 229"
    by (rule velocity_cast)
  have "handlers_set s'" using ConfigureControlMode_handlers [OF conf] same by (simp add: same_servo_def)
  moreover have "clamp_velocity v = word_of_int (trunc_int (limit_rpm (config s) rpm * 229 / 52))"
    unfolding clamp_velocity_id [OF v(3)] v(2) [symmetric] by simp
  ultimately show ?thesis
    using conf v(1) same by (simp add: SetRPM_def same_servo_def SetVelocity_ok)
qed (simp add: SetRPM_def seqp_def)

section \<open>Encoder counts\<close>

text \<open>What a position read is taken for when the history ends in its request.\<close>

definition answered_position :: "sdk \<Rightarrow> bus \<Rightarrow> i32" where
  "answered_position D b =
     (if CommsCheck D (comm_result (answer D b)) (dxl_error (answer D b))
      then (case rdata (answer D b) of None \<Rightarrow> 0 | Some v \<Rightarrow> v) else 0)"

lemma GetPresentPosition_result:
  "GetPresentPosition D (s, b) =
     (if handlers_set s
      then Inr (answered_position D (Read4 (dxl_id s) ADDR_PRESENT_POSITION # b), s,
        Read4 (dxl_id s) ADDR_PRESENT_POSITION # b)
      else Inl Null_Pointer)"
  by (simp add: GetPresentPosition_def read_checked_def bnd_def packet_call_def ask_def answered_position_def)

lemma encoder_update_count:
  assumes "encoder_update False c s = Some s'"
  shows "sint (total_encoder_count s') = sint (total_encoder_count s) + sint c - sint (last_encoder_count s)"
    "last_encoder_count s' = c"
proof -
  let ?t = "sint (total_encoder_count s) + (sint c - sint (last_encoder_count s))"
  have "fits_signed 64 ?t" and s': "s' = s\<lparr>last_encoder_count := c, total_encoder_count := word_of_int ?t\<rparr>"
    using assms by (auto simp: encoder_update_def Let_def split: if_splits)
  then have "sint (word_of_int ?t :: i64) = ?t" by (intro sint_word_of_int_fits) simp
  with s' show "sint (total_encoder_count s') = sint (total_encoder_count s) + sint c - sint (last_encoder_count s)"
    "last_encoder_count s' = c" by simp_all
qed

lemma UpdateEncoderCount_Inr:
  assumes "UpdateEncoderCount D mc (s, b) = Inr (x, s', b')"
  shows "handlers_set s" "b' = Read4 (dxl_id s) ADDR_PRESENT_POSITION # b"
    "encoder_update mc (answered_position D b') s = Some s'"
  using assms
  by (auto simp: UpdateEncoderCount_def GetPresentPosition_result split: if_splits option.splits elim!: bnd_InrE)

text \<open>\<open>n\<close> calls of \<open>GetTotalEncoderCount\<close>, as the encoder node makes them.\<close>

fun encoder_calls :: "sdk \<Rightarrow> nat \<Rightarrow> i64 list servo_op" where
  "encoder_calls D 0 = ret []"
| "encoder_calls D (Suc n) = bnd (GetTotalEncoderCount D) (\<lambda>c. bnd (encoder_calls D n) (\<lambda>cs. ret (c # cs)))"

lemma GetTotalEncoderCount_Inr:
  assumes "GetTotalEncoderCount D (s, b) = Inr (n, s', b')"
  shows "b' = Read4 (dxl_id s) ADDR_PRESENT_POSITION # b" "same_servo s s'"
    "sint n = sint (total_encoder_count s) - sint (last_encoder_count s) + sint (answered_position D b')"
    "sint (total_encoder_count s') - sint (last_encoder_count s')
       = sint (total_encoder_count s) - sint (last_encoder_count s)"
proof -
  from assms obtain x where upd: "UpdateEncoderCount D False (s, b) = Inr (x, s', b')" "n = total_encoder_count s'"
    by (auto simp: GetTotalEncoderCount_def seqp_def elim!: bnd_InrE)
  note u = UpdateEncoderCount_Inr [OF upd(1)]
  note c = encoder_update_count [OF u(3)]
  show "b' = Read4 (dxl_id s) ADDR_PRESENT_POSITION # b" by (rule u(2))
  show "same_servo s s'" by (rule encoder_update_same [OF u(3)])
  show "sint n = sint (total_encoder_count s) - sint (last_encoder_count s) + sint (answered_position D b')"
    using c upd(2) by simp
  show "sint (total_encoder_count s') - sint (last_encoder_count s')
       = sint (total_encoder_count s) - sint (last_encoder_count s)"
    using c by simp
qed

lemma replicate_shift: "replicate k x @ x # xs = replicate (Suc k) x @ xs"
  by (simp add: replicate_append_same [symmetric])

lemma encoder_calls_positions:
  assumes "encoder_calls D k (s, b) = Inr (ns, s', b')"
  shows "length ns = k \<and> (\<forall>j < k. sint (ns ! j) = sint (total_encoder_count s) - sint (last_encoder_count s)
    + sint (answered_position D (replicate (Suc j) (Read4 (dxl_id s) ADDR_PRESENT_POSITION) @ b)))"
  using assms
proof (induction k arbitrary: s b ns)
  case (Suc k)
  then obtain n s1 b1 ns' where one: "GetTotalEncoderCount D (s, b) = Inr (n, s1, b1)"
    and rest: "encoder_calls D k (s1, b1) = Inr (ns', s', b')" and ns: "ns = n # ns'"
    by (auto elim!: bnd_InrE)
  note g = GetTotalEncoderCount_Inr [OF one]
  have id: "dxl_id s1 = dxl_id s" using g(2) by (simp add: same_servo_def)
  have IH: "length ns' = k \<and> (\<forall>j<k. sint (ns' ! j) = sint (total_encoder_count s1) - sint (last_encoder_count s1)
    + sint (answered_position D (replicate (Suc j) (Read4 (dxl_id s) ADDR_PRESENT_POSITION) @ b1)))"
    using Suc.IH [OF rest] id by simp
  show ?case
  proof (intro conjI allI impI)
    fix j assume "j < Suc k"
    show "sint (ns ! j) = sint (total_encoder_count s) - sint (last_encoder_count s)
       + sint (answered_position D (replicate (Suc j) (Read4 (dxl_id s) ADDR_PRESENT_POSITION) @ b))"
    proof (cases j)
      case 0
      then show ?thesis using g(1,3) ns by simp
    next
      case (Suc i)
      with \<open>j < Suc k\<close> have "i < k" by simp
      with IH have "sint (ns' ! i) = sint (total_encoder_count s1) - sint (last_encoder_count s1)
        + sint (answered_position D (replicate (Suc i) (Read4 (dxl_id s) ADDR_PRESENT_POSITION) @ b1))" by blast
      then show ?thesis unfolding g(1) g(4) replicate_shift by (simp only: ns Suc nth_Cons_Suc)
    qed
  qed (use IH ns in simp)
qed simp

lemma SetVelocityProfile_result: "handlers_set s \<Longrightarrow> SetVelocityProfile D a v (s, b) =
    Inr ((), s, [Write4 (dxl_id s) ADDR_PROFILE_VELOCITY v, Write4 (dxl_id s) ADDR_PROFILE_ACCELERATION a] @ b)"
  using Write4Bytes_ok [of s D ADDR_PROFILE_ACCELERATION a b]
    Write4Bytes_ok [of s D ADDR_PROFILE_VELOCITY v "Write4 (dxl_id s) ADDR_PROFILE_ACCELERATION a # b"]
  by (auto simp: SetVelocityProfile_def seqp_def bnd_def)

lemma SetOperatingMode_True:
  assumes "SetOperatingMode D mode (s, b) = Inr (True, s', b')"
  obtains s1 b1 rs where "b1 = Read4 (dxl_id s) ADDR_PRESENT_POSITION # b"
    "encoder_update False (answered_position D b1) s = Some s1"
    "b' = Read4 (dxl_id s) ADDR_PRESENT_POSITION # rs @ b1" "writes rs = mode_writes mode (dxl_id s) (config s)"
    "s' = s1\<lparr>last_encoder_count := answered_position D b'\<rparr>" "length rs = 3"
proof -
  obtain m a v where fields: "mode_settings (config s) mode = (m, a, v)"
    by (cases "mode_settings (config s) mode")
  from assms obtain s1 b1 x where u1: "UpdateEncoderCount D False (s, b) = Inr (x, s1, b1)"
    by (auto simp: SetOperatingMode_def seqp_def elim!: bnd_InrE)
  note u = UpdateEncoderCount_Inr [OF u1]
  have same: "same_servo s s1" by (rule encoder_update_same [OF u(3)])
  have handlers: "handlers_set s1" using u(1) same by (simp add: same_servo_def)
  let ?rs = "[Write4 (dxl_id s1) ADDR_PROFILE_VELOCITY v, Write4 (dxl_id s1) ADDR_PROFILE_ACCELERATION a,
      Write1 (dxl_id s1) ADDR_OPERATING_MODE m]"
  from assms u1 fields same handlers have u2: "UpdateEncoderCount D True (s1, ?rs @ b1) = Inr ((), s', b')"
    by (auto simp: SetOperatingMode_def seqp_def same_servo_def write_checked_def packet_call_Inr
        SetVelocityProfile_result split: if_splits elim!: bnd_InrE)
  note v = UpdateEncoderCount_Inr [OF u2]
  show thesis
  proof (rule that [OF u(2), of s1 ?rs])
    show "encoder_update False (answered_position D b1) s = Some s1" by (rule u(3))
    show "s' = s1\<lparr>last_encoder_count := answered_position D b'\<rparr>" using v(3) by (simp add: encoder_update_def)
  qed (use v(2) same fields in \<open>simp_all add: same_servo_def mode_writes_def\<close>)
qed

section \<open>The wait after a reboot\<close>

text \<open>The history after \<open>k\<close> rounds of the wait.\<close>

fun wait_history :: "u8 \<Rightarrow> bus \<Rightarrow> nat \<Rightarrow> bus" where
  "wait_history i b 0 = b"
| "wait_history i b (Suc k) = Ros_ok # Read4 i ADDR_MODEL_NUMBER # wait_history i b k"

lemma wait_history_shift: "wait_history i (Ros_ok # Read4 i ADDR_MODEL_NUMBER # b) k = wait_history i b (Suc k)"
  by (induction k) auto

text \<open>The wait ends in round \<open>k\<close>: the right model number is read, or ROS is shut down.\<close>

definition wait_ends :: "sdk \<Rightarrow> u8 \<Rightarrow> u32 \<Rightarrow> bus \<Rightarrow> nat \<Rightarrow> bool" where
  "wait_ends D i expected b k \<longleftrightarrow>
     rdata (answer D (Read4 i ADDR_MODEL_NUMBER # wait_history i b k)) = Some expected \<or>
     \<not> flag (answer D (wait_history i b (Suc k)))"

lemma wait_ends_Suc:
  "wait_ends D i e (Ros_ok # Read4 i ADDR_MODEL_NUMBER # b) k = wait_ends D i e b (Suc k)"
  unfolding wait_ends_def wait_history_shift ..

lemma reboot_wait_ends: "wait_ends D i e b k \<Longrightarrow> \<exists>b'. reboot_wait D i e n b = Some b'"
proof (induction k arbitrary: n b)
  case 0
  then show ?case
    by (subst reboot_wait.simps) (auto simp: wait_ends_def ask_def Let_def)
next
  case (Suc k)
  then have "\<exists>b'. reboot_wait D i e n' (Ros_ok # Read4 i ADDR_MODEL_NUMBER # b) = Some b'" for n'
    by (simp add: wait_ends_Suc)
  then show ?case
    by (subst reboot_wait.simps) (auto simp: ask_def Let_def)
qed

lemma reboot_wait_only_ends:
  assumes "reboot_wait D i e n b = Some b'"
  shows "n \<noteq> e \<longrightarrow> (\<exists>k. wait_ends D i e b k)"
proof (rule reboot_wait.raw_induct [OF _ assms, of "\<lambda>D i e n b b'. n \<noteq> e \<longrightarrow> (\<exists>k. wait_ends D i e b k)"])
  fix f :: "sdk \<Rightarrow> u8 \<Rightarrow> u32 \<Rightarrow> u32 \<Rightarrow> bus \<Rightarrow> bus option" and D i e n b b'
  assume IH: "\<And>D i e n b b'. f D i e n b = Some b' \<Longrightarrow> n \<noteq> e \<longrightarrow> (\<exists>k. wait_ends D i e b k)"
    and body: "(let (a, b1) = ask D (Read4 i ADDR_MODEL_NUMBER) b;
          number' = case rdata a of None \<Rightarrow> n | Some v \<Rightarrow> v
      in if number' \<noteq> e then let (a2, b2) = ask D Ros_ok b1
              in if flag a2 then f D i e number' b2 else Some b2
         else Some b1) = Some b'"
  let ?b1 = "Read4 i ADDR_MODEL_NUMBER # b"
  show "n \<noteq> e \<longrightarrow> (\<exists>k. wait_ends D i e b k)"
  proof
    assume "n \<noteq> e"
    show "\<exists>k. wait_ends D i e b k"
    proof (cases "wait_ends D i e b 0")
      case False
      then have no: "rdata (answer D ?b1) \<noteq> Some e" "flag (answer D (Ros_ok # ?b1))"
        by (auto simp: wait_ends_def)
      let ?n = "case rdata (answer D ?b1) of None \<Rightarrow> n | Some v \<Rightarrow> v"
      have "?n \<noteq> e" using no(1) \<open>n \<noteq> e\<close> by (auto split: option.splits)
      with body no have "f D i e ?n (Ros_ok # ?b1) = Some b'"
        by (auto simp: ask_def Let_def)
      with IH \<open>?n \<noteq> e\<close> obtain k where "wait_ends D i e (Ros_ok # ?b1) k" by blast
      then show ?thesis using wait_ends_Suc by blast
    qed blast
  qed
qed

lemma reboot_wait_None_iff: "n \<noteq> e \<Longrightarrow> reboot_wait D i e n b = None \<longleftrightarrow> (\<forall>k. \<not> wait_ends D i e b k)"
  using reboot_wait_ends [of D i e b _ n] reboot_wait_only_ends [of D i e n b] by (cases "reboot_wait D i e n b") auto

lemma Reboot_result:
  "Reboot D (s, b) =
     (if \<not> handlers_set s then Inl Null_Pointer
      else let b1 = Reboot_packet (dxl_id s) # b in
        if CommsCheck D (comm_result (answer D b1)) (dxl_error (answer D b1))
        then case reboot_wait D (dxl_id s) (model_number s) 0 b1 of None \<Rightarrow> Inl No_Return | Some b' \<Rightarrow> Inr ((), s, b')
        else Inr ((), s, b1))"
  by (simp add: Reboot_def write_checked_def bnd_def packet_call_def ask_def Let_def)

lemma Reboot_count:
  "Reboot D (s\<lparr>last_encoder_count := l\<rparr>, b) =
     (case Reboot D (s, b) of Inl f \<Rightarrow> Inl f | Inr (x, s', b') \<Rightarrow> Inr (x, s'\<lparr>last_encoder_count := l\<rparr>, b'))"
  by (auto simp: Reboot_result Let_def split: option.splits)

lemma Reboot_keeps: "Reboot D (s, b) = Inr (x, s', b') \<Longrightarrow> s' = s"
  by (auto simp: Reboot_result Let_def split: option.splits if_splits)

section \<open>What the total depends on\<close>

definition keeps_total :: "'a servo_op \<Rightarrow> bool" where
  "keeps_total m \<longleftrightarrow> (\<forall>s b x s' b'. m (s, b) = Inr (x, s', b') \<longrightarrow> total_encoder_count s' = total_encoder_count s)"

lemma keeps_total_bnd: "keeps_total m \<Longrightarrow> (\<And>x. keeps_total (k x)) \<Longrightarrow> keeps_total (bnd m k)"
  unfolding keeps_total_def by (metis (no_types, opaque_lifting) bnd_InrE prod.exhaust)

lemma keeps_totalD: "keeps_total m \<Longrightarrow> m (s, b) = Inr (x, s', b') \<Longrightarrow> total_encoder_count s' = total_encoder_count s"
  unfolding keeps_total_def by blast

lemma keeps_total_seqp: "keeps_total m \<Longrightarrow> keeps_total n \<Longrightarrow> keeps_total (seqp m n)"
  unfolding seqp_def by (rule keeps_total_bnd)

lemma keeps_total_basic:
  "keeps_total (ret x)" "keeps_total (gets g)" "keeps_total (write_checked D r)" "keeps_total (UpdateEncoderCount D True)"
  by (auto simp: keeps_total_def write_checked_def packet_call_Inr encoder_update_def
      elim!: bnd_InrE dest!: UpdateEncoderCount_Inr(3))

lemma keeps_total_SetVelocityProfile: "keeps_total (SetVelocityProfile D a v)"
  unfolding SetVelocityProfile_def Write4Bytes_def by (intro keeps_total_seqp keeps_total_basic)

lemma SetOperatingMode_any_total:
  assumes "SetOperatingMode D mode (s, b) = Inr (ok, s', b')"
  shows "sint (total_encoder_count s') = sint (total_encoder_count s) - sint (last_encoder_count s)
      + sint (answered_position D (Read4 (dxl_id s) ADDR_PRESENT_POSITION # b))"
proof -
  have kt: "keeps_total (bnd (gets (config \<circ> fst)) (\<lambda>cfg.
       case mode_settings cfg mode of (operating_mode, acceleration, velocity) \<Rightarrow>
       if operating_mode > 0 then
         bnd (write_checked D (\<lambda>i. Write1 i ADDR_OPERATING_MODE operating_mode)) (\<lambda>result.
         if \<not> result then ret False
         else seqp (SetVelocityProfile D acceleration velocity)
             (seqp (UpdateEncoderCount D True) (ret True)))
       else ret False))" (is "keeps_total ?rest")
    by (intro keeps_total_bnd keeps_total_basic)
      (auto intro!: keeps_total_bnd keeps_total_seqp keeps_total_basic keeps_total_SetVelocityProfile split: prod.split)
  obtain x s1 b1 where u: "UpdateEncoderCount D False (s, b) = Inr (x, s1, b1)" "?rest (s1, b1) = Inr (ok, s', b')"
    using assms unfolding SetOperatingMode_def seqp_def by (elim bnd_InrE) auto
  have "total_encoder_count s' = total_encoder_count s1"
    using kt u(2) by (rule keeps_totalD)
  with UpdateEncoderCount_Inr [OF u(1)] encoder_update_count(1) show ?thesis by force
qed

text \<open>The servo as \<open>Init\<close> hands it to \<open>Reboot\<close>.\<close>

definition init_servo :: "u32 \<Rightarrow> u8 \<Rightarrow> Configuration \<Rightarrow> i32 \<Rightarrow> DynamixelServo" where
  "init_servo number i cfg junk =
     (new_DynamixelServo junk)\<lparr>model_number := number, dxl_id := i, config := cfg, handlers_set := True\<rparr>"

lemma Init_total:
  assumes "Init D number i cfg (new_DynamixelServo junk, b) = Inr ((), s, b0)" "flag (answer D (Ros_ok # b))"
  obtains b' where "Reboot D (init_servo number i cfg 0, Ros_ok # b) = Inr ((), init_servo number i cfg 0, b')"
    "sint (total_encoder_count s) = sint (answered_position D (Read4 i ADDR_PRESENT_POSITION # b')) - sint junk"
proof -
  let ?s = "init_servo number i cfg junk"
  let ?rest = "seqp (EnableTorque D True) (ret ())"
  let ?mode = "if cfg = kConfigServo then kExtendedPositionControlMode else kVelocityControlMode"
  have "seqp (Reboot D) (seqp (SetOperatingMode D ?mode) ?rest) (?s, Ros_ok # b) = Inr ((), s, b0)"
    using assms by (simp add: Init_def ask_def init_servo_def)
  then obtain r s1 b' where reboot: "Reboot D (?s, Ros_ok # b) = Inr (r, s1, b')"
    and more: "seqp (SetOperatingMode D ?mode) ?rest (s1, b') = Inr ((), s, b0)"
    unfolding seqp_def by (elim bnd_InrE) auto
  from more obtain ok s2 b2 where set: "SetOperatingMode D ?mode (s1, b') = Inr (ok, s2, b2)"
    and last: "?rest (s2, b2) = Inr ((), s, b0)"
    unfolding seqp_def by (elim bnd_InrE) auto
  have s1: "s1 = ?s" by (rule Reboot_keeps [OF reboot])
  have "keeps_total ?rest"
    unfolding EnableTorque_def by (intro keeps_total_seqp keeps_total_basic)
  then have "total_encoder_count s = total_encoder_count s2" 
    using last by (rule keeps_totalD)
  then have "sint (total_encoder_count s) = sint (answered_position D (Read4 i ADDR_PRESENT_POSITION # b')) - sint junk"
    using SetOperatingMode_any_total [OF set] by (simp add: s1 init_servo_def new_DynamixelServo_def)
  moreover have "?s = (init_servo number i cfg 0)\<lparr>last_encoder_count := junk\<rparr>"
    by (simp add: init_servo_def new_DynamixelServo_def)
  with reboot have "Reboot D (init_servo number i cfg 0, Ros_ok # b) = Inr ((), init_servo number i cfg 0, b')"
    by (auto simp: Reboot_count dest: Reboot_keeps split: sum.splits)
  ultimately show thesis using that by blast
qed

section \<open>Properties\<close>












text \<open>C25: \<open>SetRPM\<close> sends one goal, a velocity: the demanded speed, 0 below 1 RPM, held to 52 RPM,
  reversed on a clockwise motor and scaled by 229/52, truncated towards zero. It is within 229 for
  every demand, so the conversion is always defined: \<open>SetRPM\<close> faults only where the change of mode
  before it does.\<close>

theorem SetRPM_goal:
  "case SetRPM D rpm (s, b) of
     Inl f \<Rightarrow> ConfigureControlMode D kVelocityControlMode (s, b) = Inl f
   | Inr (_, s', b') \<Rightarrow> \<exists>v rs. b' = Write4 (dxl_id s) ADDR_GOAL_VELOCITY v # rs @ b \<and>
       (\<forall>r \<in> set rs. \<not> is_goal r) \<and> \<bar>sint v\<bar> \<le> 229 \<and>
       sint v = trunc_int ((if config s = kConfigMotorClockwise then -1 else 1) *
         (if \<bar>rpm\<bar> < 1 then 0 else max (-52) (min 52 rpm)) * 229 / 52)"
proof (cases "ConfigureControlMode D kVelocityControlMode (s, b)")
  case (Inr r)
  then obtain x s' b' where conf: "ConfigureControlMode D kVelocityControlMode (s, b) = Inr (x, s', b')"
    by (cases r) auto
  obtain rs where rs: "b' = rs @ b" "\<forall>r \<in> set rs. \<not> is_goal r" "same_servo s s'"
    using ConfigureControlMode_no_goal [OF conf] .
  obtain v where v: "real_to_i32 (limit_rpm (config s) rpm * 229 / kMaximumRPM) = Some v"
      "sint v = trunc_int (limit_rpm (config s) rpm * 229 / 52)" "\<bar>sint v\<bar> \<le> 229"
    by (rule velocity_cast)
  then have w: "word_of_int (trunc_int (limit_rpm (config s) rpm * 229 / 52)) = v"
    unfolding v(2) [symmetric] by simp
  let ?lim = "(if config s = kConfigMotorClockwise then -1 else 1) *
     (if \<bar>rpm\<bar> < 1 then 0 else max (-52) (min 52 rpm))"
  have "limit_rpm (config s) rpm = ?lim"
    by (auto simp: limit_rpm_def Let_def max_def min_def)
  then have "sint v = trunc_int (?lim * 229 / 52)" using v(2) by (simp only:)
  with v(3) rs have "\<exists>v' rs'. Write4 (dxl_id s) ADDR_GOAL_VELOCITY v # b' = Write4 (dxl_id s) ADDR_GOAL_VELOCITY v' # rs' @ b \<and>
      (\<forall>r \<in> set rs'. \<not> is_goal r) \<and> \<bar>sint v'\<bar> \<le> 229 \<and> sint v' = trunc_int (?lim * 229 / 52)"
    by (intro exI [of _ v] exI [of _ rs] conjI) (simp_all only:)
  then show ?thesis by (simp only: SetRPM_result conf w sum.case prod.case)
qed (simp add: SetRPM_result)

text \<open>The encoder count is an offset plus the position: of any number of calls of
  \<open>GetTotalEncoderCount\<close> each returns the offset at the start plus the position it reads, with 0 for
  a read that fails. A failed read gives one wrong count and no lasting error.\<close>

theorem GetTotalEncoderCount_offset:
  assumes "encoder_calls D k (s, b) = Inr (counts, s', b')" "j < k"
  shows "length counts = k \<and> sint (counts ! j) = sint (total_encoder_count s) - sint (last_encoder_count s)
    + sint (answered_position D (replicate (Suc j) (Read4 (dxl_id s) ADDR_PRESENT_POSITION) @ b))"
  using encoder_calls_positions [OF assms(1), THEN conjunct1]
    encoder_calls_positions [OF assms(1), THEN conjunct2, rule_format, OF assms(2)]
  by (rule conjI)

text \<open>A change of mode takes the position before it into the total and starts again from the
  position after it. If the second read fails it starts from 0 instead, and the next count that is
  read is too large by the whole position.\<close>

theorem SetOperatingMode_total:
  assumes "SetOperatingMode D mode (s, b) = Inr (True, s', b')"
  shows "sint (total_encoder_count s') = sint (total_encoder_count s) - sint (last_encoder_count s)
      + sint (answered_position D (Read4 (dxl_id s) ADDR_PRESENT_POSITION # b)) \<and>
    last_encoder_count s' = answered_position D b' \<and>
    (\<forall>n s2 b2. GetTotalEncoderCount D (s', b') = Inr (n, s2, b2) \<longrightarrow>
       sint n = sint (total_encoder_count s') + sint (answered_position D b2) - sint (answered_position D b'))"
proof -
  obtain s1 where "s' = s1\<lparr>last_encoder_count := answered_position D b'\<rparr>"
    by (rule SetOperatingMode_True [OF assms])
  then have "last_encoder_count s' = answered_position D b'" by simp
  with SetOperatingMode_any_total [OF assms] show ?thesis by (auto dest: GetTotalEncoderCount_Inr(3))
qed

text \<open>\<open>last_encoder_count_\<close> is not initialised, and it is used: two servos that differ only in
  what the memory held there end their \<open>Init\<close> with totals that differ by as much.\<close>

theorem Init_uninitialised_count:
  assumes "Init D number i cfg (new_DynamixelServo j1, b) = Inr ((), s1, b1)"
    and "Init D number i cfg (new_DynamixelServo j2, b) = Inr ((), s2, b2)"
    and "flag (answer D (Ros_ok # b))"
  shows "sint (total_encoder_count s1) - sint (total_encoder_count s2) = sint j2 - sint j1"
  by (rule Init_total [OF assms(1,3)], rule Init_total [OF assms(2,3)]) simp

text \<open>\<open>Reboot\<close> hangs exactly when the servo acknowledges the reboot and then never reports the
  expected model number while ROS is up: with the wrong model name configured it never returns. In
  every other case it returns and leaves the servo object as it was.\<close>

theorem Reboot_hangs_iff:
  assumes "handlers_set s" "model_number s \<noteq> 0"
  shows "(Reboot D (s, b) = Inl No_Return \<longleftrightarrow>
      CommsCheck D (comm_result (answer D (Reboot_packet (dxl_id s) # b))) (dxl_error (answer D (Reboot_packet (dxl_id s) # b))) \<and>
      (\<forall>k. \<not> wait_ends D (dxl_id s) (model_number s) (Reboot_packet (dxl_id s) # b) k)) \<and>
    (Reboot D (s, b) \<noteq> Inl No_Return \<longrightarrow> (\<exists>b'. Reboot D (s, b) = Inr ((), s, b')))"
  using reboot_wait_None_iff [of 0 "model_number s" D "dxl_id s" "Reboot_packet (dxl_id s) # b"] assms(1,2)
  by (auto simp: Reboot_result Let_def split: option.splits)

text \<open>A status packet lost after the mode was written leaves the motor without torque. The first
  change of mode stops after that write; when the servo is asked again it reports the new mode, so
  \<open>SetRPM\<close> sends a velocity and no torque-on.\<close>

theorem lost_mode_ack_leaves_torque_off:
  assumes "ConfigureControlMode D kVelocityControlMode (s, b) = Inr (x, s1, rs @ b)"
    and "writes rs = Write1 (dxl_id s) ADDR_TORQUE_ENABLE 0 # take 1 (mode_writes kVelocityControlMode (dxl_id s) (config s))"
    and "GetOperatingMode D (s1, rs @ b) = Inr (kVelocityControlMode, s1, b2)"
  shows "\<exists>rs' v. SetRPM D rpm (s1, rs @ b) = Inr ((), s1, rs' @ b) \<and>
    writes rs' = [Write1 (dxl_id s) ADDR_TORQUE_ENABLE 0, Write1 (dxl_id s) ADDR_OPERATING_MODE OPERATING_MODE_VELOCITY,
      Write4 (dxl_id s) ADDR_GOAL_VELOCITY v]"
proof -
  obtain rs' where rs': "b2 = rs' @ rs @ b" "writes rs' = []"
    using sendsD [OF sends_GetOperatingMode assms(3)] by auto
  have same: "dxl_id s1 = dxl_id s"
    using sendsD [OF sends_ConfigureControlMode assms(1)] by (auto simp: same_servo_def)
  define v :: i32 where "v = word_of_int (trunc_int (limit_rpm (config s1) rpm * 229 / 52))"
  have "ConfigureControlMode D kVelocityControlMode (s1, rs @ b) = Inr ((), s1, b2)"
    using assms(3) by (simp add: ConfigureControlMode_def)
  then have "SetRPM D rpm (s1, rs @ b) = Inr ((), s1, (Write4 (dxl_id s) ADDR_GOAL_VELOCITY v # rs' @ rs) @ b)"
    by (simp add: SetRPM_result rs'(1) same v_def)
  moreover have "writes (Write4 (dxl_id s) ADDR_GOAL_VELOCITY v # rs' @ rs) =
      [Write1 (dxl_id s) ADDR_TORQUE_ENABLE 0, Write1 (dxl_id s) ADDR_OPERATING_MODE OPERATING_MODE_VELOCITY,
      Write4 (dxl_id s) ADDR_GOAL_VELOCITY v]"
    using assms(2) rs'(2) by (simp add: mode_writes_def mode_settings_def)
  ultimately show ?thesis by blast
qed

section \<open>Witnesses\<close>

text \<open>
  A servo that answers from its registers, a register being what was last written to it; requests
  that satisfy \<open>lost\<close> are carried out but not acknowledged.
\<close>

fun register_value :: "u8 \<Rightarrow> u16 \<Rightarrow> bus \<Rightarrow> u32" where
  "register_value i a [] = (if a = ADDR_MODEL_NUMBER then 30 else if a = ADDR_OPERATING_MODE then 4
     else if a = ADDR_PRESENT_POSITION then 100 else 0)"
| "register_value i a (Write1 j c v # b) = (if j = i \<and> c = a then ucast v else register_value i a b)"
| "register_value i a (Write4 j c v # b) = (if j = i \<and> c = a then v else register_value i a b)"
| "register_value i a (r # b) = register_value i a b"

definition sample_answer :: "(request \<Rightarrow> bool) \<Rightarrow> bus \<Rightarrow> reply" where
  "sample_answer lost h = (case h of
     [] \<Rightarrow> \<lparr>comm_result = 0, dxl_error = 0, rdata = None, flag = True\<rparr>
   | r # b \<Rightarrow> \<lparr>comm_result = (if lost r then -3001 else 0), dxl_error = 0,
       rdata = (case r of Read1 i a \<Rightarrow> Some (register_value i a b) | Read2 i a \<Rightarrow> Some (register_value i a b)
                | Read4 i a \<Rightarrow> Some (register_value i a b) | _ \<Rightarrow> None), flag = True\<rparr>)"

definition sample_sdk :: "(request \<Rightarrow> bool) \<Rightarrow> sdk" where
  "sample_sdk lost = \<lparr>answer = sample_answer lost, COMM_SUCCESS = 0,
     DXL_LOWORD = (\<lambda>x. word_of_int x), DXL_HIWORD = (\<lambda>x. word_of_int (x div 65536)), DXL_LOBYTE = lo8, DXL_HIBYTE = hi8\<rparr>"

definition sample_servo :: DynamixelServo where
  "sample_servo = \<lparr>handlers_set = True, model_number = 30, dxl_id = 2, config = kConfigMotorAntiClockwise,
     total_encoder_count = 7, last_encoder_count = 40\<rparr>"

lemmas sample_simps = sample_sdk_def sample_answer_def sample_servo_def

lemmas servo_ops = ConfigureControlMode_def GetOperatingMode_def read_checked_def write_checked_def
  bnd_def seqp_def packet_call_def ask_def CommsCheck_def mode_of_register_def GetPresentPosition_def
  EnableTorque_def SetOperatingMode_def UpdateEncoderCount_def mode_settings_def SetVelocityProfile_def
  Write4Bytes_def encoder_update_def fits_signed_def GetTotalEncoderCount_def


theorem GetTotalEncoderCount_offset_witness:
  "\<exists>counts s' b'. encoder_calls (sample_sdk (\<lambda>_. False)) 2 (sample_servo, []) = Inr (counts, s', b') \<and> length counts = 2"
proof -
  have "\<exists>r. encoder_calls (sample_sdk (\<lambda>_. False)) (Suc (Suc 0)) (sample_servo, []) = Inr r"
    by (simp add: servo_ops sample_simps)
  then obtain counts s' b' where run: "encoder_calls (sample_sdk (\<lambda>_. False)) 2 (sample_servo, []) = Inr (counts, s', b')"
    by (auto simp: numeral_2_eq_2)
  from GetTotalEncoderCount_offset [OF run, of 1] run show ?thesis by simp
qed

theorem SetOperatingMode_total_witness:
  "\<exists>s' b'. SetOperatingMode (sample_sdk (\<lambda>_. False)) kVelocityControlMode (sample_servo, []) = Inr (True, s', b') \<and>
     last_encoder_count s' = answered_position (sample_sdk (\<lambda>_. False)) b'"
proof -
  have "\<exists>s' b'. SetOperatingMode (sample_sdk (\<lambda>_. False)) kVelocityControlMode (sample_servo, []) = Inr (True, s', b')"
    by (simp add: servo_ops sample_simps)
  then obtain s' b' where run: "SetOperatingMode (sample_sdk (\<lambda>_. False)) kVelocityControlMode (sample_servo, []) = Inr (True, s', b')"
    by auto
  from SetOperatingMode_total [OF run] run show ?thesis by blast
qed

text \<open>A servo of model 30 where model 311 is expected.\<close>

lemma sample_model: "register_value 2 ADDR_MODEL_NUMBER (wait_history 2 [Reboot_packet 2] k) = 30"
  by (induction k) auto

theorem Reboot_hangs_iff_witness:
  "Reboot (sample_sdk (\<lambda>_. False)) (sample_servo\<lparr>model_number := 311\<rparr>, []) = Inl No_Return"
proof -
  let ?s = "sample_servo\<lparr>model_number := 311\<rparr>"
  have "\<not> wait_ends (sample_sdk (\<lambda>_. False)) (dxl_id ?s) (model_number ?s) [Reboot_packet (dxl_id ?s)] k" for k
    using sample_model [of k] by (simp add: wait_ends_def sample_simps)
  then show ?thesis
    using Reboot_hangs_iff [of ?s "sample_sdk (\<lambda>_. False)" "[]"] by (simp add: sample_simps CommsCheck_def)
qed

lemma sample_wait: "reboot_wait (sample_sdk (\<lambda>_. False)) 2 30 0 [Reboot_packet 2, Ros_ok] =
    Some [Read4 2 ADDR_MODEL_NUMBER, Reboot_packet 2, Ros_ok]"
  by (subst reboot_wait.simps) (simp add: ask_def sample_simps)

lemma sample_Init: "\<exists>s b. Init (sample_sdk (\<lambda>_. False)) 30 2 kConfigMotorAntiClockwise (new_DynamixelServo j, []) = Inr ((), s, b)"
  if "j = 5 \<or> j = 7"
  using that
  by (elim disjE; simp add: Init_def new_DynamixelServo_def Reboot_def servo_ops sample_simps
      sample_wait [unfolded sample_sdk_def])

theorem Init_uninitialised_count_witness:
  "\<exists>s1 b1 s2 b2. Init (sample_sdk (\<lambda>_. False)) 30 2 kConfigMotorAntiClockwise (new_DynamixelServo 5, []) = Inr ((), s1, b1) \<and>
     Init (sample_sdk (\<lambda>_. False)) 30 2 kConfigMotorAntiClockwise (new_DynamixelServo 7, []) = Inr ((), s2, b2) \<and>
     sint (total_encoder_count s1) - sint (total_encoder_count s2) = 2"
proof -
  obtain s1 b1 s2 b2 where
    "Init (sample_sdk (\<lambda>_. False)) 30 2 kConfigMotorAntiClockwise (new_DynamixelServo 5, []) = Inr ((), s1, b1)"
    "Init (sample_sdk (\<lambda>_. False)) 30 2 kConfigMotorAntiClockwise (new_DynamixelServo 7, []) = Inr ((), s2, b2)"
    using sample_Init [of 5] sample_Init [of 7] by auto
  moreover from Init_uninitialised_count [OF this]
  have "sint (total_encoder_count s1) - sint (total_encoder_count s2) = 2" by (simp add: sample_simps)
  ultimately show ?thesis by blast
qed

definition lose_mode_ack :: "request \<Rightarrow> bool" where
  "lose_mode_ack r = (case r of Write1 _ a _ \<Rightarrow> a = ADDR_OPERATING_MODE | _ \<Rightarrow> False)"

theorem lost_mode_ack_leaves_torque_off_witness:
  "\<exists>rs s1 rs' v. ConfigureControlMode (sample_sdk lose_mode_ack) kVelocityControlMode (sample_servo, []) = Inr ((), s1, rs) \<and>
     SetRPM (sample_sdk lose_mode_ack) 20 (s1, rs) = Inr ((), s1, rs') \<and>
     writes rs' = [Write1 2 ADDR_TORQUE_ENABLE 0, Write1 2 ADDR_OPERATING_MODE OPERATING_MODE_VELOCITY,
       Write4 2 ADDR_GOAL_VELOCITY v]"
proof -
  let ?D = "sample_sdk lose_mode_ack"
  have "\<exists>s1 rs b2. ConfigureControlMode ?D kVelocityControlMode (sample_servo, []) = Inr ((), s1, rs @ []) \<and>
    writes rs = Write1 2 ADDR_TORQUE_ENABLE 0 # take 1 (mode_writes kVelocityControlMode 2 kConfigMotorAntiClockwise) \<and>
    GetOperatingMode ?D (s1, rs @ []) = Inr (kVelocityControlMode, s1, b2)"
    by (simp add: servo_ops sample_simps lose_mode_ack_def mode_writes_def writes_def is_write_def)
  then obtain s1 rs b2 where run: "ConfigureControlMode ?D kVelocityControlMode (sample_servo, []) = Inr ((), s1, rs @ [])"
    "writes rs = Write1 (dxl_id sample_servo) ADDR_TORQUE_ENABLE 0 #
       take 1 (mode_writes kVelocityControlMode (dxl_id sample_servo) (config sample_servo))"
    "GetOperatingMode ?D (s1, rs @ []) = Inr (kVelocityControlMode, s1, b2)"
    by (auto simp: sample_servo_def)
  from lost_mode_ack_leaves_torque_off [OF run, of 20] run(1) show ?thesis
    by (auto simp: sample_servo_def)
qed

theorem SetRPM_goal_witness:
  "\<exists>s' v rs. SetRPM (sample_sdk (\<lambda>_. False)) 100 (sample_servo, []) = Inr ((), s', Write4 2 ADDR_GOAL_VELOCITY v # rs) \<and>
     sint v = 229 \<and> (\<forall>r \<in> set rs. \<not> is_goal r)"
proof -
  have "\<exists>r. ConfigureControlMode (sample_sdk (\<lambda>_. False)) kVelocityControlMode (sample_servo, []) = Inr r"
    by (simp add: servo_ops sample_simps)
  then obtain s' b' where run: "SetRPM (sample_sdk (\<lambda>_. False)) 100 (sample_servo, []) = Inr ((), s', b')"
    by (auto simp: SetRPM_result)
  from SetRPM_goal [where D = "sample_sdk (\<lambda>_. False)" and rpm = 100 and s = sample_servo and b = "[]"] run show ?thesis
    by (auto simp: sample_servo_def trunc_int_def)
qed

end
