(* ===== verification/Dynamixel_Comms.thy ===== *)
theory Dynamixel_Comms
  imports Dynamixel_Servo
begin

text \<open>
  Class \<open>DynamixelComms\<close> of \<^verbatim>\<open>dynamixel_driver/src/dynamixel_comms.cpp\<close>: the five servos behind one
  mutex, the bulk writes, and the deadman's switch with its thread.

  Every operation holds \<open>comms_mutex_\<close> while it talks to the servos, so operations are atomic
  steps; one round of the thread is the step \<open>deadmans_tick\<close>, and its interleaving with the
  operations at the grain of its reads and writes of the two atomic flags is the relation
  \<open>dm_step\<close> in the last part. Logging is left out.
\<close>

section \<open>State\<close>

datatype MotorInstance = kMotorLeft | kMotorRight

datatype ServoInstance =
    kServoNone | kServoLeftFront | kServoLeftRear | kServoRightFront | kServoRightRear | kServoTurret

record ServoStatus =
  ss_instance :: ServoInstance
  ss_instance_name :: string
  ss_hardware_status :: u8
  ss_temperature_c :: int
  ss_input_voltage :: double

abbreviation kTurretId :: u8 where "kTurretId \<equiv> 0"
abbreviation kLeftFrontId :: u8 where "kLeftFrontId \<equiv> 2"
abbreviation kLeftRearId :: u8 where "kLeftRearId \<equiv> 3"
abbreviation kRightFrontId :: u8 where "kRightFrontId \<equiv> 1"
abbreviation kRightRearId :: u8 where "kRightRearId \<equiv> 4"

text \<open>
  \<open>bulk_set\<close>: the pointers to the bulk reader and writer are set. The two flags of the deadman's
  switch are not initialised by the constructor.
\<close>

record DynamixelComms =
  bulk_set :: bool
  motor_front_left :: DynamixelServo
  motor_front_right :: DynamixelServo
  motor_rear_left :: DynamixelServo
  motor_rear_right :: DynamixelServo
  servo_turret :: DynamixelServo
  deadmans_switch :: bool
  deadmans_switch_enabled :: bool
  connected :: bool
  cbus :: bus

type_synonym 'a comms_op = "(DynamixelComms, 'a) prog"

text \<open>
  The constructor. \<open>in_use\<close>: the static port or packet handler is set already; \<open>thread_ok\<close>: the
  thread starts. What the memory holds in the fields it does not set is in the arguments.
\<close>

definition new_DynamixelComms :: "bool \<Rightarrow> bool \<Rightarrow> i32 \<Rightarrow> bool \<Rightarrow> bool \<Rightarrow> bus \<Rightarrow> fault + DynamixelComms" where
  "new_DynamixelComms in_use thread_ok junk switch enabled b =
     (if in_use then Inl (Process_Exit (-2))
      else if \<not> thread_ok then Inl (Process_Exit (-3))
      else Inr \<lparr>bulk_set = False,
        motor_front_left = new_DynamixelServo junk, motor_front_right = new_DynamixelServo junk,
        motor_rear_left = new_DynamixelServo junk, motor_rear_right = new_DynamixelServo junk,
        servo_turret = new_DynamixelServo junk,
        deadmans_switch = switch, deadmans_switch_enabled = enabled, connected = False, cbus = b\<rparr>)"

text \<open>The members by position, and an operation of one servo as an operation on all.\<close>

datatype place = Front_Left | Front_Right | Rear_Left | Rear_Right | Turret

fun servo_at :: "place \<Rightarrow> DynamixelComms \<Rightarrow> DynamixelServo" where
  "servo_at Front_Left c = motor_front_left c"
| "servo_at Front_Right c = motor_front_right c"
| "servo_at Rear_Left c = motor_rear_left c"
| "servo_at Rear_Right c = motor_rear_right c"
| "servo_at Turret c = servo_turret c"

fun set_servo :: "place \<Rightarrow> DynamixelServo \<Rightarrow> DynamixelComms \<Rightarrow> DynamixelComms" where
  "set_servo Front_Left s c = c\<lparr>motor_front_left := s\<rparr>"
| "set_servo Front_Right s c = c\<lparr>motor_front_right := s\<rparr>"
| "set_servo Rear_Left s c = c\<lparr>motor_rear_left := s\<rparr>"
| "set_servo Rear_Right s c = c\<lparr>motor_rear_right := s\<rparr>"
| "set_servo Turret s c = c\<lparr>servo_turret := s\<rparr>"

definition on :: "place \<Rightarrow> 'a servo_op \<Rightarrow> 'a comms_op" where
  "on p m = (\<lambda>c. case m (servo_at p c, cbus c) of
     Inl f \<Rightarrow> Inl f
   | Inr (x, s, b) \<Rightarrow> Inr (x, (set_servo p s c)\<lparr>cbus := b\<rparr>))"

text \<open>A call through the pointer to a bulk reader or writer.\<close>

definition bulk_call :: "sdk \<Rightarrow> request \<Rightarrow> reply comms_op" where
  "bulk_call D r = (\<lambda>c. if \<not> bulk_set c then Inl Null_Pointer
     else case ask D r (cbus c) of (a, b) \<Rightarrow> Inr (a, c\<lparr>cbus := b\<rparr>))"

definition port_call :: "sdk \<Rightarrow> request \<Rightarrow> reply comms_op" where
  "port_call D r = (\<lambda>c. case ask D r (cbus c) of (a, b) \<Rightarrow> Inr (a, c\<lparr>cbus := b\<rparr>))"

section \<open>Start-up\<close>

definition model_number_of :: "string \<Rightarrow> u32 option" where
  "model_number_of model_name =
     (if model_name = ''MX-28AT'' then Some 0x001E
      else if model_name = ''MX-64AT'' then Some 0x0137 else None)"

definition init_servos :: "sdk \<Rightarrow> u32 \<Rightarrow> unit comms_op" where
  "init_servos D number =
     seqp (on Turret (Init D number kTurretId kConfigServo))
    (seqp (on Front_Left (Init D number kLeftFrontId kConfigMotorAntiClockwise))
    (seqp (on Rear_Left (Init D number kLeftRearId kConfigMotorAntiClockwise))
    (seqp (on Front_Right (Init D number kRightFrontId kConfigMotorClockwise))
          (on Rear_Right (Init D number kRightRearId kConfigMotorClockwise)))))"

definition comms_Init :: "sdk \<Rightarrow> string \<Rightarrow> string \<Rightarrow> unit comms_op" where
  "comms_Init D device_name model_name =
     bnd (port_call D (Open_port device_name)) (\<lambda>open_reply.
     if \<not> flag open_reply then fault_with (Process_Exit (-2))
     else bnd (port_call D (Set_baud (1000 * 1000))) (\<lambda>baud.
       if \<not> flag baud then ret ()
       else seqp (modify (\<lambda>c. c\<lparr>connected := True, bulk_set := True\<rparr>))
         (case model_number_of model_name of
            None \<Rightarrow> fault_with (Process_Exit 1)
          | Some number \<Rightarrow> init_servos D number)))"

definition Connected :: "DynamixelComms \<Rightarrow> bool" where
  "Connected c = connected c"

section \<open>The deadman's switch\<close>

definition DeadmansSwitchReset :: "unit comms_op" where
  "DeadmansSwitchReset = modify (\<lambda>c. c\<lparr>deadmans_switch := False\<rparr>)"

definition DeadmansSwitchEnable :: "bool \<Rightarrow> unit comms_op" where
  "DeadmansSwitchEnable enable = modify (\<lambda>c. c\<lparr>deadmans_switch_enabled := enable\<rparr>)"

definition stop_all :: "sdk \<Rightarrow> unit comms_op" where
  "stop_all D =
     seqp (on Front_Left (SetRPM D 0)) (seqp (on Rear_Left (SetRPM D 0))
    (seqp (on Front_Right (SetRPM D 0)) (on Rear_Right (SetRPM D 0))))"

text \<open>One round of \<open>DeadmansSwitchLoop\<close>, after its sleep of 500 ms.\<close>

definition deadmans_tick :: "sdk \<Rightarrow> unit comms_op" where
  "deadmans_tick D =
     bnd (gets deadmans_switch_enabled) (\<lambda>enabled.
     if enabled then
       bnd (gets deadmans_switch) (\<lambda>switch.
       seqp (if switch then stop_all D else ret ())
            (modify (\<lambda>c. c\<lparr>deadmans_switch := True\<rparr>)))
     else ret ())"

section \<open>Identifiers\<close>

text \<open>An invalid instance gets the id of the turret: \<open>assert("...")\<close> of a string always holds.\<close>

definition GetServoId :: "ServoInstance \<Rightarrow> u8" where
  "GetServoId servo = (case servo of
     kServoTurret \<Rightarrow> kTurretId | kServoLeftFront \<Rightarrow> kLeftFrontId | kServoLeftRear \<Rightarrow> kLeftRearId
   | kServoRightFront \<Rightarrow> kRightFrontId | kServoRightRear \<Rightarrow> kRightRearId | kServoNone \<Rightarrow> 0)"

definition GetServoInstance :: "u8 \<Rightarrow> ServoInstance" where
  "GetServoInstance i =
     (if i = kTurretId then kServoTurret else if i = kLeftFrontId then kServoLeftFront
      else if i = kLeftRearId then kServoLeftRear else if i = kRightFrontId then kServoRightFront
      else if i = kRightRearId then kServoRightRear else kServoNone)"

definition GetServoIdString :: "u8 \<Rightarrow> string" where
  "GetServoIdString i =
     (if i = kTurretId then ''Turret'' else if i = kLeftFrontId then ''LeftFront''
      else if i = kLeftRearId then ''LeftRear'' else if i = kRightFrontId then ''RightFront''
      else if i = kRightRearId then ''RightRear'' else '''')"

definition DynamixelToServoStatus :: "DynamixelServoStatus \<Rightarrow> ServoStatus" where
  "DynamixelToServoStatus d =
     \<lparr>ss_instance = GetServoInstance (st_dxl_id d), ss_instance_name = GetServoIdString (st_dxl_id d),
      ss_hardware_status = st_hardware_status d, ss_temperature_c = st_temperature_c d,
      ss_input_voltage = st_input_voltage d\<rparr>"

section \<open>Status\<close>

text \<open>The five cases of the switch in the loop all ask \<open>servo_turret_\<close>.\<close>

definition status_case :: "sdk \<Rightarrow> nat \<Rightarrow> ServoStatus list \<Rightarrow> ServoStatus list comms_op" where
  "status_case D i result =
     (if i = 0 then bnd (on Turret (GetStatus D)) (\<lambda>d. ret (result @ [DynamixelToServoStatus d]))
      else if i = 1 then bnd (on Turret (GetStatus D)) (\<lambda>d. ret (result @ [DynamixelToServoStatus d]))
      else if i = 2 then bnd (on Turret (GetStatus D)) (\<lambda>d. ret (result @ [DynamixelToServoStatus d]))
      else if i = 3 then bnd (on Turret (GetStatus D)) (\<lambda>d. ret (result @ [DynamixelToServoStatus d]))
      else if i = 4 then bnd (on Turret (GetStatus D)) (\<lambda>d. ret (result @ [DynamixelToServoStatus d]))
      else ret result)"

fun status_loop :: "sdk \<Rightarrow> nat list \<Rightarrow> ServoStatus list \<Rightarrow> ServoStatus list comms_op" where
  "status_loop D [] result = ret result"
| "status_loop D (i # is) result = bnd (status_case D i result) (status_loop D is)"

definition comms_GetHardwareStatus :: "sdk \<Rightarrow> ServoStatus list comms_op" where
  "comms_GetHardwareStatus D = status_loop D [0, 1, 2, 3, 4] []"

definition comms_GetTotalEncoderCount :: "sdk \<Rightarrow> MotorInstance \<Rightarrow> i64 comms_op" where
  "comms_GetTotalEncoderCount D motor =
     (if motor = kMotorLeft then on Front_Left (GetTotalEncoderCount D)
      else if motor = kMotorRight then on Front_Right (GetTotalEncoderCount D) else ret 0)"

definition comms_GetVoltage :: "sdk \<Rightarrow> ServoInstance \<Rightarrow> double comms_op" where
  "comms_GetVoltage D _ = on Front_Left (GetVoltage D)"

section \<open>Motion\<close>

definition ConvertRPMToGoalVelocity :: "sdk \<Rightarrow> double \<Rightarrow> u8 list option" where
  "ConvertRPMToGoalVelocity D goal_rpm =
     map_option (\<lambda>ticks. dxl_bytes D (uint (ticks :: u64))) (real_to_i64 (goal_rpm * (1 / 0.229)))"

definition CalculateNewGoalPosition :: "sdk \<Rightarrow> double \<Rightarrow> i32 \<Rightarrow> u8 list option" where
  "CalculateNewGoalPosition D angle_radians position =
     map_option (\<lambda>new_position. dxl_bytes D (sint new_position)) (relative_goal angle_radians position)"

definition configure_all :: "sdk \<Rightarrow> OperatingMode \<Rightarrow> unit comms_op" where
  "configure_all D mode =
     seqp (on Front_Left (ConfigureControlMode D mode)) (seqp (on Front_Right (ConfigureControlMode D mode))
    (seqp (on Rear_Left (ConfigureControlMode D mode)) (on Rear_Right (ConfigureControlMode D mode))))"

text \<open>\<open>addParam\<close> with the goal of one motor; its result is not looked at.\<close>

definition add_goal :: "sdk \<Rightarrow> place \<Rightarrow> u16 \<Rightarrow> u8 list option \<Rightarrow> unit comms_op" where
  "add_goal D p address goal =
     bnd (lift_opt goal) (\<lambda>bytes.
     bnd (gets (GetId \<circ> servo_at p)) (\<lambda>i.
     seqp (bulk_call D (Bulk_add i address 4 bytes)) (ret ())))"

definition comms_SetAllRPM :: "sdk \<Rightarrow> double \<Rightarrow> double \<Rightarrow> double \<Rightarrow> double \<Rightarrow> unit comms_op" where
  "comms_SetAllRPM D front_left_rpm front_right_rpm rear_left_rpm rear_right_rpm =
     seqp (configure_all D kVelocityControlMode)
    (let front_right_rpm = - front_right_rpm; rear_right_rpm = - rear_right_rpm in
     seqp (add_goal D Front_Left ADDR_GOAL_VELOCITY (ConvertRPMToGoalVelocity D front_left_rpm))
    (seqp (add_goal D Front_Right ADDR_GOAL_VELOCITY (ConvertRPMToGoalVelocity D front_right_rpm))
    (seqp (add_goal D Rear_Left ADDR_GOAL_VELOCITY (ConvertRPMToGoalVelocity D rear_left_rpm))
    (seqp (add_goal D Rear_Right ADDR_GOAL_VELOCITY (ConvertRPMToGoalVelocity D rear_right_rpm))
    (seqp (bulk_call D Bulk_tx) (seqp (bulk_call D Bulk_clear)
    (seqp (DeadmansSwitchEnable True) DeadmansSwitchReset)))))))"

definition comms_SetRPM :: "sdk \<Rightarrow> MotorInstance \<Rightarrow> double \<Rightarrow> unit comms_op" where
  "comms_SetRPM D motor rpm =
     seqp (if motor = kMotorLeft
           then seqp (on Front_Left (SetRPM D rpm)) (on Rear_Left (SetRPM D rpm)) else ret ())
    (seqp (if motor = kMotorRight
           then seqp (on Front_Right (SetRPM D (- rpm))) (on Rear_Right (SetRPM D (- rpm))) else ret ())
    (seqp (DeadmansSwitchEnable True) DeadmansSwitchReset))"

definition comms_SetRelativePosition :: "sdk \<Rightarrow> MotorInstance \<Rightarrow> double \<Rightarrow> unit comms_op" where
  "comms_SetRelativePosition D motor angle_radians =
     seqp (DeadmansSwitchEnable False)
    (seqp (if motor = kMotorLeft
           then seqp (on Front_Left (SetRelativePosition D angle_radians)) (on Rear_Left (SetRelativePosition D angle_radians))
           else ret ())
          (if motor = kMotorRight
           then seqp (on Front_Right (SetRelativePosition D angle_radians)) (on Rear_Right (SetRelativePosition D angle_radians))
           else ret ()))"

definition comms_SetAllRelativePosition :: "sdk \<Rightarrow> double \<Rightarrow> double \<Rightarrow> double \<Rightarrow> double \<Rightarrow> unit comms_op" where
  "comms_SetAllRelativePosition D front_left front_right rear_left rear_right =
     seqp (DeadmansSwitchEnable False)
    (seqp (configure_all D kExtendedPositionControlMode)
    (bnd (on Front_Left (GetPresentPosition D)) (\<lambda>front_left_position.
     bnd (on Front_Right (GetPresentPosition D)) (\<lambda>front_right_position.
     bnd (on Rear_Left (GetPresentPosition D)) (\<lambda>rear_left_position.
     bnd (on Rear_Right (GetPresentPosition D)) (\<lambda>rear_right_position.
     seqp (add_goal D Front_Left ADDR_GOAL_POSITION (CalculateNewGoalPosition D front_left front_left_position))
    (seqp (add_goal D Front_Right ADDR_GOAL_POSITION (CalculateNewGoalPosition D front_right front_right_position))
    (seqp (add_goal D Rear_Left ADDR_GOAL_POSITION (CalculateNewGoalPosition D rear_left rear_left_position))
    (seqp (add_goal D Rear_Right ADDR_GOAL_POSITION (CalculateNewGoalPosition D rear_right rear_right_position))
    (seqp (bulk_call D Bulk_tx) (seqp (bulk_call D Bulk_clear) (ret ()))))))))))))"

definition comms_SetServoPosition :: "sdk \<Rightarrow> ServoInstance \<Rightarrow> double \<Rightarrow> unit comms_op" where
  "comms_SetServoPosition D servo angle_degrees =
     (if servo = kServoTurret then on Turret (SetPosition D angle_degrees) else ret ())"

definition comms_Reboot :: "sdk \<Rightarrow> ServoInstance \<Rightarrow> unit comms_op" where
  "comms_Reboot D servo =
     (let i = GetServoId servo in
      if i = kTurretId then on Turret (Reboot D)
      else if i = kLeftFrontId then on Front_Left (Reboot D)
      else if i = kLeftRearId then on Rear_Left (Reboot D)
      else if i = kRightFrontId then on Front_Right (Reboot D)
      else if i = kRightRearId then on Rear_Right (Reboot D)
      else ret ())"

section \<open>The bulk read\<close>

text \<open>
  \<open>GetCurrentPositions\<close> is compiled but not called. \<open>GetMotorPresentPosition\<close> asks whether the
  data of the front left motor is available, whichever motor it is called for.
\<close>

definition GetMotorPresentPosition :: "sdk \<Rightarrow> u8 \<Rightarrow> i32 comms_op" where
  "GetMotorPresentPosition D i =
     bnd (bulk_call D (Get_error i)) (\<lambda>e.
     if flag e then ret 0
     else bnd (gets (GetId \<circ> motor_front_left)) (\<lambda>front_left_id.
       bnd (bulk_call D (Get_available front_left_id 132 4)) (\<lambda>a.
       if flag a then bnd (bulk_call D (Get_data i 132 4)) (\<lambda>d.
         ret (case rdata d of None \<Rightarrow> 0 | Some v \<Rightarrow> v))
       else ret 0)))"

definition add_read :: "sdk \<Rightarrow> place \<Rightarrow> bool comms_op" where
  "add_read D p = bnd (gets (GetId \<circ> servo_at p)) (\<lambda>i.
     bnd (bulk_call D (Get_add i 132 4)) (\<lambda>a. ret (flag a)))"

text \<open>\<open>None\<close>: the output parameters keep their values.\<close>

definition GetCurrentPositions :: "sdk \<Rightarrow> (i32 \<times> i32 \<times> i32 \<times> i32) option comms_op" where
  "GetCurrentPositions D =
     seqp (bulk_call D Get_clear)
    (bnd (add_read D Front_Left) (\<lambda>ok. if \<not> ok then ret None else
     bnd (add_read D Front_Right) (\<lambda>ok. if \<not> ok then ret None else
     bnd (add_read D Rear_Left) (\<lambda>ok. if \<not> ok then ret None else
     bnd (add_read D Rear_Right) (\<lambda>ok. if \<not> ok then ret None else
     bnd (bulk_call D Get_rx) (\<lambda>r.
     if comm_result r \<noteq> COMM_SUCCESS D then ret None
     else
       bnd (bnd (gets (GetId \<circ> motor_front_left)) (GetMotorPresentPosition D)) (\<lambda>front_left.
       bnd (bnd (gets (GetId \<circ> motor_front_right)) (GetMotorPresentPosition D)) (\<lambda>front_right.
       bnd (bnd (gets (GetId \<circ> motor_rear_left)) (GetMotorPresentPosition D)) (\<lambda>rear_left.
       bnd (bnd (gets (GetId \<circ> motor_rear_right)) (GetMotorPresentPosition D)) (\<lambda>rear_right.
       ret (Some (front_left, front_right, rear_left, rear_right))))))))))))"

section \<open>The operations as events\<close>

datatype comms_event =
    E_SetRPM MotorInstance double
  | E_SetAllRPM double double double double
  | E_SetRelativePosition MotorInstance double
  | E_SetAllRelativePosition double double double double
  | E_SetServoPosition ServoInstance double
  | E_GetHardwareStatus
  | E_GetTotalEncoderCount MotorInstance
  | E_GetVoltage ServoInstance
  | E_Reboot ServoInstance
  | E_GetCurrentPositions
  | Tick

definition void :: "'a comms_op \<Rightarrow> unit comms_op" where
  "void m = seqp m (ret ())"

definition comms_op_of :: "sdk \<Rightarrow> comms_event \<Rightarrow> unit comms_op" where
  "comms_op_of D e = (case e of
     E_SetRPM m r \<Rightarrow> comms_SetRPM D m r
   | E_SetAllRPM a b c d \<Rightarrow> comms_SetAllRPM D a b c d
   | E_SetRelativePosition m a \<Rightarrow> comms_SetRelativePosition D m a
   | E_SetAllRelativePosition a b c d \<Rightarrow> comms_SetAllRelativePosition D a b c d
   | E_SetServoPosition i a \<Rightarrow> comms_SetServoPosition D i a
   | E_GetHardwareStatus \<Rightarrow> void (comms_GetHardwareStatus D)
   | E_GetTotalEncoderCount m \<Rightarrow> void (comms_GetTotalEncoderCount D m)
   | E_GetVoltage i \<Rightarrow> void (comms_GetVoltage D i)
   | E_Reboot i \<Rightarrow> comms_Reboot D i
   | E_GetCurrentPositions \<Rightarrow> void (GetCurrentPositions D)
   | Tick \<Rightarrow> deadmans_tick D)"

definition comms_step :: "sdk \<Rightarrow> DynamixelComms \<Rightarrow> comms_event \<Rightarrow> fault + DynamixelComms" where
  "comms_step D c e = (case comms_op_of D e c of Inl f \<Rightarrow> Inl f | Inr (_, c') \<Rightarrow> Inr c')"

section \<open>The invariant\<close>

fun place_id :: "place \<Rightarrow> u8" where
  "place_id Front_Left = kLeftFrontId"
| "place_id Front_Right = kRightFrontId"
| "place_id Rear_Left = kLeftRearId"
| "place_id Rear_Right = kRightRearId"
| "place_id Turret = kTurretId"

fun place_config :: "place \<Rightarrow> Configuration" where
  "place_config Front_Left = kConfigMotorAntiClockwise"
| "place_config Front_Right = kConfigMotorClockwise"
| "place_config Rear_Left = kConfigMotorAntiClockwise"
| "place_config Rear_Right = kConfigMotorClockwise"
| "place_config Turret = kConfigServo"

text \<open>The pointers are set and every member has its id and its orientation.\<close>

definition servo_ok :: "place \<Rightarrow> DynamixelServo \<Rightarrow> bool" where
  "servo_ok p s \<longleftrightarrow> handlers_set s \<and> dxl_id s = place_id p \<and> config s = place_config p"

definition comms_inv :: "DynamixelComms \<Rightarrow> bool" where
  "comms_inv c \<longleftrightarrow> bulk_set c \<and> (\<forall>p. servo_ok p (servo_at p c))"

lemma servo_at_set_servo [simp]: "servo_at p (set_servo q s c) = (if p = q then s else servo_at p c)"
  by (cases p; cases q) auto

lemma servo_at_cbus [simp]: "servo_at p (c\<lparr>cbus := b\<rparr>) = servo_at p c"
  "servo_at p (c\<lparr>deadmans_switch := x\<rparr>) = servo_at p c"
  "servo_at p (c\<lparr>deadmans_switch_enabled := x\<rparr>) = servo_at p c"
  "servo_at p (c\<lparr>connected := x, bulk_set := y\<rparr>) = servo_at p c"
  by (cases p; simp)+

lemma set_servo_fields [simp]:
  "bulk_set (set_servo p s c) = bulk_set c" "cbus (set_servo p s c) = cbus c"
  "deadmans_switch (set_servo p s c) = deadmans_switch c"
  "deadmans_switch_enabled (set_servo p s c) = deadmans_switch_enabled c"
  by (cases p; simp)+

text \<open>
  \<open>safe m F\<close>: from the invariant \<open>m\<close> keeps it, does not call through a null pointer, and the two
  flags of the switch end as \<open>F\<close> says. \<open>safe_servo\<close> is the contract of the operations of a servo.
\<close>

definition safe :: "(bool \<times> bool \<Rightarrow> bool \<times> bool) \<Rightarrow> 'a comms_op \<Rightarrow> bool" where
  "safe F m \<longleftrightarrow> (\<forall>c. comms_inv c \<longrightarrow> m c \<noteq> Inl Null_Pointer \<and> (\<forall>x c'. m c = Inr (x, c') \<longrightarrow>
     comms_inv c' \<and> (deadmans_switch_enabled c', deadmans_switch c') = F (deadmans_switch_enabled c, deadmans_switch c)))"

definition safe_servo :: "'a servo_op \<Rightarrow> bool" where
  "safe_servo m \<longleftrightarrow> (\<forall>s b. handlers_set s \<longrightarrow> m (s, b) \<noteq> Inl Null_Pointer \<and>
     (\<forall>x s' b'. m (s, b) = Inr (x, s', b') \<longrightarrow> same_servo s s'))"

named_theorems safe_rules "the programs keep the invariant"

lemma safe_ret [safe_rules]: "safe id (ret x)" "safe id (gets g)" "safe id (lift_opt v)"
  by (auto simp: safe_def lift_opt_def split: option.splits)

lemma safe_Inl: "safe F m \<Longrightarrow> comms_inv c \<Longrightarrow> m c \<noteq> Inl Null_Pointer"
  unfolding safe_def by blast

lemma safe_Inr: "safe F m \<Longrightarrow> comms_inv c \<Longrightarrow> m c = Inr (x, c') \<Longrightarrow> comms_inv c' \<and>
    (deadmans_switch_enabled c', deadmans_switch c') = F (deadmans_switch_enabled c, deadmans_switch c)"
  unfolding safe_def by blast

lemma safe_bnd_comp:
  assumes m: "safe F m" and k: "\<And>x. safe G (k x)"
  shows "safe (G \<circ> F) (bnd m k)"
  unfolding safe_def
proof (intro allI impI conjI)
  fix c assume inv: "comms_inv c"
  show "bnd m k c \<noteq> Inl Null_Pointer"
  proof
    assume "bnd m k c = Inl Null_Pointer"
    then show False
    proof (cases rule: bnd_InlE)
      case 1
      then show ?thesis using safe_Inl [OF m inv] by simp
    next
      case (2 x c1)
      then show ?thesis using safe_Inl [OF k] safe_Inr [OF m inv 2(1)] by blast
    qed
  qed
next
  fix c x c' assume inv: "comms_inv c" and run: "bnd m k c = Inr (x, c')"
  from run obtain y c1 where 1: "m c = Inr (y, c1)" and 2: "k y c1 = Inr (x, c')" by (rule bnd_InrE)
  note i1 = safe_Inr [OF m inv 1]
  note i2 = safe_Inr [OF k conjunct1 [OF i1] 2]
  show "comms_inv c'" by (rule conjunct1 [OF i2])
  show "(deadmans_switch_enabled c', deadmans_switch c') = (G \<circ> F) (deadmans_switch_enabled c, deadmans_switch c)"
    using i1 i2 by simp
qed

lemma safe_seqp_comp: "safe F m \<Longrightarrow> safe G n \<Longrightarrow> safe (G \<circ> F) (seqp m n)"
  unfolding seqp_def by (rule safe_bnd_comp)

lemma safe_bnd [safe_rules]: "safe id m \<Longrightarrow> (\<And>x. safe id (k x)) \<Longrightarrow> safe id (bnd m k)"
  using safe_bnd_comp [of id m id k] by simp

lemma safe_seqp [safe_rules]: "safe id m \<Longrightarrow> safe id n \<Longrightarrow> safe id (seqp m n)"
  unfolding seqp_def by (rule safe_bnd)

lemma safe_flags:
  "safe (\<lambda>(e, s). (b, s)) (DeadmansSwitchEnable b)" "safe (\<lambda>(e, s). (e, False)) DeadmansSwitchReset"
  "safe (\<lambda>(e, s). (e, True)) (modify (\<lambda>c. c\<lparr>deadmans_switch := True\<rparr>))"
  by (auto simp: safe_def DeadmansSwitchEnable_def DeadmansSwitchReset_def comms_inv_def)

lemma safe_bulk_call [safe_rules]: "safe id (bulk_call D r)"
  by (auto simp: safe_def bulk_call_def ask_def comms_inv_def)

lemma safe_servo_Inl: "safe_servo m \<Longrightarrow> handlers_set s \<Longrightarrow> m (s, b) \<noteq> Inl Null_Pointer"
  unfolding safe_servo_def by blast

lemma safe_servo_Inr: "safe_servo m \<Longrightarrow> handlers_set s \<Longrightarrow> m (s, b) = Inr (x, s', b') \<Longrightarrow> same_servo s s'"
  unfolding safe_servo_def by blast

lemma safe_on [safe_rules]:
  assumes "safe_servo m"
  shows "safe id (on p m)"
  unfolding safe_def
proof (intro allI impI conjI)
  fix c assume inv: "comms_inv c"
  then have h: "handlers_set (servo_at p c)" by (simp add: comms_inv_def servo_ok_def)
  show "on p m c \<noteq> Inl Null_Pointer"
    using safe_servo_Inl [OF assms h] by (auto simp: on_def split: sum.splits)
  fix x c' assume "on p m c = Inr (x, c')"
  then obtain s b where m: "m (servo_at p c, cbus c) = Inr (x, s, b)" and c': "c' = (set_servo p s c)\<lparr>cbus := b\<rparr>"
    by (auto simp: on_def split: sum.splits)
  have "same_servo (servo_at p c) s" by (rule safe_servo_Inr [OF assms h m])
  with inv c' show "comms_inv c'" by (auto simp: comms_inv_def servo_ok_def same_servo_def)
  show "(deadmans_switch_enabled c', deadmans_switch c') = id (deadmans_switch_enabled c, deadmans_switch c)"
    by (simp add: c')
qed

lemma safe_servo_ret [safe_rules]: "safe_servo (ret x)" "safe_servo (gets g)" "safe_servo (lift_opt v)"
  by (auto simp: safe_servo_def same_servo_def lift_opt_def split: option.splits)

lemma safe_servo_bnd [safe_rules]:
  assumes "safe_servo m" "\<And>x. safe_servo (k x)"
  shows "safe_servo (bnd m k)"
  unfolding safe_servo_def
proof (intro allI impI conjI)
  fix s :: DynamixelServo and b :: bus
  assume h: "handlers_set s"
  have step: "same_servo s s1 \<and> handlers_set s1" if "m (s, b) = Inr (x, s1, b1)" for x s1 b1
    using safe_servo_Inr [OF assms(1) h that] h by (simp add: same_servo_def)
  show "bnd m k (s, b) \<noteq> Inl Null_Pointer"
    using safe_servo_Inl [OF assms(1) h] safe_servo_Inl [OF assms(2)] step by (fastforce elim!: bnd_InlE)
  fix x s' b' assume "bnd m k (s, b) = Inr (x, s', b')"
  then obtain y s1 b1 where m: "m (s, b) = Inr (y, s1, b1)" and k: "k y (s1, b1) = Inr (x, s', b')"
    by (elim bnd_InrE) auto
  have "same_servo s1 s'" using safe_servo_Inr [OF assms(2) _ k] step [OF m] by blast
  with step [OF m] show "same_servo s s'" by (simp add: same_servo_def)
qed

lemma safe_servo_seqp [safe_rules]: "safe_servo m \<Longrightarrow> safe_servo n \<Longrightarrow> safe_servo (seqp m n)"
  unfolding seqp_def by (rule safe_servo_bnd)

lemma safe_packet_call [safe_rules]: "safe_servo (packet_call D r)"
  by (auto simp: safe_servo_def packet_call_def ask_def same_servo_def)

lemma safe_checked [safe_rules]: "safe_servo (read_checked D r)" "safe_servo (write_checked D r)"
  unfolding read_checked_def write_checked_def by (intro safe_rules)+

lemma safe_GetPresentPosition [safe_rules]: "safe_servo (GetPresentPosition D)"
  unfolding GetPresentPosition_def by (intro safe_rules) (auto intro: safe_rules)

lemma safe_UpdateEncoderCount [safe_rules]: "safe_servo (UpdateEncoderCount D mc)"
proof -
  have "safe_servo (\<lambda>(s, b). case encoder_update mc n s of None \<Rightarrow> Inl Undefined_Behaviour | Some s' \<Rightarrow> Inr ((), s', b))" for n
    by (auto simp: safe_servo_def split: option.splits dest: encoder_update_same)
  then show ?thesis unfolding UpdateEncoderCount_def by (intro safe_rules)
qed

lemma safe_SetOperatingMode [safe_rules]: "safe_servo (SetOperatingMode D mode)"
  unfolding SetOperatingMode_def SetVelocityProfile_def Write4Bytes_def
  by (intro safe_rules) (auto intro!: safe_rules split: prod.split)

lemma safe_GetOperatingMode [safe_rules]: "safe_servo (GetOperatingMode D)"
  unfolding GetOperatingMode_def by (intro safe_rules) (auto intro: safe_rules)

lemma safe_ConfigureControlMode [safe_rules]: "safe_servo (ConfigureControlMode D mode)"
  unfolding ConfigureControlMode_def EnableTorque_def
  by (intro safe_rules) (auto intro!: safe_rules)

lemma safe_SetRPM [safe_rules]: "safe_servo (SetRPM D rpm)"
  unfolding SetRPM_def SetVelocity_def Write4Bytes_def by (intro safe_rules)

lemma safe_SetRelativePosition [safe_rules]: "safe_servo (SetRelativePosition D a)"
  unfolding SetRelativePosition_def SetGoalPosition_def Write4Bytes_def by (intro safe_rules)

lemma safe_SetPosition [safe_rules]: "safe_servo (SetPosition D a)"
  unfolding SetPosition_def SetGoalPosition_def Write4Bytes_def by (intro safe_rules)

lemma safe_GetTotalEncoderCount [safe_rules]: "safe_servo (GetTotalEncoderCount D)"
  unfolding GetTotalEncoderCount_def by (intro safe_rules)

lemma safe_GetVoltage [safe_rules]: "safe_servo (GetVoltage D)"
  unfolding GetVoltage_def GetInputVoltage_def by (intro safe_rules) (auto intro: safe_rules)

lemma safe_GetStatus [safe_rules]: "safe_servo (GetStatus D)"
  unfolding GetStatus_def GetHardwareErrorStatus_def GetTemperature_def GetInputVoltage_def
  by (intro safe_rules) (auto intro!: safe_rules)

lemma safe_Reboot [safe_rules]: "safe_servo (Reboot D)"
  by (auto simp: safe_servo_def Reboot_result Let_def same_servo_def split: option.splits)

lemma safe_comp: "safe F m \<Longrightarrow> (\<And>x. F x = G x) \<Longrightarrow> safe G m"
  unfolding safe_def by simp

lemma safe_stop_all: "safe id (stop_all D)"
  unfolding stop_all_def by (intro safe_rules)

lemma safe_configure_all: "safe id (configure_all D mode)"
  unfolding configure_all_def by (intro safe_rules)

lemma safe_add_goal: "safe id (add_goal D p a goal)"
  unfolding add_goal_def by (intro safe_rules)

lemma safe_armed: "safe (\<lambda>_. (True, False)) (seqp (DeadmansSwitchEnable True) DeadmansSwitchReset)"
  by (rule safe_comp [OF safe_seqp_comp [OF safe_flags(1) safe_flags(2)]]) (auto simp: split_beta)

lemma safe_before: "safe id m \<Longrightarrow> safe F n \<Longrightarrow> safe F (seqp m n)"
  using safe_seqp_comp [of id m F n] by simp

lemma safe_after: "safe F m \<Longrightarrow> safe id n \<Longrightarrow> safe F (seqp m n)"
  using safe_seqp_comp [of F m id n] by simp

lemma safe_comms_SetRPM: "safe (\<lambda>_. (True, False)) (comms_SetRPM D motor rpm)"
  unfolding comms_SetRPM_def
  by (intro safe_before safe_armed) (auto intro!: safe_rules)

lemma safe_comms_SetAllRPM: "safe (\<lambda>_. (True, False)) (comms_SetAllRPM D a b c d)"
  unfolding comms_SetAllRPM_def Let_def
  by (intro safe_before safe_armed safe_configure_all safe_add_goal safe_bulk_call)

lemma safe_comms_SetRelativePosition: "safe (\<lambda>(e, s). (False, s)) (comms_SetRelativePosition D m a)"
  unfolding comms_SetRelativePosition_def
  by (intro safe_after safe_flags) (auto intro!: safe_rules)

lemma safe_comms_SetAllRelativePosition: "safe (\<lambda>(e, s). (False, s)) (comms_SetAllRelativePosition D a b c d)"
  unfolding comms_SetAllRelativePosition_def
  by (intro safe_after safe_flags; intro safe_rules safe_configure_all safe_add_goal)

lemma safe_status_loop: "safe id (status_loop D is result)"
  by (induction "is" arbitrary: result) (auto simp: status_case_def intro!: safe_rules)

lemma safe_GetHardwareStatus: "safe id (comms_GetHardwareStatus D)"
  unfolding comms_GetHardwareStatus_def by (rule safe_status_loop)

lemma safe_GetMotorPresentPosition: "safe id (GetMotorPresentPosition D i)"
  unfolding GetMotorPresentPosition_def by (intro safe_rules) (auto intro!: safe_rules)

lemma safe_GetCurrentPositions: "safe id (GetCurrentPositions D)"
proof -
  have "safe id (add_read D p)" for p
    unfolding add_read_def by (intro safe_rules)
  then show ?thesis
    unfolding GetCurrentPositions_def
    by (intro safe_rules) (auto intro!: safe_rules safe_GetMotorPresentPosition)
qed

lemma deadmans_tick_eq: "deadmans_tick D c =
    (if deadmans_switch_enabled c
     then (if deadmans_switch c then seqp (stop_all D) (modify (\<lambda>c. c\<lparr>deadmans_switch := True\<rparr>)) c
           else Inr ((), c\<lparr>deadmans_switch := True\<rparr>))
     else Inr ((), c))"
  by (simp add: deadmans_tick_def)

definition flags_after :: "comms_event \<Rightarrow> bool \<times> bool \<Rightarrow> bool \<times> bool" where
  "flags_after e = (case e of
     E_SetRPM _ _ \<Rightarrow> (\<lambda>_. (True, False)) | E_SetAllRPM _ _ _ _ \<Rightarrow> (\<lambda>_. (True, False))
   | E_SetRelativePosition _ _ \<Rightarrow> (\<lambda>(e, s). (False, s)) | E_SetAllRelativePosition _ _ _ _ \<Rightarrow> (\<lambda>(e, s). (False, s))
   | Tick \<Rightarrow> (\<lambda>(e, s). if e then (True, True) else (e, s)) | _ \<Rightarrow> id)"

lemma safe_tick: "safe (\<lambda>(e, s). if e then (True, True) else (e, s)) (deadmans_tick D)"
proof -
  have stop: "safe (\<lambda>(e, s). (e, True)) (seqp (stop_all D) (modify (\<lambda>c. c\<lparr>deadmans_switch := True\<rparr>)))"
    by (intro safe_before safe_stop_all safe_flags)
  have set: "comms_inv c \<Longrightarrow> comms_inv (c\<lparr>deadmans_switch := True\<rparr>)" for c
    by (simp add: comms_inv_def)
  show ?thesis
    unfolding safe_def
  proof (intro allI impI conjI)
    fix c assume inv: "comms_inv c"
    show "deadmans_tick D c \<noteq> Inl Null_Pointer"
      using safe_Inl [OF stop inv] by (simp add: deadmans_tick_eq)
    fix x c' assume run: "deadmans_tick D c = Inr (x, c')"
    show "comms_inv c'" "(deadmans_switch_enabled c', deadmans_switch c') =
        (\<lambda>(e, s). if e then (True, True) else (e, s)) (deadmans_switch_enabled c, deadmans_switch c)"
      using safe_Inr [OF stop inv] set [OF inv] run inv by (auto simp: deadmans_tick_eq split: if_splits)
  qed
qed

lemma safe_event: "safe (flags_after e) (comms_op_of D e)"
proof (cases e)
  case (E_SetServoPosition i a)
  then show ?thesis
    by (auto simp: flags_after_def comms_op_of_def comms_SetServoPosition_def intro!: safe_rules)
next
  case (E_GetTotalEncoderCount m)
  then show ?thesis
    by (auto simp: flags_after_def comms_op_of_def void_def comms_GetTotalEncoderCount_def intro!: safe_rules)
next
  case (E_Reboot i)
  then show ?thesis
    by (auto simp: flags_after_def comms_op_of_def comms_Reboot_def Let_def intro!: safe_rules)
next
  case (E_GetVoltage i)
  then show ?thesis
    by (auto simp: flags_after_def comms_op_of_def comms_GetVoltage_def void_def intro!: safe_rules)
qed (auto simp: flags_after_def comms_op_of_def void_def safe_comms_SetRPM
    safe_comms_SetAllRPM safe_comms_SetRelativePosition safe_comms_SetAllRelativePosition safe_tick
    intro!: safe_seqp safe_ret safe_GetHardwareStatus safe_GetCurrentPositions)

lemma comms_step_Inr:
  assumes "comms_inv c" "comms_step D c e = Inr c'"
  shows "comms_inv c' \<and>
    (deadmans_switch_enabled c', deadmans_switch c') = flags_after e (deadmans_switch_enabled c, deadmans_switch c)"
  using safe_Inr [OF safe_event assms(1)] assms(2) by (auto simp: comms_step_def split: sum.splits)

lemma comms_step_no_null: "comms_inv c \<Longrightarrow> comms_step D c e \<noteq> Inl Null_Pointer"
  using safe_Inl [OF safe_event] by (auto simp: comms_step_def split: sum.splits)

interpretation comms: fault_machine "comms_step D" comms_inv for D
  by unfold_locales (use comms_step_Inr in blast)

section \<open>The goals an operation sends\<close>

definition goals :: "bus \<Rightarrow> request list" where
  "goals rs = rev (filter is_goal rs)"

lemma goals_append [simp]: "goals (rs @ rs') = goals rs' @ goals rs"
  by (simp add: goals_def)

lemma goals_Nil_iff: "goals rs = [] \<longleftrightarrow> (\<forall>r \<in> set rs. \<not> is_goal r)"
  by (simp add: goals_def filter_empty_conv)

definition sends_goals :: "request list \<Rightarrow> 'a comms_op \<Rightarrow> bool" where
  "sends_goals G m \<longleftrightarrow> (\<forall>c x c'. comms_inv c \<longrightarrow> m c = Inr (x, c') \<longrightarrow>
     comms_inv c' \<and> (\<exists>rs. cbus c' = rs @ cbus c \<and> goals rs = G))"

lemma sends_goalsD: "sends_goals G m \<Longrightarrow> comms_inv c \<Longrightarrow> m c = Inr (x, c') \<Longrightarrow>
    comms_inv c' \<and> (\<exists>rs. cbus c' = rs @ cbus c \<and> goals rs = G)"
  unfolding sends_goals_def by blast

lemma sends_goals_seqp:
  assumes "sends_goals G m" "sends_goals H n"
  shows "sends_goals (G @ H) (seqp m n)"
  unfolding sends_goals_def
proof (intro allI impI)
  fix c x c' assume inv: "comms_inv c" and "seqp m n c = Inr (x, c')"
  then obtain y c1 where 1: "m c = Inr (y, c1)" and 2: "n c1 = Inr (x, c')"
    unfolding seqp_def by (elim bnd_InrE)
  obtain rs where rs: "cbus c1 = rs @ cbus c" "goals rs = G" and inv1: "comms_inv c1"
    using sendsD sends_goalsD [OF assms(1) inv 1] by blast
  obtain rs' where "cbus c' = rs' @ cbus c1" "goals rs' = H" "comms_inv c'"
    using sends_goalsD [OF assms(2) inv1 2] by blast
  with rs show "comms_inv c' \<and> (\<exists>rs. cbus c' = rs @ cbus c \<and> goals rs = G @ H)"
    by (auto intro!: exI [of _ "rs' @ rs"])
qed

lemma sends_goals_flags:
  "sends_goals [] (DeadmansSwitchEnable b)" "sends_goals [] DeadmansSwitchReset" "sends_goals [] (ret x)"
  "sends_goals [] (modify (\<lambda>c. c\<lparr>deadmans_switch := True\<rparr>))"
  by (auto simp: sends_goals_def DeadmansSwitchEnable_def DeadmansSwitchReset_def comms_inv_def goals_def)

lemma sends_goals_on:
  assumes "safe_servo m" and "\<And>s b x s' b'. servo_ok p s \<Longrightarrow> m (s, b) = Inr (x, s', b') \<Longrightarrow> \<exists>rs. b' = rs @ b \<and> goals rs = G"
  shows "sends_goals G (on p m)"
  unfolding sends_goals_def
proof (intro allI impI)
  fix c x c' assume inv: "comms_inv c" and run: "on p m c = Inr (x, c')"
  then obtain s b where m: "m (servo_at p c, cbus c) = Inr (x, s, b)" and c': "c' = (set_servo p s c)\<lparr>cbus := b\<rparr>"
    by (auto simp: on_def split: sum.splits)
  have "servo_ok p (servo_at p c)" using inv by (simp add: comms_inv_def)
  from assms(2) [OF this m] c' safe_Inr [OF safe_on [OF assms(1)] inv run]
  show "comms_inv c' \<and> (\<exists>rs. cbus c' = rs @ cbus c \<and> goals rs = G)" by simp
qed

text \<open>The velocity \<open>SetRPM\<close> sends to the motor at a place.\<close>

definition rpm_velocity :: "place \<Rightarrow> double \<Rightarrow> i32" where
  "rpm_velocity p rpm = word_of_int (trunc_int (limit_rpm (place_config p) rpm * 229 / 52))"

lemma sends_goals_SetRPM:
  "sends_goals [Write4 (place_id p) ADDR_GOAL_VELOCITY (rpm_velocity p rpm)] (on p (SetRPM D rpm))"
proof (rule sends_goals_on [OF safe_SetRPM])
  fix s b x s' b' assume ok: "servo_ok p s" and run: "SetRPM D rpm (s, b) = Inr (x, s', b')"
  from run obtain y b1 where conf: "ConfigureControlMode D kVelocityControlMode (s, b) = Inr (y, s', b1)"
    and b': "b' = Write4 (dxl_id s) ADDR_GOAL_VELOCITY (word_of_int (trunc_int (limit_rpm (config s) rpm * 229 / 52))) # b1"
    by (auto simp: SetRPM_result split: sum.splits prod.splits)
  obtain rs where "b1 = rs @ b" "\<forall>r \<in> set rs. \<not> is_goal r"
    using ConfigureControlMode_no_goal [OF conf] .
  with b' ok show "\<exists>rs. b' = rs @ b \<and> goals rs = [Write4 (place_id p) ADDR_GOAL_VELOCITY (rpm_velocity p rpm)]"
    by (intro exI [of _ "Write4 (dxl_id s) ADDR_GOAL_VELOCITY (rpm_velocity p rpm) # rs"])
      (auto simp: servo_ok_def rpm_velocity_def goals_def is_goal_def filter_empty_conv)
qed

lemma sends_goals_Configure: "sends_goals [] (on p (ConfigureControlMode D mode))"
proof (rule sends_goals_on [OF safe_ConfigureControlMode])
  fix s b x s' b' assume "ConfigureControlMode D mode (s, b) = Inr (x, s', b')"
  then show "\<exists>rs. b' = rs @ b \<and> goals rs = []"
    by (rule ConfigureControlMode_no_goal) (auto simp: goals_Nil_iff)
qed

lemma sends_goals_bulk: "\<not> is_goal r \<Longrightarrow> sends_goals [] (bulk_call D r)"
  by (auto simp: sends_goals_def bulk_call_def ask_def comms_inv_def goals_def)

lemma sends_goals_add:
  "sends_goals (case goal of None \<Rightarrow> [] | Some bytes \<Rightarrow> [Bulk_add (place_id p) a 4 bytes]) (add_goal D p a goal)"
  by (cases goal)
    (auto simp: sends_goals_def add_goal_def bulk_call_def ask_def seqp_def bnd_def comms_inv_def servo_ok_def
      GetId_def goals_def is_goal_def)

lemma sends_goals_armed: "sends_goals [] (seqp (DeadmansSwitchEnable True) DeadmansSwitchReset)"
  using sends_goals_seqp [OF sends_goals_flags(1) sends_goals_flags(2), of True] by simp

definition stop_goals :: "request list" where
  "stop_goals = map (\<lambda>i. Write4 i ADDR_GOAL_VELOCITY 0) [kLeftFrontId, kLeftRearId, kRightFrontId, kRightRearId]"

lemma rpm_velocity_zero: "rpm_velocity p 0 = 0"
  by (simp add: rpm_velocity_def limit_rpm_def Let_def)

lemma sends_goals_stop: "sends_goals stop_goals (stop_all D)"
proof -
  have "sends_goals ([Write4 kLeftFrontId ADDR_GOAL_VELOCITY 0] @ [Write4 kLeftRearId ADDR_GOAL_VELOCITY 0] @
      [Write4 kRightFrontId ADDR_GOAL_VELOCITY 0] @ [Write4 kRightRearId ADDR_GOAL_VELOCITY 0]) (stop_all D)"
    unfolding stop_all_def
    using sends_goals_SetRPM [of Front_Left 0 D] sends_goals_SetRPM [of Rear_Left 0 D]
      sends_goals_SetRPM [of Front_Right 0 D] sends_goals_SetRPM [of Rear_Right 0 D]
    by (intro sends_goals_seqp) (simp_all add: rpm_velocity_zero)
  then show ?thesis by (simp add: stop_goals_def)
qed

lemma sends_goals_SetRPM_right:
  "sends_goals [Write4 kRightFrontId ADDR_GOAL_VELOCITY (rpm_velocity Front_Right (- rpm)),
     Write4 kRightRearId ADDR_GOAL_VELOCITY (rpm_velocity Front_Right (- rpm))] (comms_SetRPM D kMotorRight rpm)"
proof -
  have rear: "rpm_velocity Rear_Right = rpm_velocity Front_Right" by (simp add: rpm_velocity_def fun_eq_iff)
  let ?w = "\<lambda>p. [Write4 (place_id p) ADDR_GOAL_VELOCITY (rpm_velocity p (- rpm))]"
  have two: "sends_goals (?w Front_Right @ ?w Rear_Right)
      (seqp (on Front_Right (SetRPM D (- rpm))) (on Rear_Right (SetRPM D (- rpm))))"
    by (rule sends_goals_seqp; rule sends_goals_SetRPM)
  have op: "comms_SetRPM D kMotorRight rpm = seqp (ret ()) (seqp (seqp (on Front_Right (SetRPM D (- rpm)))
      (on Rear_Right (SetRPM D (- rpm)))) (seqp (DeadmansSwitchEnable True) DeadmansSwitchReset))"
    by (simp add: comms_SetRPM_def)
  have "sends_goals ([] @ (?w Front_Right @ ?w Rear_Right) @ []) (comms_SetRPM D kMotorRight rpm)"
    unfolding op by (intro sends_goals_seqp [OF sends_goals_flags(3)] sends_goals_seqp [OF two] sends_goals_armed)
  then show ?thesis by (simp add: rear)
qed

definition bulk_goal :: "place \<Rightarrow> u16 \<Rightarrow> u8 list option \<Rightarrow> request list" where
  "bulk_goal p a goal = (case goal of None \<Rightarrow> [] | Some bytes \<Rightarrow> [Bulk_add (place_id p) a 4 bytes])"

lemma sends_goals_configure_all: "sends_goals [] (configure_all D mode)"
proof -
  have "sends_goals ([] @ [] @ [] @ []) (configure_all D mode)"
    unfolding configure_all_def by (intro sends_goals_seqp sends_goals_Configure)
  then show ?thesis by simp
qed

lemma sends_goals_SetAllRPM:
  "sends_goals (bulk_goal Front_Left ADDR_GOAL_VELOCITY (ConvertRPMToGoalVelocity D a) @
     bulk_goal Front_Right ADDR_GOAL_VELOCITY (ConvertRPMToGoalVelocity D (- b)) @
     bulk_goal Rear_Left ADDR_GOAL_VELOCITY (ConvertRPMToGoalVelocity D c) @
     bulk_goal Rear_Right ADDR_GOAL_VELOCITY (ConvertRPMToGoalVelocity D (- d))) (comms_SetAllRPM D a b c d)"
proof -
  have add: "sends_goals (bulk_goal p x g) (add_goal D p x g)" for p x g
    unfolding bulk_goal_def by (rule sends_goals_add)
  have bulk: "sends_goals [] (bulk_call D Bulk_tx)" "sends_goals [] (bulk_call D Bulk_clear)"
    by (rule sends_goals_bulk, simp add: is_goal_def)+
  have "sends_goals ([] @ bulk_goal Front_Left ADDR_GOAL_VELOCITY (ConvertRPMToGoalVelocity D a) @
     bulk_goal Front_Right ADDR_GOAL_VELOCITY (ConvertRPMToGoalVelocity D (- b)) @
     bulk_goal Rear_Left ADDR_GOAL_VELOCITY (ConvertRPMToGoalVelocity D c) @
     bulk_goal Rear_Right ADDR_GOAL_VELOCITY (ConvertRPMToGoalVelocity D (- d)) @ [] @ [] @ []) (comms_SetAllRPM D a b c d)"
    unfolding comms_SetAllRPM_def Let_def
    by (rule sends_goals_seqp [OF sends_goals_configure_all sends_goals_seqp [OF add sends_goals_seqp [OF add
        sends_goals_seqp [OF add sends_goals_seqp [OF add sends_goals_seqp [OF bulk(1)
        sends_goals_seqp [OF bulk(2) sends_goals_armed]]]]]]])
  then show ?thesis by simp
qed

lemma right_velocity_positive:
  assumes "1 \<le> rpm" "rpm \<le> 52"
  shows "0 < sint (rpm_velocity Front_Right (- rpm))"
proof -
  obtain v :: i32 where v: "sint v = trunc_int (limit_rpm kConfigMotorClockwise (- rpm) * 229 / 52)"
    by (rule velocity_cast [of kConfigMotorClockwise "- rpm"])
  have "limit_rpm kConfigMotorClockwise (- rpm) = rpm"
    using assms by (auto simp: limit_rpm_def Let_def)
  moreover have "4 \<le> trunc_int (rpm * 229 / 52)"
    by (rule of_int_le_trunc_int) (use assms in simp)
  moreover have "rpm_velocity Front_Right (- rpm) = v"
    unfolding rpm_velocity_def place_config.simps v [symmetric] by simp
  ultimately show ?thesis using v by simp
qed

lemma word_of_int_uint_narrow: "word_of_int (uint (word_of_int k :: u64)) = (word_of_int k :: u32)"
  by (rule bit_word_eqI) (simp add: bit_word_of_int_iff bit_uint_iff)

text \<open>The four bytes of a bulk velocity are the truncated number of ticks; there is no limit.\<close>

lemma ConvertRPM_word:
  assumes "macros_documented D" "\<bar>rpm\<bar> \<le> 1000000"
  shows "\<exists>l. ConvertRPMToGoalVelocity D rpm = Some l \<and> sint (word_le l :: i32) = trunc_int (rpm * (1 / 0.229))"
proof -
  let ?x = "rpm * (1 / 0.229)"
  have "-5000000 \<le> trunc_int ?x" "trunc_int ?x \<le> 5000000"
    using of_int_le_trunc_int [of "-5000000" ?x] trunc_int_le_of_int [of ?x 5000000] assms(2) by (simp_all add: abs_le_iff)
  then have fits: "fits_signed 64 (trunc_int ?x)" "fits_signed 32 (trunc_int ?x)" by (simp_all add: fits_signed_def)
  then have "ConvertRPMToGoalVelocity D rpm = Some (dxl_bytes D (uint (word_of_int (trunc_int ?x) :: u64)))"
    by (simp add: ConvertRPMToGoalVelocity_def real_to_i64_def)
  moreover have "word_le (dxl_bytes D (uint (word_of_int (trunc_int ?x) :: u64))) = (word_of_int (trunc_int ?x) :: i32)"
    unfolding dxl_bytes_roundtrip [OF assms(1)] by (rule word_of_int_uint_narrow)
  moreover have "sint (word_of_int (trunc_int ?x) :: i32) = trunc_int ?x"
    by (rule sint_word_of_int_fits) (use fits in simp)
  ultimately show ?thesis by simp
qed

section \<open>The thread and the operations, interleaved\<close>

text \<open>
  Where the thread is in its round: asleep, about to read \<open>deadmans_switch_enabled_\<close>, about to
  read \<open>deadmans_switch_\<close>, waiting for the mutex to stop the motors, about to set the switch. An
  operation of a node runs between any two of these steps.
\<close>

datatype dm_pc = Asleep | Read_enabled | Read_switch | Wait_mutex | Set_switch

inductive dm_step :: "sdk \<Rightarrow> dm_pc \<times> DynamixelComms \<Rightarrow> dm_pc \<times> DynamixelComms \<Rightarrow> bool" for D where
  wake: "dm_step D (Asleep, c) (Read_enabled, c)"
| enabled: "dm_step D (Read_enabled, c) (if deadmans_switch_enabled c then Read_switch else Asleep, c)"
| switched: "dm_step D (Read_switch, c) (if deadmans_switch c then Wait_mutex else Set_switch, c)"
| stop: "stop_all D c = Inr (u, c') \<Longrightarrow> dm_step D (Wait_mutex, c) (Set_switch, c')"
| set_switch: "dm_step D (Set_switch, c) (Asleep, c\<lparr>deadmans_switch := True\<rparr>)"
| operation: "e \<noteq> Tick \<Longrightarrow> comms_step D c e = Inr c' \<Longrightarrow> dm_step D (pc, c) (pc, c')"

inductive_cases dm_stepE: "dm_step D s s'"

lemma comms_inv_switch: "comms_inv (c\<lparr>deadmans_switch := b\<rparr>) = comms_inv c"
  by (simp add: comms_inv_def)

lemma dm_step_inv: "dm_step D s s' \<Longrightarrow> comms_inv (snd s) \<Longrightarrow> comms_inv (snd s')"
  by (induction rule: dm_step.induct)
    (auto simp: comms_inv_switch dest: safe_Inr [OF safe_stop_all] comms_step_Inr)

text \<open>An undisturbed round of the thread is the atomic step of the model.\<close>

lemma dm_round: "deadmans_tick D c = Inr (u, c') \<Longrightarrow> (dm_step D)\<^sup>*\<^sup>* (Asleep, c) (Asleep, c')"
proof -
  assume tick: "deadmans_tick D c = Inr (u, c')"
  note steps = converse_rtranclp_into_rtranclp [where r = "dm_step D"]
  have 1: "(dm_step D)\<^sup>*\<^sup>* (Asleep, c) (if deadmans_switch_enabled c then Read_switch else Asleep, c)"
    by (rule steps, rule wake, rule steps, rule enabled, rule rtranclp.rtrancl_refl)
  show ?thesis
  proof (cases "deadmans_switch_enabled c")
    case False
    with 1 tick show ?thesis by (simp add: deadmans_tick_eq)
  next
    case True
    show ?thesis
    proof (cases "deadmans_switch c")
      case False
      have "(dm_step D)\<^sup>*\<^sup>* (Read_switch, c) (Asleep, c\<lparr>deadmans_switch := True\<rparr>)"
        by (rule steps, rule switched, simp add: False, rule steps, rule set_switch, rule rtranclp.rtrancl_refl)
      with 1 True False tick show ?thesis by (simp add: deadmans_tick_eq)
    next
      case on: True
      with True tick obtain v c1 where stopped: "stop_all D c = Inr (v, c1)" "c' = c1\<lparr>deadmans_switch := True\<rparr>"
        by (auto simp: deadmans_tick_eq seqp_def elim!: bnd_InrE)
      have "(dm_step D)\<^sup>*\<^sup>* (Read_switch, c) (Asleep, c')"
        unfolding stopped(2)
        by (rule steps, rule switched, simp add: on, rule steps, rule stop, rule stopped(1),
          rule steps, rule set_switch, rule rtranclp.rtrancl_refl)
      with 1 True show ?thesis by (simp add: rtranclp_trans)
    qed
  qed
qed

section \<open>After start-up\<close>

lemma Init_servo_ok:
  assumes "Init D number (place_id p) (place_config p) (s, b) = Inr (x, s', b')" "flag (answer D (Ros_ok # b))"
  shows "servo_ok p s'"
proof -
  let ?s = "s\<lparr>model_number := number, dxl_id := place_id p, config := place_config p, handlers_set := True\<rparr>"
  let ?m = "seqp (Reboot D) (seqp (SetOperatingMode D (if place_config p = kConfigServo
      then kExtendedPositionControlMode else kVelocityControlMode)) (seqp (EnableTorque D True) (ret ())))"
  have "safe_servo ?m"
    unfolding EnableTorque_def by (intro safe_rules)
  moreover have "?m (?s, Ros_ok # b) = Inr (x, s', b')"
    using assms by (simp add: Init_def ask_def)
  ultimately have "same_servo ?s s'" using safe_servo_Inr [of ?m ?s] by fastforce
  then show ?thesis by (simp add: same_servo_def servo_ok_def)
qed

definition ready_places :: "DynamixelComms \<Rightarrow> place set" where
  "ready_places c = {p. servo_ok p (servo_at p c)}"

lemma on_Init:
  assumes "on p (Init D number (place_id p) (place_config p)) c = Inr (x, c')" "\<forall>h. flag (answer D (Ros_ok # h))"
  shows "insert p (ready_places c) \<subseteq> ready_places c' \<and> bulk_set c' = bulk_set c"
  using assms Init_servo_ok [of D number p "servo_at p c" "cbus c"]
  by (auto simp: on_def ready_places_def split: sum.splits)

lemma init_servos_inv:
  assumes "init_servos D number c = Inr (x, c')" "bulk_set c" "\<forall>h. flag (answer D (Ros_ok # h))"
  shows "comms_inv c'"
proof -
  from assms(1) obtain x1 c1 x2 c2 x3 c3 x4 c4 where runs:
    "on Turret (Init D number (place_id Turret) (place_config Turret)) c = Inr (x1, c1)"
    "on Front_Left (Init D number (place_id Front_Left) (place_config Front_Left)) c1 = Inr (x2, c2)"
    "on Rear_Left (Init D number (place_id Rear_Left) (place_config Rear_Left)) c2 = Inr (x3, c3)"
    "on Front_Right (Init D number (place_id Front_Right) (place_config Front_Right)) c3 = Inr (x4, c4)"
    "on Rear_Right (Init D number (place_id Rear_Right) (place_config Rear_Right)) c4 = Inr (x, c')"
    unfolding init_servos_def seqp_def place_id.simps place_config.simps by (elim bnd_InrE)
  note steps = runs [THEN on_Init, OF assms(3)]
  note sub = steps [THEN conjunct1]
  have "{Turret} \<subseteq> ready_places c1" using sub(1) by simp
  then have "{Front_Left, Turret} \<subseteq> ready_places c2" using sub(2) by blast
  then have "{Rear_Left, Front_Left, Turret} \<subseteq> ready_places c3" using sub(3) by blast
  then have "{Front_Right, Rear_Left, Front_Left, Turret} \<subseteq> ready_places c4" using sub(4) by blast
  then have "{Rear_Right, Front_Right, Rear_Left, Front_Left, Turret} \<subseteq> ready_places c'" using sub(5) by blast
  then have "p \<in> ready_places c'" for p by (cases p) auto
  with steps assms(2) show ?thesis by (simp add: comms_inv_def ready_places_def)
qed

lemma comms_Init_inv:
  assumes "comms_Init D device model c = Inr ((), c0)"
    and "flag (answer D (Set_baud 1000000 # Open_port device # cbus c))" "\<forall>h. flag (answer D (Ros_ok # h))"
  shows "comms_inv c0"
proof -
  from assms(1,2) obtain number where "init_servos D number (c\<lparr>cbus := Set_baud 1000000 # Open_port device # cbus c,
      connected := True, bulk_set := True\<rparr>) = Inr ((), c0)"
    by (auto simp: comms_Init_def port_call_def ask_def bnd_def seqp_def split: if_splits option.splits)
  then show ?thesis using init_servos_inv assms(3) by force
qed

lemma uninitialised_servo:
  assumes "\<not> handlers_set s"
  shows "GetVoltage D (s, b) = Inl Null_Pointer" "GetStatus D (s, b) = Inl Null_Pointer"
    "GetTotalEncoderCount D (s, b) = Inl Null_Pointer" "SetRPM D rpm (s, b) = Inl Null_Pointer"
proof -
  have call: "packet_call D r (s, b) = Inl Null_Pointer" for r using assms by (simp add: packet_call_def)
  then have read: "read_checked D r (s, b) = Inl Null_Pointer" for r by (simp add: read_checked_def)
  then show "GetVoltage D (s, b) = Inl Null_Pointer" "GetTotalEncoderCount D (s, b) = Inl Null_Pointer"
    "SetRPM D rpm (s, b) = Inl Null_Pointer"
    by (simp_all add: GetVoltage_def GetInputVoltage_def GetTotalEncoderCount_def UpdateEncoderCount_def
        GetPresentPosition_def SetRPM_def ConfigureControlMode_def GetOperatingMode_def)
  from read have "GetHardwareErrorStatus D (s, b) = Inl Null_Pointer" by (simp add: GetHardwareErrorStatus_def)
  then show "GetStatus D (s, b) = Inl Null_Pointer" by (simp add: GetStatus_def)
qed

text \<open>The servo a request is addressed to.\<close>

definition request_id :: "request \<Rightarrow> u8 option" where
  "request_id r = (case r of Read1 i _ \<Rightarrow> Some i | Read2 i _ \<Rightarrow> Some i | Read4 i _ \<Rightarrow> Some i
     | Write1 i _ _ \<Rightarrow> Some i | Write4 i _ _ \<Rightarrow> Some i | Reboot_packet i \<Rightarrow> Some i | _ \<Rightarrow> None)"

lemma emits_GetStatus: "emits (\<lambda>i r. request_id r = Some i) (GetStatus D)"
proof -
  note defs = GetStatus_def GetHardwareErrorStatus_def GetTemperature_def GetInputVoltage_def
  show ?thesis unfolding defs by (intro emits_rules) (auto intro!: emits_rules simp: request_id_def)
qed

lemma GetStatus_id: "GetStatus D (s, b) = Inr (d, s', b') \<Longrightarrow> st_dxl_id d = dxl_id s"
  by (auto simp: GetStatus_def elim!: bnd_InrE)

lemma status_case_turret:
  assumes "status_case D i result c = Inr (result', c')" "comms_inv c" "i < 5"
  shows "comms_inv c' \<and> (\<exists>d rs. result' = result @ [d] \<and> ss_instance d = kServoTurret \<and>
    cbus c' = rs @ cbus c \<and> (\<forall>r \<in> set rs. request_id r = Some kTurretId))"
proof -
  have "status_case D i result = bnd (on Turret (GetStatus D)) (\<lambda>d. ret (result @ [DynamixelToServoStatus d]))"
    using assms(3) by (auto simp: status_case_def)
  with assms(1) obtain d where run: "on Turret (GetStatus D) c = Inr (d, c')" and result': "result' = result @ [DynamixelToServoStatus d]"
    by (auto elim!: bnd_InrE)
  then obtain s b where status: "GetStatus D (servo_turret c, cbus c) = Inr (d, s, b)" and c': "c' = (set_servo Turret s c)\<lparr>cbus := b\<rparr>"
    by (auto simp: on_def split: sum.splits)
  have id: "dxl_id (servo_turret c) = kTurretId"
    using assms(2) unfolding comms_inv_def servo_ok_def by (metis place_id.simps(5) servo_at.simps(5))
  obtain rs where "b = rs @ cbus c" "\<forall>r \<in> set rs. request_id r = Some kTurretId"
    using emitsD [OF emits_GetStatus status] id by metis
  moreover have "comms_inv c'" using safe_Inr [OF safe_on [OF safe_GetStatus] assms(2) run] by blast
  moreover have "ss_instance (DynamixelToServoStatus d) = kServoTurret"
    using GetStatus_id [OF status] id by (simp add: DynamixelToServoStatus_def GetServoInstance_def)
  ultimately show ?thesis using result' c' by auto
qed

lemma status_loop_turret:
  assumes "status_loop D is result c = Inr (result', c')" "comms_inv c" "\<forall>i \<in> set is. i < 5"
  shows "\<exists>ds rs. result' = result @ ds \<and> length ds = length is \<and> (\<forall>d \<in> set ds. ss_instance d = kServoTurret) \<and>
    cbus c' = rs @ cbus c \<and> (\<forall>r \<in> set rs. request_id r = Some kTurretId)"
  using assms
proof (induction "is" arbitrary: result c)
  case (Cons i "is")
  then obtain r1 c1 where 1: "status_case D i result c = Inr (r1, c1)" and 2: "status_loop D is r1 c1 = Inr (result', c')"
    by (auto elim!: bnd_InrE)
  obtain d rs where d: "r1 = result @ [d]" "ss_instance d = kServoTurret" "cbus c1 = rs @ cbus c"
      "\<forall>r \<in> set rs. request_id r = Some kTurretId" "comms_inv c1"
    using status_case_turret [OF 1 Cons.prems(2)] Cons.prems(3) by auto
  obtain ds rs' where ds: "result' = r1 @ ds" "length ds = length is" "\<forall>d \<in> set ds. ss_instance d = kServoTurret"
      "cbus c' = rs' @ cbus c1" "\<forall>r \<in> set rs'. request_id r = Some kTurretId"
    using Cons.IH [OF 2 d(5)] Cons.prems(3) by auto
  from d ds show ?case
    by (intro exI [of _ "d # ds"] exI [of _ "rs' @ rs"]) auto
qed simp

section \<open>Properties\<close>

text \<open>C1: The deadman's switch works: when it is enabled at one round of its thread and no motion
  command comes before the next round, whatever else is called, that round sends velocity 0 to each
  of the four drive motors and no other goal. The robot stops within two periods of 500 ms.\<close>

theorem deadmans_switch_stops:
  assumes "comms_inv c" "deadmans_switch_enabled c" "comms_step D c Tick = Inr c1"
    and "run_res (comms_step D) c1 es = Inr c2" "\<forall>e \<in> set es. flags_after e = id \<or> e = Tick"
    and "comms_step D c2 Tick = Inr c3"
  shows "\<exists>rs. cbus c3 = rs @ cbus c2 \<and> goals rs = stop_goals"
proof -
  have quiet: "comms_inv c' \<and> deadmans_switch_enabled c' \<and> deadmans_switch c'"
    if "run_res (comms_step D) c0 es = Inr c'" "comms_inv c0" "deadmans_switch_enabled c0" "deadmans_switch c0"
      "\<forall>e \<in> set es. flags_after e = id \<or> e = Tick" for c0 c' es
    using that
  proof (induction es arbitrary: c0)
    case (Cons e es)
    then obtain c1 where step: "comms_step D c0 e = Inr c1" "run_res (comms_step D) c1 es = Inr c'"
      by (auto split: sum.splits)
    have flags: "comms_inv c1 \<and> (deadmans_switch_enabled c1, deadmans_switch c1) = flags_after e (True, True)"
      using comms_step_Inr [OF Cons.prems(2) step(1)] Cons.prems(3,4) by simp
    have "flags_after e (True, True) = (True, True)"
      using Cons.prems(5) by (auto simp: flags_after_def)
    with flags Cons.IH [OF step(2)] Cons.prems(5) show ?case by simp
  qed simp
  have "comms_inv c1 \<and> deadmans_switch_enabled c1 \<and> deadmans_switch c1"
    using comms_step_Inr [OF assms(1,3)] assms(2) by (simp add: flags_after_def)
  with quiet [OF assms(4)] assms(5) have c2: "comms_inv c2" "deadmans_switch_enabled c2" "deadmans_switch c2" by auto
  from assms(6) c2 obtain u c' where "stop_all D c2 = Inr (u, c')" "c3 = c'\<lparr>deadmans_switch := True\<rparr>"
    by (auto simp: comms_step_def comms_op_of_def deadmans_tick_eq seqp_def split: sum.splits elim!: bnd_InrE)
  with sends_goalsD [OF sends_goals_stop c2(1)] show ?thesis by auto
qed

text \<open>The thread acts on what it has read. When it has seen the switch set and waits for the
  mutex, a motion command that is carried out meanwhile is undone: there is an interleaving in which
  the command runs, resetting or disabling the switch, and the thread still sends velocity 0 to all
  four motors as the last goals.\<close>

theorem stale_stop_overrides_command:
  assumes "comms_inv c" "deadmans_switch_enabled c" "deadmans_switch c"
    and "e \<noteq> Tick" "comms_step D c e = Inr c1" "stop_all D c1 = Inr ((), c2)"
  shows "(dm_step D)\<^sup>*\<^sup>* (Asleep, c) (Asleep, c2\<lparr>deadmans_switch := True\<rparr>) \<and>
    (\<exists>rs. cbus c2 = rs @ cbus c1 \<and> goals rs = stop_goals)"
proof
  note steps = converse_rtranclp_into_rtranclp [where r = "dm_step D"]
  show "(dm_step D)\<^sup>*\<^sup>* (Asleep, c) (Asleep, c2\<lparr>deadmans_switch := True\<rparr>)"
    by (rule steps, rule wake, rule steps, rule enabled, simp add: assms(2),
      rule steps, rule switched, simp add: assms(3), rule steps, rule operation [OF assms(4,5)],
      rule steps, rule stop [OF assms(6)], rule steps, rule set_switch, rule rtranclp.rtrancl_refl)
  have "comms_inv c1" using comms_step_Inr [OF assms(1,5)] by blast
  from sends_goalsD [OF sends_goals_stop this assms(6)]
  show "\<exists>rs. cbus c2 = rs @ cbus c1 \<and> goals rs = stop_goals" by blast
qed

text \<open>The two ways to set a speed disagree about the right side. For a forward speed between 1 and
  52 RPM, \<open>SetRPM\<close> sends both right motors a positive velocity (the sign is inverted by the
  communications class and again by the servo), and \<open>SetAllRPM\<close> sends them a negative one; the left
  motors get a positive one from both.\<close>

theorem right_motors_turn_opposite_ways:
  assumes "macros_documented D" "comms_inv c" "1 \<le> rpm" "rpm \<le> 52"
    and "comms_SetRPM D kMotorRight rpm c = Inr ((), c1)"
    and "comms_SetAllRPM D rpm rpm rpm rpm c = Inr ((), c2)"
  shows "(\<exists>rs v. cbus c1 = rs @ cbus c \<and> 0 < sint v \<and>
      goals rs = [Write4 kRightFrontId ADDR_GOAL_VELOCITY v, Write4 kRightRearId ADDR_GOAL_VELOCITY v]) \<and>
    (\<exists>rs l r. cbus c2 = rs @ cbus c \<and> 0 < sint (word_le l :: i32) \<and> sint (word_le r :: i32) < 0 \<and>
      goals rs = [Bulk_add kLeftFrontId ADDR_GOAL_VELOCITY 4 l, Bulk_add kRightFrontId ADDR_GOAL_VELOCITY 4 r,
        Bulk_add kLeftRearId ADDR_GOAL_VELOCITY 4 l, Bulk_add kRightRearId ADDR_GOAL_VELOCITY 4 r])"
proof
  show "\<exists>rs v. cbus c1 = rs @ cbus c \<and> 0 < sint v \<and>
      goals rs = [Write4 kRightFrontId ADDR_GOAL_VELOCITY v, Write4 kRightRearId ADDR_GOAL_VELOCITY v]"
    using sends_goalsD [OF sends_goals_SetRPM_right assms(2,5)] right_velocity_positive [OF assms(3,4)] by blast
  obtain l where l: "ConvertRPMToGoalVelocity D rpm = Some l" "sint (word_le l :: i32) = trunc_int (rpm * (1 / 0.229))"
    using ConvertRPM_word [of D rpm] assms(1,3,4) by auto
  obtain r where r: "ConvertRPMToGoalVelocity D (- rpm) = Some r" "sint (word_le r :: i32) = trunc_int (- rpm * (1 / 0.229))"
    using ConvertRPM_word [of D "- rpm"] assms(1,3,4) by auto
  have "4 \<le> trunc_int (rpm * (1 / 0.229))"
    by (rule of_int_le_trunc_int) (use assms(3) in simp)
  then have "0 < sint (word_le l :: i32)" "sint (word_le r :: i32) < 0" using l(2) r(2) by simp_all
  moreover have "\<exists>rs. cbus c2 = rs @ cbus c \<and>
      goals rs = [Bulk_add kLeftFrontId ADDR_GOAL_VELOCITY 4 l, Bulk_add kRightFrontId ADDR_GOAL_VELOCITY 4 r,
        Bulk_add kLeftRearId ADDR_GOAL_VELOCITY 4 l, Bulk_add kRightRearId ADDR_GOAL_VELOCITY 4 r]"
    using sends_goalsD [OF sends_goals_SetAllRPM assms(2,6)] l(1) r(1) by (auto simp: bulk_goal_def)
  ultimately show "\<exists>rs l r. cbus c2 = rs @ cbus c \<and> 0 < sint (word_le l :: i32) \<and> sint (word_le r :: i32) < 0 \<and>
      goals rs = [Bulk_add kLeftFrontId ADDR_GOAL_VELOCITY 4 l, Bulk_add kRightFrontId ADDR_GOAL_VELOCITY 4 r,
        Bulk_add kLeftRearId ADDR_GOAL_VELOCITY 4 l, Bulk_add kRightRearId ADDR_GOAL_VELOCITY 4 r]" by blast
qed

text \<open>C35: After a start-up that reached the servos with ROS up, no sequence of calls and rounds of the
  thread ever goes through a null pointer, and every servo keeps its id and orientation.\<close>

theorem started_comms_no_null_pointer:
  assumes "comms_Init D device model c = Inr ((), c0)"
    and "flag (answer D (Set_baud 1000000 # Open_port device # cbus c))" "\<forall>h. flag (answer D (Ros_ok # h))"
  shows "run_res (comms_step D) c0 es \<noteq> Inl Null_Pointer \<and>
    (\<forall>c'. run_res (comms_step D) c0 es = Inr c' \<longrightarrow> (\<forall>p. servo_ok p (servo_at p c')))"
proof -
  have inv: "comms_inv c0" by (rule comms_Init_inv [OF assms])
  have "comms_inv c0 \<Longrightarrow> run_res (comms_step D) c0 es \<noteq> Inl Null_Pointer" for c0
  proof (induction es arbitrary: c0)
    case (Cons e es)
    then show ?case using comms_step_no_null [of c0 D e] comms_step_Inr [of c0 D e] by (auto split: sum.splits)
  qed simp
  with inv comms.run_res_inv [OF inv, of D es] show ?thesis by (auto simp: comms_inv_def)
qed

text \<open>A baud rate that cannot be set is only logged. \<open>Init\<close> returns, not connected, the nodes are
  started all the same, and their first call of the servos goes through a null pointer.\<close>

theorem baud_failure_then_null_pointer:
  assumes "new_DynamixelComms False True junk switch enabled b = Inr c"
    and "flag (answer D (Open_port device # b))" "\<not> flag (answer D (Set_baud 1000000 # Open_port device # b))"
  shows "\<exists>c'. comms_Init D device model c = Inr ((), c') \<and> \<not> Connected c' \<and>
    comms_step D c' (E_GetVoltage i) = Inl Null_Pointer \<and> comms_step D c' E_GetHardwareStatus = Inl Null_Pointer \<and>
    comms_step D c' (E_GetTotalEncoderCount m) = Inl Null_Pointer \<and> comms_step D c' (E_SetRPM m rpm) = Inl Null_Pointer"
proof -
  let ?c = "c\<lparr>cbus := Set_baud 1000000 # Open_port device # b\<rparr>"
  have c: "cbus c = b" "\<not> connected c" "\<not> handlers_set (servo_at p c)" for p
    using assms(1) by (cases p; auto simp: new_DynamixelComms_def new_DynamixelServo_def)+
  note unset = c(3) [of Front_Left, simplified] c(3) [of Front_Right, simplified] c(3) [of Turret, simplified]
  have "comms_Init D device model c = Inr ((), ?c)"
    using assms(2,3) c by (simp add: comms_Init_def port_call_def ask_def bnd_def)
  moreover have "comms_step D ?c (E_GetVoltage i) = Inl Null_Pointer"
    "comms_step D ?c E_GetHardwareStatus = Inl Null_Pointer"
    "comms_step D ?c (E_GetTotalEncoderCount m) = Inl Null_Pointer"
    "comms_step D ?c (E_SetRPM m rpm) = Inl Null_Pointer"
    by (cases m; simp add: unset comms_step_def comms_op_of_def void_def comms_GetVoltage_def
        comms_GetHardwareStatus_def status_case_def comms_GetTotalEncoderCount_def comms_SetRPM_def
        on_def seqp_def uninitialised_servo)+
  ultimately show ?thesis using c by (intro exI [of _ ?c]) (simp add: Connected_def)
qed

text \<open>The hardware status is the turret's, five times: all five entries carry the instance of the
  turret and every request went to its id. The drive motors are never asked.\<close>

theorem GetHardwareStatus_turret_only:
  assumes "comms_inv c" "comms_GetHardwareStatus D c = Inr (status, c')"
  shows "length status = 5 \<and> (\<forall>d \<in> set status. ss_instance d = kServoTurret) \<and>
    (\<exists>rs. cbus c' = rs @ cbus c \<and> (\<forall>r \<in> set rs. request_id r = Some kTurretId))"
  using status_loop_turret [OF assms(2) [unfolded comms_GetHardwareStatus_def] assms(1)] by auto

section \<open>Witnesses\<close>

definition sample_motor :: "place \<Rightarrow> DynamixelServo" where
  "sample_motor p = \<lparr>handlers_set = True, model_number = 30, dxl_id = place_id p, config = place_config p,
     total_encoder_count = 0, last_encoder_count = 0\<rparr>"

text \<open>All motors in velocity mode.\<close>

definition sample_comms :: DynamixelComms where
  "sample_comms = \<lparr>bulk_set = True, motor_front_left = sample_motor Front_Left,
     motor_front_right = sample_motor Front_Right, motor_rear_left = sample_motor Rear_Left,
     motor_rear_right = sample_motor Rear_Right, servo_turret = sample_motor Turret,
     deadmans_switch = True, deadmans_switch_enabled = True, connected = True,
     cbus = [Write1 2 ADDR_OPERATING_MODE 1, Write1 3 ADDR_OPERATING_MODE 1, Write1 1 ADDR_OPERATING_MODE 1,
       Write1 4 ADDR_OPERATING_MODE 1]\<rparr>"

abbreviation good_sdk :: sdk where
  "good_sdk \<equiv> sample_sdk (\<lambda>_. False)"

lemma sample_comms_inv: "comms_inv sample_comms"
proof -
  have "servo_at p sample_comms = sample_motor p" for p by (cases p) (simp_all add: sample_comms_def)
  then show ?thesis by (simp add: comms_inv_def servo_ok_def sample_motor_def sample_comms_def)
qed

text \<open>A motor that reports velocity mode only gets the velocity.\<close>

lemma sample_SetRPM:
  "handlers_set s \<Longrightarrow> register_value (dxl_id s) ADDR_OPERATING_MODE b = 1 \<Longrightarrow>
   SetRPM good_sdk rpm (s, b) = Inr ((), s, Write4 (dxl_id s) ADDR_GOAL_VELOCITY
     (word_of_int (trunc_int (limit_rpm (config s) rpm * 229 / 52))) # Read1 (dxl_id s) ADDR_OPERATING_MODE # b)"
  by (simp add: SetRPM_result ConfigureControlMode_def GetOperatingMode_def read_checked_def bnd_def packet_call_def
      ask_def sample_sdk_def sample_answer_def CommsCheck_def mode_of_register_def)

lemmas sample_comms_simps = sample_comms_def sample_motor_def comms_step_def comms_op_of_def deadmans_tick_eq
  stop_all_def on_def seqp_def bnd_def sample_SetRPM

lemma sample_stop: "\<exists>c'. stop_all good_sdk sample_comms = Inr ((), c')"
  by (simp add: sample_comms_simps)

theorem deadmans_switch_stops_witness:
  "\<exists>c3. comms_step good_sdk (sample_comms\<lparr>deadmans_switch := True\<rparr>) Tick = Inr c3 \<and>
     (\<exists>rs. cbus c3 = rs @ cbus sample_comms \<and> goals rs = stop_goals)"
proof -
  have inv: "comms_inv (sample_comms\<lparr>deadmans_switch := False\<rparr>)"
    using sample_comms_inv by (simp add: comms_inv_switch)
  have tick: "comms_step good_sdk (sample_comms\<lparr>deadmans_switch := False\<rparr>) Tick = Inr (sample_comms\<lparr>deadmans_switch := True\<rparr>)"
    by (simp add: sample_comms_simps)
  obtain c3 where c3: "comms_step good_sdk (sample_comms\<lparr>deadmans_switch := True\<rparr>) Tick = Inr c3"
    by (simp add: sample_comms_simps)
  from deadmans_switch_stops [OF inv _ tick _ _ c3, of "[]"] c3 show ?thesis
    by (simp add: sample_comms_def)
qed

theorem stale_stop_overrides_command_witness:
  "\<exists>c1 c2. comms_step good_sdk sample_comms (E_SetRPM kMotorLeft 20) = Inr c1 \<and>
     (dm_step good_sdk)\<^sup>*\<^sup>* (Asleep, sample_comms) (Asleep, c2\<lparr>deadmans_switch := True\<rparr>) \<and>
     (\<exists>rs. cbus c2 = rs @ cbus c1 \<and> goals rs = stop_goals)"
proof -
  have "\<exists>c1 c2. comms_step good_sdk sample_comms (E_SetRPM kMotorLeft 20) = Inr c1 \<and> stop_all good_sdk c1 = Inr ((), c2)"
    by (simp add: sample_comms_simps comms_SetRPM_def DeadmansSwitchEnable_def DeadmansSwitchReset_def)
  then obtain c1 c2 where run: "comms_step good_sdk sample_comms (E_SetRPM kMotorLeft 20) = Inr c1"
    "stop_all good_sdk c1 = Inr ((), c2)" by blast
  have "deadmans_switch_enabled sample_comms" "deadmans_switch sample_comms" by (simp_all add: sample_comms_def)
  from stale_stop_overrides_command [OF sample_comms_inv this _ run] run(1) show ?thesis by blast
qed

lemma sample_macros: "macros_documented good_sdk"
  by (simp add: macros_documented_def sample_sdk_def)

lemma sample_configure:
  "handlers_set s \<Longrightarrow> register_value (dxl_id s) ADDR_OPERATING_MODE b = 1 \<Longrightarrow>
   ConfigureControlMode good_sdk kVelocityControlMode (s, b) = Inr ((), s, Read1 (dxl_id s) ADDR_OPERATING_MODE # b)"
  by (simp add: ConfigureControlMode_def GetOperatingMode_def read_checked_def bnd_def packet_call_def
      ask_def sample_sdk_def sample_answer_def CommsCheck_def mode_of_register_def)

theorem right_motors_turn_opposite_ways_witness:
  "\<exists>c1 c2. comms_SetRPM good_sdk kMotorRight 20 sample_comms = Inr ((), c1) \<and>
     comms_SetAllRPM good_sdk 20 20 20 20 sample_comms = Inr ((), c2) \<and>
     (\<exists>rs v. cbus c1 = rs @ cbus sample_comms \<and> 0 < sint v \<and>
        goals rs = [Write4 kRightFrontId ADDR_GOAL_VELOCITY v, Write4 kRightRearId ADDR_GOAL_VELOCITY v])"
proof -
  have "\<exists>c1. comms_SetRPM good_sdk kMotorRight 20 sample_comms = Inr ((), c1)"
    by (simp add: sample_comms_simps comms_SetRPM_def DeadmansSwitchEnable_def DeadmansSwitchReset_def)
  then obtain c1 where c1: "comms_SetRPM good_sdk kMotorRight 20 sample_comms = Inr ((), c1)" by blast
  obtain l r where "ConvertRPMToGoalVelocity good_sdk 20 = Some l" "ConvertRPMToGoalVelocity good_sdk (- 20) = Some r"
    using ConvertRPM_word [OF sample_macros, of 20] ConvertRPM_word [OF sample_macros, of "- 20"] by auto
  then have "\<exists>c2. comms_SetAllRPM good_sdk 20 20 20 20 sample_comms = Inr ((), c2)"
    by (simp add: sample_comms_simps comms_SetAllRPM_def configure_all_def add_goal_def bulk_call_def ask_def
        sample_configure DeadmansSwitchEnable_def DeadmansSwitchReset_def)
  then obtain c2 where c2: "comms_SetAllRPM good_sdk 20 20 20 20 sample_comms = Inr ((), c2)" by blast
  from right_motors_turn_opposite_ways [OF sample_macros sample_comms_inv _ _ c1 c2] c1 c2 show ?thesis
    by simp
qed

theorem GetHardwareStatus_turret_only_witness:
  "\<exists>status c'. comms_GetHardwareStatus good_sdk sample_comms = Inr (status, c') \<and> length status = 5 \<and>
     (\<forall>d \<in> set status. ss_instance d = kServoTurret)"
proof -
  have "\<exists>status c'. comms_GetHardwareStatus good_sdk sample_comms = Inr (status, c')"
    by (simp add: comms_GetHardwareStatus_def status_case_def on_def bnd_def GetStatus_def GetHardwareErrorStatus_def
        GetTemperature_def GetInputVoltage_def read_checked_def packet_call_def ask_def sample_sdk_def
        sample_answer_def sample_comms_def sample_motor_def CommsCheck_def)
  then obtain status c' where run: "comms_GetHardwareStatus good_sdk sample_comms = Inr (status, c')" by blast
  from GetHardwareStatus_turret_only [OF sample_comms_inv run] run show ?thesis by blast
qed

text \<open>A port whose baud rate cannot be set.\<close>

definition no_baud_sdk :: sdk where
  "no_baud_sdk = good_sdk\<lparr>answer := (\<lambda>h. \<lparr>comm_result = 0, dxl_error = 0, rdata = None,
     flag = (case h of Set_baud _ # _ \<Rightarrow> False | _ \<Rightarrow> True)\<rparr>)\<rparr>"

theorem baud_failure_then_null_pointer_witness:
  "\<exists>c c'. new_DynamixelComms False True 0 False False [] = Inr c \<and> comms_Init no_baud_sdk ''tty'' ''MX-28AT'' c = Inr ((), c') \<and>
     comms_step no_baud_sdk c' (E_GetVoltage kServoTurret) = Inl Null_Pointer"
proof -
  obtain c where c: "new_DynamixelComms False True 0 False False [] = Inr c" by (simp add: new_DynamixelComms_def)
  have "flag (answer no_baud_sdk (Open_port ''tty'' # []))"
    "\<not> flag (answer no_baud_sdk (Set_baud 1000000 # Open_port ''tty'' # []))"
    by (simp_all add: no_baud_sdk_def)
  from baud_failure_then_null_pointer [OF c this] c show ?thesis by blast
qed

lemma sample_reboot_wait:
  "register_value i ADDR_MODEL_NUMBER b = e \<Longrightarrow> reboot_wait good_sdk i e n b = Some (Read4 i ADDR_MODEL_NUMBER # b)"
  by (subst reboot_wait.simps) (simp add: ask_def sample_sdk_def sample_answer_def)

lemma good_sdk_acknowledges:
  "CommsCheck good_sdk (comm_result (answer good_sdk (r # b))) (dxl_error (answer good_sdk (r # b)))"
  by (simp add: CommsCheck_def sample_sdk_def sample_answer_def)

text \<open>One servo after another is started; none of the requests touches a model number or a position.\<close>

definition plain_bus :: "bus \<Rightarrow> bool" where
  "plain_bus b \<longleftrightarrow> (\<forall>i. register_value i ADDR_MODEL_NUMBER b = 30 \<and> register_value i ADDR_PRESENT_POSITION b = 100)"

lemma sample_Init_place:
  assumes "plain_bus b" "total_encoder_count s = 0" "last_encoder_count s = 0"
  shows "\<exists>s' b'. Init good_sdk 30 i cfg (s, b) = Inr ((), s', b') \<and> plain_bus b'"
proof -
  have r: "register_value i ADDR_MODEL_NUMBER b = 30" "register_value i ADDR_PRESENT_POSITION b = 100"
    using assms(1) by (simp_all add: plain_bus_def)
  obtain b1 where reboot: "Reboot good_sdk (s\<lparr>model_number := 30, dxl_id := i, config := cfg, handlers_set := True\<rparr>, Ros_ok # b)
      = Inr ((), s\<lparr>model_number := 30, dxl_id := i, config := cfg, handlers_set := True\<rparr>, b1)" and
    b1: "b1 = Read4 i ADDR_MODEL_NUMBER # Reboot_packet i # Ros_ok # b"
    using r by (simp add: Reboot_result good_sdk_acknowledges sample_reboot_wait)
  show ?thesis
    using assms r b1
    by (simp add: Init_def ask_def seqp_def bnd_def reboot)
      (cases "cfg = kConfigServo"; simp add: servo_ops sample_sdk_def sample_answer_def plain_bus_def)
qed

lemma sample_on_Init:
  assumes "plain_bus (cbus c)" "servo_at p c = new_DynamixelServo 0"
  shows "\<exists>c'. on p (Init good_sdk 30 i cfg) c = Inr ((), c') \<and> plain_bus (cbus c') \<and>
    (\<forall>q. q \<noteq> p \<longrightarrow> servo_at q c' = servo_at q c)"
  using sample_Init_place [OF assms(1), of "new_DynamixelServo 0" i cfg] assms(2)
  by (auto simp: on_def new_DynamixelServo_def)

lemma sample_init_servos:
  assumes "plain_bus (cbus c)" "\<forall>p. servo_at p c = new_DynamixelServo 0"
  shows "\<exists>c'. init_servos good_sdk 30 c = Inr ((), c')"
proof -
  obtain c1 where c1: "on Turret (Init good_sdk 30 kTurretId kConfigServo) c = Inr ((), c1)" "plain_bus (cbus c1)"
      "\<forall>q. q \<noteq> Turret \<longrightarrow> servo_at q c1 = new_DynamixelServo 0"
    using sample_on_Init [of c Turret kTurretId kConfigServo] assms by (auto simp del: servo_at.simps)
  obtain c2 where c2: "on Front_Left (Init good_sdk 30 kLeftFrontId kConfigMotorAntiClockwise) c1 = Inr ((), c2)" "plain_bus (cbus c2)"
      "\<forall>q. q \<noteq> Front_Left \<longrightarrow> servo_at q c2 = servo_at q c1"
    using sample_on_Init [of c1 Front_Left kLeftFrontId kConfigMotorAntiClockwise] c1 by (auto simp del: servo_at.simps)
  obtain c3 where c3: "on Rear_Left (Init good_sdk 30 kLeftRearId kConfigMotorAntiClockwise) c2 = Inr ((), c3)" "plain_bus (cbus c3)"
      "\<forall>q. q \<noteq> Rear_Left \<longrightarrow> servo_at q c3 = servo_at q c2"
    using sample_on_Init [of c2 Rear_Left kLeftRearId kConfigMotorAntiClockwise] c1 c2 by (auto simp del: servo_at.simps)
  obtain c4 where c4: "on Front_Right (Init good_sdk 30 kRightFrontId kConfigMotorClockwise) c3 = Inr ((), c4)" "plain_bus (cbus c4)"
      "\<forall>q. q \<noteq> Front_Right \<longrightarrow> servo_at q c4 = servo_at q c3"
    using sample_on_Init [of c3 Front_Right kRightFrontId kConfigMotorClockwise] c1 c2 c3 by (auto simp del: servo_at.simps)
  obtain c5 where "on Rear_Right (Init good_sdk 30 kRightRearId kConfigMotorClockwise) c4 = Inr ((), c5)"
    using sample_on_Init [of c4 Rear_Right kRightRearId kConfigMotorClockwise] c1 c2 c3 c4 by (auto simp del: servo_at.simps)
  with c1 c2 c3 c4 show ?thesis by (simp add: init_servos_def)
qed

lemma sample_started:
  "\<exists>c c0. new_DynamixelComms False True 0 False False [] = Inr c \<and> comms_Init good_sdk ''tty'' ''MX-28AT'' c = Inr ((), c0)"
proof -
  obtain c where c: "new_DynamixelComms False True 0 False False [] = Inr c" by (simp add: new_DynamixelComms_def)
  let ?c = "c\<lparr>cbus := Set_baud 1000000 # Open_port ''tty'' # [], connected := True, bulk_set := True\<rparr>"
  have "\<forall>p. servo_at p ?c = new_DynamixelServo 0"
  proof
    fix p show "servo_at p ?c = new_DynamixelServo 0" using c by (cases p) (auto simp: new_DynamixelComms_def)
  qed
  then obtain c0 where c0: "init_servos good_sdk 30 ?c = Inr ((), c0)"
    using sample_init_servos [of ?c] by (auto simp: plain_bus_def)
  have "comms_Init good_sdk ''tty'' ''MX-28AT'' c = Inr ((), c0)"
    using c c0 by (auto simp: comms_Init_def port_call_def ask_def bnd_def seqp_def model_number_of_def
        sample_sdk_def sample_answer_def new_DynamixelComms_def)
  with c show ?thesis by blast
qed

theorem started_comms_no_null_pointer_witness:
  "\<exists>c c0. new_DynamixelComms False True 0 False False [] = Inr c \<and> comms_Init good_sdk ''tty'' ''MX-28AT'' c = Inr ((), c0) \<and>
     run_res (comms_step good_sdk) c0 [E_GetVoltage kServoTurret, Tick] \<noteq> Inl Null_Pointer"
proof -
  obtain c c0 where c: "new_DynamixelComms False True 0 False False [] = Inr c" and
    init: "comms_Init good_sdk ''tty'' ''MX-28AT'' c = Inr ((), c0)"
    using sample_started by blast
  have "flag (answer good_sdk h)" for h by (cases h) (simp_all add: sample_sdk_def sample_answer_def)
  with started_comms_no_null_pointer [OF init] c init show ?thesis by blast
qed

end
