(* ===== verification/Dynamixel_Nodes.thy ===== *)
theory Dynamixel_Nodes
  imports Dynamixel_Comms
begin

text \<open>
  The ROS nodes of \<^verbatim>\<open>dynamixel_driver\<close>: motor, all-wheels, servo, encoder, battery and diagnostics
  nodes, and \<open>main\<close>. A node is its members; its callbacks are programs on the communications object
  behind the interface \<open>Communications\<close> of \<^verbatim>\<open>communications.hpp\<close>, a record of operations. The contract
  of the interface is a locale that both \<open>DynamixelComms\<close> and the mock of the tests satisfy.

  Publishing is the value a callback returns; the time stamps of the headers are left out.
\<close>

section \<open>The interface\<close>

record 'c Communications =
  c_Init :: "string \<Rightarrow> string \<Rightarrow> ('c, unit) prog"
  c_Connected :: "('c, bool) prog"
  c_GetHardwareStatus :: "('c, ServoStatus list) prog"
  c_GetTotalEncoderCount :: "MotorInstance \<Rightarrow> ('c, i64) prog"
  c_GetVoltage :: "ServoInstance \<Rightarrow> ('c, double) prog"
  c_SetAllRPM :: "double \<Rightarrow> double \<Rightarrow> double \<Rightarrow> double \<Rightarrow> ('c, unit) prog"
  c_SetRPM :: "MotorInstance \<Rightarrow> double \<Rightarrow> ('c, unit) prog"
  c_SetRelativePosition :: "MotorInstance \<Rightarrow> double \<Rightarrow> ('c, unit) prog"
  c_SetAllRelativePosition :: "double \<Rightarrow> double \<Rightarrow> double \<Rightarrow> double \<Rightarrow> ('c, unit) prog"
  c_SetServoPosition :: "ServoInstance \<Rightarrow> double \<Rightarrow> ('c, unit) prog"
  c_Reboot :: "ServoInstance \<Rightarrow> ('c, unit) prog"

definition dynamixel_communications :: "sdk \<Rightarrow> DynamixelComms Communications" where
  "dynamixel_communications D =
     \<lparr>c_Init = comms_Init D, c_Connected = gets Connected, c_GetHardwareStatus = comms_GetHardwareStatus D,
      c_GetTotalEncoderCount = comms_GetTotalEncoderCount D, c_GetVoltage = comms_GetVoltage D,
      c_SetAllRPM = comms_SetAllRPM D, c_SetRPM = comms_SetRPM D,
      c_SetRelativePosition = comms_SetRelativePosition D,
      c_SetAllRelativePosition = comms_SetAllRelativePosition D,
      c_SetServoPosition = comms_SetServoPosition D, c_Reboot = comms_Reboot D\<rparr>"

text \<open>The mock of the tests; its state is \<open>connected_\<close>.\<close>

definition mock_communications :: "bool Communications" where
  "mock_communications =
     \<lparr>c_Init = (\<lambda>_ _. ret ()), c_Connected = gets id, c_GetHardwareStatus = ret [],
      c_GetTotalEncoderCount = (\<lambda>_. ret 0), c_GetVoltage = (\<lambda>_. ret 0.1),
      c_SetAllRPM = (\<lambda>_ _ _ _. ret ()), c_SetRPM = (\<lambda>_ _. ret ()), c_SetRelativePosition = (\<lambda>_ _. ret ()),
      c_SetAllRelativePosition = (\<lambda>_ _ _ _. ret ()), c_SetServoPosition = (\<lambda>_ _. ret ()),
      c_Reboot = (\<lambda>_. ret ())\<rparr>"

section \<open>Messages\<close>

type_synonym i8 = "8 word"

record MotorControl =
  mc_id :: i8
  mc_mode :: i8
  mc_angle_radians :: double
  mc_rpm :: double
  mc_duty :: double
  mc_speed_radians_s :: double

abbreviation ID_LEFT :: i8 where "ID_LEFT \<equiv> 0"
abbreviation ID_RIGHT :: i8 where "ID_RIGHT \<equiv> 1"
abbreviation ID_FRONT_LEFT :: i8 where "ID_FRONT_LEFT \<equiv> 2"
abbreviation ID_FRONT_RIGHT :: i8 where "ID_FRONT_RIGHT \<equiv> 3"
abbreviation ID_REAR_LEFT :: i8 where "ID_REAR_LEFT \<equiv> 4"
abbreviation ID_REAR_RIGHT :: i8 where "ID_REAR_RIGHT \<equiv> 5"

abbreviation MODE_RELATIVE :: i8 where "MODE_RELATIVE \<equiv> 1"
abbreviation MODE_SPEED :: i8 where "MODE_SPEED \<equiv> 2"
abbreviation MODE_RADIANS_SECOND :: i8 where "MODE_RADIANS_SECOND \<equiv> 4"

section \<open>Node names\<close>

text \<open>
  \<open>topic_name[topic_name.find('_')] = '/'\<close>: without an underscore the index is \<open>npos\<close> and the
  assignment is undefined.
\<close>

fun mangle_name :: "string \<Rightarrow> string option" where
  "mangle_name [] = None"
| "mangle_name (c # cs) = (if c = CHR ''_'' then Some (CHR ''/'' # cs) else map_option ((#) c) (mangle_name cs))"

definition has_substring :: "string \<Rightarrow> string \<Rightarrow> bool" where
  "has_substring p s = list_ex (prefix p) (suffixes s)"

section \<open>The motor node\<close>

text \<open>\<open>comms_set\<close>: \<open>AddComms\<close> has been called. The three values are set by every message.\<close>

record MotorNode =
  mn_comms_set :: bool
  mn_instance :: MotorInstance
  mn_angle_radians :: double
  mn_rpm :: double
  mn_duty :: double
  mn_command_received :: bool
  mn_rpm_mode :: bool

definition new_MotorNode :: "string \<Rightarrow> MotorNode option" where
  "new_MotorNode name = (case mangle_name name of
     None \<Rightarrow> None
   | Some topic_name \<Rightarrow> Some
       \<lparr>mn_comms_set = False, mn_instance = (if has_substring ''right'' topic_name then kMotorRight else kMotorLeft),
        mn_angle_radians = 0, mn_rpm = 0, mn_duty = 0, mn_command_received = False, mn_rpm_mode = False\<rparr>)"

definition motor_AddComms :: "MotorNode \<Rightarrow> MotorNode" where
  "motor_AddComms n = n\<lparr>mn_comms_set := True\<rparr>"

definition via_comms :: "bool \<Rightarrow> ('c, 'a) prog \<Rightarrow> ('c, 'a) prog" where
  "via_comms is_set m = (if is_set then m else fault_with Null_Pointer)"

definition motor_MessageCallback :: "'c Communications \<Rightarrow> MotorControl \<Rightarrow> MotorNode \<Rightarrow> ('c, MotorNode) prog" where
  "motor_MessageCallback C msg n =
     (let n = n\<lparr>mn_angle_radians := mc_angle_radians msg, mn_rpm := mc_rpm msg, mn_duty := mc_duty msg\<rparr> in
      if mc_mode msg = MODE_RELATIVE then
        seqp (via_comms (mn_comms_set n) (c_SetRelativePosition C (mn_instance n) (mn_angle_radians n))) (ret n)
      else if mc_mode msg = MODE_SPEED then
        seqp (via_comms (mn_comms_set n) (c_SetRPM C (mn_instance n) (mn_rpm n))) (ret n)
      else ret n)"

definition motor_TimerCallback :: "'c Communications \<Rightarrow> MotorNode \<Rightarrow> ('c, MotorNode) prog" where
  "motor_TimerCallback C n =
     (if mn_rpm_mode n then
        bnd (if \<not> mn_command_received n
             then seqp (via_comms (mn_comms_set n) (c_SetRPM C (mn_instance n) 0)) (ret (n\<lparr>mn_rpm_mode := False\<rparr>))
             else ret n) (\<lambda>n.
        ret (n\<lparr>mn_command_received := False\<rparr>))
      else ret n)"

section \<open>The node for all wheels\<close>

text \<open>
  The mode of a message: -1 when no motor has a supported mode, \<open>None\<close> when two supported modes
  differ (the callback returns).
\<close>

definition supported_mode :: "i8 \<Rightarrow> bool" where
  "supported_mode mode \<longleftrightarrow> mode = MODE_RELATIVE \<or> mode = MODE_SPEED \<or> mode = MODE_RADIANS_SECOND"

fun common_mode :: "i8 \<Rightarrow> MotorControl list \<Rightarrow> i8 option" where
  "common_mode mode [] = Some mode"
| "common_mode mode (motor # motors) =
     (if supported_mode (mc_mode motor) then
        if mode = -1 then common_mode (mc_mode motor) motors
        else if mode \<noteq> mc_mode motor then None
        else common_mode mode motors
      else common_mode mode motors)"

definition RadiansPerSecondToRPM :: "double \<Rightarrow> double" where
  "RadiansPerSecondToRPM radians_s = radians_s * 60 / (2 * pi)"

record four =
  fl :: double
  fr :: double
  rl :: double
  rr :: double

definition set_by_id :: "i8 \<Rightarrow> double \<Rightarrow> four \<Rightarrow> four" where
  "set_by_id i x v =
     (if i = ID_LEFT then v\<lparr>fl := x, rl := x\<rparr>
      else if i = ID_RIGHT then v\<lparr>fr := x, rr := x\<rparr>
      else if i = ID_FRONT_LEFT then v\<lparr>fl := x\<rparr>
      else if i = ID_FRONT_RIGHT then v\<lparr>fr := x\<rparr>
      else if i = ID_REAR_LEFT then v\<lparr>rl := x\<rparr>
      else if i = ID_REAR_RIGHT then v\<lparr>rr := x\<rparr>
      else v)"

definition no_four :: four where
  "no_four = \<lparr>fl = 0, fr = 0, rl = 0, rr = 0\<rparr>"

fun speeds_loop :: "MotorControl list \<Rightarrow> four \<Rightarrow> four" where
  "speeds_loop [] v = v"
| "speeds_loop (motor # motors) v = speeds_loop motors
     (if mc_mode motor = MODE_SPEED then set_by_id (mc_id motor) (mc_rpm motor) v
      else set_by_id (mc_id motor) (RadiansPerSecondToRPM (mc_speed_radians_s motor)) v)"

definition SetAllMotorsSpeed :: "'c Communications \<Rightarrow> MotorControl list \<Rightarrow> ('c, unit) prog" where
  "SetAllMotorsSpeed C motors =
     (let v = speeds_loop motors no_four in c_SetAllRPM C (fl v) (fr v) (rl v) (rr v))"

fun angles_loop :: "MotorControl list \<Rightarrow> four \<Rightarrow> four" where
  "angles_loop [] v = v"
| "angles_loop (motor # motors) v = angles_loop motors (set_by_id (mc_id motor) (mc_angle_radians motor) v)"

definition SetAllMotorsRelativePosition :: "'c Communications \<Rightarrow> MotorControl list \<Rightarrow> ('c, unit) prog" where
  "SetAllMotorsRelativePosition C motors =
     (let v = angles_loop motors no_four in c_SetAllRelativePosition C (fl v) (fr v) (rl v) (rr v))"

definition wheels_Callback :: "'c Communications \<Rightarrow> bool \<Rightarrow> MotorControl list \<Rightarrow> ('c, unit) prog" where
  "wheels_Callback C comms_set motors = (case common_mode (-1) motors of
     None \<Rightarrow> ret ()
   | Some mode \<Rightarrow>
       if mode = MODE_RELATIVE then via_comms comms_set (SetAllMotorsRelativePosition C motors)
       else if mode = MODE_SPEED \<or> mode = MODE_RADIANS_SECOND then via_comms comms_set (SetAllMotorsSpeed C motors)
       else ret ())"

section \<open>The servo node\<close>

record ServoNode =
  sn_comms_set :: bool
  sn_instance :: ServoInstance
  sn_turret_forward_degrees :: i32
  sn_turret_backward_degrees :: i32

definition new_ServoNode :: "string \<Rightarrow> ServoNode option" where
  "new_ServoNode name = (case mangle_name name of
     None \<Rightarrow> None
   | Some topic_name \<Rightarrow> Some
       \<lparr>sn_comms_set = False, sn_instance = (if has_substring ''turret'' topic_name then kServoTurret else kServoNone),
        sn_turret_forward_degrees = 0, sn_turret_backward_degrees = 0\<rparr>)"

definition servo_AddComms :: "ServoNode \<Rightarrow> ServoNode" where
  "servo_AddComms n = n\<lparr>sn_comms_set := True\<rparr>"

definition SetTurretLimits :: "i32 \<Rightarrow> i32 \<Rightarrow> ServoNode \<Rightarrow> ServoNode" where
  "SetTurretLimits forward backward n =
     n\<lparr>sn_turret_forward_degrees := forward, sn_turret_backward_degrees := backward\<rparr>"

text \<open>The message holds the angle as an \<open>int16\<close>.\<close>

definition servo_Callback :: "'c Communications \<Rightarrow> i16 \<Rightarrow> ServoNode \<Rightarrow> ('c, unit) prog" where
  "servo_Callback C angle_degrees n =
     (let desired_angle_degrees = real_of_int (sint angle_degrees);
          new_position_degrees = (if desired_angle_degrees < 90 then sn_turret_forward_degrees n
            else sn_turret_backward_degrees n)
      in via_comms (sn_comms_set n) (c_SetServoPosition C (sn_instance n) (real_of_int (sint new_position_degrees))))"

section \<open>The encoder node\<close>

record EncoderNode =
  en_comms_set :: bool
  en_instance :: MotorInstance
  en_frame_id :: string

definition new_EncoderNode :: "string \<Rightarrow> EncoderNode option" where
  "new_EncoderNode name = (case mangle_name name of
     None \<Rightarrow> None
   | Some topic_name \<Rightarrow> Some
       (if has_substring ''right'' topic_name
        then \<lparr>en_comms_set = False, en_instance = kMotorRight, en_frame_id = ''encoder_right''\<rparr>
        else \<lparr>en_comms_set = False, en_instance = kMotorLeft, en_frame_id = ''encoder_left''\<rparr>))"

definition encoder_AddComms :: "EncoderNode \<Rightarrow> EncoderNode" where
  "encoder_AddComms n = n\<lparr>en_comms_set := True\<rparr>"

record Encoders =
  enc_frame_id :: string
  enc_ticks :: i64
  enc_wheel_revs :: i64
  enc_wheel_angle_deg :: double

abbreviation kEncoderCountsPerOutputRev :: i64 where "kEncoderCountsPerOutputRev \<equiv> 4096"

definition encoders_message :: "string \<Rightarrow> i64 \<Rightarrow> Encoders" where
  "encoders_message frame encoder_count =
     \<lparr>enc_frame_id = frame, enc_ticks = encoder_count,
      enc_wheel_revs = word_of_int (sint encoder_count sdiv sint kEncoderCountsPerOutputRev),
      enc_wheel_angle_deg = real_of_int (sint encoder_count smod sint kEncoderCountsPerOutputRev) *
        (360 / real_of_int (sint kEncoderCountsPerOutputRev))\<rparr>"

definition encoder_TimerCallback :: "'c Communications \<Rightarrow> EncoderNode \<Rightarrow> ('c, Encoders) prog" where
  "encoder_TimerCallback C n = via_comms (en_comms_set n)
     (bnd (if en_instance n = kMotorLeft then c_GetTotalEncoderCount C kMotorLeft
           else c_GetTotalEncoderCount C kMotorRight) (\<lambda>encoder_count.
      ret (encoders_message (en_frame_id n) encoder_count)))"

section \<open>The battery node\<close>

record BatteryState =
  bat_frame_id :: string
  bat_voltage :: double
  bat_present :: bool
  bat_technology_lipo :: bool

definition battery_TimerCallback :: "'c Communications \<Rightarrow> bool \<Rightarrow> ('c, BatteryState) prog" where
  "battery_TimerCallback C comms_set = via_comms comms_set
     (bnd (c_GetVoltage C kServoTurret) (\<lambda>voltage_v.
      ret \<lparr>bat_frame_id = ''battery'', bat_voltage = voltage_v, bat_present = True, bat_technology_lipo = True\<rparr>))"

section \<open>The diagnostics node\<close>

text \<open>What \<open>std::to_string\<close> makes of a number is kept as the number.\<close>

datatype value_text = Int_text int | Double_text double

record DiagnosticStatus =
  ds_level :: u8
  ds_name :: string
  ds_message :: string
  ds_hardware_id :: string
  ds_values :: "(string \<times> value_text) list"

definition HardwareStatusToString :: "u8 \<Rightarrow> string" where
  "HardwareStatusToString status =
     (if status = 0 then ''OK''
      else
        (let result = '''';
             result = (if status AND 0x01 \<noteq> 0 then result @ ''Over voltage,'' else result);
             result = (if status AND 0x04 \<noteq> 0 then result @ ''Overheated,'' else result);
             result = (if status AND 0x08 \<noteq> 0 then result @ ''Encoder failed,'' else result);
             result = (if status AND 0x10 \<noteq> 0 then result @ ''Insufficent voltage or short circuit,'' else result);
             result = (if status AND 0x20 \<noteq> 0 then result @ ''Overloaded,'' else result)
         in result))"

definition AddConnectedMessage :: "'c Communications \<Rightarrow> DiagnosticStatus list \<Rightarrow> ('c, DiagnosticStatus list) prog" where
  "AddConnectedMessage C status = bnd (c_Connected C) (\<lambda>connected.
     ret (status @ [\<lparr>ds_level = (if connected then 0 else 2), ds_name = ''Connected'',
       ds_message = (if connected then ''OK'' else ''ERROR''), ds_hardware_id = ''Dynamixel Serial Link'',
       ds_values = []\<rparr>]))"

definition status_item :: "ServoStatus \<Rightarrow> DiagnosticStatus" where
  "status_item s =
     \<lparr>ds_level = (if ss_hardware_status s = 0 then 0 else 2), ds_name = ''Servo: '' @ ss_instance_name s,
      ds_message = HardwareStatusToString (ss_hardware_status s), ds_hardware_id = ''Dynamixel'',
      ds_values = [(''Temperature C'', Int_text (ss_temperature_c s)),
        (''Input voltage'', Double_text (ss_input_voltage s))]\<rparr>"

fun status_items :: "'c Communications \<Rightarrow> ServoStatus list \<Rightarrow> DiagnosticStatus list \<Rightarrow> ('c, DiagnosticStatus list) prog" where
  "status_items C [] items = ret items"
| "status_items C (s # ss) items =
     seqp (if ss_hardware_status s \<noteq> 0 \<and> ss_hardware_status s AND 0x20 \<noteq> 0 then c_Reboot C (ss_instance s) else ret ())
          (status_items C ss (items @ [status_item s]))"

definition AddServoStatusMessage :: "'c Communications \<Rightarrow> DiagnosticStatus list \<Rightarrow> ('c, DiagnosticStatus list) prog" where
  "AddServoStatusMessage C items = bnd (c_GetHardwareStatus C) (\<lambda>status. status_items C status items)"

definition diagnostics_TimerCallback :: "'c Communications \<Rightarrow> bool \<Rightarrow> ('c, DiagnosticStatus list) prog" where
  "diagnostics_TimerCallback C comms_set = via_comms comms_set
     (bnd (AddConnectedMessage C []) (AddServoStatusMessage C))"

section \<open>The driver program\<close>

record 'c driver =
  motor_left_node :: MotorNode
  motor_right_node :: MotorNode
  encoder_left_node :: EncoderNode
  encoder_right_node :: EncoderNode
  turret_node :: ServoNode
  comms_added :: bool
  comms_object :: 'c

text \<open>
  \<open>main\<close> up to the spinning of the executor. \<open>comms_result\<close> is the communications object after its
  construction and \<open>Init\<close>; the parameters \<open>turret_*_ticks\<close> are passed on as degrees. \<open>ok\<close>: \<open>rclcpp::ok()\<close>.
\<close>

definition driver_main :: "(fault + 'c) \<Rightarrow> i32 \<Rightarrow> i32 \<Rightarrow> bool \<Rightarrow> fault + 'c driver option" where
  "driver_main comms_result turret_forward_ticks turret_backward_ticks ok =
     (case (new_EncoderNode ''encoder_left'', new_EncoderNode ''encoder_right'', new_MotorNode ''motor_left'',
            new_MotorNode ''motor_right'', new_ServoNode ''servo_turret'') of
        (Some el, Some er, Some ml, Some mr, Some sv) \<Rightarrow>
          (case comms_result of
             Inl f \<Rightarrow> Inl f
           | Inr c \<Rightarrow>
               let sv = SetTurretLimits turret_forward_ticks turret_backward_ticks sv in
               if ok then Inr (Some
                 \<lparr>motor_left_node = motor_AddComms ml, motor_right_node = motor_AddComms mr,
                  encoder_left_node = encoder_AddComms el, encoder_right_node = encoder_AddComms er,
                  turret_node = servo_AddComms sv, comms_added = True, comms_object = c\<rparr>)
               else Inr None)
      | _ \<Rightarrow> Inl Undefined_Behaviour)"

text \<open>The executor is single-threaded: it runs one callback after another.\<close>

datatype callback =
    Motor_message MotorInstance MotorControl
  | Motor_timer MotorInstance
  | Wheels_message "MotorControl list"
  | Servo_message i16
  | Encoder_timer MotorInstance
  | Battery_timer
  | Diagnostics_timer

definition lift_comms :: "('c, 'a) prog \<Rightarrow> ('a \<Rightarrow> 'c driver \<Rightarrow> 'c driver) \<Rightarrow> 'c driver \<Rightarrow> fault + 'c driver" where
  "lift_comms m k d = (case m (comms_object d) of Inl f \<Rightarrow> Inl f | Inr (x, c) \<Rightarrow> Inr (k x (d\<lparr>comms_object := c\<rparr>)))"

definition driver_step :: "'c Communications \<Rightarrow> 'c driver \<Rightarrow> callback \<Rightarrow> fault + 'c driver" where
  "driver_step C d e = (case e of
     Motor_message m msg \<Rightarrow>
       (case m of
          kMotorLeft \<Rightarrow> lift_comms (motor_MessageCallback C msg (motor_left_node d)) (\<lambda>n d. d\<lparr>motor_left_node := n\<rparr>) d
        | kMotorRight \<Rightarrow> lift_comms (motor_MessageCallback C msg (motor_right_node d)) (\<lambda>n d. d\<lparr>motor_right_node := n\<rparr>) d)
   | Motor_timer m \<Rightarrow>
       (case m of
          kMotorLeft \<Rightarrow> lift_comms (motor_TimerCallback C (motor_left_node d)) (\<lambda>n d. d\<lparr>motor_left_node := n\<rparr>) d
        | kMotorRight \<Rightarrow> lift_comms (motor_TimerCallback C (motor_right_node d)) (\<lambda>n d. d\<lparr>motor_right_node := n\<rparr>) d)
   | Wheels_message msg \<Rightarrow> lift_comms (wheels_Callback C (comms_added d) msg) (\<lambda>_ d. d) d
   | Servo_message a \<Rightarrow> lift_comms (servo_Callback C a (turret_node d)) (\<lambda>_ d. d) d
   | Encoder_timer m \<Rightarrow>
       (case m of
          kMotorLeft \<Rightarrow> lift_comms (encoder_TimerCallback C (encoder_left_node d)) (\<lambda>_ d. d) d
        | kMotorRight \<Rightarrow> lift_comms (encoder_TimerCallback C (encoder_right_node d)) (\<lambda>_ d. d) d)
   | Battery_timer \<Rightarrow> lift_comms (battery_TimerCallback C (comms_added d)) (\<lambda>_ d. d) d
   | Diagnostics_timer \<Rightarrow> lift_comms (diagnostics_TimerCallback C (comms_added d)) (\<lambda>_ d. d) d)"

section \<open>The contract of the interface\<close>

text \<open>
  What the nodes rely on: in a state that is \<open>ok\<close> no operation goes through a null pointer, and
  each leaves an \<open>ok\<close> state.
\<close>

definition keeps_ok :: "('c \<Rightarrow> bool) \<Rightarrow> ('c, 'a) prog \<Rightarrow> bool" where
  "keeps_ok ok m \<longleftrightarrow> (\<forall>c. ok c \<longrightarrow> m c \<noteq> Inl Null_Pointer \<and> (\<forall>x c'. m c = Inr (x, c') \<longrightarrow> ok c'))"

lemma keeps_ok_Inl: "keeps_ok ok m \<Longrightarrow> ok c \<Longrightarrow> m c \<noteq> Inl Null_Pointer"
  unfolding keeps_ok_def by blast

lemma keeps_ok_Inr: "keeps_ok ok m \<Longrightarrow> ok c \<Longrightarrow> m c = Inr (x, c') \<Longrightarrow> ok c'"
  unfolding keeps_ok_def by blast

lemma keeps_ok_ret: "keeps_ok ok (ret x)"
  by (simp add: keeps_ok_def)

lemma keeps_ok_bnd:
  assumes "keeps_ok ok m" "\<And>x. keeps_ok ok (k x)"
  shows "keeps_ok ok (bnd m k)"
  unfolding keeps_ok_def
proof (intro allI impI conjI)
  fix c assume ok: "ok c"
  show "bnd m k c \<noteq> Inl Null_Pointer"
  proof
    assume "bnd m k c = Inl Null_Pointer"
    then show False
    proof (cases rule: bnd_InlE)
      case (2 x c1)
      then show ?thesis using keeps_ok_Inl [OF assms(2)] keeps_ok_Inr [OF assms(1) ok 2(1)] by blast
    qed (use keeps_ok_Inl [OF assms(1) ok] in simp)
  qed
  fix x c' assume "bnd m k c = Inr (x, c')"
  then obtain y c1 where "m c = Inr (y, c1)" "k y c1 = Inr (x, c')" by (rule bnd_InrE)
  then show "ok c'" using keeps_ok_Inr [OF assms(2)] keeps_ok_Inr [OF assms(1) ok] by blast
qed

lemma keeps_ok_seqp: "keeps_ok ok m \<Longrightarrow> keeps_ok ok n \<Longrightarrow> keeps_ok ok (seqp m n)"
  unfolding seqp_def by (rule keeps_ok_bnd)

lemmas keeps_ok_rules = keeps_ok_ret keeps_ok_bnd keeps_ok_seqp

lemma safe_keeps_ok: "safe F m \<Longrightarrow> keeps_ok comms_inv m"
  unfolding safe_def keeps_ok_def by blast

locale communications =
  fixes C :: "'c Communications" and ok :: "'c \<Rightarrow> bool"
  assumes Connected_ok: "keeps_ok ok (c_Connected C)"
    and GetHardwareStatus_ok: "keeps_ok ok (c_GetHardwareStatus C)"
    and GetTotalEncoderCount_ok: "keeps_ok ok (c_GetTotalEncoderCount C m)"
    and GetVoltage_ok: "keeps_ok ok (c_GetVoltage C i)"
    and SetAllRPM_ok: "keeps_ok ok (c_SetAllRPM C x y z w)"
    and SetRPM_ok: "keeps_ok ok (c_SetRPM C m r)"
    and SetRelativePosition_ok: "keeps_ok ok (c_SetRelativePosition C m r)"
    and SetAllRelativePosition_ok: "keeps_ok ok (c_SetAllRelativePosition C x y z w)"
    and SetServoPosition_ok: "keeps_ok ok (c_SetServoPosition C i r)"
    and Reboot_ok: "keeps_ok ok (c_Reboot C i)"
begin

lemmas operations_ok = Connected_ok GetHardwareStatus_ok GetTotalEncoderCount_ok GetVoltage_ok SetAllRPM_ok
  SetRPM_ok SetRelativePosition_ok SetAllRelativePosition_ok SetServoPosition_ok Reboot_ok

text \<open>The nodes have their communications object.\<close>

definition driver_ok :: "'c driver \<Rightarrow> bool" where
  "driver_ok d \<longleftrightarrow> mn_comms_set (motor_left_node d) \<and> mn_comms_set (motor_right_node d) \<and>
     en_comms_set (encoder_left_node d) \<and> en_comms_set (encoder_right_node d) \<and>
     sn_comms_set (turret_node d) \<and> comms_added d \<and> ok (comms_object d)"

lemma motor_MessageCallback_ok: "mn_comms_set n \<Longrightarrow> keeps_ok ok (motor_MessageCallback C msg n)"
  by (auto simp: motor_MessageCallback_def Let_def via_comms_def intro!: keeps_ok_rules operations_ok)

lemma motor_TimerCallback_ok: "mn_comms_set n \<Longrightarrow> keeps_ok ok (motor_TimerCallback C n)"
  by (auto simp: motor_TimerCallback_def via_comms_def intro!: keeps_ok_rules operations_ok)

lemma wheels_Callback_ok: "keeps_ok ok (wheels_Callback C True motors)"
  by (auto simp: wheels_Callback_def via_comms_def SetAllMotorsSpeed_def SetAllMotorsRelativePosition_def Let_def
      intro!: keeps_ok_rules operations_ok split: option.split)

lemma servo_Callback_ok: "sn_comms_set n \<Longrightarrow> keeps_ok ok (servo_Callback C a n)"
  by (simp add: servo_Callback_def Let_def via_comms_def operations_ok)

lemma encoder_TimerCallback_ok: "en_comms_set n \<Longrightarrow> keeps_ok ok (encoder_TimerCallback C n)"
  by (auto simp: encoder_TimerCallback_def via_comms_def intro!: keeps_ok_rules operations_ok)

lemma battery_TimerCallback_ok: "keeps_ok ok (battery_TimerCallback C True)"
  by (auto simp: battery_TimerCallback_def via_comms_def intro!: keeps_ok_rules operations_ok)

lemma status_items_ok: "keeps_ok ok (status_items C ss items)"
  by (induction ss arbitrary: items) (auto intro!: keeps_ok_rules operations_ok)

lemma diagnostics_TimerCallback_ok: "keeps_ok ok (diagnostics_TimerCallback C True)"
  by (auto simp: diagnostics_TimerCallback_def via_comms_def AddConnectedMessage_def AddServoStatusMessage_def
      intro!: keeps_ok_rules operations_ok status_items_ok)

text \<open>The motor callbacks keep the pointer of their node.\<close>

lemma motor_MessageCallback_comms:
  "motor_MessageCallback C msg n c = Inr (n', c') \<Longrightarrow> mn_comms_set n' = mn_comms_set n"
  by (auto simp: motor_MessageCallback_def Let_def seqp_def split: if_splits elim!: bnd_InrE)

lemma motor_TimerCallback_comms:
  "motor_TimerCallback C n c = Inr (n', c') \<Longrightarrow> mn_comms_set n' = mn_comms_set n"
  by (auto simp: motor_TimerCallback_def seqp_def split: if_splits elim!: bnd_InrE)

lemma lift_comms_ok:
  assumes "keeps_ok ok m" "driver_ok d" and "\<And>x c c'. m c = Inr (x, c') \<Longrightarrow> ok c' \<Longrightarrow> driver_ok (k x (d\<lparr>comms_object := c'\<rparr>))"
  shows "lift_comms m k d \<noteq> Inl Null_Pointer \<and> (\<forall>d'. lift_comms m k d = Inr d' \<longrightarrow> driver_ok d')"
proof -
  have ok: "ok (comms_object d)" using assms(2) by (simp add: driver_ok_def)
  show ?thesis
    using keeps_ok_Inl [OF assms(1) ok] keeps_ok_Inr [OF assms(1) ok] assms(3) [of "comms_object d"]
    by (auto simp: lift_comms_def split: sum.splits)
qed

lemma driver_step_ok:
  assumes "driver_ok d"
  shows "driver_step C d e \<noteq> Inl Null_Pointer \<and> (\<forall>d'. driver_step C d e = Inr d' \<longrightarrow> driver_ok d')"
proof -
  have d: "mn_comms_set (motor_left_node d)" "mn_comms_set (motor_right_node d)" "en_comms_set (encoder_left_node d)"
      "en_comms_set (encoder_right_node d)" "sn_comms_set (turret_node d)" "comms_added d"
    using assms by (simp_all add: driver_ok_def)
  have keep: "ok c' \<Longrightarrow> driver_ok (d\<lparr>comms_object := c'\<rparr>)" for c' using assms by (simp add: driver_ok_def)
  show ?thesis
  proof (cases e)
    case (Motor_message m msg)
    then show ?thesis
      using motor_MessageCallback_ok d
      by (cases m; simp only: driver_step_def callback.case MotorInstance.case; intro lift_comms_ok assms)
        (auto simp: driver_ok_def dest!: motor_MessageCallback_comms)
  next
    case (Motor_timer m)
    then show ?thesis
      using motor_TimerCallback_ok d
      by (cases m; simp only: driver_step_def callback.case MotorInstance.case; intro lift_comms_ok assms)
        (auto simp: driver_ok_def dest!: motor_TimerCallback_comms)
  next
    case (Encoder_timer m)
    then show ?thesis
      using encoder_TimerCallback_ok d
      by (cases m; simp only: driver_step_def callback.case MotorInstance.case; intro lift_comms_ok assms)
        (auto simp: keep)
  qed (simp only: driver_step_def callback.case d; intro lift_comms_ok assms wheels_Callback_ok servo_Callback_ok
      battery_TimerCallback_ok diagnostics_TimerCallback_ok d keep; assumption)+
qed

end

interpretation dynamixel: communications "dynamixel_communications D" comms_inv for D
proof unfold_locales
  note defs = dynamixel_communications_def comms_GetTotalEncoderCount_def comms_SetServoPosition_def comms_Reboot_def
  show "keeps_ok comms_inv (c_Connected (dynamixel_communications D))"
    by (simp add: dynamixel_communications_def keeps_ok_def)
  show "keeps_ok comms_inv (c_GetHardwareStatus (dynamixel_communications D))"
    by (simp add: dynamixel_communications_def safe_keeps_ok [OF safe_GetHardwareStatus])
  show "keeps_ok comms_inv (c_GetTotalEncoderCount (dynamixel_communications D) m)" for m
    by (auto simp: defs intro!: safe_keeps_ok [where F = id] safe_rules)
  show "keeps_ok comms_inv (c_GetVoltage (dynamixel_communications D) i)" for i
    by (auto simp: dynamixel_communications_def comms_GetVoltage_def intro!: safe_keeps_ok [where F = id] safe_rules)
  show "keeps_ok comms_inv (c_SetAllRPM (dynamixel_communications D) x y z w)" for x y z w
    by (simp add: dynamixel_communications_def safe_keeps_ok [OF safe_comms_SetAllRPM])
  show "keeps_ok comms_inv (c_SetRPM (dynamixel_communications D) m r)" for m r
    by (simp add: dynamixel_communications_def safe_keeps_ok [OF safe_comms_SetRPM])
  show "keeps_ok comms_inv (c_SetRelativePosition (dynamixel_communications D) m r)" for m r
    by (simp add: dynamixel_communications_def safe_keeps_ok [OF safe_comms_SetRelativePosition])
  show "keeps_ok comms_inv (c_SetAllRelativePosition (dynamixel_communications D) x y z w)" for x y z w
    by (simp add: dynamixel_communications_def safe_keeps_ok [OF safe_comms_SetAllRelativePosition])
  show "keeps_ok comms_inv (c_SetServoPosition (dynamixel_communications D) i r)" for i r
    by (auto simp: defs intro!: safe_keeps_ok [where F = id] safe_rules)
  show "keeps_ok comms_inv (c_Reboot (dynamixel_communications D) i)" for i
    by (auto simp: defs Let_def intro!: safe_keeps_ok [where F = id] safe_rules)
qed

interpretation mock: communications mock_communications "\<lambda>_. True"
  by unfold_locales (auto simp: mock_communications_def keeps_ok_def)

section \<open>What a message for all wheels means\<close>

text \<open>The value of the last motor in the message that has one of the ids, 0 when there is none.\<close>

definition last_value :: "double \<Rightarrow> i8 set \<Rightarrow> (MotorControl \<Rightarrow> double) \<Rightarrow> MotorControl list \<Rightarrow> double" where
  "last_value d ids f motors = (case filter (\<lambda>m. mc_id m \<in> ids) (rev motors) of [] \<Rightarrow> d | m # _ \<Rightarrow> f m)"

definition motor_speed :: "MotorControl \<Rightarrow> double" where
  "motor_speed m = (if mc_mode m = MODE_SPEED then mc_rpm m else mc_speed_radians_s m * 60 / (2 * pi))"

lemma last_value_Cons:
  "last_value d ids f (m # ms) = last_value (if mc_id m \<in> ids then f m else d) ids f ms"
  by (simp add: last_value_def split: list.split)

lemma last_value_Nil [simp]: "last_value d ids f [] = d"
  by (simp add: last_value_def)

lemma set_by_id_fields:
  "fl (set_by_id i x v) = (if i \<in> {ID_LEFT, ID_FRONT_LEFT} then x else fl v)"
  "fr (set_by_id i x v) = (if i \<in> {ID_RIGHT, ID_FRONT_RIGHT} then x else fr v)"
  "rl (set_by_id i x v) = (if i \<in> {ID_LEFT, ID_REAR_LEFT} then x else rl v)"
  "rr (set_by_id i x v) = (if i \<in> {ID_RIGHT, ID_REAR_RIGHT} then x else rr v)"
  by (auto simp: set_by_id_def)

lemma speeds_loop_step:
  "speeds_loop (m # ms) v = speeds_loop ms (set_by_id (mc_id m) (motor_speed m) v)"
  by (simp add: motor_speed_def RadiansPerSecondToRPM_def)

lemma speeds_loop_last:
  "fl (speeds_loop ms v) = last_value (fl v) {ID_LEFT, ID_FRONT_LEFT} motor_speed ms \<and>
   fr (speeds_loop ms v) = last_value (fr v) {ID_RIGHT, ID_FRONT_RIGHT} motor_speed ms \<and>
   rl (speeds_loop ms v) = last_value (rl v) {ID_LEFT, ID_REAR_LEFT} motor_speed ms \<and>
   rr (speeds_loop ms v) = last_value (rr v) {ID_RIGHT, ID_REAR_RIGHT} motor_speed ms"
proof (induction ms arbitrary: v)
  case (Cons m ms)
  show ?case
    using Cons.IH [of "set_by_id (mc_id m) (motor_speed m) v"]
    by (simp only: speeds_loop_step last_value_Cons set_by_id_fields)
qed simp

lemma angles_loop_last:
  "fl (angles_loop ms v) = last_value (fl v) {ID_LEFT, ID_FRONT_LEFT} mc_angle_radians ms \<and>
   fr (angles_loop ms v) = last_value (fr v) {ID_RIGHT, ID_FRONT_RIGHT} mc_angle_radians ms \<and>
   rl (angles_loop ms v) = last_value (rl v) {ID_LEFT, ID_REAR_LEFT} mc_angle_radians ms \<and>
   rr (angles_loop ms v) = last_value (rr v) {ID_RIGHT, ID_REAR_RIGHT} mc_angle_radians ms"
proof (induction ms arbitrary: v)
  case (Cons m ms)
  show ?case
    using Cons.IH [of "set_by_id (mc_id m) (mc_angle_radians m) v"]
    by (simp only: angles_loop.simps last_value_Cons set_by_id_fields)
qed simp

text \<open>The supported modes that occur in a message.\<close>

definition modes_in :: "MotorControl list \<Rightarrow> i8 set" where
  "modes_in motors = {mc_mode m | m. m \<in> set motors \<and> supported_mode (mc_mode m)}"

lemma modes_in_Cons: "modes_in (m # ms) = (if supported_mode (mc_mode m) then insert (mc_mode m) (modes_in ms) else modes_in ms)"
  by (auto simp: modes_in_def)

lemma supported_not_minus1: "supported_mode x \<Longrightarrow> x \<noteq> -1"
  by (auto simp: supported_mode_def)

lemma modes_in_Nil [simp]: "modes_in [] = {}"
  by (simp add: modes_in_def)

lemma common_mode_set:
  "mode \<noteq> -1 \<Longrightarrow> common_mode mode ms = (if modes_in ms \<subseteq> {mode} then Some mode else None)"
  by (induction ms) (auto simp: modes_in_Cons split: if_splits)

lemma common_mode_start:
  "common_mode (-1) ms = (if modes_in ms = {} then Some (-1)
     else if \<exists>x. modes_in ms = {x} then Some (the_elem (modes_in ms)) else None)"
proof (induction ms)
  case (Cons m ms)
  show ?case
  proof (cases "supported_mode (mc_mode m)")
    case True
    show ?thesis
    proof (cases "modes_in ms \<subseteq> {mc_mode m}")
      case one: True
      then have ins: "insert (mc_mode m) (modes_in ms) = {mc_mode m}" by blast
      show ?thesis
        using one True supported_not_minus1 [OF True] by (simp add: modes_in_Cons common_mode_set ins)
    next
      case False
      then have "insert (mc_mode m) (modes_in ms) \<noteq> {x}" for x by blast
      with False show ?thesis
        using True supported_not_minus1 [OF True] by (simp add: modes_in_Cons common_mode_set)
    qed
  qed (simp add: modes_in_Cons Cons.IH)
qed simp

lemma modes_in_supported: "x \<in> modes_in ms \<Longrightarrow> supported_mode x"
  by (auto simp: modes_in_def)

lemma modes_in_cases: "modes_in ms = {x} \<Longrightarrow> x = MODE_RELATIVE \<or> x = MODE_SPEED \<or> x = MODE_RADIANS_SECOND"
  using modes_in_supported [of x ms] by (simp add: supported_mode_def)

section \<open>What the diagnostics send\<close>

lemma reboot_wait_requests:
  assumes "reboot_wait D i e n b = Some b'"
  shows "\<exists>rs. b' = rs @ b \<and> (\<forall>r \<in> set rs. request_id r = Some i \<or> request_id r = None)"
proof (rule reboot_wait.raw_induct [OF _ assms,
      of "\<lambda>D i e n b b'. \<exists>rs. b' = rs @ b \<and> (\<forall>r \<in> set rs. request_id r = Some i \<or> request_id r = None)"])
  fix f :: "sdk \<Rightarrow> u8 \<Rightarrow> u32 \<Rightarrow> u32 \<Rightarrow> bus \<Rightarrow> bus option" and D i e n b b'
  assume IH: "\<And>D i e n b b'. f D i e n b = Some b' \<Longrightarrow> \<exists>rs. b' = rs @ b \<and> (\<forall>r \<in> set rs. request_id r = Some i \<or> request_id r = None)"
    and body: "(let (a, b1) = ask D (Read4 i ADDR_MODEL_NUMBER) b;
          number' = case rdata a of None \<Rightarrow> n | Some v \<Rightarrow> v
      in if number' \<noteq> e then let (a2, b2) = ask D Ros_ok b1
              in if flag a2 then f D i e number' b2 else Some b2
         else Some b1) = Some b'"
  let ?b2 = "[Ros_ok, Read4 i ADDR_MODEL_NUMBER] @ b"
  have "b' = [Read4 i ADDR_MODEL_NUMBER] @ b \<or> b' = ?b2 \<or> (\<exists>n'. f D i e n' ?b2 = Some b')"
    using body by (auto simp: ask_def Let_def split: if_splits)
  then show "\<exists>rs. b' = rs @ b \<and> (\<forall>r \<in> set rs. request_id r = Some i \<or> request_id r = None)"
  proof (elim disjE exE)
    fix n' assume "f D i e n' ?b2 = Some b'"
    from IH [OF this] obtain rs where "b' = rs @ ?b2" "\<forall>r \<in> set rs. request_id r = Some i \<or> request_id r = None" by blast
    then show ?thesis by (intro exI [of _ "rs @ [Ros_ok, Read4 i ADDR_MODEL_NUMBER]"]) (auto simp: request_id_def)
  qed (force simp: request_id_def)+
qed

text \<open>The requests of \<open>m\<close> go to the turret or to no servo.\<close>

definition turret_only :: "'a comms_op \<Rightarrow> bool" where
  "turret_only m \<longleftrightarrow> (\<forall>c x c'. comms_inv c \<longrightarrow> m c = Inr (x, c') \<longrightarrow> comms_inv c' \<and>
     (\<exists>rs. cbus c' = rs @ cbus c \<and> (\<forall>r \<in> set rs. request_id r = Some kTurretId \<or> request_id r = None)))"

lemma turret_onlyD: "turret_only m \<Longrightarrow> comms_inv c \<Longrightarrow> m c = Inr (x, c') \<Longrightarrow> comms_inv c' \<and>
    (\<exists>rs. cbus c' = rs @ cbus c \<and> (\<forall>r \<in> set rs. request_id r = Some kTurretId \<or> request_id r = None))"
  unfolding turret_only_def by blast

lemma turret_only_ret: "turret_only (ret x)"
  by (simp add: turret_only_def)

lemma turret_only_seqp:
  assumes "turret_only m" "turret_only n"
  shows "turret_only (seqp m n)"
  unfolding turret_only_def
proof (intro allI impI)
  fix c x c' assume inv: "comms_inv c" and "seqp m n c = Inr (x, c')"
  then obtain y c1 where 1: "m c = Inr (y, c1)" and 2: "n c1 = Inr (x, c')"
    unfolding seqp_def by (elim bnd_InrE)
  obtain rs where rs: "cbus c1 = rs @ cbus c" "\<forall>r \<in> set rs. request_id r = Some kTurretId \<or> request_id r = None"
    and inv1: "comms_inv c1"
    using turret_onlyD [OF assms(1) inv 1] by blast
  obtain rs' where "cbus c' = rs' @ cbus c1" "\<forall>r \<in> set rs'. request_id r = Some kTurretId \<or> request_id r = None" "comms_inv c'"
    using turret_onlyD [OF assms(2) inv1 2] by blast
  with rs show "comms_inv c' \<and> (\<exists>rs. cbus c' = rs @ cbus c \<and> (\<forall>r \<in> set rs. request_id r = Some kTurretId \<or> request_id r = None))"
    by (auto intro!: exI [of _ "rs' @ rs"])
qed

lemma turret_only_Reboot: "turret_only (comms_Reboot D kServoTurret)"
  unfolding turret_only_def
proof (intro allI impI)
  fix c x c' assume inv: "comms_inv c" and run: "comms_Reboot D kServoTurret c = Inr (x, c')"
  have op: "comms_Reboot D kServoTurret = on Turret (Reboot D)" by (simp add: comms_Reboot_def GetServoId_def)
  obtain s b where r: "Reboot D (servo_turret c, cbus c) = Inr (x, s, b)" and c': "c' = (set_servo Turret s c)\<lparr>cbus := b\<rparr>"
    using run by (auto simp: op on_def split: sum.splits)
  have id: "dxl_id (servo_turret c) = kTurretId"
    using inv unfolding comms_inv_def servo_ok_def by (metis place_id.simps(5) servo_at.simps(5))
  have "\<exists>rs. b = rs @ cbus c \<and> (\<forall>r \<in> set rs. request_id r = Some kTurretId \<or> request_id r = None)"
  proof -
    let ?b1 = "Reboot_packet kTurretId # cbus c"
    have "b = ?b1 \<or> reboot_wait D kTurretId (model_number (servo_turret c)) 0 ?b1 = Some b"
      using r by (auto simp: Reboot_result id Let_def split: if_splits option.splits)
    then show ?thesis
    proof
      assume "reboot_wait D kTurretId (model_number (servo_turret c)) 0 ?b1 = Some b"
      from reboot_wait_requests [OF this] obtain rs where "b = rs @ ?b1"
        "\<forall>r \<in> set rs. request_id r = Some kTurretId \<or> request_id r = None" by blast
      then show ?thesis by (intro exI [of _ "rs @ [Reboot_packet kTurretId]"]) (auto simp: request_id_def)
    qed (auto simp: request_id_def intro!: exI [of _ "[Reboot_packet kTurretId]"])
  qed
  moreover have "comms_inv c'"
    using safe_Inr [OF safe_on [OF safe_Reboot] inv] run by (auto simp: op)
  ultimately show "comms_inv c' \<and> (\<exists>rs. cbus c' = rs @ cbus c \<and> (\<forall>r \<in> set rs. request_id r = Some kTurretId \<or> request_id r = None))"
    using c' by simp
qed

lemma turret_only_items:
  "\<forall>s \<in> set ss. ss_instance s = kServoTurret \<Longrightarrow> turret_only (status_items (dynamixel_communications D) ss items)"
  by (induction ss arbitrary: items)
    (auto simp: dynamixel_communications_def intro!: turret_only_seqp turret_only_ret turret_only_Reboot)

lemma status_items_result:
  "status_items C ss items c = Inr (r, c') \<Longrightarrow> r = items @ map status_item ss"
proof (induction ss arbitrary: items c)
  case (Cons s ss)
  from Cons.prems obtain c1 where "status_items C ss (items @ [status_item s]) c1 = Inr (r, c')"
    by (auto simp: seqp_def elim!: bnd_InrE)
  from Cons.IH [OF this] show ?case by simp
qed simp

lemma wheels_Callback_cases:
  "wheels_Callback C True motors c =
     (if modes_in motors = {MODE_RELATIVE} then
        c_SetAllRelativePosition C (last_value 0 {ID_LEFT, ID_FRONT_LEFT} mc_angle_radians motors)
          (last_value 0 {ID_RIGHT, ID_FRONT_RIGHT} mc_angle_radians motors)
          (last_value 0 {ID_LEFT, ID_REAR_LEFT} mc_angle_radians motors)
          (last_value 0 {ID_RIGHT, ID_REAR_RIGHT} mc_angle_radians motors) c
      else if modes_in motors = {MODE_SPEED} \<or> modes_in motors = {MODE_RADIANS_SECOND} then
        c_SetAllRPM C (last_value 0 {ID_LEFT, ID_FRONT_LEFT} motor_speed motors)
          (last_value 0 {ID_RIGHT, ID_FRONT_RIGHT} motor_speed motors)
          (last_value 0 {ID_LEFT, ID_REAR_LEFT} motor_speed motors)
          (last_value 0 {ID_RIGHT, ID_REAR_RIGHT} motor_speed motors) c
      else Inr ((), c))"
proof -
  have zero: "fl no_four = 0" "fr no_four = 0" "rl no_four = 0" "rr no_four = 0" by (simp_all add: no_four_def)
  show ?thesis
  proof (cases "\<exists>x. modes_in motors = {x}")
    case True
    then obtain x where x: "modes_in motors = {x}" by blast
    with modes_in_cases [OF x] show ?thesis
      by (auto simp: wheels_Callback_def common_mode_start via_comms_def SetAllMotorsSpeed_def
          SetAllMotorsRelativePosition_def Let_def speeds_loop_last angles_loop_last zero)
  next
    case False
    then show ?thesis
      by (auto simp: wheels_Callback_def common_mode_start)
  qed
qed

section \<open>Properties\<close>

text \<open>C20: A message for all wheels is one command or none. When exactly one supported mode occurs in it,
  relative positions or speeds of the four wheels are commanded together, each wheel getting the value
  of the last motor that names it or its side, 0 without one; a message with none or with two modes
  commands nothing. A motor of an unsupported mode is ignored in the choice of the mode but not in
  the values: among speeds it counts as radians per second. The identifiers of a whole side work,
  though \<^verbatim>\<open>MotorControl.msg\<close> says of both that they do not yet.\<close>

theorem wheels_Callback_meaning:
  "wheels_Callback C True motors c =
     (if modes_in motors = {MODE_RELATIVE} then
        c_SetAllRelativePosition C (last_value 0 {ID_LEFT, ID_FRONT_LEFT} mc_angle_radians motors)
          (last_value 0 {ID_RIGHT, ID_FRONT_RIGHT} mc_angle_radians motors)
          (last_value 0 {ID_LEFT, ID_REAR_LEFT} mc_angle_radians motors)
          (last_value 0 {ID_RIGHT, ID_REAR_RIGHT} mc_angle_radians motors) c
      else if modes_in motors = {MODE_SPEED} \<or> modes_in motors = {MODE_RADIANS_SECOND} then
        c_SetAllRPM C (last_value 0 {ID_LEFT, ID_FRONT_LEFT} motor_speed motors)
          (last_value 0 {ID_RIGHT, ID_FRONT_RIGHT} motor_speed motors)
          (last_value 0 {ID_LEFT, ID_REAR_LEFT} motor_speed motors)
          (last_value 0 {ID_RIGHT, ID_REAR_RIGHT} motor_speed motors) c
      else Inr ((), c))"
  by (rule wheels_Callback_cases)

text \<open>The motor nodes of a running driver never leave their first mode.\<close>

lemma motor_MessageCallback_mode: "motor_MessageCallback C msg n c = Inr (n', c') \<Longrightarrow> mn_rpm_mode n' = mn_rpm_mode n"
  by (auto simp: motor_MessageCallback_def Let_def seqp_def split: if_splits elim!: bnd_InrE)

lemma driver_step_mode:
  assumes "driver_step C d e = Inr d'" "\<not> mn_rpm_mode (motor_left_node d)" "\<not> mn_rpm_mode (motor_right_node d)"
  shows "\<not> mn_rpm_mode (motor_left_node d') \<and> \<not> mn_rpm_mode (motor_right_node d')"
  using assms
  by (cases e) (auto simp: driver_step_def lift_comms_def motor_TimerCallback_def
      split: MotorInstance.splits sum.splits dest!: motor_MessageCallback_mode)

lemma new_nodes:
  "new_MotorNode name = Some n \<Longrightarrow> \<not> mn_rpm_mode n"
  by (auto simp: new_MotorNode_def split: option.splits)

lemma driver_main_nodes:
  assumes "driver_main r a b ok = Inr (Some d)"
  shows "\<not> mn_rpm_mode (motor_left_node d)" "\<not> mn_rpm_mode (motor_right_node d)" "Inr (comms_object d) = r"
    "mn_comms_set (motor_left_node d)" "mn_comms_set (motor_right_node d)" "en_comms_set (encoder_left_node d)"
    "en_comms_set (encoder_right_node d)" "sn_comms_set (turret_node d)" "comms_added d"
proof -
  from assms obtain el er ml mr sv c where
    "new_MotorNode ''motor_left'' = Some ml" "new_MotorNode ''motor_right'' = Some mr" "r = Inr c"
    "d = \<lparr>motor_left_node = motor_AddComms ml, motor_right_node = motor_AddComms mr,
        encoder_left_node = encoder_AddComms el, encoder_right_node = encoder_AddComms er,
        turret_node = servo_AddComms (SetTurretLimits a b sv), comms_added = True, comms_object = c\<rparr>"
    unfolding driver_main_def by (auto simp only: prod.case Let_def split: option.splits sum.splits if_splits)
  then show "\<not> mn_rpm_mode (motor_left_node d)" "\<not> mn_rpm_mode (motor_right_node d)" "Inr (comms_object d) = r"
    "mn_comms_set (motor_left_node d)" "mn_comms_set (motor_right_node d)" "en_comms_set (encoder_left_node d)"
    "en_comms_set (encoder_right_node d)" "sn_comms_set (turret_node d)" "comms_added d"
    using new_nodes by (simp_all add: motor_AddComms_def encoder_AddComms_def servo_AddComms_def)
qed

text \<open>The 200 ms timer of the motor nodes does nothing. No code sets \<open>rpm_mode_\<close> or
  \<open>command_received_\<close>, so in every state of the running driver the timer callback leaves the nodes
  and the communications object as they are, however long ago the last command was.\<close>

theorem motor_timer_never_stops:
  assumes "driver_main r forward backward ok = Inr (Some d0)" "run_res (driver_step C) d0 es = Inr d"
  shows "driver_step C d (Motor_timer m) = Inr d"
proof -
  have "run_res (driver_step C) d0 es = Inr d \<Longrightarrow> \<not> mn_rpm_mode (motor_left_node d0) \<Longrightarrow>
      \<not> mn_rpm_mode (motor_right_node d0) \<Longrightarrow> \<not> mn_rpm_mode (motor_left_node d) \<and> \<not> mn_rpm_mode (motor_right_node d)" for d0
  proof (induction es arbitrary: d0)
    case (Cons e es)
    then obtain d1 where step: "driver_step C d0 e = Inr d1" "run_res (driver_step C) d1 es = Inr d"
      by (auto split: sum.splits)
    with Cons.IH [OF step(2)] driver_step_mode [OF step(1) Cons.prems(2,3)] show ?case by blast
  qed simp
  with assms driver_main_nodes [OF assms(1)] show ?thesis
    by (cases m) (simp_all add: driver_step_def lift_comms_def motor_TimerCallback_def)
qed

text \<open>A driver whose communications were started with the change of the baud rate granted, while ROS is
  running, goes through no null pointer, whatever messages and timers come; without that it can, see
  \<open>baud_failure_then_null_pointer\<close>.\<close>

theorem driver_no_null_pointer:
  assumes "comms_Init D device model c = Inr ((), c0)"
    and "flag (answer D (Set_baud 1000000 # Open_port device # cbus c))" "\<forall>h. flag (answer D (Ros_ok # h))"
    and "driver_main (Inr c0) forward backward ok = Inr (Some d0)"
  shows "run_res (driver_step (dynamixel_communications D)) d0 es \<noteq> Inl Null_Pointer"
proof -
  have "comms_inv c0" using comms_Init_inv [OF assms(1-3)] .
  then have "dynamixel.driver_ok d0"
    using driver_main_nodes [OF assms(4)] by (simp add: dynamixel.driver_ok_def)
  then show ?thesis
  proof (induction es arbitrary: d0)
    case (Cons e es)
    then show ?case using dynamixel.driver_step_ok [OF Cons.prems, of D e] by (auto split: sum.splits)
  qed simp
qed

lemma or_eq_0_iff_both: "x OR y = 0 \<longleftrightarrow> x = 0 \<and> y = (0 :: 'a::len word)"
  by (auto simp: bit_eq_iff bit_or_iff)

text \<open>The diagnostics never reach the drive motors. One round publishes six items, the connection
  and five servos, and all its requests go to the turret: an overloaded drive motor is neither
  reported nor rebooted.\<close>

theorem diagnostics_turret_only:
  assumes "comms_inv c" "diagnostics_TimerCallback (dynamixel_communications D) True c = Inr (items, c')"
  shows "length items = 6 \<and>
    (\<exists>rs. cbus c' = rs @ cbus c \<and> (\<forall>r \<in> set rs. request_id r = Some kTurretId \<or> request_id r = None))"
proof -
  from assms(2) obtain first status c1 where
    one: "c_GetHardwareStatus (dynamixel_communications D) c = Inr (status, c1)" and
    two: "status_items (dynamixel_communications D) status [first] c1 = Inr (items, c')"
    by (auto simp: diagnostics_TimerCallback_def via_comms_def AddConnectedMessage_def AddServoStatusMessage_def
        dynamixel_communications_def elim!: bnd_InrE)
  have run: "comms_GetHardwareStatus D c = Inr (status, c1)" using one by (simp add: dynamixel_communications_def)
  have inv1: "comms_inv c1" using safe_Inr [OF safe_GetHardwareStatus assms(1) run] by blast
  obtain ds rs where st: "length status = 5" "\<forall>d \<in> set status. ss_instance d = kServoTurret" "cbus c1 = rs @ cbus c"
      "\<forall>r \<in> set rs. request_id r = Some kTurretId"
    using status_loop_turret [OF run [unfolded comms_GetHardwareStatus_def] assms(1)] by auto
  obtain rs' where "cbus c' = rs' @ cbus c1" "\<forall>r \<in> set rs'. request_id r = Some kTurretId \<or> request_id r = None"
    using turret_onlyD [OF turret_only_items [OF st(2)] inv1 two] by blast
  moreover have "length items = 6" using status_items_result [OF two] st(1) by simp
  ultimately show ?thesis using st by (auto intro!: exI [of _ "rs' @ rs"])
qed

text \<open>A hardware error is shown as an error always, but with an empty text exactly when the status
  has none of the bits 0, 2, 3, 4 and 5.\<close>

theorem HardwareStatusToString_empty:
  "(HardwareStatusToString status = '''' \<longleftrightarrow> status \<noteq> 0 \<and> status AND 0x3D = 0) \<and>
   ds_level (status_item s) = (if ss_hardware_status s = 0 then 0 else 2)"
proof -
  have "(0x3D :: u8) = 0x01 OR 0x04 OR 0x08 OR 0x10 OR 0x20" by simp
  then have "status AND 0x3D = (status AND 0x01) OR (status AND 0x04) OR (status AND 0x08) OR (status AND 0x10) OR (status AND 0x20)"
    by (simp only: bit.conj_disj_distrib)
  then have "status AND 0x3D = 0 \<longleftrightarrow> status AND 0x01 = 0 \<and> status AND 0x04 = 0 \<and> status AND 0x08 = 0 \<and> status AND 0x10 = 0 \<and> status AND 0x20 = 0"
    by (simp only: or_eq_0_iff_both)
  then show ?thesis by (simp add: HardwareStatusToString_def status_item_def Let_def)
qed

text \<open>The encoder message takes a count apart without loss, for counts of either sign: the whole
  turns and the angle, which has the sign of the count and is less than a turn, add up to the ticks.\<close>

theorem encoders_message_split:
  "real_of_int (sint (enc_ticks (encoders_message frame n))) =
     4096 * real_of_int (sint (enc_wheel_revs (encoders_message frame n))) +
     enc_wheel_angle_deg (encoders_message frame n) * 4096 / 360 \<and>
   \<bar>enc_wheel_angle_deg (encoders_message frame n)\<bar> < 360 \<and>
   0 \<le> enc_wheel_angle_deg (encoders_message frame n) * real_of_int (sint n)"
proof -
  define q r where "q = sint n sdiv 4096" and "r = sint n smod (4096 :: int)"
  have eq: "sint n = 4096 * q + r"
    unfolding q_def r_def using mult_sdiv_smod_eq [of 4096 "sint n"] by simp
  have small: "\<bar>r\<bar> < 4096"
    unfolding r_def signed_modulo_int_def by (simp add: abs_mult sgn_if)
  have sign: "0 \<le> r * sint n"
    unfolding r_def signed_modulo_int_def by (auto simp: sgn_if mult_le_0_iff zero_le_mult_iff)
  have bounds: "- (2 ^ 63) \<le> sint n" "sint n < 2 ^ 63"
    using sint_ge [of n] sint_lt [of n] by simp_all
  have "fits_signed LENGTH(64) q"
    using eq small bounds by (simp add: fits_signed_def abs_less_iff)
  then have revs: "sint (enc_wheel_revs (encoders_message frame n)) = q"
    by (simp add: encoders_message_def q_def [symmetric] sint_word_of_int_fits)
  have angle: "enc_wheel_angle_deg (encoders_message frame n) = real_of_int r * (360 / 4096)"
    by (simp add: encoders_message_def r_def)
  show ?thesis
  proof (intro conjI)
    show "real_of_int (sint (enc_ticks (encoders_message frame n))) =
        4096 * real_of_int (sint (enc_wheel_revs (encoders_message frame n))) +
        enc_wheel_angle_deg (encoders_message frame n) * 4096 / 360"
      unfolding revs angle using eq by (simp add: encoders_message_def)
    show "\<bar>enc_wheel_angle_deg (encoders_message frame n)\<bar> < 360"
      unfolding angle using small by (simp add: abs_mult)
    have "0 \<le> real_of_int (r * sint n)" using sign by (simp only: of_int_0_le_iff)
    then show "0 \<le> enc_wheel_angle_deg (encoders_message frame n) * real_of_int (sint n)"
      unfolding angle by (simp add: mult_ac zero_le_mult_iff)
  qed
qed


section \<open>Witnesses\<close>

lemma mangle_name_Some: "CHR ''_'' \<in> set name \<Longrightarrow> \<exists>t. mangle_name name = Some t"
  by (induction name) auto

lemma sample_driver_main: "\<exists>d. driver_main (Inr c) 1 359 True = Inr (Some d)"
proof -
  obtain a b c d e where "mangle_name ''encoder_left'' = Some a" "mangle_name ''encoder_right'' = Some b"
    "mangle_name ''motor_left'' = Some c" "mangle_name ''motor_right'' = Some d" "mangle_name ''servo_turret'' = Some e"
    using mangle_name_Some [of "''encoder_left''"] mangle_name_Some [of "''encoder_right''"]
      mangle_name_Some [of "''motor_left''"] mangle_name_Some [of "''motor_right''"] mangle_name_Some [of "''servo_turret''"]
    by auto
  then show ?thesis
    by (simp only: driver_main_def new_EncoderNode_def new_MotorNode_def new_ServoNode_def Let_def
        prod.case option.case sum.case if_True) blast
qed

theorem motor_timer_never_stops_witness:
  "\<exists>d0 d. driver_main (Inr True) 1 359 True = Inr (Some d0) \<and>
     run_res (driver_step mock_communications) d0
       [Motor_message kMotorLeft \<lparr>mc_id = 0, mc_mode = 2, mc_angle_radians = 0, mc_rpm = 30, mc_duty = 0, mc_speed_radians_s = 0\<rparr>,
        Battery_timer] = Inr d \<and> driver_step mock_communications d (Motor_timer kMotorLeft) = Inr d"
proof -
  obtain d0 where d0: "driver_main (Inr True) 1 359 True = Inr (Some d0)"
    using sample_driver_main [of True] by (elim exE)
  note nodes = driver_main_nodes [OF d0]
  have "\<exists>d. run_res (driver_step mock_communications) d0
       [Motor_message kMotorLeft \<lparr>mc_id = 0, mc_mode = 2, mc_angle_radians = 0, mc_rpm = 30, mc_duty = 0, mc_speed_radians_s = 0\<rparr>,
        Battery_timer] = Inr d"
    by (simp add: driver_step_def lift_comms_def motor_MessageCallback_def battery_TimerCallback_def Let_def
        via_comms_def nodes mock_communications_def bnd_def)
  with motor_timer_never_stops [OF d0] d0 show ?thesis by blast
qed

theorem driver_no_null_pointer_witness:
  "\<exists>c c0 d0. new_DynamixelComms False True 0 False False [] = Inr c \<and> comms_Init good_sdk ''tty'' ''MX-28AT'' c = Inr ((), c0) \<and>
     driver_main (Inr c0) 1 359 True = Inr (Some d0) \<and>
     run_res (driver_step (dynamixel_communications good_sdk)) d0 [Battery_timer, Diagnostics_timer] \<noteq> Inl Null_Pointer"
proof -
  obtain c c0 where c: "new_DynamixelComms False True 0 False False [] = Inr c" and
    init: "comms_Init good_sdk ''tty'' ''MX-28AT'' c = Inr ((), c0)"
    using sample_started by blast
  obtain d0 where d0: "driver_main (Inr c0) 1 359 True = Inr (Some d0)"
    using sample_driver_main [of c0] by (elim exE)
  have "flag (answer good_sdk h)" for h by (cases h) (simp_all add: sample_sdk_def sample_answer_def)
  with driver_no_null_pointer [OF init _ _ d0] c init d0 show ?thesis by blast
qed

theorem diagnostics_turret_only_witness:
  "\<exists>items c'. diagnostics_TimerCallback (dynamixel_communications good_sdk) True sample_comms = Inr (items, c') \<and> length items = 6"
proof -
  have "\<exists>r. diagnostics_TimerCallback (dynamixel_communications good_sdk) True sample_comms = Inr r"
    by (simp add: diagnostics_TimerCallback_def via_comms_def AddConnectedMessage_def AddServoStatusMessage_def
        dynamixel_communications_def
        comms_GetHardwareStatus_def status_case_def on_def bnd_def GetStatus_def GetHardwareErrorStatus_def
        GetTemperature_def GetInputVoltage_def read_checked_def packet_call_def ask_def sample_sdk_def
        sample_answer_def sample_comms_def sample_motor_def CommsCheck_def DynamixelToServoStatus_def seqp_def)
  then obtain items c' where run: "diagnostics_TimerCallback (dynamixel_communications good_sdk) True sample_comms = Inr (items, c')"
    by auto
  from diagnostics_turret_only [OF sample_comms_inv run] run show ?thesis by blast
qed

end
