(* ===== verification/Controllers.thy ===== *)
theory Controllers
  imports Dynamixel_Nodes
begin

text \<open>
  The two control nodes between the joystick and the motors: \<open>IMU_Controller\<close>
  (\<^verbatim>\<open>low_control_with_imu\<close>), which stops and corrects velocity commands by the attitude, and
  \<open>DiffDriveController\<close> (\<^verbatim>\<open>chassis_controller\<close>), which turns them into wheel speeds. What a callback
  publishes is its result; \<open>system_clock\<close> times are nanoseconds. The URDF library is a parameter:
  what its parser and its lookups answer.
\<close>

record vec3 =
  vx :: double
  vy :: double
  vz :: double

record Twist =
  linear :: vec3
  angular :: vec3

definition zero_vec :: vec3 where
  "zero_vec = \<lparr>vx = 0, vy = 0, vz = 0\<rparr>"

definition zero_twist :: Twist where
  "zero_twist = \<lparr>linear = zero_vec, angular = zero_vec\<rparr>"

section \<open>The IMU controller\<close>

record IMU_Controller =
  imu_roll_degrees :: double
  imu_pitch_degrees :: double
  imu_yaw_degrees :: double
  d_pad_forward_key :: int
  d_pad_speed_m_s :: double
  d_pad_direction :: i32
  critical_roll_degrees :: double
  critical_pitch_degrees :: double
  critical_yaw_degrees :: double
  twist_msg :: Twist
  time_since_last_twist_msg :: int

abbreviation angular_P :: double where "angular_P \<equiv> 0.03"
abbreviation k_required_roll_degrees :: double where "k_required_roll_degrees \<equiv> 0"
abbreviation k_when_to_stop_s :: double where "k_when_to_stop_s \<equiv> 0.5"

text \<open>The constructor; the parameters are the node's, \<open>now\<close> the clock. ROS messages start as zero.\<close>

definition new_IMU_Controller :: "double \<Rightarrow> double \<Rightarrow> double \<Rightarrow> int \<Rightarrow> double \<Rightarrow> int \<Rightarrow> IMU_Controller" where
  "new_IMU_Controller roll pitch yaw key speed now =
     \<lparr>imu_roll_degrees = 0, imu_pitch_degrees = 0, imu_yaw_degrees = 0, d_pad_forward_key = key,
      d_pad_speed_m_s = speed, d_pad_direction = 0, critical_roll_degrees = roll,
      critical_pitch_degrees = pitch, critical_yaw_degrees = yaw, twist_msg = zero_twist,
      time_since_last_twist_msg = now\<rparr>"

definition imu_callback :: "double \<Rightarrow> double \<Rightarrow> double \<Rightarrow> IMU_Controller \<Rightarrow> IMU_Controller" where
  "imu_callback roll pitch yaw c = c\<lparr>imu_roll_degrees := roll, imu_pitch_degrees := pitch, imu_yaw_degrees := yaw\<rparr>"

text \<open>An index outside the axes of the message is undefined, and so is a value that no \<open>int\<close> holds.\<close>

definition joy_callback :: "double list \<Rightarrow> IMU_Controller \<Rightarrow> fault + IMU_Controller" where
  "joy_callback axes c =
     (if 0 \<le> d_pad_forward_key c \<and> d_pad_forward_key c < int (length axes) then
        case real_to_i32 (axes ! nat (d_pad_forward_key c)) of
          None \<Rightarrow> Inl Undefined_Behaviour
        | Some d \<Rightarrow> Inr (c\<lparr>d_pad_direction := d\<rparr>)
      else Inl Undefined_Behaviour)"

definition vel_callback :: "Twist \<Rightarrow> int \<Rightarrow> IMU_Controller \<Rightarrow> IMU_Controller" where
  "vel_callback msg now c = c\<lparr>time_since_last_twist_msg := now, twist_msg := msg\<rparr>"

definition timed_out :: "int \<Rightarrow> IMU_Controller \<Rightarrow> bool" where
  "timed_out now c \<longleftrightarrow> real_of_int (now - time_since_last_twist_msg c) / 1000000000 > k_when_to_stop_s"

definition tilted :: "IMU_Controller \<Rightarrow> bool" where
  "tilted c \<longleftrightarrow> \<bar>imu_roll_degrees c\<bar> > critical_roll_degrees c \<or> \<bar>imu_pitch_degrees c\<bar> > critical_pitch_degrees c"

text \<open>The wanted motion: the D-pad's, or the last twist message's.\<close>

definition desired_twist :: "IMU_Controller \<Rightarrow> Twist \<Rightarrow> Twist" where
  "desired_twist c t =
     (if d_pad_direction c \<noteq> 0 then
        t\<lparr>linear := (linear t)\<lparr>vx := d_pad_speed_m_s c * real_of_int (sint (d_pad_direction c))\<rparr>,
          angular := (angular t)\<lparr>vz := 0\<rparr>\<rparr>
      else
        t\<lparr>linear := (linear t)\<lparr>vx := vx (linear (twist_msg c))\<rparr>,
          angular := (angular t)\<lparr>vz := vz (angular (twist_msg c))\<rparr>\<rparr>)"

definition correct_roll :: "double \<Rightarrow> Twist \<Rightarrow> Twist" where
  "correct_roll roll_degrees t =
     (if \<bar>roll_degrees\<bar> > 8 \<and> \<bar>vz (angular t)\<bar> < 0.1 then
        let error_degrees = k_required_roll_degrees - roll_degrees;
            new_angular_speed = error_degrees * angular_P
        in t\<lparr>angular := (angular t)\<lparr>vz := - new_angular_speed\<rparr>\<rparr>
      else t)"

definition slow_down :: "double \<Rightarrow> Twist \<Rightarrow> Twist" where
  "slow_down roll_degrees t =
     (if \<bar>roll_degrees\<bar> > 20 then t\<lparr>linear := (linear t)\<lparr>vx := vx (linear t) / 3\<rparr>\<rparr> else t)"

definition timer_callback :: "int \<Rightarrow> IMU_Controller \<Rightarrow> Twist" where
  "timer_callback now c =
     (let timeout = timed_out now c;
          roll_degrees = imu_roll_degrees c;
          new_twist_msg = zero_twist
      in if timeout then new_twist_msg
         else if tilted c then new_twist_msg
         else slow_down roll_degrees (correct_roll roll_degrees (desired_twist c new_twist_msg)))"

datatype imu_event = Imu double double double | Joy "double list" | Vel Twist int

definition imu_step :: "IMU_Controller \<Rightarrow> imu_event \<Rightarrow> fault + IMU_Controller" where
  "imu_step c e = (case e of
     Imu r p y \<Rightarrow> Inr (imu_callback r p y c)
   | Joy axes \<Rightarrow> joy_callback axes c
   | Vel t now \<Rightarrow> Inr (vel_callback t now c))"

section \<open>The differential drive controller\<close>

text \<open>
  What the controller asks of a robot model: the lateral offset of a joint (\<open>None\<close>: no such joint),
  a link (\<open>None\<close>: no such link) with its optional visual and its optional geometry.
\<close>

datatype geometry = Cylinder double | Other_geometry

record urdf_model =
  getJoint :: "string \<Rightarrow> double option"
  getLink :: "string \<Rightarrow> geometry option option option"

record DiffDriveController =
  model_loaded :: bool
  model :: urdf_model

definition new_DiffDriveController :: "urdf_model \<Rightarrow> DiffDriveController" where
  "new_DiffDriveController no_model = \<lparr>model_loaded = False, model = no_model\<rparr>"

text \<open>\<open>parse\<close>: \<open>urdf::Model::initString\<close>, the model it leaves and whether it succeeded.\<close>

definition DescriptionCallback :: "(string \<Rightarrow> urdf_model \<times> bool) \<Rightarrow> string \<Rightarrow> DiffDriveController \<Rightarrow> DiffDriveController" where
  "DescriptionCallback parse msg c =
     (if \<not> model_loaded c then
        case parse msg of (m, success) \<Rightarrow>
          if \<not> success then c\<lparr>model := m\<rparr> else c\<lparr>model := m, model_loaded := True\<rparr>
      else c)"

definition GetWheelDistance :: "DiffDriveController \<Rightarrow> double" where
  "GetWheelDistance c =
     (if model_loaded c then
        case getJoint (model c) ''joint_front_left'' of None \<Rightarrow> -1 | Some y \<Rightarrow> \<bar>y\<bar>
      else -1)"

text \<open>The link, its visual and its geometry are used without a test.\<close>

definition GetWheelRadius :: "DiffDriveController \<Rightarrow> fault + double" where
  "GetWheelRadius c =
     (if model_loaded c then
        case getLink (model c) ''front_left_wheel'' of
          None \<Rightarrow> Inl Null_Pointer
        | Some None \<Rightarrow> Inl Null_Pointer
        | Some (Some None) \<Rightarrow> Inl Null_Pointer
        | Some (Some (Some (Cylinder r))) \<Rightarrow> Inr r
        | Some (Some (Some Other_geometry)) \<Rightarrow> Inr (-1)
      else Inr (-1))"

text \<open>A floating point division; \<open>None\<close> when the divisor is 0 and the result is not a number of \<open>double\<close>.\<close>

definition float_div :: "double \<Rightarrow> double \<Rightarrow> double option" where
  "float_div x y = (if y = 0 then None else Some (x / y))"

text \<open>The speeds of the left and the right wheels in radians per second.\<close>

definition wheel_speeds :: "double \<Rightarrow> double \<Rightarrow> Twist \<Rightarrow> (double \<times> double) option" where
  "wheel_speeds wheel_distance wheel_radius msg =
     (let rotation_speed_effect = vz (angular msg) * wheel_distance;
          linear_x_m_s = vx (linear msg);
          right_m_s = linear_x_m_s + rotation_speed_effect;
          left_m_s = linear_x_m_s - rotation_speed_effect;
          wheel_circumference = 2 * pi * wheel_radius
      in map_option (\<lambda>meters_2_radians. (left_m_s * meters_2_radians, right_m_s * meters_2_radians))
           (float_div (2 * pi) wheel_circumference))"

text \<open>What is published: four speeds to the simulation, or a message for all motors.\<close>

datatype published = Simulation "double list" | All_motors "MotorControl list" | Nothing | Not_a_number

definition motor_message :: "i8 \<Rightarrow> double \<Rightarrow> MotorControl" where
  "motor_message i rad_s = \<lparr>mc_id = i, mc_mode = MODE_RADIANS_SECOND, mc_angle_radians = 0, mc_rpm = 0,
     mc_duty = 0, mc_speed_radians_s = rad_s\<rparr>"

definition PublishAllMotorsMessage :: "double \<Rightarrow> double \<Rightarrow> double \<Rightarrow> double \<Rightarrow> published" where
  "PublishAllMotorsMessage front_left front_right rear_left rear_right = All_motors
     [motor_message ID_FRONT_LEFT front_left, motor_message ID_FRONT_RIGHT front_right,
      motor_message ID_REAR_LEFT rear_left, motor_message ID_REAR_RIGHT rear_right]"

definition PublishSimulationMessage :: "double \<Rightarrow> double \<Rightarrow> double \<Rightarrow> double \<Rightarrow> published" where
  "PublishSimulationMessage front_left front_right rear_left rear_right =
     Simulation [front_left, front_right, rear_left, rear_right]"

definition CommandCallback :: "bool \<Rightarrow> Twist \<Rightarrow> DiffDriveController \<Rightarrow> fault + published" where
  "CommandCallback use_sim_time msg c =
     (let wheel_distance = GetWheelDistance c in
      case GetWheelRadius c of
        Inl f \<Rightarrow> Inl f
      | Inr wheel_radius \<Rightarrow>
          if wheel_distance > 0 \<or> wheel_radius > 0 then
            case wheel_speeds wheel_distance wheel_radius msg of
              None \<Rightarrow> Inr Not_a_number
            | Some (left, right) \<Rightarrow> Inr
                (if use_sim_time then PublishSimulationMessage left right left right
                 else PublishAllMotorsMessage left right left right)
          else Inr Nothing)"

section \<open>The inputs of the IMU controller\<close>

text \<open>
  What the messages so far say, in the words of the messages: the last attitude, the last velocity
  command with the time it was heard, and the last position of the D-pad.
\<close>

definition attitude :: "imu_event \<Rightarrow> (double \<times> double) option" where
  "attitude e = (case e of Imu r p y \<Rightarrow> Some (r, p) | _ \<Rightarrow> None)"

definition velocity :: "imu_event \<Rightarrow> (Twist \<times> int) option" where
  "velocity e = (case e of Vel t now \<Rightarrow> Some (t, now) | _ \<Rightarrow> None)"

definition d_pad :: "int \<Rightarrow> imu_event \<Rightarrow> int option" where
  "d_pad key e = (case e of Joy axes \<Rightarrow> Some (trunc_int (axes ! nat key)) | _ \<Rightarrow> None)"

lemma imu_run_history:
  assumes "run_res imu_step c es = Inr c'"
  shows "critical_roll_degrees c' = critical_roll_degrees c" "critical_pitch_degrees c' = critical_pitch_degrees c"
    "d_pad_forward_key c' = d_pad_forward_key c" "d_pad_speed_m_s c' = d_pad_speed_m_s c"
    "(imu_roll_degrees c', imu_pitch_degrees c') = newest attitude (imu_roll_degrees c, imu_pitch_degrees c) es"
    "(twist_msg c', time_since_last_twist_msg c') = newest velocity (twist_msg c, time_since_last_twist_msg c) es"
    "sint (d_pad_direction c') = newest (d_pad (d_pad_forward_key c)) (sint (d_pad_direction c)) es"
  using assms
  by (induction es arbitrary: c)
    (auto simp: imu_step_def imu_callback_def joy_callback_def vel_callback_def attitude_def velocity_def d_pad_def
      split: imu_event.splits sum.splits if_splits option.splits dest!: real_to_i32_SomeD)

section \<open>Properties\<close>

text \<open>C7: The IMU controller stops the robot. Whatever messages came before, with \<open>(r, p)\<close> the last
  attitude, \<open>(t, heard)\<close> the last velocity command and the time it came, and \<open>d\<close> the last position of
  the D-pad (each with its start value before the first message): the timer publishes the zero twist
  when the velocity command is more than half a second old or the roll or the pitch is beyond its
  limit; the yaw has no part in it. Otherwise it publishes motion along x and turning about z only.
  The linear speed is the D-pad's or, with the D-pad at rest, the commanded one, a third of it beyond
  20 degrees of roll; the turn is the commanded one (none with the D-pad), unless it is below 0.1 rad/s
  and the roll beyond 8 degrees: then it is 0.03 rad/s for each degree of roll.\<close>

theorem timer_callback_safe:
  assumes "run_res imu_step (new_IMU_Controller roll pitch yaw key speed t0) es = Inr c"
  shows "let (r, p) = newest attitude (0, 0) es;
        (t, heard) = newest velocity (zero_twist, t0) es;
        d = newest (d_pad key) 0 es;
        turn = (if d \<noteq> 0 then 0 else vz (angular t))
    in timer_callback now c =
      (if now - heard > 500000000 \<or> \<bar>r\<bar> > roll \<or> \<bar>p\<bar> > pitch
       then \<lparr>linear = \<lparr>vx = 0, vy = 0, vz = 0\<rparr>, angular = \<lparr>vx = 0, vy = 0, vz = 0\<rparr>\<rparr>
       else \<lparr>linear = \<lparr>vx = (if d \<noteq> 0 then speed * of_int d else vx (linear t)) / (if \<bar>r\<bar> > 20 then 3 else 1),
                       vy = 0, vz = 0\<rparr>,
             angular = \<lparr>vx = 0, vy = 0, vz = (if \<bar>r\<bar> > 8 \<and> \<bar>turn\<bar> < 0.1 then 0.03 * r else turn)\<rparr>\<rparr>)"
proof -
  note h = imu_run_history [OF assms]
  have limits: "critical_roll_degrees c = roll" "critical_pitch_degrees c = pitch" "d_pad_speed_m_s c = speed"
    using h(1,2,4) by (simp_all add: new_IMU_Controller_def)
  have a: "newest attitude (0, 0) es = (imu_roll_degrees c, imu_pitch_degrees c)"
    and v: "newest velocity (zero_twist, t0) es = (twist_msg c, time_since_last_twist_msg c)"
    and d: "newest (d_pad key) 0 es = sint (d_pad_direction c)"
    using h(5-7) by (simp_all add: new_IMU_Controller_def)
  have late: "timed_out now c \<longleftrightarrow> now - time_since_last_twist_msg c > 500000000"
  proof -
    have "(0.5 :: real) < of_int (now - time_since_last_twist_msg c) / 1000000000 \<longleftrightarrow>
        of_int 500000000 < real_of_int (now - time_since_last_twist_msg c)" by (simp add: field_simps)
    then show ?thesis unfolding timed_out_def of_int_less_iff by simp
  qed
  let ?r = "imu_roll_degrees c"
  have rest: "sint (d_pad_direction c) = 0 \<longleftrightarrow> d_pad_direction c = 0"
    by (metis sint_0 sint_uint signed_word_eqI)
  have wanted: "slow_down ?r (correct_roll ?r (desired_twist c zero_twist)) =
      (let w = if sint (d_pad_direction c) \<noteq> 0 then 0 else vz (angular (twist_msg c)) in
       \<lparr>linear = \<lparr>vx = (if sint (d_pad_direction c) \<noteq> 0 then speed * of_int (sint (d_pad_direction c))
           else vx (linear (twist_msg c))) / (if \<bar>?r\<bar> > 20 then 3 else 1), vy = 0, vz = 0\<rparr>,
         angular = \<lparr>vx = 0, vy = 0, vz = (if \<bar>?r\<bar> > 8 \<and> \<bar>w\<bar> < 0.1 then 0.03 * ?r else w)\<rparr>\<rparr>)"
    by (cases "d_pad_direction c = 0"; cases "\<bar>?r\<bar> > 20"; cases "\<bar>?r\<bar> > 8"; cases "\<bar>vz (angular (twist_msg c))\<bar> < 0.1")
      (simp_all add: Let_def slow_down_def correct_roll_def desired_twist_def zero_twist_def zero_vec_def limits rest)
  show ?thesis
    unfolding a v d Let_def prod.case timer_callback_def late tilted_def limits wanted
    by (cases "now - time_since_last_twist_msg c > 500000000") (simp_all add: zero_twist_def zero_vec_def)
qed

text \<open>The roll correction is proportional and bounded: when the timer publishes motion and the wanted
  turn is below 0.1 rad/s, a roll beyond 8 degrees gives a turn of 0.03 rad/s for each degree of roll, so
  at most 0.03 times the critical roll; up to 8 degrees, or with a faster turn, the wanted turn is kept.\<close>

theorem timer_callback_turn:
  assumes "\<not> timed_out now c" "\<not> tilted c"
  shows "vz (angular (timer_callback now c)) =
      (let wanted = (if d_pad_direction c \<noteq> 0 then 0 else vz (angular (twist_msg c)))
       in if \<bar>imu_roll_degrees c\<bar> > 8 \<and> \<bar>wanted\<bar> < 0.1 then 0.03 * imu_roll_degrees c else wanted) \<and>
    (\<bar>imu_roll_degrees c\<bar> > 8 \<and> \<bar>vz (angular (desired_twist c zero_twist))\<bar> < 0.1 \<longrightarrow>
       \<bar>vz (angular (timer_callback now c))\<bar> \<le> 0.03 * critical_roll_degrees c)"
  using assms
  by (auto simp: timer_callback_def tilted_def Let_def slow_down_def correct_roll_def desired_twist_def abs_mult)

text \<open>With a model that has the joint and a cylindrical wheel the wheel speeds are the inverse of the
  kinematics of the robot: from them the linear speed and, off the centre line, the rate of turn of
  the command can be computed back.\<close>

theorem wheel_speeds_invert:
  assumes "wheel_speeds d r msg = Some (left, right)"
  shows "r \<noteq> 0 \<and> (left + right) * r / 2 = vx (linear msg) \<and>
    (d \<noteq> 0 \<longrightarrow> (right - left) * r / (2 * d) = vz (angular msg))"
proof -
  have r: "r \<noteq> 0" and left: "left = (vx (linear msg) - vz (angular msg) * d) / r"
    and right: "right = (vx (linear msg) + vz (angular msg) * d) / r"
    using assms by (auto simp: wheel_speeds_def Let_def float_div_def split: if_splits)
  have "left * r = vx (linear msg) - vz (angular msg) * d" "right * r = vx (linear msg) + vz (angular msg) * d"
    using r left right by simp_all
  then have "(left + right) * r = 2 * vx (linear msg)" "(right - left) * r = 2 * (vz (angular msg) * d)"
    by (simp_all add: distrib_right left_diff_distrib)
  with r show ?thesis by simp
qed

text \<open>Half a model is enough to move, the wrong way. The guard accepts a command when one of the
  two values of the model is positive. If the wheel is no cylinder the radius is -1 and the robot is
  commanded to drive backwards; if the joint is missing the distance is -1 and the turn is reversed.\<close>

theorem half_model_reverses:
  assumes "model_loaded c" "getJoint (model c) ''joint_front_left'' = Some y" "y \<noteq> 0"
    and "getLink (model c) ''front_left_wheel'' = Some (Some (Some Other_geometry))"
  shows "CommandCallback False msg c = Inr (All_motors
     [motor_message ID_FRONT_LEFT (vz (angular msg) * \<bar>y\<bar> - vx (linear msg)),
      motor_message ID_FRONT_RIGHT (- vx (linear msg) - vz (angular msg) * \<bar>y\<bar>),
      motor_message ID_REAR_LEFT (vz (angular msg) * \<bar>y\<bar> - vx (linear msg)),
      motor_message ID_REAR_RIGHT (- vx (linear msg) - vz (angular msg) * \<bar>y\<bar>)])"
  using assms
  by (simp add: CommandCallback_def GetWheelDistance_def GetWheelRadius_def wheel_speeds_def Let_def
      float_div_def PublishAllMotorsMessage_def)

text \<open>A loaded model without the link \<open>front_left_wheel\<close>, or with a link that has no visual, makes
  every velocity command go through a null pointer; a missing joint is only logged.\<close>

theorem missing_link_null_pointer:
  assumes "model_loaded c"
  shows "CommandCallback sim msg c = Inl Null_Pointer \<longleftrightarrow>
    getLink (model c) ''front_left_wheel'' \<in> {None, Some None, Some (Some None)}"
  using assms
  by (auto simp: CommandCallback_def GetWheelRadius_def Let_def split: option.splits geometry.splits)

text \<open>C23: From a velocity command to the motors: with a complete model the message of the chassis
  controller makes the all-wheels node command all four motors at once, the left ones and the right
  ones alike, with the wheel speed in revolutions per minute.\<close>

theorem command_reaches_motors:
  assumes "model_loaded c" "getJoint (model c) ''joint_front_left'' = Some d"
    and "getLink (model c) ''front_left_wheel'' = Some (Some (Some (Cylinder r)))" "r > 0"
  shows "\<exists>motors. CommandCallback False msg c = Inr (All_motors motors) \<and>
    (let left = (vx (linear msg) - vz (angular msg) * \<bar>d\<bar>) / r * 60 / (2 * pi);
         right = (vx (linear msg) + vz (angular msg) * \<bar>d\<bar>) / r * 60 / (2 * pi)
     in wheels_Callback C True motors s = c_SetAllRPM C left right left right s)"
proof -
  have circ: "2 * pi / (2 * pi * r) = 1 / r" by simp
  let ?l = "(vx (linear msg) - vz (angular msg) * \<bar>d\<bar>) / r" and ?r = "(vx (linear msg) + vz (angular msg) * \<bar>d\<bar>) / r"
  let ?m = "[motor_message ID_FRONT_LEFT ?l, motor_message ID_FRONT_RIGHT ?r, motor_message ID_REAR_LEFT ?l,
      motor_message ID_REAR_RIGHT ?r]"
  have "CommandCallback False msg c = Inr (All_motors ?m)"
    using assms by (simp add: CommandCallback_def GetWheelDistance_def GetWheelRadius_def wheel_speeds_def Let_def
        float_div_def PublishAllMotorsMessage_def)
  moreover have "modes_in ?m = {MODE_RADIANS_SECOND}"
    by (simp add: modes_in_Cons motor_message_def supported_mode_def)
  then have "wheels_Callback C True ?m s = c_SetAllRPM C (?l * 60 / (2 * pi)) (?r * 60 / (2 * pi)) (?l * 60 / (2 * pi)) (?r * 60 / (2 * pi)) s"
    by (simp add: wheels_Callback_cases last_value_def motor_message_def motor_speed_def)
  ultimately show ?thesis by (auto simp: Let_def)
qed


section \<open>Witnesses\<close>

definition sample_twist :: Twist where
  "sample_twist = \<lparr>linear = \<lparr>vx = 0.5, vy = 0, vz = 0\<rparr>, angular = \<lparr>vx = 0, vy = 0, vz = 0.05\<rparr>\<rparr>"

definition sample_imu_run :: "imu_event list" where
  "sample_imu_run = [Vel sample_twist 1000000000, Imu 12 1 0, Joy [0, 0, 0, 0, 0, 0, 0, 0]]"

lemma sample_imu:
  "\<exists>c. run_res imu_step (new_IMU_Controller 30 30 720 7 0.1 0) sample_imu_run = Inr c \<and>
     \<not> timed_out 1100000000 c \<and> \<not> tilted c \<and> imu_roll_degrees c = 12 \<and> d_pad_direction c = 0 \<and> twist_msg c = sample_twist"
  by (simp add: sample_imu_run_def imu_step_def joy_callback_def vel_callback_def imu_callback_def new_IMU_Controller_def
      real_to_i32_def fits_signed_def timed_out_def tilted_def)

theorem timer_callback_safe_witness:
  "\<exists>c. run_res imu_step (new_IMU_Controller 30 30 30 7 0.2 0) [Vel sample_twist 1000000000, Imu 12 0 0] = Inr c \<and>
     timer_callback 9000000000 c = zero_twist \<and> vx (linear (timer_callback 1100000000 c)) = vx (linear sample_twist)"
proof -
  obtain c where c: "run_res imu_step (new_IMU_Controller 30 30 30 7 0.2 0) [Vel sample_twist 1000000000, Imu 12 0 0] = Inr c"
    by (simp add: imu_step_def)
  from timer_callback_safe [OF c, of 9000000000] timer_callback_safe [OF c, of 1100000000] c show ?thesis
    by (auto simp: Let_def attitude_def velocity_def d_pad_def zero_twist_def zero_vec_def)
qed

theorem timer_callback_turn_witness:
  "\<exists>c. \<not> timed_out 1100000000 c \<and> \<not> tilted c \<and> vz (angular (timer_callback 1100000000 c)) = 0.36"
proof -
  obtain c where c: "\<not> timed_out 1100000000 c" "\<not> tilted c" "imu_roll_degrees c = 12" "d_pad_direction c = 0"
      "twist_msg c = sample_twist"
    using sample_imu by blast
  from timer_callback_turn [OF c(1,2)] c show ?thesis by (auto simp: sample_twist_def Let_def)
qed

theorem wheel_speeds_invert_witness:
  "\<exists>l r. wheel_speeds 0.1 0.05 sample_twist = Some (l, r) \<and> (l + r) * 0.05 / 2 = 0.5"
proof -
  obtain l r where "wheel_speeds 0.1 0.05 sample_twist = Some (l, r)"
    by (simp add: wheel_speeds_def float_div_def Let_def)
  from wheel_speeds_invert [OF this] this show ?thesis by (auto simp: sample_twist_def)
qed

definition sample_model :: "geometry option option option \<Rightarrow> DiffDriveController" where
  "sample_model link = \<lparr>model_loaded = True, model = \<lparr>getJoint = (\<lambda>_. Some 0.1), getLink = (\<lambda>_. link)\<rparr>\<rparr>"

theorem half_model_reverses_witness:
  "CommandCallback False sample_twist (sample_model (Some (Some (Some Other_geometry)))) = Inr (All_motors
     [motor_message ID_FRONT_LEFT (-0.495), motor_message ID_FRONT_RIGHT (-0.505),
      motor_message ID_REAR_LEFT (-0.495), motor_message ID_REAR_RIGHT (-0.505)])"
  using half_model_reverses [of "sample_model (Some (Some (Some Other_geometry)))" "0.1" sample_twist]
  by (simp add: sample_model_def sample_twist_def)

theorem missing_link_null_pointer_witness:
  "CommandCallback False sample_twist (sample_model None) = Inl Null_Pointer"
  using missing_link_null_pointer [of "sample_model None" False sample_twist] by (simp add: sample_model_def)

theorem command_reaches_motors_witness:
  "\<exists>motors. CommandCallback False sample_twist (sample_model (Some (Some (Some (Cylinder 0.05))))) = Inr (All_motors motors) \<and>
     wheels_Callback mock_communications True motors True = Inr ((), True)"
proof -
  have "\<exists>motors. CommandCallback False sample_twist (sample_model (Some (Some (Some (Cylinder 0.05))))) = Inr (All_motors motors) \<and>
    wheels_Callback mock_communications True motors True =
      c_SetAllRPM mock_communications (99 / 10 * 60 / (2 * pi)) (101 / 10 * 60 / (2 * pi)) (99 / 10 * 60 / (2 * pi)) (101 / 10 * 60 / (2 * pi)) True"
    using command_reaches_motors [of "sample_model (Some (Some (Some (Cylinder 0.05))))" "0.1" "0.05" sample_twist mock_communications True]
    by (simp add: sample_model_def sample_twist_def Let_def)
  then show ?thesis by (simp add: mock_communications_def)
qed

end
