(* ===== verification/Joystick.thy ===== *)
theory Joystick
  imports Dynamixel_Nodes
begin

text \<open>
  The joystick action controller (\<^verbatim>\<open>joystick_action_controller\<close>): the joystick node turns buttons into
  turret positions and into goals of two action servers, one client node for each, and the turret
  node limits the rate of its messages. All run in one single-threaded executor, so a callback is
  one step. What a step publishes or sends is its output. The action library is a parameter: whether
  a server is there in time is an argument of the step, its callbacks are events. Times are
  nanoseconds of the steady clock.
\<close>

section \<open>The action clients\<close>

datatype ResultCode = UNKNOWN | SUCCEEDED | CANCELED | ABORTED

text \<open>
  A client remembers whether an action is running; \<open>None\<close> is a member that was never initialised,
  which may not be read. \<open>Start\<close> is given whether the server answers within the delay.
\<close>

record AcousticActionClient =
  a_action_running :: "bool option"

definition new_AcousticActionClient :: AcousticActionClient where
  "new_AcousticActionClient = \<lparr>a_action_running = Some False\<rparr>"

definition acoustic_Start :: "bool \<Rightarrow> AcousticActionClient \<Rightarrow> fault + (AcousticActionClient \<times> bool list)" where
  "acoustic_Start wait_for_action_server c = (case a_action_running c of
     None \<Rightarrow> Inl Undefined_Behaviour
   | Some running \<Rightarrow>
       if \<not> running then
         let c = c\<lparr>a_action_running := Some True\<rparr>
         in if \<not> wait_for_action_server then Inr (c\<lparr>a_action_running := Some False\<rparr>, [])
            else let enable = True in Inr (c, [enable])
       else Inr (c, []))"

definition acoustic_GoalResposeCallback :: "bool \<Rightarrow> AcousticActionClient \<Rightarrow> AcousticActionClient" where
  "acoustic_GoalResposeCallback goal_handle c = c"

definition acoustic_FeedbackCallback :: "AcousticActionClient \<Rightarrow> AcousticActionClient" where
  "acoustic_FeedbackCallback c = c"

definition acoustic_ResultCallback :: "ResultCode \<Rightarrow> AcousticActionClient \<Rightarrow> AcousticActionClient" where
  "acoustic_ResultCallback code c = (case code of
     SUCCEEDED \<Rightarrow> c\<lparr>a_action_running := Some False\<rparr>
   | ABORTED \<Rightarrow> c
   | CANCELED \<Rightarrow> c
   | UNKNOWN \<Rightarrow> c)"

text \<open>The constructor of the ultrasonic client does not initialise the flag.\<close>

record UltrasonicActionClient =
  u_action_running :: "bool option"

definition new_UltrasonicActionClient :: UltrasonicActionClient where
  "new_UltrasonicActionClient = \<lparr>u_action_running = None\<rparr>"

definition ultrasonic_Start :: "bool \<Rightarrow> UltrasonicActionClient \<Rightarrow> fault + (UltrasonicActionClient \<times> bool list)" where
  "ultrasonic_Start wait_for_action_server c = (case u_action_running c of
     None \<Rightarrow> Inl Undefined_Behaviour
   | Some running \<Rightarrow>
       if \<not> running then
         let c = c\<lparr>u_action_running := Some True\<rparr>
         in if \<not> wait_for_action_server then Inr (c\<lparr>u_action_running := Some False\<rparr>, [])
            else let start = True in Inr (c, [start])
       else Inr (c, []))"

definition ultrasonic_GoalResposeCallback :: "bool \<Rightarrow> UltrasonicActionClient \<Rightarrow> UltrasonicActionClient" where
  "ultrasonic_GoalResposeCallback goal_handle c = c"

definition ultrasonic_FeedbackCallback :: "UltrasonicActionClient \<Rightarrow> UltrasonicActionClient" where
  "ultrasonic_FeedbackCallback c = c"

definition ultrasonic_ResultCallback :: "ResultCode \<Rightarrow> UltrasonicActionClient \<Rightarrow> UltrasonicActionClient" where
  "ultrasonic_ResultCallback code c = (case code of
     SUCCEEDED \<Rightarrow> c\<lparr>u_action_running := Some False\<rparr>
   | ABORTED \<Rightarrow> c
   | CANCELED \<Rightarrow> c
   | UNKNOWN \<Rightarrow> c)"

text \<open>What happens to a client: a call of \<open>Start\<close>, or a callback of the action library.\<close>

datatype client_event = Start bool | Goal_response bool | Feedback | Result ResultCode

definition acoustic_step :: "AcousticActionClient \<Rightarrow> client_event \<Rightarrow> fault + (AcousticActionClient \<times> bool list)" where
  "acoustic_step c e = (case e of
     Start w \<Rightarrow> acoustic_Start w c
   | Goal_response g \<Rightarrow> Inr (acoustic_GoalResposeCallback g c, [])
   | Feedback \<Rightarrow> Inr (acoustic_FeedbackCallback c, [])
   | Result r \<Rightarrow> Inr (acoustic_ResultCallback r c, []))"

definition ultrasonic_step :: "UltrasonicActionClient \<Rightarrow> client_event \<Rightarrow> fault + (UltrasonicActionClient \<times> bool list)" where
  "ultrasonic_step c e = (case e of
     Start w \<Rightarrow> ultrasonic_Start w c
   | Goal_response g \<Rightarrow> Inr (ultrasonic_GoalResposeCallback g c, [])
   | Feedback \<Rightarrow> Inr (ultrasonic_FeedbackCallback c, [])
   | Result r \<Rightarrow> Inr (ultrasonic_ResultCallback r c, []))"

section \<open>The turret node\<close>

text \<open>The static time of the last message starts at the epoch of the clock.\<close>

record ServoTurretNode =
  last_called :: int

abbreviation servo_wait_delay_ns :: int where "servo_wait_delay_ns \<equiv> 1000000000"

definition new_ServoTurretNode :: ServoTurretNode where
  "new_ServoTurretNode = \<lparr>last_called = 0\<rparr>"

definition turret_SetPosition :: "int \<Rightarrow> i16 \<Rightarrow> ServoTurretNode \<Rightarrow> ServoTurretNode \<times> i16 list" where
  "turret_SetPosition now degrees n =
     (if now - last_called n > servo_wait_delay_ns then (n\<lparr>last_called := now\<rparr>, [degrees]) else (n, []))"

section \<open>The joystick node\<close>

datatype joy_output = Servo_turret int i16 | Acoustic_goal bool | Ultrasonic_goal bool

record JoystickNode =
  button_rotate_turret_forward :: int
  button_rotate_turret_backward :: int
  button_start_acoustic :: int
  button_start_ultrasonic :: int
  acoustic_client :: "AcousticActionClient option"
  servo_turret :: "ServoTurretNode option"
  ultrasonic_client :: "UltrasonicActionClient option"

abbreviation kTurretAngleForward :: i16 where "kTurretAngleForward \<equiv> 0"
abbreviation kTurretAngleBackward :: i16 where "kTurretAngleBackward \<equiv> 180"

text \<open>
  The node's parameters by name. The forward parameter goes to the backward member and the backward
  parameter to the forward one, as the constructor has it.
\<close>

definition new_JoystickNode :: "(string \<Rightarrow> int) \<Rightarrow> JoystickNode" where
  "new_JoystickNode get_parameter =
     \<lparr>button_rotate_turret_forward = get_parameter ''button_rotate_turret_backward'',
      button_rotate_turret_backward = get_parameter ''button_rotate_turret_forward'',
      button_start_acoustic = get_parameter ''button_start_acoustic'',
      button_start_ultrasonic = get_parameter ''button_start_ultrasonic'',
      acoustic_client = None, servo_turret = None, ultrasonic_client = None\<rparr>"

definition default_buttons :: "string \<Rightarrow> int" where
  "default_buttons name =
     (if name = ''button_rotate_turret_forward'' then 3
      else if name = ''button_rotate_turret_backward'' then 2
      else if name = ''button_start_acoustic'' then 0
      else 1)"

definition AddAcousticClient :: "AcousticActionClient \<Rightarrow> JoystickNode \<Rightarrow> JoystickNode" where
  "AddAcousticClient client n = n\<lparr>acoustic_client := Some client\<rparr>"

definition AddServoTurret :: "ServoTurretNode \<Rightarrow> JoystickNode \<Rightarrow> JoystickNode" where
  "AddServoTurret turret n = n\<lparr>servo_turret := Some turret\<rparr>"

definition AddUltrasonicClient :: "UltrasonicActionClient \<Rightarrow> JoystickNode \<Rightarrow> JoystickNode" where
  "AddUltrasonicClient client n = n\<lparr>ultrasonic_client := Some client\<rparr>"

text \<open>The operations add what they publish to the output in the state.\<close>

type_synonym joystick = "JoystickNode \<times> joy_output list"

definition RotateTurret :: "int \<Rightarrow> i16 \<Rightarrow> (joystick, unit) prog" where
  "RotateTurret now new_angle = (\<lambda>(n, out). case servo_turret n of
     None \<Rightarrow> Inl Null_Pointer
   | Some t \<Rightarrow> (case turret_SetPosition now new_angle t of
       (t', msgs) \<Rightarrow> Inr ((), n\<lparr>servo_turret := Some t'\<rparr>, out @ map (Servo_turret now) msgs)))"

definition StartAcousticAction :: "bool \<Rightarrow> (joystick, unit) prog" where
  "StartAcousticAction w = (\<lambda>(n, out). case acoustic_client n of
     None \<Rightarrow> Inl Null_Pointer
   | Some c \<Rightarrow> (case acoustic_Start w c of
       Inl f \<Rightarrow> Inl f
     | Inr (c', gs) \<Rightarrow> Inr ((), n\<lparr>acoustic_client := Some c'\<rparr>, out @ map Acoustic_goal gs)))"

definition StartUltrasonicAction :: "bool \<Rightarrow> (joystick, unit) prog" where
  "StartUltrasonicAction w = (\<lambda>(n, out). case ultrasonic_client n of
     None \<Rightarrow> Inl Null_Pointer
   | Some c \<Rightarrow> (case ultrasonic_Start w c of
       Inl f \<Rightarrow> Inl f
     | Inr (c', gs) \<Rightarrow> Inr ((), n\<lparr>ultrasonic_client := Some c'\<rparr>, out @ map Ultrasonic_goal gs)))"

text \<open>\<open>msg->buttons[i]\<close>: the vector does not check the index.\<close>

definition pressed :: "i32 list \<Rightarrow> (JoystickNode \<Rightarrow> int) \<Rightarrow> (joystick, bool) prog" where
  "pressed buttons index = (\<lambda>(n, out).
     if 0 \<le> index n \<and> index n < int (length buttons) then Inr (buttons ! nat (index n) \<noteq> 0, n, out)
     else Inl Undefined_Behaviour)"

definition when_pressed :: "i32 list \<Rightarrow> (JoystickNode \<Rightarrow> int) \<Rightarrow> (joystick, unit) prog \<Rightarrow> (joystick, unit) prog" where
  "when_pressed buttons index action = bnd (pressed buttons index) (\<lambda>p. if p then action else ret ())"

text \<open>The clock is read once for each turret button, the servers are waited for once each.\<close>

definition joystick_Callback :: "int \<times> int \<Rightarrow> bool \<times> bool \<Rightarrow> i32 list \<Rightarrow> (joystick, unit) prog" where
  "joystick_Callback clock servers buttons =
     seqp (when_pressed buttons button_rotate_turret_forward (RotateTurret (fst clock) kTurretAngleForward))
     (seqp (when_pressed buttons button_rotate_turret_backward (RotateTurret (snd clock) kTurretAngleBackward))
     (seqp (when_pressed buttons button_start_acoustic (StartAcousticAction (fst servers)))
           (when_pressed buttons button_start_ultrasonic (StartUltrasonicAction (snd servers)))))"

text \<open>The program: the nodes as \<open>main\<close> connects them, and what the executor may call.\<close>

definition joystick_main :: "(string \<Rightarrow> int) \<Rightarrow> JoystickNode" where
  "joystick_main get_parameter =
     AddUltrasonicClient new_UltrasonicActionClient
       (AddServoTurret new_ServoTurretNode
         (AddAcousticClient new_AcousticActionClient (new_JoystickNode get_parameter)))"

datatype joystick_event =
  Joy_message "int \<times> int" "bool \<times> bool" "i32 list" | Acoustic_event client_event | Ultrasonic_event client_event

definition joystick_step :: "JoystickNode \<Rightarrow> joystick_event \<Rightarrow> fault + (JoystickNode \<times> joy_output list)" where
  "joystick_step n e = (case e of
     Joy_message clock servers buttons \<Rightarrow> map_sum id snd (joystick_Callback clock servers buttons (n, []))
   | Acoustic_event ce \<Rightarrow> (case acoustic_client n of
       None \<Rightarrow> Inr (n, [])
     | Some c \<Rightarrow> (case acoustic_step c ce of
         Inl f \<Rightarrow> Inl f
       | Inr (c', gs) \<Rightarrow> Inr (n\<lparr>acoustic_client := Some c'\<rparr>, map Acoustic_goal gs)))
   | Ultrasonic_event ce \<Rightarrow> (case ultrasonic_client n of
       None \<Rightarrow> Inr (n, [])
     | Some c \<Rightarrow> (case ultrasonic_step c ce of
         Inl f \<Rightarrow> Inl f
       | Inr (c', gs) \<Rightarrow> Inr (n\<lparr>ultrasonic_client := Some c'\<rparr>, map Ultrasonic_goal gs))))"

section \<open>The contract of an action client\<close>

text \<open>
  The abstract client has nothing but the flag. Both classes implement it, so what is proved of the
  abstract client in the locale holds of both.
\<close>

definition client_spec :: "bool option \<Rightarrow> client_event \<Rightarrow> fault + (bool option \<times> bool list)" where
  "client_spec r e = (case e of
     Start w \<Rightarrow> (case r of None \<Rightarrow> Inl Undefined_Behaviour
       | Some running \<Rightarrow> if running then Inr (Some True, []) else Inr (Some w, if w then [True] else []))
   | Result c \<Rightarrow> Inr (if c = SUCCEEDED then Some False else r, [])
   | _ \<Rightarrow> Inr (r, []))"

lemma client_spec_silent: "Inr (r', gs) = client_spec (Some True) e \<Longrightarrow> e \<noteq> Result SUCCEEDED \<Longrightarrow> r' = Some True \<and> gs = []"
  by (auto simp: client_spec_def split: client_event.splits if_splits)

definition successes :: "client_event list \<Rightarrow> nat" where
  "successes es = count_list es (Result SUCCEEDED)"

text \<open>
  The goals in terms of the history alone. \<open>goal_open\<close>: a goal has been sent, by a press the server was
  there for, and no success has been reported since. \<open>sends_goal es i\<close>: the event \<open>i\<close> is a press that
  the server is there for, and every such press before it has been followed by a success.
\<close>

definition goal_open :: "client_event list \<Rightarrow> bool" where
  "goal_open es \<longleftrightarrow> (\<exists>j < length es. es ! j = Start True \<and> (\<forall>k < length es. j < k \<longrightarrow> es ! k \<noteq> Result SUCCEEDED))"

definition sends_goal :: "client_event list \<Rightarrow> nat \<Rightarrow> bool" where
  "sends_goal es i \<longleftrightarrow> es ! i = Start True \<and>
     (\<forall>j < i. es ! j = Start True \<longrightarrow> (\<exists>k < i. j < k \<and> es ! k = Result SUCCEEDED))"

definition goals_due :: "client_event list \<Rightarrow> nat" where
  "goals_due es = card {i. i < length es \<and> sends_goal es i}"

lemma sends_goal_append:
  assumes "i < length es"
  shows "sends_goal (es @ es') i \<longleftrightarrow> sends_goal es i"
proof -
  have e: "j \<le> i \<Longrightarrow> (es @ es') ! j = es ! j" for j using assms by (simp add: nth_append)
  show ?thesis unfolding sends_goal_def by (simp add: e cong: conj_cong)
qed

lemma sends_goal_last: "sends_goal (es @ [e]) (length es) \<longleftrightarrow> e = Start True \<and> \<not> goal_open es"
proof -
  have "sends_goal (es @ [e]) (length es) \<longleftrightarrow> e = Start True \<and>
     (\<forall>j < length es. es ! j = Start True \<longrightarrow> (\<exists>k < length es. j < k \<and> es ! k = Result SUCCEEDED))"
    unfolding sends_goal_def by (simp add: nth_append cong: conj_cong)
  then show ?thesis unfolding goal_open_def by blast
qed

lemma goal_open_snoc:
  "goal_open (es @ [e]) \<longleftrightarrow> e = Start True \<or> goal_open es \<and> e \<noteq> Result SUCCEEDED"
proof -
  have ex: "(\<exists>j < length (es @ [e]). P j) \<longleftrightarrow> P (length es) \<or> (\<exists>j < length es. P j)"
    and all: "(\<forall>j < length (es @ [e]). P j) \<longleftrightarrow> P (length es) \<and> (\<forall>j < length es. P j)" for P
    by (auto simp: less_Suc_eq)
  have "goal_open (es @ [e]) \<longleftrightarrow> e = Start True \<or>
     (\<exists>j < length es. es ! j = Start True \<and> e \<noteq> Result SUCCEEDED \<and> (\<forall>k < length es. j < k \<longrightarrow> es ! k \<noteq> Result SUCCEEDED))"
    unfolding goal_open_def ex all by (simp add: nth_append cong: conj_cong)
  then show ?thesis unfolding goal_open_def by blast
qed

lemma goals_due_snoc: "goals_due (es @ [e]) = goals_due es + (if e = Start True \<and> \<not> goal_open es then 1 else 0)"
proof -
  let ?A = "{i. i < length es \<and> sends_goal es i}"
  have "{i. i < length (es @ [e]) \<and> sends_goal (es @ [e]) i} = (if e = Start True \<and> \<not> goal_open es then insert (length es) ?A else ?A)"
    by (auto simp: less_Suc_eq sends_goal_append sends_goal_last)
  then show ?thesis by (simp add: goals_due_def)
qed

locale action_client =
  fixes cstep :: "'c \<Rightarrow> client_event \<Rightarrow> fault + ('c \<times> bool list)"
    and running :: "'c \<Rightarrow> bool option"
  assumes simulates: "map_sum id (apfst running) (cstep c e) = client_spec (running c) e"
begin

lemma run_simulates: "map_sum id (apfst running) (emit_run cstep c es) = emit_run client_spec (running c) es"
proof (induction es arbitrary: c)
  case (Cons e es)
  have spec: "client_spec (running c) e = map_sum id (apfst running) (cstep c e)"
    by (rule simulates [symmetric])
  show ?case
  proof (cases "cstep c e")
    case (Inl f)
    then show ?thesis by (simp add: spec)
  next
    case (Inr r)
    obtain c' out where r: "r = (c', out)" by force
    have "emit_run client_spec (running c') es = map_sum id (apfst running) (emit_run cstep c' es)"
      by (rule Cons [symmetric])
    then show ?thesis
      by (simp add: spec Inr r split: sum.split prod.split)
  qed
qed simp

lemma step_spec: "cstep c e = Inr (c', gs) \<Longrightarrow> client_spec (running c) e = Inr (running c', gs)"
  using simulates [of c e] by simp

lemma goals_bounded:
  assumes "emit_run cstep c es = Inr (c', gs)" "running c = Some b"
  shows "length gs + (if b then 1 else 0) \<le> Suc (successes es) \<and> set gs \<subseteq> {True}"
  using assms
proof (induction es arbitrary: c b gs)
  case (Cons e es)
  from Cons.prems(1) obtain c1 out out' where 1: "cstep c e = Inr (c1, out)"
    "emit_run cstep c1 es = Inr (c', out')" "gs = out @ out'" by (rule emit_run_ConsE)
  obtain b' where b': "running c1 = Some b'"
    and step: "length out + (if b then 1 else 0) \<le> (if e = Result SUCCEEDED then 1 else 0) + (if b' then 1 else 0)"
      "set out \<subseteq> {True}"
    using step_spec [OF 1(1)] Cons.prems(2)
    by (cases "running c1"; cases e) (auto simp: client_spec_def split: if_splits)
  show ?case
    using Cons.IH [OF 1(2) b'] step by (auto simp: successes_def 1(3) split: if_splits)
qed (simp add: successes_def)

lemma goals_of_history:
  assumes "running c = Some False"
  shows "\<exists>c'. emit_run cstep c es = Inr (c', replicate (goals_due es) True) \<and> running c' = Some (goal_open es)"
proof (induction es rule: rev_induct)
  case Nil
  then show ?case using assms by (simp add: goals_due_def goal_open_def)
next
  case (snoc e es)
  then obtain c1 where c1: "emit_run cstep c es = Inr (c1, replicate (goals_due es) True)" "running c1 = Some (goal_open es)"
    by blast
  have "client_spec (running c1) e =
      Inr (Some (goal_open (es @ [e])), if e = Start True \<and> \<not> goal_open es then [True] else [])"
    unfolding c1(2) by (auto simp: client_spec_def goal_open_snoc split: client_event.split)
  then obtain c' where "cstep c1 e = Inr (c', if e = Start True \<and> \<not> goal_open es then [True] else [])"
      "running c' = Some (goal_open (es @ [e]))"
    using simulates [of c1 e] by (cases "cstep c1 e") auto
  with c1(1) show ?case
    by (auto simp: emit_run_append goals_due_snoc replicate_app_Cons_same [symmetric] simp flip: replicate_append_same)
qed

lemma blocked:
  assumes "running c = Some True" "Result SUCCEEDED \<notin> set es"
  shows "\<exists>c'. emit_run cstep c es = Inr (c', []) \<and> running c' = Some True"
  using assms
proof (induction es arbitrary: c)
  case (Cons e es)
  have "client_spec (running c) e = Inr (Some True, [])"
    using Cons.prems by (auto simp: client_spec_def split: client_event.splits)
  then obtain c1 where 1: "cstep c e = Inr (c1, [])" "running c1 = Some True"
    using simulates [of c e] by (cases "cstep c e") auto
  with Cons.IH [OF 1(2)] Cons.prems(2) show ?case by auto
qed simp

end

interpretation acoustic: action_client acoustic_step a_action_running
  by unfold_locales (auto simp: acoustic_step_def acoustic_Start_def acoustic_GoalResposeCallback_def
      acoustic_FeedbackCallback_def acoustic_ResultCallback_def client_spec_def Let_def
      split: client_event.splits option.splits ResultCode.splits)

interpretation ultrasonic: action_client ultrasonic_step u_action_running
  by unfold_locales (auto simp: ultrasonic_step_def ultrasonic_Start_def ultrasonic_GoalResposeCallback_def
      ultrasonic_FeedbackCallback_def ultrasonic_ResultCallback_def client_spec_def Let_def
      split: client_event.splits option.splits ResultCode.splits)

section \<open>The turret node over a run\<close>

text \<open>The turret messages of an output, and what keeps them apart: their times lie more than the delay
  apart, the first one that far from the last time the node remembers.\<close>

fun turret_times :: "joy_output list \<Rightarrow> int list" where
  "turret_times [] = []"
| "turret_times (Servo_turret now a # os) = now # turret_times os"
| "turret_times (_ # os) = turret_times os"

lemma turret_times_append [simp]: "turret_times (xs @ ys) = turret_times xs @ turret_times ys"
  by (induction xs rule: turret_times.induct) auto

lemma turret_times_goals [simp]:
  "turret_times (map Acoustic_goal gs) = []" "turret_times (map Ultrasonic_goal gs) = []"
  by (induction gs) auto

fun spaced :: "int \<Rightarrow> int list \<Rightarrow> bool" where
  "spaced t [] \<longleftrightarrow> True"
| "spaced t (u # us) \<longleftrightarrow> u - t > servo_wait_delay_ns \<and> spaced u us"

lemma spaced_append: "spaced t (us @ vs) \<longleftrightarrow> spaced t us \<and> spaced (last (t # us)) vs"
  by (induction us arbitrary: t) auto

lemma spaced_sorted: "spaced t us \<Longrightarrow> sorted_wrt (\<lambda>u v. v - u > servo_wait_delay_ns) (t # us)"
proof (induction us arbitrary: t)
  case (Cons u us)
  from Cons.prems have u: "u - t > servo_wait_delay_ns" "spaced u us" by simp_all
  from Cons.IH [OF u(2)] have us: "\<forall>v \<in> set us. v - u > servo_wait_delay_ns"
    "sorted_wrt (\<lambda>u v. v - u > servo_wait_delay_ns) us" by simp_all
  have "v - t > servo_wait_delay_ns" if "v \<in> set us" for v
    using us(1) that u(1) by fastforce
  with u(1) us show ?case by simp
qed simp

text \<open>What each operation may do to the turret and to the output: \<open>last_time\<close> is the time of the last
  message, and an operation only adds messages that keep the spacing.\<close>

definition last_time :: "JoystickNode \<Rightarrow> int" where
  "last_time n = (case servo_turret n of None \<Rightarrow> 0 | Some t \<Rightarrow> last_called t)"

definition spaced_op :: "(joystick, 'a) prog \<Rightarrow> bool" where
  "spaced_op m \<longleftrightarrow> (\<forall>n out x n' out'. m (n, out) = Inr (x, n', out') \<longrightarrow>
     (\<exists>new. out' = out @ new \<and> spaced (last_time n) (turret_times new) \<and>
       last_time n' = last (last_time n # turret_times new)))"

lemma spaced_opI:
  assumes "\<And>n out x n' out'. m (n, out) = Inr (x, n', out') \<Longrightarrow>
    out' = out @ drop (length out) out' \<and> spaced (last_time n) (turret_times (drop (length out) out')) \<and>
      last_time n' = last (last_time n # turret_times (drop (length out) out'))"
  shows "spaced_op m"
  using assms unfolding spaced_op_def by blast

lemma spaced_opD:
  assumes "spaced_op m" "m (n, out) = Inr (x, n', out')"
  obtains new where "out' = out @ new" "spaced (last_time n) (turret_times new)"
    "last_time n' = last (last_time n # turret_times new)"
  using assms unfolding spaced_op_def by blast

lemma last_chain: "last (last (t # us) # vs) = last (t # us @ vs)"
  by (cases vs rule: rev_cases) auto

lemma spaced_op_bnd:
  assumes "spaced_op m" "\<And>x. spaced_op (k x)"
  shows "spaced_op (bnd m k)"
proof (rule spaced_opI)
  fix n out x n' out'
  assume "bnd m k (n, out) = Inr (x, n', out')"
  then obtain y n1 out1 where 1: "m (n, out) = Inr (y, n1, out1)" "k y (n1, out1) = Inr (x, n', out')"
    by (auto elim!: bnd_InrE)
  from spaced_opD [OF assms(1) 1(1)] obtain new1 where new1: "out1 = out @ new1"
    "spaced (last_time n) (turret_times new1)" "last_time n1 = last (last_time n # turret_times new1)" .
  from spaced_opD [OF assms(2) 1(2)] obtain new2 where new2: "out' = out1 @ new2"
    "spaced (last_time n1) (turret_times new2)" "last_time n' = last (last_time n1 # turret_times new2)" .
  have "out' = out @ new1 @ new2" by (simp add: new1(1) new2(1))
  then show "out' = out @ drop (length out) out' \<and> spaced (last_time n) (turret_times (drop (length out) out')) \<and>
      last_time n' = last (last_time n # turret_times (drop (length out) out'))"
    using new1(2,3) new2(2,3) by (simp add: spaced_append last_chain del: last.simps)
qed

lemma spaced_op_seqp: "spaced_op m \<Longrightarrow> spaced_op m' \<Longrightarrow> spaced_op (seqp m m')"
  unfolding seqp_def by (rule spaced_op_bnd)

lemma spaced_op_ret: "spaced_op (ret x)"
  by (rule spaced_opI) simp

lemma spaced_op_pressed: "spaced_op (pressed buttons i)"
  by (rule spaced_opI) (auto simp: pressed_def split: if_splits)

lemma spaced_op_when: "spaced_op m \<Longrightarrow> spaced_op (when_pressed buttons i m)"
  unfolding when_pressed_def
  by (rule spaced_op_bnd, rule spaced_op_pressed) (simp add: spaced_op_ret)

lemma spaced_op_turret: "spaced_op (RotateTurret now a)"
  by (rule spaced_opI)
    (auto simp: RotateTurret_def turret_SetPosition_def last_time_def split: option.splits if_splits)

lemma spaced_op_acoustic: "spaced_op (StartAcousticAction w)"
  by (rule spaced_opI) (auto simp: StartAcousticAction_def last_time_def split: option.splits sum.splits)

lemma spaced_op_ultrasonic: "spaced_op (StartUltrasonicAction w)"
  by (rule spaced_opI) (auto simp: StartUltrasonicAction_def last_time_def split: option.splits sum.splits)

lemmas spaced_op_rules = spaced_op_seqp spaced_op_when spaced_op_turret spaced_op_acoustic spaced_op_ultrasonic

lemma spaced_op_Callback: "spaced_op (joystick_Callback clock servers buttons)"
  unfolding joystick_Callback_def by (intro spaced_op_rules)

lemma spaced_step:
  assumes "joystick_step n e = Inr (n', new)"
  shows "spaced (last_time n) (turret_times new) \<and> last_time n' = last (last_time n # turret_times new)"
proof (cases e)
  case (Joy_message clock servers buttons)
  with assms obtain x where "joystick_Callback clock servers buttons (n, []) = Inr (x, n', new)"
    by (cases "joystick_Callback clock servers buttons (n, [])") (auto simp: joystick_step_def)
  then show ?thesis by (rule spaced_opD [OF spaced_op_Callback]) simp
qed (use assms in \<open>auto simp: joystick_step_def last_time_def split: option.splits sum.splits\<close>)

lemma spaced_run: "emit_run joystick_step n es = Inr (n', out) \<Longrightarrow> spaced (last_time n) (turret_times out)"
proof (induction es arbitrary: n out)
  case (Cons e es)
  from Cons.prems obtain n1 new out' where 1: "joystick_step n e = Inr (n1, new)"
    "emit_run joystick_step n1 es = Inr (n', out')" "out = new @ out'" by (rule emit_run_ConsE)
  from spaced_step [OF 1(1)] Cons.IH [OF 1(2)] 1(3) show ?case by (simp add: spaced_append)
qed simp

section \<open>The uninitialised flag over a run\<close>

lemma when_pressed_yes:
  "index n = int i \<Longrightarrow> i < length buttons \<Longrightarrow> buttons ! i \<noteq> 0 \<Longrightarrow> when_pressed buttons index m (n, out) = m (n, out)"
  by (simp add: when_pressed_def pressed_def bnd_def)

lemma when_pressed_no:
  "index n = int i \<Longrightarrow> i < length buttons \<Longrightarrow> buttons ! i = 0 \<Longrightarrow> when_pressed buttons index m (n, out) = Inr ((), n, out)"
  by (simp add: when_pressed_def pressed_def bnd_def)

text \<open>While no ultrasonic goal could be sent: the turret is there, the acoustic client is initialised, the
  ultrasonic one is as constructed. An operation is quiet when it keeps this, or is undefined.\<close>

definition as_constructed :: "int \<Rightarrow> JoystickNode \<Rightarrow> bool" where
  "as_constructed i n \<longleftrightarrow> servo_turret n \<noteq> None \<and>
     (\<exists>c. acoustic_client n = Some c \<and> a_action_running c \<noteq> None) \<and>
     ultrasonic_client n = Some new_UltrasonicActionClient \<and> button_start_ultrasonic n = i"

fun no_ultrasonic_goal :: "joy_output list \<Rightarrow> bool" where
  "no_ultrasonic_goal [] \<longleftrightarrow> True"
| "no_ultrasonic_goal (Ultrasonic_goal b # os) \<longleftrightarrow> False"
| "no_ultrasonic_goal (_ # os) \<longleftrightarrow> no_ultrasonic_goal os"

lemma no_ultrasonic_goal_append [simp]:
  "no_ultrasonic_goal (xs @ ys) \<longleftrightarrow> no_ultrasonic_goal xs \<and> no_ultrasonic_goal ys"
  by (induction xs rule: no_ultrasonic_goal.induct) auto

lemma no_ultrasonic_goal_map [simp]: "no_ultrasonic_goal (map Acoustic_goal gs)"
  by (induction gs) auto

definition quiet :: "(joystick, 'a) prog \<Rightarrow> bool" where
  "quiet m \<longleftrightarrow> (\<forall>i n out. as_constructed i n \<and> no_ultrasonic_goal out \<longrightarrow> (case m (n, out) of
     Inl f \<Rightarrow> f = Undefined_Behaviour
   | Inr (x, n', out') \<Rightarrow> as_constructed i n' \<and> no_ultrasonic_goal out'))"

lemma quiet_cases:
  assumes "quiet m" "as_constructed i n" "no_ultrasonic_goal out"
  obtains "m (n, out) = Inl Undefined_Behaviour"
  | x n' out' where "m (n, out) = Inr (x, n', out')" "as_constructed i n'" "no_ultrasonic_goal out'"
proof -
  have "case m (n, out) of Inl f \<Rightarrow> f = Undefined_Behaviour
     | Inr (x, n', out') \<Rightarrow> as_constructed i n' \<and> no_ultrasonic_goal out'"
    using assms unfolding quiet_def by blast
  then show thesis using that by (cases "m (n, out)") (auto split: prod.splits)
qed

lemma quiet_bnd:
  assumes "quiet m" "\<And>x. quiet (k x)"
  shows "quiet (bnd m k)"
  unfolding quiet_def
proof (intro allI impI)
  fix i n out
  assume "as_constructed i n \<and> no_ultrasonic_goal out"
  then have n: "as_constructed i n" "no_ultrasonic_goal out" by simp_all
  show "case bnd m k (n, out) of Inl f \<Rightarrow> f = Undefined_Behaviour
     | Inr (x, n', out') \<Rightarrow> as_constructed i n' \<and> no_ultrasonic_goal out'"
  proof (cases rule: quiet_cases [OF assms(1) n])
    case (2 x n1 out1)
    then show ?thesis by (cases rule: quiet_cases [OF assms(2) 2(2,3), of x]) simp_all
  qed simp
qed

lemma quiet_seqp: "quiet m \<Longrightarrow> quiet m' \<Longrightarrow> quiet (seqp m m')"
  unfolding seqp_def by (rule quiet_bnd)

lemma quiet_when: "quiet m \<Longrightarrow> quiet (when_pressed buttons i m)"
  unfolding when_pressed_def
  by (rule quiet_bnd) (auto simp: quiet_def pressed_def)

lemma quiet_turret: "quiet (RotateTurret now a)"
  by (auto simp: quiet_def RotateTurret_def turret_SetPosition_def as_constructed_def)

lemma quiet_acoustic: "quiet (StartAcousticAction w)"
  by (auto simp: quiet_def StartAcousticAction_def acoustic_Start_def Let_def as_constructed_def)

lemmas quiet_rules = quiet_seqp quiet_when quiet_turret quiet_acoustic

definition before_ultrasonic :: "int \<times> int \<Rightarrow> bool \<Rightarrow> i32 list \<Rightarrow> (joystick, unit) prog" where
  "before_ultrasonic clock w buttons =
     seqp (when_pressed buttons button_rotate_turret_forward (RotateTurret (fst clock) kTurretAngleForward))
     (seqp (when_pressed buttons button_rotate_turret_backward (RotateTurret (snd clock) kTurretAngleBackward))
           (when_pressed buttons button_start_acoustic (StartAcousticAction w)))"

lemma seqp_assoc: "seqp (seqp a b) c = seqp a (seqp b c)"
  by (auto simp: seqp_def bnd_def split: sum.splits prod.splits)

lemma joystick_Callback_split: "joystick_Callback clock servers buttons =
    seqp (before_ultrasonic clock (fst servers) buttons)
      (when_pressed buttons button_start_ultrasonic (StartUltrasonicAction (snd servers)))"
  by (simp add: joystick_Callback_def before_ultrasonic_def seqp_assoc)

lemma quiet_before: "quiet (before_ultrasonic clock w buttons)"
  unfolding before_ultrasonic_def by (intro quiet_rules)

text \<open>From such a state a press is undefined, and a callback that returns has not pressed the button.\<close>

lemma when_ultrasonic:
  assumes "as_constructed i n"
  shows "when_pressed buttons button_start_ultrasonic (StartUltrasonicAction w) (n, out) =
    (if 0 \<le> i \<and> i < int (length buttons) \<and> buttons ! nat i = 0 then Inr ((), n, out) else Inl Undefined_Behaviour)"
  using assms
  by (auto simp: when_pressed_def pressed_def bnd_def StartUltrasonicAction_def ultrasonic_Start_def
      as_constructed_def new_UltrasonicActionClient_def)

lemma joystick_Callback_constructed:
  assumes "as_constructed i n" "no_ultrasonic_goal out"
  shows "joystick_Callback clock servers buttons (n, out) = Inl Undefined_Behaviour \<or>
    0 \<le> i \<and> i < int (length buttons) \<and> buttons ! nat i = 0 \<and>
    (\<exists>x n' out'. joystick_Callback clock servers buttons (n, out) = Inr (x, n', out') \<and>
       as_constructed i n' \<and> no_ultrasonic_goal out')"
  using quiet_before [of clock "fst servers" buttons] assms
  by (rule quiet_cases) (auto simp: joystick_Callback_split when_ultrasonic)

lemma joystick_step_constructed:
  assumes "as_constructed i n" "joystick_step n e = Inr (n', out)" "\<forall>ce. e \<noteq> Ultrasonic_event ce"
  shows "as_constructed i n' \<and> no_ultrasonic_goal out"
proof (cases e)
  case (Joy_message clock servers buttons)
  from joystick_Callback_constructed [OF assms(1), of "[]" clock servers buttons] show ?thesis
    using assms(2) by (auto simp: joystick_step_def Joy_message)
next
  case (Acoustic_event ce)
  then show ?thesis
    using assms
    by (auto simp: joystick_step_def as_constructed_def acoustic_step_def acoustic_Start_def Let_def
        acoustic_GoalResposeCallback_def acoustic_FeedbackCallback_def acoustic_ResultCallback_def
        split: sum.splits client_event.splits if_splits ResultCode.splits option.splits simp del: not_None_eq)
qed (use assms(3) in blast)

lemma run_constructed:
  assumes "emit_run joystick_step n es = Inr (n', out)" "as_constructed i n" "\<forall>e \<in> set es. \<forall>ce. e \<noteq> Ultrasonic_event ce"
  shows "as_constructed i n' \<and> no_ultrasonic_goal out"
  using assms
proof (induction es arbitrary: n out)
  case (Cons e es)
  from Cons.prems(1) obtain n1 new out' where 1: "joystick_step n e = Inr (n1, new)"
    "emit_run joystick_step n1 es = Inr (n', out')" "out = new @ out'" by (rule emit_run_ConsE)
  from Cons.prems(3) have "\<forall>ce. e \<noteq> Ultrasonic_event ce" "\<forall>e \<in> set es. \<forall>ce. e \<noteq> Ultrasonic_event ce" by simp_all
  with joystick_step_constructed [OF Cons.prems(2) 1(1)] Cons.IH [OF 1(2)] 1(3) show ?case by simp
qed simp

lemma joystick_main_constructed:
  "as_constructed (get_parameter ''button_start_ultrasonic'') (joystick_main get_parameter)"
  by (simp add: as_constructed_def joystick_main_def new_JoystickNode_def AddAcousticClient_def AddServoTurret_def
      AddUltrasonicClient_def new_AcousticActionClient_def del: not_None_eq)

section \<open>Properties\<close>


text \<open>One goal at a time: in any run of the acoustic client from its constructor the goals sent are at
  most one more than the successful results received, however often the button is pressed, and
  every goal enables the sensor. The client never faults.\<close>

theorem acoustic_one_goal_at_a_time:
  "\<exists>c gs. emit_run acoustic_step new_AcousticActionClient es = Inr (c, gs) \<and>
     length gs \<le> Suc (successes es) \<and> set gs \<subseteq> {True}"
proof -
  have "a_action_running c = Some b \<Longrightarrow> \<exists>c' gs. emit_run acoustic_step c es = Inr (c', gs)" for c b
  proof (induction es arbitrary: c b)
    case (Cons e es)
    have "\<exists>c1 b1 g. acoustic_step c e = Inr (c1, g) \<and> a_action_running c1 = Some b1"
      using acoustic.simulates [of c e] Cons.prems
      by (cases "acoustic_step c e") (auto simp: client_spec_def split: client_event.splits if_splits)
    then obtain c1 b1 g where "acoustic_step c e = Inr (c1, g)" "a_action_running c1 = Some b1" by blast
    with Cons.IH [of c1 b1] show ?case by auto
  qed simp
  from this [of new_AcousticActionClient False]
  obtain c gs where "emit_run acoustic_step new_AcousticActionClient es = Inr (c, gs)"
    by (auto simp: new_AcousticActionClient_def)
  with acoustic.goals_bounded [OF this, of False] show ?thesis by (simp add: new_AcousticActionClient_def)
qed

text \<open>A goal that does not succeed blocks its button for good: once an action runs, presses, rejections,
  feedback, aborted and cancelled results leave both clients with the flag set and no further goal is
  sent; only a success clears it.\<close>

theorem unsuccessful_goal_blocks:
  assumes "a_action_running c = Some True" "u_action_running u = Some True" "Result SUCCEEDED \<notin> set es"
  shows "(\<exists>c'. emit_run acoustic_step c es = Inr (c', []) \<and> a_action_running c' = Some True) \<and>
    (\<exists>u'. emit_run ultrasonic_step u es = Inr (u', []) \<and> u_action_running u' = Some True)"
  using assms by (blast intro: acoustic.blocked ultrasonic.blocked)

text \<open>C17: The rate limit of the turret: in any run of the program that \<open>main\<close> builds, whatever the joystick
  and the action servers do, any two turret messages are more than a second apart.\<close>

theorem turret_rate_limit:
  assumes "emit_run joystick_step (joystick_main get_parameter) es = Inr (n, out)"
  shows "sorted_wrt (\<lambda>u v. v - u > 1000000000) (turret_times out)"
  using spaced_sorted [OF spaced_run [OF assms]] by simp

text \<open>The turret buttons are swapped: in the program with its default parameters, a press of the button
  that \<open>button_rotate_turret_forward\<close> names, more than a second after the last message, publishes
  180 degrees, and this message makes the servo node turn the turret to its backward position; the
  button of \<open>button_rotate_turret_backward\<close> publishes 0 degrees.\<close>

theorem forward_button_turns_backward:
  assumes "t - last_time n > servo_wait_delay_ns" "t' - last_time n > servo_wait_delay_ns"
    and "n = (joystick_main default_buttons)\<lparr>servo_turret := Some turret\<rparr>"
  shows "\<exists>n'. joystick_step n (Joy_message (t, t') w [0, 0, 0, 1]) = Inr (n', [Servo_turret t' 180]) \<and>
    (\<exists>n''. joystick_step n (Joy_message (t, t') w [0, 0, 1, 0]) = Inr (n'', [Servo_turret t 0])) \<and>
    servo_Callback C 180 s = via_comms (sn_comms_set s)
      (c_SetServoPosition C (sn_instance s) (real_of_int (sint (sn_turret_backward_degrees s))))"
proof -
  have n: "button_rotate_turret_forward n = int 2" "button_rotate_turret_backward n = int 3"
    "button_start_acoustic n = int 0" "button_start_ultrasonic n = int 1" "servo_turret n = Some turret"
    by (simp_all add: assms(3) joystick_main_def new_JoystickNode_def default_buttons_def AddAcousticClient_def
        AddServoTurret_def AddUltrasonicClient_def)
  have last: "t - last_called turret > servo_wait_delay_ns" "t' - last_called turret > servo_wait_delay_ns"
    using assms(1,2) n(5) by (simp_all add: last_time_def)
  let ?n = "\<lambda>t. n\<lparr>servo_turret := Some (turret\<lparr>last_called := t\<rparr>)\<rparr>"
  have rotate: "RotateTurret u a (n, []) = Inr ((), ?n u, [Servo_turret u a])" if "u - last_called turret > servo_wait_delay_ns" for u a
    using that by (simp add: RotateTurret_def turret_SetPosition_def n(5))
  have "joystick_Callback (t, t') w [0, 0, 0, 1] (n, []) = Inr ((), ?n t', [Servo_turret t' 180])"
    by (simp add: joystick_Callback_def seqp_def bnd_def when_pressed_no n when_pressed_yes [of _ _ 3] rotate last)
  moreover have "joystick_Callback (t, t') w [0, 0, 1, 0] (n, []) = Inr ((), ?n t, [Servo_turret t 0])"
    by (simp add: joystick_Callback_def seqp_def bnd_def when_pressed_no n when_pressed_yes [of _ _ 2] rotate last)
  ultimately show ?thesis
    by (simp add: joystick_step_def servo_Callback_def)
qed

text \<open>The ultrasonic button of the program that \<open>main\<close> builds is undefined behaviour: the flag it tests
  was never initialised. As long as the ultrasonic server has not called back, no ultrasonic goal was
  sent, and a joystick message with the button pressed, or with no such button, is undefined.\<close>

theorem ultrasonic_button_undefined:
  assumes "emit_run joystick_step (joystick_main get_parameter) es = Inr (n, out)"
    and "\<forall>e \<in> set es. \<forall>ce. e \<noteq> Ultrasonic_event ce"
    and "get_parameter ''button_start_ultrasonic'' = int i" "i < length buttons \<longrightarrow> buttons ! i \<noteq> 0"
  shows "no_ultrasonic_goal out \<and> joystick_step n (Joy_message clock w buttons) = Inl Undefined_Behaviour"
proof -
  from run_constructed [OF assms(1) joystick_main_constructed assms(2)]
  have n: "as_constructed (int i) n" "no_ultrasonic_goal out" by (simp_all add: assms(3))
  with joystick_Callback_constructed [OF n(1), of "[]" clock w buttons] assms(4) show ?thesis
    by (auto simp: joystick_step_def)
qed

section \<open>Witnesses\<close>


theorem unsuccessful_goal_blocks_witness:
  "\<exists>c'. emit_run acoustic_step \<lparr>a_action_running = Some True\<rparr>
      [Goal_response False, Start True, Result ABORTED, Start True] = Inr (c', [])"
  using unsuccessful_goal_blocks [of "\<lparr>a_action_running = Some True\<rparr>" "\<lparr>u_action_running = Some True\<rparr>"
      "[Goal_response False, Start True, Result ABORTED, Start True]"] by auto

definition sample_joystick_run :: "joystick_event list" where
  "sample_joystick_run = [Joy_message (2000000000, 2000000001) (True, True) [1, 0, 1, 1],
     Acoustic_event (Goal_response False)]"

lemma sample_joystick:
  "\<exists>n. emit_run joystick_step (joystick_main default_buttons) sample_joystick_run =
     Inr (n, [Servo_turret 2000000000 0, Acoustic_goal True])"
  by (simp add: sample_joystick_run_def joystick_step_def joystick_Callback_def seqp_def bnd_def when_pressed_def
      pressed_def joystick_main_def new_JoystickNode_def default_buttons_def AddAcousticClient_def
      AddServoTurret_def AddUltrasonicClient_def RotateTurret_def turret_SetPosition_def new_ServoTurretNode_def
      StartAcousticAction_def acoustic_Start_def new_AcousticActionClient_def acoustic_step_def
      acoustic_GoalResposeCallback_def Let_def)

theorem turret_rate_limit_witness:
  "\<exists>n out. emit_run joystick_step (joystick_main default_buttons) sample_joystick_run = Inr (n, out) \<and>
     sorted_wrt (\<lambda>u v. v - u > 1000000000) (turret_times out)"
proof -
  obtain n where r: "emit_run joystick_step (joystick_main default_buttons) sample_joystick_run =
      Inr (n, [Servo_turret 2000000000 0, Acoustic_goal True])" using sample_joystick by blast
  from turret_rate_limit [OF r] r show ?thesis by blast
qed

theorem forward_button_turns_backward_witness:
  "\<exists>n'. joystick_step (joystick_main default_buttons) (Joy_message (2000000000, 2000000000) (True, True) [0, 0, 0, 1]) =
     Inr (n', [Servo_turret 2000000000 180])"
  using forward_button_turns_backward [of 2000000000 "joystick_main default_buttons" 2000000000 new_ServoTurretNode "(True, True)"]
  by (auto simp: joystick_main_def AddServoTurret_def AddUltrasonicClient_def AddAcousticClient_def last_time_def
      new_ServoTurretNode_def)

theorem ultrasonic_button_undefined_witness:
  "\<exists>n. emit_run joystick_step (joystick_main default_buttons) sample_joystick_run =
     Inr (n, [Servo_turret 2000000000 0, Acoustic_goal True]) \<and>
     joystick_step n (Joy_message (0, 0) (True, True) [0, 1]) = Inl Undefined_Behaviour"
proof -
  obtain n where r: "emit_run joystick_step (joystick_main default_buttons) sample_joystick_run =
      Inr (n, [Servo_turret 2000000000 0, Acoustic_goal True])" using sample_joystick by blast
  have "no_ultrasonic_goal [Servo_turret 2000000000 0, Acoustic_goal True] \<and>
      joystick_step n (Joy_message (0, 0) (True, True) [0, 1]) = Inl Undefined_Behaviour"
    by (rule ultrasonic_button_undefined [OF r, of 1]) (simp_all add: sample_joystick_run_def default_buttons_def)
  with r show ?thesis by blast
qed

end
