(* ===== verification/Bno_Bus.thy ===== *)
theory Bno_Bus
  imports Programs
begin

text \<open>
  Two parts of the IMU driver (\<^verbatim>\<open>bno08x_driver/include/bno08x_driver\<close>) that stand alone: the
  \<open>Watchdog\<close> with its thread, and the \<open>I2CInterface\<close>, which reassembles the packets of the sensor.
  The clock is in nanoseconds. The I2C device is a parameter: what a read of a given size returns
  after given earlier reads, and whether a write succeeds.
\<close>

section \<open>The watchdog\<close>

text \<open>Where the thread is: before the test of its loop, asleep in it, behind its reading of the clock
  (\<open>now\<close>), behind its copy of \<open>last_reset_\<close> (\<open>last_reset_cp\<close>), or returned.\<close>

datatype thread_pc = At_test | Asleep | Clock_read int | Reset_read int int | Returned

record Watchdog =
  wd_timeout :: int
  wd_check_interval :: int
  wd_callback :: bool
  enable_watchdog :: bool
  last_reset :: int
  watchdog_thread :: thread_pc

text \<open>\<open>callback\<close>: whether the function object is not empty.\<close>

definition new_Watchdog :: "int \<Rightarrow> int \<Rightarrow> bool \<Rightarrow> int \<Rightarrow> Watchdog" where
  "new_Watchdog timeout check_interval callback now =
     \<lparr>wd_timeout = timeout, wd_check_interval = check_interval, wd_callback = callback, enable_watchdog = False,
      last_reset = now, watchdog_thread = At_test\<rparr>"

definition wd_reset :: "int \<Rightarrow> Watchdog \<Rightarrow> Watchdog" where
  "wd_reset now w = w\<lparr>last_reset := now\<rparr>"

definition wd_stop :: "Watchdog \<Rightarrow> Watchdog" where
  "wd_stop w = w\<lparr>enable_watchdog := False\<rparr>"

text \<open>\<open>start\<close> takes no lock, so its two assignments are steps of their own.\<close>

definition start_last_reset :: "int \<Rightarrow> Watchdog \<Rightarrow> Watchdog" where
  "start_last_reset now w = w\<lparr>last_reset := now\<rparr>"

definition start_enable :: "Watchdog \<Rightarrow> Watchdog" where
  "start_enable w = w\<lparr>enable_watchdog := True\<rparr>"

definition wd_start :: "int \<Rightarrow> Watchdog \<Rightarrow> Watchdog" where
  "wd_start now w = start_enable (start_last_reset now w)"

definition set_timeout :: "int \<Rightarrow> Watchdog \<Rightarrow> Watchdog" where
  "set_timeout timeout w = w\<lparr>wd_timeout := timeout\<rparr>"

definition get_timeout :: "Watchdog \<Rightarrow> int" where
  "get_timeout w = wd_timeout w"

definition set_callback :: "bool \<Rightarrow> Watchdog \<Rightarrow> Watchdog" where
  "set_callback callback w = w\<lparr>wd_callback := callback\<rparr>"

definition get_callback :: "Watchdog \<Rightarrow> bool" where
  "get_callback w = wd_callback w"

definition set_check_interval :: "int \<Rightarrow> Watchdog \<Rightarrow> Watchdog" where
  "set_check_interval interval w = w\<lparr>wd_check_interval := interval\<rparr>"

definition get_check_interval :: "Watchdog \<Rightarrow> int" where
  "get_check_interval w = wd_check_interval w"

text \<open>
  The thread: the test of the loop, and behind the sleep the reading of the clock, the copy of
  \<open>last_reset_\<close> under \<open>reset_mutex_\<close>, and the decision under \<open>callback_mutex_\<close>. Calls from other
  threads may come between any two of them. The result of the decision says whether the thread's own
  copy of the callback is called; nothing another thread does changes that afterwards.
\<close>

definition thread_test :: "Watchdog \<Rightarrow> Watchdog" where
  "thread_test w =
     (if watchdog_thread w = At_test
      then w\<lparr>watchdog_thread := if enable_watchdog w then Asleep else Returned\<rparr> else w)"

definition thread_clock :: "int \<Rightarrow> Watchdog \<Rightarrow> Watchdog" where
  "thread_clock now w =
     (if watchdog_thread w = Asleep then w\<lparr>watchdog_thread := Clock_read now\<rparr> else w)"

definition thread_last_reset :: "Watchdog \<Rightarrow> Watchdog" where
  "thread_last_reset w = (case watchdog_thread w of
     Clock_read now \<Rightarrow> w\<lparr>watchdog_thread := Reset_read now (last_reset w)\<rparr> | _ \<Rightarrow> w)"

definition thread_decide :: "Watchdog \<Rightarrow> Watchdog \<times> int list" where
  "thread_decide w = (case watchdog_thread w of
     Reset_read now last_reset_cp \<Rightarrow>
       (w\<lparr>watchdog_thread := At_test\<rparr>,
        if enable_watchdog w \<and> now - last_reset_cp \<ge> wd_timeout w
        then if wd_callback w then [now] else [] else [])
   | _ \<Rightarrow> (w, []))"

datatype wd_event =
    Test | Read_clock int | Read_last_reset | Decide
  | Reset int | Stop_watchdog | Start_reset int | Start_enable | Set_timeout int | Set_callback bool
  | Set_check_interval int

text \<open>The interleaving of the thread with calls from other threads; a callback emits the reading of the
  clock it was decided on.\<close>

definition wd_step :: "Watchdog \<Rightarrow> wd_event \<Rightarrow> fault + (Watchdog \<times> int list)" where
  "wd_step w e = Inr (case e of
     Test \<Rightarrow> (thread_test w, [])
   | Read_clock now \<Rightarrow> (thread_clock now w, [])
   | Read_last_reset \<Rightarrow> (thread_last_reset w, [])
   | Decide \<Rightarrow> thread_decide w
   | Reset now \<Rightarrow> (wd_reset now w, [])
   | Stop_watchdog \<Rightarrow> (wd_stop w, [])
   | Start_reset now \<Rightarrow> (start_last_reset now w, [])
   | Start_enable \<Rightarrow> (start_enable w, [])
   | Set_timeout t \<Rightarrow> (set_timeout t w, [])
   | Set_callback b \<Rightarrow> (set_callback b w, [])
   | Set_check_interval t \<Rightarrow> (set_check_interval t w, []))"

lemmas wd_ops = wd_step_def thread_test_def thread_clock_def thread_last_reset_def thread_decide_def
  wd_reset_def wd_stop_def start_last_reset_def start_enable_def set_timeout_def set_callback_def
  set_check_interval_def

section \<open>The I2C interface\<close>

text \<open>System calls, newest last. \<open>-1\<close> is no descriptor.\<close>

datatype syscall = Sys_open string | Sys_ioctl int u8 | Sys_write int "u8 list" | Sys_close int | Sys_sleep int

record I2CInterface =
  i2c_fd :: int
  i2c_bus_file :: string
  i2c_addr :: u8

definition new_I2CInterface :: "string \<Rightarrow> u8 \<Rightarrow> I2CInterface" where
  "new_I2CInterface bus addr = \<lparr>i2c_fd = -1, i2c_bus_file = bus, i2c_addr = addr\<rparr>"

definition softreset_pkt :: "u8 list" where
  "softreset_pkt = [5, 0, 1, 0, 1]"

text \<open>The loop of up to \<open>n\<close> attempts; \<open>ok k\<close>: the write of attempt \<open>k\<close> wrote the whole packet.\<close>

fun softreset_loop :: "int \<Rightarrow> (nat \<Rightarrow> bool) \<Rightarrow> nat \<Rightarrow> nat \<Rightarrow> bool \<times> syscall list" where
  "softreset_loop fd ok attempts 0 = (False, [])"
| "softreset_loop fd ok attempts (Suc n) =
     (if ok attempts then (True, [Sys_write fd softreset_pkt])
      else case softreset_loop fd ok (Suc attempts) n of
        (success, calls) \<Rightarrow> (success, Sys_write fd softreset_pkt # Sys_sleep 30000 # calls))"

text \<open>\<open>fd\<close>: what \<open>open\<close> returns; \<open>ioctl\<close>: its result.\<close>

definition i2c_open :: "int \<Rightarrow> int \<Rightarrow> (nat \<Rightarrow> bool) \<Rightarrow> I2CInterface \<Rightarrow> int \<times> syscall list \<times> I2CInterface" where
  "i2c_open fd ioctl ok c =
     (let c = c\<lparr>i2c_fd := fd\<rparr>; opened = [Sys_open (i2c_bus_file c)] in
      if i2c_fd c < 0 then (-1, opened, c)
      else
        let addressed = opened @ [Sys_ioctl (i2c_fd c) (i2c_addr c)] in
        if ioctl < 0 then (-1, addressed @ [Sys_close (i2c_fd c)], c)
        else case softreset_loop (i2c_fd c) ok 0 5 of
          (success, calls) \<Rightarrow>
            if \<not> success then (-1, addressed @ calls @ [Sys_close (i2c_fd c)], c)
            else (0, addressed @ calls @ [Sys_sleep 300000], c))"

definition i2c_close :: "I2CInterface \<Rightarrow> syscall list \<times> I2CInterface" where
  "i2c_close c = (if i2c_fd c \<ge> 0 then ([Sys_close (i2c_fd c)], c\<lparr>i2c_fd := -1\<rparr>) else ([], c))"

text \<open>
  \<open>dev reads n\<close>: the bytes a read of \<open>n\<close> bytes gives after the reads of the given sizes. The loop
  returns the result of \<open>read\<close> before the time stamp (0 on a short read) and the bytes copied into
  the caller's buffer, in order.
\<close>

function (sequential) i2c_read_loop ::
  "(nat list \<Rightarrow> nat \<Rightarrow> u8 list) \<Rightarrow> u16 \<Rightarrow> nat list \<Rightarrow> u16 \<Rightarrow> bool \<Rightarrow> u8 list \<Rightarrow> u16 \<times> u8 list \<times> nat list" where
  "i2c_read_loop dev packet_size reads cargo_remaining first_read pBuffer =
     (if cargo_remaining > 0 then
        let read_size = min 32 (unat cargo_remaining + (if first_read then 0 else 4));
            i2c_buffer = dev reads read_size;
            reads = reads @ [read_size]
        in if length i2c_buffer \<noteq> read_size then (0, pBuffer, reads)
           else
             let cargo = (if first_read then i2c_buffer else drop 4 i2c_buffer);
                 cargo_read_amount = (if first_read then read_size else read_size - 4)
             in i2c_read_loop dev packet_size reads (cargo_remaining - of_nat cargo_read_amount) False (pBuffer @ cargo)
      else (packet_size, pBuffer, reads))"
  by pat_completeness auto

definition i2c_read :: "(nat list \<Rightarrow> nat \<Rightarrow> u8 list) \<Rightarrow> nat \<Rightarrow> u16 \<times> u8 list \<times> nat list" where
  "i2c_read dev len =
     (let header = dev [] 4 in
      if length header \<noteq> 4 then (0, [], [4])
      else
        let packet_size = le16 (header ! 0) (header ! 1) AND NOT 0x8000
        in if unat packet_size > len then (0, [], [4])
           else i2c_read_loop dev packet_size [4] packet_size True [])"

definition i2c_write :: "(u8 list \<Rightarrow> int) \<Rightarrow> u8 list \<Rightarrow> int" where
  "i2c_write write pBuffer =
     (let write_size = min 32 (length pBuffer) in
      if write (take write_size pBuffer) \<noteq> int write_size then 0 else int write_size)"

lemma unat_minus_of_nat:
  fixes c :: u16
  assumes "k \<le> unat c"
  shows "unat (c - of_nat k) = unat c - k"
proof -
  have "k < 2 ^ LENGTH(16)" using assms unsigned_less [of c, where ?'a = nat] by simp
  then have k: "unat (of_nat k :: u16) = k" by (simp add: unat_of_nat)
  then have "(of_nat k :: u16) \<le> c" using assms by (simp add: word_le_nat_alt)
  with k show ?thesis by (simp add: unat_sub)
qed

termination i2c_read_loop
proof (relation "measure (\<lambda>(dev, n, reads, cargo, first, buf). unat cargo)", goal_cases)
  case (2 dev packet_size reads cargo_remaining first_read pBuffer x xa xb xc xd)
  then have c: "0 < unat cargo_remaining" by (simp add: word_greater_zero_iff unat_gt_0)
  have x: "x = min 32 (unat cargo_remaining + (if first_read then 0 else 4))" by (rule 2)
  have "xd = (if first_read then x else x - 4)" by (rule 2)
  then have "0 < xd" "xd \<le> unat cargo_remaining" using x c by auto
  then show ?case using c by (simp only: in_measure case_prod_conv unat_minus_of_nat)
qed simp

declare i2c_read_loop.simps [simp del]

section \<open>The watchdog over a run\<close>

text \<open>A thread that has returned calls back no more; without a reset the age of the last one grows.\<close>

lemma wd_returned:
  assumes "watchdog_thread w = Returned"
  shows "\<exists>w'. emit_run wd_step w es = Inr (w', []) \<and> watchdog_thread w' = Returned"
  using assms
proof (induction es arbitrary: w)
  case (Cons e es)
  have "\<exists>w1. wd_step w e = Inr (w1, []) \<and> watchdog_thread w1 = Returned"
    using Cons.prems by (cases e) (simp_all add: wd_ops)
  then obtain w1 where "wd_step w e = Inr (w1, [])" "watchdog_thread w1 = Returned" by blast
  with Cons.IH [of w1] show ?case by auto
qed simp

text \<open>What the calls of a run have asked for, newest last: the time of a reset or start, on or off, the
  timeout, and a callback.\<close>

definition resets :: "wd_event \<Rightarrow> int option" where
  "resets e = (case e of Reset now \<Rightarrow> Some now | Start_reset now \<Rightarrow> Some now | _ \<Rightarrow> None)"

definition switches :: "wd_event \<Rightarrow> bool option" where
  "switches e = (case e of Start_enable \<Rightarrow> Some True | Stop_watchdog \<Rightarrow> Some False | _ \<Rightarrow> None)"

definition timeouts :: "wd_event \<Rightarrow> int option" where
  "timeouts e = (case e of Set_timeout t \<Rightarrow> Some t | _ \<Rightarrow> None)"

definition callbacks :: "wd_event \<Rightarrow> bool option" where
  "callbacks e = (case e of Set_callback b \<Rightarrow> Some b | _ \<Rightarrow> None)"

text \<open>A call from another thread.\<close>

definition foreign_call :: "wd_event \<Rightarrow> bool" where
  "foreign_call e = (case e of Test \<Rightarrow> False | Read_clock _ \<Rightarrow> False | Read_last_reset \<Rightarrow> False | Decide \<Rightarrow> False | _ \<Rightarrow> True)"

lemma wd_step_total: "\<exists>w' out. wd_step w e = Inr (w', out)"
  by (auto simp: wd_step_def split: prod.split)

lemma emit_run_wd_total: "\<exists>w' out. emit_run wd_step w es = Inr (w', out)"
proof (induction es arbitrary: w)
  case (Cons e es)
  obtain w1 out where "wd_step w e = Inr (w1, out)" using wd_step_total by blast
  with Cons.IH [of w1] show ?case by auto
qed simp

lemma history_step:
  assumes "wd_step w e = Inr (w1, out)"
  shows "newest resets (last_reset w) (e # es) = newest resets (last_reset w1) es"
    "newest switches (enable_watchdog w) (e # es) = newest switches (enable_watchdog w1) es"
    "newest timeouts (wd_timeout w) (e # es) = newest timeouts (wd_timeout w1) es"
    "newest callbacks (wd_callback w) (e # es) = newest callbacks (wd_callback w1) es"
  using assms by (cases e; auto simp: wd_ops resets_def switches_def timeouts_def callbacks_def
      split: if_splits thread_pc.splits)+

lemma history_run:
  assumes "emit_run wd_step w es = Inr (w', out)"
  shows "last_reset w' = newest resets (last_reset w) es \<and> enable_watchdog w' = newest switches (enable_watchdog w) es \<and>
    wd_timeout w' = newest timeouts (wd_timeout w) es \<and> wd_callback w' = newest callbacks (wd_callback w) es"
  using assms
proof (induction es arbitrary: w out)
  case (Cons e es)
  from Cons.prems obtain w1 o1 o2 where w1: "wd_step w e = Inr (w1, o1)" "emit_run wd_step w1 es = Inr (w', o2)"
    by (rule emit_run_ConsE)
  from Cons.IH [OF w1(2)] show ?case unfolding history_step [OF w1(1)] .
qed simp

lemma history_new:
  assumes "emit_run wd_step (new_Watchdog timeout check_interval cb t0) es = Inr (w, out)"
  shows "last_reset w = newest resets t0 es" "enable_watchdog w = newest switches False es"
    "wd_timeout w = newest timeouts timeout es" "wd_callback w = newest callbacks cb es"
  using history_run [OF assms] by (simp_all add: new_Watchdog_def)

text \<open>The steps of the thread change none of these.\<close>

lemma newest_append: "newest f x (es @ es') = newest f (newest f x es) es'"
  by (induction es arbitrary: x) (auto split: option.split)

lemma newest_round:
  "newest resets x ((es @ Test # es1) @ Read_clock now # es2) = newest resets x (es @ es1 @ es2)"
  "newest switches b (((es @ Test # es1) @ Read_clock now # es2) @ Read_last_reset # es3) = newest switches b (es @ es1 @ es2 @ es3)"
  "newest timeouts x (((es @ Test # es1) @ Read_clock now # es2) @ Read_last_reset # es3) = newest timeouts x (es @ es1 @ es2 @ es3)"
  "newest callbacks b (((es @ Test # es1) @ Read_clock now # es2) @ Read_last_reset # es3) = newest callbacks b (es @ es1 @ es2 @ es3)"
  by (simp_all add: newest_append resets_def switches_def timeouts_def callbacks_def)

text \<open>Calls from other threads leave the thread where it is and call nothing back.\<close>

lemma foreign_run:
  assumes "\<forall>e \<in> set es. foreign_call e"
  shows "\<exists>w'. emit_run wd_step w es = Inr (w', []) \<and> watchdog_thread w' = watchdog_thread w"
  using assms
proof (induction es arbitrary: w)
  case (Cons e es)
  have "\<exists>w1. wd_step w e = Inr (w1, []) \<and> watchdog_thread w1 = watchdog_thread w"
    using Cons.prems by (cases e) (auto simp: wd_ops foreign_call_def)
  then obtain w1 where "wd_step w e = Inr (w1, [])" "watchdog_thread w1 = watchdog_thread w" by blast
  with Cons.IH [of w1] Cons.prems show ?case by auto
qed simp

text \<open>A run extended by one step of the thread and calls of others.\<close>

lemma run_then_foreign:
  assumes "emit_run wd_step s es = Inr (w, out)" "wd_step w e = Inr (w1, o1)" "\<forall>e \<in> set es'. foreign_call e"
  obtains w2 where "emit_run wd_step s (es @ e # es') = Inr (w2, out @ o1)" "watchdog_thread w2 = watchdog_thread w1"
proof -
  obtain w2 where "emit_run wd_step w1 es' = Inr (w2, [])" "watchdog_thread w2 = watchdog_thread w1"
    using foreign_run [OF assms(3)] by blast
  with assms that show ?thesis by (simp add: emit_run_append)
qed

section \<open>The I2C interface: what a read copies\<close>

lemma i2c_read_loop_bounds:
  assumes "i2c_read_loop dev n reads cargo first buf = (r, buf', reads')"
  shows "\<exists>w more. buf' = buf @ w \<and> length w \<le> unat cargo \<and> reads' = reads @ more \<and> (\<forall>k \<in> set more. k \<le> 32) \<and>
    (r = 0 \<or> r = n \<and> length w = unat cargo)"
  using assms
proof (induction dev n reads cargo first buf arbitrary: r buf' reads' rule: i2c_read_loop.induct)
  case (1 dev n reads cargo first buf)
  let ?size = "min 32 (unat cargo + (if first then 0 else 4))"
  let ?got = "dev reads ?size"
  let ?amount = "if first then ?size else ?size - 4"
  let ?cargo = "if first then ?got else drop 4 ?got"
  show ?case
  proof (cases "cargo > 0")
    case False
    with "1.prems" show ?thesis
      by (auto simp: i2c_read_loop.simps [of dev n reads cargo] word_greater_zero_iff)
  next
    case pos: True
    show ?thesis
    proof (cases "length ?got = ?size")
      case False
      with pos "1.prems" show ?thesis
        by (subst (asm) i2c_read_loop.simps) (intro exI [of _ "[]"] exI [of _ "[?size]"], simp add: Let_def)
    next
      case True
      have loop: "i2c_read_loop dev n (reads @ [?size]) (cargo - of_nat ?amount) False (buf @ ?cargo) = (r, buf', reads')"
        using "1.prems" pos True by (subst (asm) i2c_read_loop.simps) (simp only: Let_def if_True not_True_eq_False if_False simp_thms)
      have amount: "?amount \<le> unat cargo" "length ?cargo = ?amount" using True by (auto simp: min_def)
      have left: "unat (cargo - of_nat ?amount) = unat cargo - ?amount" by (rule unat_minus_of_nat [OF amount(1)])
      from "1.IH" [OF pos refl refl refl _ refl refl loop] True obtain w more where
        w: "buf' = (buf @ ?cargo) @ w" "length w \<le> unat cargo - ?amount" "reads' = (reads @ [?size]) @ more"
          "\<forall>k \<in> set more. k \<le> 32" "r = 0 \<or> r = n \<and> length w = unat cargo - ?amount"
        unfolding left by blast
      have sum: "length (?cargo @ w) = ?amount + length w" by (simp only: length_append amount(2))
      show ?thesis
      proof (intro exI conjI)
        show "buf' = buf @ (?cargo @ w)" "reads' = reads @ (?size # more)" using w by simp_all
        show "length (?cargo @ w) \<le> unat cargo" using w(2) amount(1) unfolding sum by linarith
        show "\<forall>k \<in> set (?size # more). k \<le> 32" using w(4) by simp
        show "r = 0 \<or> r = n \<and> length (?cargo @ w) = unat cargo"
          using w(5) le_add_diff_inverse [OF amount(1)] unfolding sum by metis
      qed
    qed
  qed
qed

text \<open>
  What a sensor does that holds a packet: the first read gives its first four bytes, the second
  starts it again, and every later one begins with four bytes of header and goes on with the packet.
\<close>

fun delivered :: "nat list \<Rightarrow> nat" where
  "delivered (h # k # ks) = k + sum_list (map (\<lambda>k. k - 4) ks)"
| "delivered _ = 0"

definition shtp_device :: "u8 list \<Rightarrow> u8 list \<Rightarrow> nat list \<Rightarrow> nat \<Rightarrow> u8 list" where
  "shtp_device hdr packet reads n =
     (if length reads \<le> 1 then take n packet else take n (hdr @ drop (delivered reads) packet))"

lemma delivered_snoc: "2 \<le> length ks \<Longrightarrow> delivered (ks @ [k]) = delivered ks + (k - 4)"
  by (cases ks rule: delivered.cases) auto

lemma device_loop_rest:
  assumes "length hdr = 4" "2 \<le> length reads" "unat cargo = length packet - delivered reads" "delivered reads \<le> length packet"
  shows "\<exists>reads'. i2c_read_loop (shtp_device hdr packet) n reads cargo False buf = (n, buf @ drop (delivered reads) packet, reads')"
  using assms(2-)
proof (induction "unat cargo" arbitrary: cargo reads buf rule: less_induct)
  case less
  show ?case
  proof (cases "cargo > 0")
    case False
    then have "unat cargo = 0" by (simp add: word_greater_zero_iff)
    with less.prems have "delivered reads = length packet" by simp
    with False show ?thesis by (subst i2c_read_loop.simps) simp
  next
    case True
    then have c: "0 < unat cargo" by (simp add: word_greater_zero_iff unat_gt_0)
    let ?size = "min 32 (unat cargo + 4)" and ?d = "delivered reads"
    let ?new = "take (?size - 4) (drop ?d packet)"
    have got: "shtp_device hdr packet reads ?size = hdr @ ?new"
      using less.prems(1) assms(1) by (simp add: shtp_device_def)
    have amount: "?size - 4 \<le> unat cargo" "0 < ?size - 4" "length ?new = ?size - 4"
      using c less.prems(2) by auto
    have len: "length (hdr @ ?new) = ?size" using amount(2,3) assms(1) by (simp del: length_take)
    have left: "unat (cargo - of_nat (?size - 4)) = unat cargo - (?size - 4)" by (rule unat_minus_of_nat [OF amount(1)])
    have d: "delivered (reads @ [?size]) = ?d + (?size - 4)" by (rule delivered_snoc [OF less.prems(1)])
    have step: "i2c_read_loop (shtp_device hdr packet) n reads cargo False buf =
        i2c_read_loop (shtp_device hdr packet) n (reads @ [?size]) (cargo - of_nat (?size - 4)) False (buf @ ?new)"
      using True got len assms(1) by (subst i2c_read_loop.simps) (simp only: Let_def if_True if_False not_True_eq_False
          simp_thms drop_append drop_all diff_self_eq_0 drop_0 append_Nil order_refl)
    have "\<exists>reads'. i2c_read_loop (shtp_device hdr packet) n (reads @ [?size]) (cargo - of_nat (?size - 4)) False (buf @ ?new)
        = (n, (buf @ ?new) @ drop (delivered (reads @ [?size])) packet, reads')"
    proof (rule less.hyps)
      show "unat (cargo - of_nat (?size - 4)) < unat cargo" using left amount(2) c by simp
      show "2 \<le> length (reads @ [?size])" using less.prems(1) by simp
      show "unat (cargo - of_nat (?size - 4)) = length packet - delivered (reads @ [?size])"
        unfolding left d by (simp only: less.prems(2) diff_diff_left)
      show "delivered (reads @ [?size]) \<le> length packet"
        using amount(1) less.prems(2,3) unfolding d by linarith
    qed
    moreover have "(buf @ ?new) @ drop (delivered (reads @ [?size])) packet = buf @ drop ?d packet"
      unfolding d using append_take_drop_id [of "?size - 4" "drop ?d packet"] by (simp add: add.commute)
    ultimately show ?thesis using step by simp
  qed
qed

lemma packet_size_bound: "unat (x AND NOT 0x8000 :: u16) < 0x8000"
proof -
  have "x AND NOT 0x8000 = take_bit 15 x"
  proof (rule bit_word_eqI)
    fix n assume "n < LENGTH(16)"
    then consider "n < 15" | "n = 15" by fastforce
    then show "bit (x AND NOT 0x8000) n = bit (take_bit 15 x) n"
    proof cases
      case 1
      have "(0x8000 :: u16) = push_bit 15 1" by simp
      with 1 show ?thesis by (simp only: bit_and_iff bit_not_iff bit_push_bit_iff bit_take_bit_iff) simp
    next
      case 2
      then show ?thesis by (simp add: bit_simps)
    qed
  qed
  then show ?thesis using take_bit_nat_less_exp [of 15 "unat x"] by (simp only: unsigned_take_bit_eq) simp
qed

lemma le16_ucast: "le16 lo hi = ucast lo OR push_bit 8 (ucast hi)"
  by (rule bit_word_eqI) (auto simp: le16_def bit_simps bit_word_cat_iff dest: bit_imp_le_length)

lemma softreset_loop_success: "fst (softreset_loop fd ok k n) \<longleftrightarrow> (\<exists>i < n. ok (k + i))"
proof (induction n arbitrary: k)
  case (Suc n)
  have "(\<exists>i < Suc n. ok (k + i)) \<longleftrightarrow> ok k \<or> (\<exists>i < n. ok (Suc k + i))"
    by (auto simp: less_Suc_eq_0_disj)
  with Suc [of "Suc k"] show ?case by (auto split: prod.split)
qed simp

section \<open>Properties\<close>

text \<open>A watchdog whose thread is scheduled before \<open>start\<close> never bites: if the thread tests its loop
  once before the first start, it returns, and whatever comes later, starts included, there is no
  callback, however long no reset comes.\<close>

theorem watchdog_dead_before_start:
  assumes "Test \<in> set es" "Start_enable \<notin> set es"
  shows "\<exists>w. emit_run wd_step (new_Watchdog timeout check_interval cb t0) (es @ es') = Inr (w, [])"
proof -
  have "\<exists>w'. emit_run wd_step w es = Inr (w', []) \<and> watchdog_thread w' = Returned"
    if "\<not> enable_watchdog w" "watchdog_thread w = At_test" for w
    using assms that
  proof (induction es arbitrary: w)
    case (Cons e es)
    show ?case
    proof (cases "e = Test")
      case True
      with Cons.prems have "wd_step w e = Inr (w\<lparr>watchdog_thread := Returned\<rparr>, [])"
        by (simp add: wd_step_def thread_test_def)
      with wd_returned [of "w\<lparr>watchdog_thread := Returned\<rparr>" es] show ?thesis by auto
    next
      case False
      with Cons.prems(2-4) have "\<exists>w1. wd_step w e = Inr (w1, []) \<and> \<not> enable_watchdog w1 \<and> watchdog_thread w1 = At_test"
        by (cases e) (auto simp: wd_ops)
      then obtain w1 where w1: "wd_step w e = Inr (w1, [])" "\<not> enable_watchdog w1" "watchdog_thread w1 = At_test" by blast
      with Cons.IH [of w1] Cons.prems False show ?thesis by auto
    qed
  qed simp
  from this [of "new_Watchdog timeout check_interval cb t0"] obtain w1 where
    w1: "emit_run wd_step (new_Watchdog timeout check_interval cb t0) es = Inr (w1, [])" "watchdog_thread w1 = Returned"
    by (auto simp: new_Watchdog_def)
  with wd_returned [OF w1(2), of es'] show ?thesis by (auto simp: emit_run_append)
qed

text \<open>C38: A watchdog bites at the right time, whatever other threads call and whenever they call it.
  Take any run after which the thread is about to test its loop, and let it go once round: test, reading
  of the clock, copy of the last reset, decision, with calls from other threads between any two of them.
  If the newest start or stop before the test is no start, the thread returns and never calls back.
  Otherwise it calls back, once, exactly when at the decision the newest start or stop is a start, the
  newest callback set is not empty, and from the newest reset or start before the copy to the reading of
  the clock at least the newest timeout set has passed.\<close>

theorem watchdog_bites_iff:
  assumes "emit_run wd_step (new_Watchdog timeout check_interval cb t0) es = Inr (w, out)" "watchdog_thread w = At_test"
    and "\<forall>e \<in> set (es1 @ es2 @ es3). foreign_call e"
  shows "\<exists>w'. emit_run wd_step (new_Watchdog timeout check_interval cb t0)
      (es @ [Test] @ es1 @ [Read_clock now] @ es2 @ [Read_last_reset] @ es3 @ [Decide]) =
    Inr (w', out @ (if newest switches False es \<and> newest switches False (es @ es1 @ es2 @ es3) \<and>
        newest callbacks cb (es @ es1 @ es2 @ es3) \<and>
        now - newest resets t0 (es @ es1 @ es2) \<ge> newest timeouts timeout (es @ es1 @ es2 @ es3) then [now] else [])) \<and>
    watchdog_thread w' = (if newest switches False es then At_test else Returned)"
proof (cases "newest switches False es")
  case False
  with assms(1,2) have w: "wd_step w Test = Inr (w\<lparr>watchdog_thread := Returned\<rparr>, [])"
    by (simp add: wd_ops history_new)
  from wd_returned [of "w\<lparr>watchdog_thread := Returned\<rparr>"
      "es1 @ [Read_clock now] @ es2 @ [Read_last_reset] @ es3 @ [Decide]"]
  show ?thesis using False assms(1) w by (auto simp: emit_run_append)
next
  case True
  let ?new = "new_Watchdog timeout check_interval cb t0" and ?run = "emit_run wd_step (new_Watchdog timeout check_interval cb t0)"
  have "wd_step w Test = Inr (w\<lparr>watchdog_thread := Asleep\<rparr>, [])"
    using True assms(1,2) by (simp add: wd_ops history_new)
  from run_then_foreign [OF assms(1) this, of es1] assms(3) obtain w1 where
    w1: "?run (es @ Test # es1) = Inr (w1, out)" "watchdog_thread w1 = Asleep" by auto
  have "wd_step w1 (Read_clock now) = Inr (w1\<lparr>watchdog_thread := Clock_read now\<rparr>, [])"
    using w1(2) by (simp add: wd_ops)
  from run_then_foreign [OF w1(1) this, of es2] assms(3) obtain w2 where
    w2: "?run ((es @ Test # es1) @ Read_clock now # es2) = Inr (w2, out)" "watchdog_thread w2 = Clock_read now" by auto
  have "wd_step w2 Read_last_reset = Inr (w2\<lparr>watchdog_thread := Reset_read now (last_reset w2)\<rparr>, [])"
    using w2(2) by (simp add: wd_ops)
  from run_then_foreign [OF w2(1) this, of es3] assms(3) obtain w3 where
    w3: "?run (((es @ Test # es1) @ Read_clock now # es2) @ Read_last_reset # es3) = Inr (w3, out)"
      "watchdog_thread w3 = Reset_read now (last_reset w2)" by auto
  note last = history_new(1) [OF w2(1)] and others = history_new(2-4) [OF w3(1)]
  have "\<exists>w'. ?run ((((es @ Test # es1) @ Read_clock now # es2) @ Read_last_reset # es3) @ [Decide]) =
      Inr (w', out @ (if enable_watchdog w3 \<and> wd_callback w3 \<and> now - last_reset w2 \<ge> wd_timeout w3 then [now] else []))
      \<and> watchdog_thread w' = At_test"
    using w3 by (subst emit_run_append) (simp add: wd_ops)
  then obtain w' where "?run ((((es @ Test # es1) @ Read_clock now # es2) @ Read_last_reset # es3) @ [Decide]) =
      Inr (w', out @ (if enable_watchdog w3 \<and> wd_callback w3 \<and> now - last_reset w2 \<ge> wd_timeout w3 then [now] else []))"
    "watchdog_thread w' = At_test" by blast
  with True show ?thesis unfolding last others newest_round by (intro exI [of _ w']) simp
qed

text \<open>Because the decision looks at a copy of the last reset, a watchdog that is stopped, and started
  again between the copy and the decision, bites at once: here two nanoseconds after its start, with a
  timeout of two seconds.\<close>

theorem restarted_watchdog_bites:
  "\<exists>w. emit_run wd_step (new_Watchdog 2000000000 1000000000 True 0)
     [Start_reset 5, Start_enable, Test, Stop_watchdog, Read_clock 9000000000, Read_last_reset,
      Start_reset 9000000001, Start_enable, Decide] = Inr (w, [9000000000])"
  by (simp add: wd_ops new_Watchdog_def)

text \<open>C36: Whatever the I2C device answers, a read stays inside the caller's buffer: it copies at most \<open>len\<close>
  bytes, reads at most 32 bytes at a time, and when it returns a size other than 0 it has copied
  exactly that many.\<close>

theorem i2c_read_in_bounds:
  assumes "i2c_read dev len = (r, buf, reads)"
  shows "length buf \<le> len \<and> (\<forall>k \<in> set reads. k \<le> 32) \<and> (r \<noteq> 0 \<longrightarrow> length buf = unat r)"
proof (cases "length (dev [] 4) = 4 \<and> unat (le16 (dev [] 4 ! 0) (dev [] 4 ! 1) AND NOT 0x8000) \<le> len")
  case False
  with assms show ?thesis by (auto simp: i2c_read_def Let_def split: if_splits)
next
  case True
  let ?n = "le16 (dev [] 4 ! 0) (dev [] 4 ! 1) AND NOT 0x8000"
  have "i2c_read_loop dev ?n [4] ?n True [] = (r, buf, reads)"
    using assms True by (simp add: i2c_read_def Let_def)
  from i2c_read_loop_bounds [OF this] obtain more where "length buf \<le> unat ?n" "reads = [4] @ more"
    "\<forall>k \<in> set more. k \<le> 32" "r = 0 \<or> r = ?n \<and> length buf = unat ?n" by auto
  with True show ?thesis by auto
qed

lemma i2c_read_device:
  assumes "length hdr = 4" "4 \<le> length packet" "length packet \<le> len" "length packet < 0x8000"
    and header: "le16 (packet ! 0) (packet ! 1) AND NOT 0x8000 = of_nat (length packet)"
  shows "\<exists>reads. i2c_read (shtp_device hdr packet) len = (of_nat (length packet), packet, reads)"
proof -
  let ?n = "of_nat (length packet) :: u16" and ?dev = "shtp_device hdr packet"
  have n: "unat ?n = length packet" using assms(4) by (simp add: unat_of_nat)
  let ?size = "min 32 (length packet)"
  have first: "?dev [4] ?size = take ?size packet" by (simp add: shtp_device_def)
  have rest: "unat (?n - of_nat ?size) = length packet - ?size" using unat_minus_of_nat [of ?size ?n] n by simp
  have pos: "0 < ?n"
  proof -
    have "unat ?n \<noteq> 0" unfolding n using assms(2) by linarith
    then have "?n \<noteq> 0" by (metis unat_0)
    then show ?thesis by (simp add: word_neq_0_conv)
  qed
  have "i2c_read_loop ?dev ?n [4] ?n True [] = i2c_read_loop ?dev ?n [4, ?size] (?n - of_nat ?size) False (take ?size packet)"
    using pos by (subst i2c_read_loop.simps) (simp add: Let_def n first)
  moreover have "\<exists>reads. i2c_read_loop ?dev ?n [4, ?size] (?n - of_nat ?size) False (take ?size packet) =
      (?n, take ?size packet @ drop (delivered [4, ?size]) packet, reads)"
    by (rule device_loop_rest) (use assms(1) rest in simp_all)
  moreover have "i2c_read ?dev len = i2c_read_loop ?dev ?n [4] ?n True []"
    using assms(2,3) header n by (simp add: i2c_read_def Let_def shtp_device_def nth_take)
  ultimately show ?thesis by simp
qed

text \<open>C16: Packets arrive whole: a device that holds a packet with its length in its header, and starts every
  continuation with a header of its own, delivers exactly that packet to the caller.\<close>

theorem i2c_read_delivers_packet:
  assumes "length hdr = 4" "4 \<le> length packet" "length packet \<le> len" "length packet < 0x8000"
    and header: "le16 (packet ! 0) (packet ! 1) AND NOT 0x8000 = of_nat (length packet)"
  shows "\<exists>reads. i2c_read (shtp_device hdr packet) len = (of_nat (length packet), packet, reads)"
  using assms by (rule i2c_read_device)

text \<open>Opening the bus succeeds exactly when the file opens, the address is accepted and one of five soft
  resets is written whole; after a failure behind the opening the descriptor is already closed but still
  stored, so the next \<open>close\<close> closes the same number a second time.\<close>

theorem failed_open_closes_twice:
  assumes "fd \<ge> 0" "i2c_open fd ioctl ok c = (r, calls, c')"
  shows "(r = 0 \<longleftrightarrow> ioctl \<ge> 0 \<and> (\<exists>k < 5. ok k)) \<and>
    (r \<noteq> 0 \<longrightarrow> r = -1 \<and> last calls = Sys_close fd \<and> fst (i2c_close c') = [Sys_close fd])"
  using assms softreset_loop_success [of fd ok 0 5]
  by (auto simp: i2c_open_def i2c_close_def Let_def split: if_splits prod.splits)

section \<open>Witnesses\<close>

theorem watchdog_dead_before_start_witness:
  "\<exists>w. emit_run wd_step (new_Watchdog 2000000000 1000000000 True 0)
     [Test, Start_reset 5, Start_enable, Test, Read_clock 9000000000, Read_last_reset, Decide] = Inr (w, [])"
  using watchdog_dead_before_start [of "[Test]" 2000000000 1000000000 True 0
    "[Start_reset 5, Start_enable, Test, Read_clock 9000000000, Read_last_reset, Decide]"]
  by simp

theorem watchdog_bites_iff_witness:
  "\<exists>w'. emit_run wd_step (new_Watchdog 2000000000 1000000000 True 0)
     ([Start_reset 5, Start_enable] @ [Test] @ [Reset 6] @ [Read_clock 9000000000] @ [Set_timeout 8999999994] @
      [Read_last_reset] @ [Reset 9000000001] @ [Decide]) =
     Inr (w', [] @ [9000000000]) \<and> watchdog_thread w' = At_test"
proof -
  let ?w = "\<lparr>wd_timeout = 2000000000, wd_check_interval = 1000000000, wd_callback = True, enable_watchdog = True,
    last_reset = 5, watchdog_thread = At_test\<rparr>"
  have run: "emit_run wd_step (new_Watchdog 2000000000 1000000000 True 0) [Start_reset 5, Start_enable] = Inr (?w, [])"
    by (simp add: wd_ops new_Watchdog_def)
  show ?thesis
    using watchdog_bites_iff [OF run, of "[Reset 6]" "[Set_timeout 8999999994]" "[Reset 9000000001]" 9000000000]
    by (simp add: foreign_call_def switches_def resets_def timeouts_def callbacks_def)
qed

definition sample_packet :: "u8 list" where
  "sample_packet = [6, 0, 2, 0, 0xAA, 0xBB]"

theorem i2c_read_in_bounds_witness:
  "\<exists>reads. i2c_read (shtp_device [6, 0x80, 2, 1] sample_packet) 128 = (6, sample_packet, reads) \<and>
     length sample_packet \<le> 128 \<and> (\<forall>k \<in> set reads. k \<le> 32) \<and> ((6 :: u16) \<noteq> 0 \<longrightarrow> length sample_packet = unat (6 :: u16))"
proof -
  from i2c_read_device [of "[6, 0x80, 2, 1]" sample_packet 128] obtain reads where
    r: "i2c_read (shtp_device [6, 0x80, 2, 1] sample_packet) 128 = (6, sample_packet, reads)"
    by (auto simp: sample_packet_def le16_ucast)
  from i2c_read_in_bounds [OF r] r show ?thesis by blast
qed

theorem i2c_read_delivers_packet_witness:
  "\<exists>reads. i2c_read (shtp_device [6, 0x80, 2, 1] sample_packet) 128 = (6, sample_packet, reads)"
  using i2c_read_delivers_packet [of "[6, 0x80, 2, 1]" sample_packet 128]
  by (simp add: sample_packet_def le16_ucast)

theorem failed_open_closes_twice_witness:
  "fst (i2c_close (snd (snd (i2c_open 3 (-1) (\<lambda>_. True) (new_I2CInterface ''/dev/i2c-7'' 0x4A))))) = [Sys_close 3]"
  using failed_open_closes_twice [of 3 "-1" "\<lambda>_. True" "new_I2CInterface ''/dev/i2c-7'' 0x4A"]
  by (auto simp: i2c_open_def new_I2CInterface_def Let_def)

end
