(* ===== verification/Sh2_Value.thy ===== *)
theory Sh2_Value
  imports Programs "HOL-Library.Monad_Syntax"
begin

text \<open>
  Two files of the SH-2 library that comes with the IMU driver
  (\<^verbatim>\<open>bno08x_driver/include/sh2\<close>): the little-endian accesses to byte buffers of \<^verbatim>\<open>sh2_util.c\<close>, and
  the decoding of sensor events of \<^verbatim>\<open>sh2_SensorValue.c\<close>. A pointer into a buffer is the rest of the
  buffer from there; an access behind its end is \<open>None\<close>. A byte is shifted by 24 as the compilers do
  it, into the sign bit. The products with a power of two are exact for the 16-bit fields; those of
  pressure and ambient light, with 32 bits, are rounded to \<open>float\<close> in the code.
\<close>

section \<open>Access to byte buffers\<close>

fun readu8 :: "u8 list \<Rightarrow> u8 option" where
  "readu8 (b # _) = Some b"
| "readu8 _ = None"

fun readu16 :: "u8 list \<Rightarrow> u16 option" where
  "readu16 (b0 # b1 # _) = Some (ucast b0 OR push_bit 8 (ucast b1))"
| "readu16 _ = None"

fun readu32 :: "u8 list \<Rightarrow> u32 option" where
  "readu32 (b0 # b1 # b2 # b3 # _) =
     Some (ucast b0 OR push_bit 8 (ucast b1) OR push_bit 16 (ucast b2) OR push_bit 24 (ucast b3))"
| "readu32 _ = None"

definition read8 :: "u8 list \<Rightarrow> 8 word option" where
  "read8 p = readu8 p"

fun read16 :: "u8 list \<Rightarrow> i16 option" where
  "read16 (b0 # b1 # _) = Some (ucast b0 OR push_bit 8 (ucast b1))"
| "read16 _ = None"

fun read32 :: "u8 list \<Rightarrow> i32 option" where
  "read32 (b0 # b1 # b2 # b3 # _) =
     Some (ucast b0 OR push_bit 8 (ucast b1) OR push_bit 16 (ucast b2) OR push_bit 24 (ucast b3))"
| "read32 _ = None"

text \<open>What a write leaves in the buffer. The shifts of the signed writes are arithmetic.\<close>

fun writeu8 :: "u8 list \<Rightarrow> u8 \<Rightarrow> u8 list option" where
  "writeu8 (_ # p) v = Some ((v AND 0xFF) # p)"
| "writeu8 _ v = None"

fun writeu16 :: "u8 list \<Rightarrow> u16 \<Rightarrow> u8 list option" where
  "writeu16 (_ # _ # p) v = Some (ucast (v AND 0xFF) # ucast (drop_bit 8 v AND 0xFF) # p)"
| "writeu16 _ v = None"

fun writeu32 :: "u8 list \<Rightarrow> u32 \<Rightarrow> u8 list option" where
  "writeu32 (_ # _ # _ # _ # p) v =
     Some (ucast (v AND 0xFF) # ucast (drop_bit 8 v AND 0xFF) # ucast (drop_bit 8 (drop_bit 8 v) AND 0xFF) #
       ucast (drop_bit 8 (drop_bit 8 (drop_bit 8 v)) AND 0xFF) # p)"
| "writeu32 _ v = None"

definition write8 :: "u8 list \<Rightarrow> 8 word \<Rightarrow> u8 list option" where
  "write8 p v = writeu8 p v"

fun write16 :: "u8 list \<Rightarrow> i16 \<Rightarrow> u8 list option" where
  "write16 (_ # _ # p) v = Some (ucast (v AND 0xFF) # ucast (signed_drop_bit 8 v AND 0xFF) # p)"
| "write16 _ v = None"

fun write32 :: "u8 list \<Rightarrow> i32 \<Rightarrow> u8 list option" where
  "write32 (_ # _ # _ # _ # p) v =
     Some (ucast (v AND 0xFF) # ucast (signed_drop_bit 8 v AND 0xFF) #
       ucast (signed_drop_bit 8 (signed_drop_bit 8 v) AND 0xFF) #
       ucast (signed_drop_bit 8 (signed_drop_bit 8 (signed_drop_bit 8 v)) AND 0xFF) # p)"
| "write32 _ v = None"

section \<open>Sensor events and values\<close>

abbreviation SH2_OK :: int where "SH2_OK \<equiv> 0"
abbreviation SH2_ERR :: int where "SH2_ERR \<equiv> -1"
abbreviation SH2_ERR_BAD_PARAM :: int where "SH2_ERR_BAD_PARAM \<equiv> -2"
abbreviation SH2_ERR_OP_IN_PROGRESS :: int where "SH2_ERR_OP_IN_PROGRESS \<equiv> -3"
abbreviation SH2_ERR_IO :: int where "SH2_ERR_IO \<equiv> -4"
abbreviation SH2_ERR_HUB :: int where "SH2_ERR_HUB \<equiv> -5"
abbreviation SH2_ERR_TIMEOUT :: int where "SH2_ERR_TIMEOUT \<equiv> -6"

record vec =
  x_of :: double
  y_of :: double
  z_of :: double

record quat =
  i_of :: double
  j_of :: double
  k_of :: double
  real_of :: double

text \<open>The report has 16 bytes; \<open>ev_len\<close> of them are the sensor's.\<close>

record sh2_SensorEvent =
  ev_timestamp_uS :: u64
  ev_len :: u8
  ev_reportId :: u8
  ev_report :: "u8 list"

text \<open>The union of the value, one constructor per member; bias, accuracy and angular velocity come
  behind the vector or quaternion they belong to.\<close>

datatype sensor_data =
    RawAccelerometer i16 i16 i16 u32 | Accelerometer vec | LinearAcceleration vec | Gravity vec
  | RawGyroscope i16 i16 i16 i16 u32 | Gyroscope vec | GyroscopeUncal vec vec
  | RawMagnetometer i16 i16 i16 u32 | MagneticField vec | MagneticFieldUncal vec vec
  | RotationVector quat double | GameRotationVector quat | GeoMagRotationVector quat double
  | Pressure double | AmbientLight double | Humidity double | Proximity double | Temperature double
  | Reserved double | TapDetector u8 | StepDetector u32 | StepCounter u32 u16 | SigMotion u16
  | StabilityClassifier u8 | ShakeDetector u16 | FlipDetector u16 | PickupDetector u16
  | StabilityDetector u16 | PersonalActivityClassifier u8 bool u8 "u8 list" | SleepDetector u8
  | TiltDetector u16 | PocketDetector u16 | CircleDetector u16 | HeartRateMonitor u16
  | ArvrStabilizedRV quat double | ArvrStabilizedGRV quat | GyroIntegratedRV quat vec
  | IZroRequest u8 u8

text \<open>\<open>un_of\<close>: \<open>None\<close> when no decoder has set it.\<close>

record sh2_SensorValue =
  sensorId_of :: u8
  sequence_of :: u8
  status_of :: u8
  timestamp_of :: u64
  un_of :: "sensor_data option"

abbreviation SH2_RAW_ACCELEROMETER :: u8 where "SH2_RAW_ACCELEROMETER \<equiv> 0x14"
abbreviation SH2_ACCELEROMETER :: u8 where "SH2_ACCELEROMETER \<equiv> 0x01"
abbreviation SH2_LINEAR_ACCELERATION :: u8 where "SH2_LINEAR_ACCELERATION \<equiv> 0x04"
abbreviation SH2_GRAVITY :: u8 where "SH2_GRAVITY \<equiv> 0x06"
abbreviation SH2_RAW_GYROSCOPE :: u8 where "SH2_RAW_GYROSCOPE \<equiv> 0x15"
abbreviation SH2_GYROSCOPE_CALIBRATED :: u8 where "SH2_GYROSCOPE_CALIBRATED \<equiv> 0x02"
abbreviation SH2_GYROSCOPE_UNCALIBRATED :: u8 where "SH2_GYROSCOPE_UNCALIBRATED \<equiv> 0x07"
abbreviation SH2_RAW_MAGNETOMETER :: u8 where "SH2_RAW_MAGNETOMETER \<equiv> 0x16"
abbreviation SH2_MAGNETIC_FIELD_CALIBRATED :: u8 where "SH2_MAGNETIC_FIELD_CALIBRATED \<equiv> 0x03"
abbreviation SH2_MAGNETIC_FIELD_UNCALIBRATED :: u8 where "SH2_MAGNETIC_FIELD_UNCALIBRATED \<equiv> 0x0f"
abbreviation SH2_ROTATION_VECTOR :: u8 where "SH2_ROTATION_VECTOR \<equiv> 0x05"
abbreviation SH2_GAME_ROTATION_VECTOR :: u8 where "SH2_GAME_ROTATION_VECTOR \<equiv> 0x08"
abbreviation SH2_GEOMAGNETIC_ROTATION_VECTOR :: u8 where "SH2_GEOMAGNETIC_ROTATION_VECTOR \<equiv> 0x09"
abbreviation SH2_PRESSURE :: u8 where "SH2_PRESSURE \<equiv> 0x0a"
abbreviation SH2_AMBIENT_LIGHT :: u8 where "SH2_AMBIENT_LIGHT \<equiv> 0x0b"
abbreviation SH2_HUMIDITY :: u8 where "SH2_HUMIDITY \<equiv> 0x0c"
abbreviation SH2_PROXIMITY :: u8 where "SH2_PROXIMITY \<equiv> 0x0d"
abbreviation SH2_TEMPERATURE :: u8 where "SH2_TEMPERATURE \<equiv> 0x0e"
abbreviation SH2_RESERVED :: u8 where "SH2_RESERVED \<equiv> 0x17"
abbreviation SH2_TAP_DETECTOR :: u8 where "SH2_TAP_DETECTOR \<equiv> 0x10"
abbreviation SH2_STEP_DETECTOR :: u8 where "SH2_STEP_DETECTOR \<equiv> 0x18"
abbreviation SH2_STEP_COUNTER :: u8 where "SH2_STEP_COUNTER \<equiv> 0x11"
abbreviation SH2_SIGNIFICANT_MOTION :: u8 where "SH2_SIGNIFICANT_MOTION \<equiv> 0x12"
abbreviation SH2_STABILITY_CLASSIFIER :: u8 where "SH2_STABILITY_CLASSIFIER \<equiv> 0x13"
abbreviation SH2_SHAKE_DETECTOR :: u8 where "SH2_SHAKE_DETECTOR \<equiv> 0x19"
abbreviation SH2_FLIP_DETECTOR :: u8 where "SH2_FLIP_DETECTOR \<equiv> 0x1a"
abbreviation SH2_PICKUP_DETECTOR :: u8 where "SH2_PICKUP_DETECTOR \<equiv> 0x1b"
abbreviation SH2_STABILITY_DETECTOR :: u8 where "SH2_STABILITY_DETECTOR \<equiv> 0x1c"
abbreviation SH2_PERSONAL_ACTIVITY_CLASSIFIER :: u8 where "SH2_PERSONAL_ACTIVITY_CLASSIFIER \<equiv> 0x1e"
abbreviation SH2_SLEEP_DETECTOR :: u8 where "SH2_SLEEP_DETECTOR \<equiv> 0x1f"
abbreviation SH2_TILT_DETECTOR :: u8 where "SH2_TILT_DETECTOR \<equiv> 0x20"
abbreviation SH2_POCKET_DETECTOR :: u8 where "SH2_POCKET_DETECTOR \<equiv> 0x21"
abbreviation SH2_CIRCLE_DETECTOR :: u8 where "SH2_CIRCLE_DETECTOR \<equiv> 0x22"
abbreviation SH2_HEART_RATE_MONITOR :: u8 where "SH2_HEART_RATE_MONITOR \<equiv> 0x23"
abbreviation SH2_ARVR_STABILIZED_RV :: u8 where "SH2_ARVR_STABILIZED_RV \<equiv> 0x28"
abbreviation SH2_ARVR_STABILIZED_GRV :: u8 where "SH2_ARVR_STABILIZED_GRV \<equiv> 0x29"
abbreviation SH2_GYRO_INTEGRATED_RV :: u8 where "SH2_GYRO_INTEGRATED_RV \<equiv> 0x2A"
abbreviation SH2_IZRO_MOTION_REQUEST :: u8 where "SH2_IZRO_MOTION_REQUEST \<equiv> 0x2B"

section \<open>The decoders\<close>

definition SCALE_Q :: "nat \<Rightarrow> double" where
  "SCALE_Q n = 1 / real (2 ^ n)"

text \<open>A field at an offset of the report, and three or four of them in a row.\<close>

definition q16 :: "nat \<Rightarrow> nat \<Rightarrow> u8 list \<Rightarrow> double option" where
  "q16 n off r = do { w \<leftarrow> read16 (drop off r); Some (real_of_int (sint w) * SCALE_Q n) }"

definition q32 :: "nat \<Rightarrow> nat \<Rightarrow> u8 list \<Rightarrow> double option" where
  "q32 n off r = do { w \<leftarrow> read32 (drop off r); Some (real_of_int (sint w) * SCALE_Q n) }"

definition vec_at :: "nat \<Rightarrow> nat \<Rightarrow> u8 list \<Rightarrow> vec option" where
  "vec_at n off r = do {
     x \<leftarrow> q16 n off r; y \<leftarrow> q16 n (off + 2) r; z \<leftarrow> q16 n (off + 4) r;
     Some \<lparr>x_of = x, y_of = y, z_of = z\<rparr> }"

definition quat_at :: "nat \<Rightarrow> nat \<Rightarrow> u8 list \<Rightarrow> quat option" where
  "quat_at n off r = do {
     i \<leftarrow> q16 n off r; j \<leftarrow> q16 n (off + 2) r; k \<leftarrow> q16 n (off + 4) r; re \<leftarrow> q16 n (off + 6) r;
     Some \<lparr>i_of = i, j_of = j, k_of = k, real_of = re\<rparr> }"

definition decodeRawAccelerometer :: "u8 list \<Rightarrow> sensor_data option" where
  "decodeRawAccelerometer r = do {
     x \<leftarrow> read16 (drop 4 r); y \<leftarrow> read16 (drop 6 r); z \<leftarrow> read16 (drop 8 r); t \<leftarrow> read32 (drop 12 r);
     Some (RawAccelerometer x y z t) }"

definition decodeAccelerometer :: "u8 list \<Rightarrow> sensor_data option" where
  "decodeAccelerometer r = do { v \<leftarrow> vec_at 8 4 r; Some (Accelerometer v) }"

definition decodeLinearAcceleration :: "u8 list \<Rightarrow> sensor_data option" where
  "decodeLinearAcceleration r = do { v \<leftarrow> vec_at 8 4 r; Some (LinearAcceleration v) }"

definition decodeGravity :: "u8 list \<Rightarrow> sensor_data option" where
  "decodeGravity r = do { v \<leftarrow> vec_at 8 4 r; Some (Gravity v) }"

definition decodeRawGyroscope :: "u8 list \<Rightarrow> sensor_data option" where
  "decodeRawGyroscope r = do {
     x \<leftarrow> read16 (drop 4 r); y \<leftarrow> read16 (drop 6 r); z \<leftarrow> read16 (drop 8 r); temperature \<leftarrow> read16 (drop 10 r);
     t \<leftarrow> read32 (drop 12 r); Some (RawGyroscope x y z temperature t) }"

definition decodeGyroscopeCalibrated :: "u8 list \<Rightarrow> sensor_data option" where
  "decodeGyroscopeCalibrated r = do { v \<leftarrow> vec_at 9 4 r; Some (Gyroscope v) }"

definition decodeGyroscopeUncal :: "u8 list \<Rightarrow> sensor_data option" where
  "decodeGyroscopeUncal r = do { v \<leftarrow> vec_at 9 4 r; bias \<leftarrow> vec_at 9 10 r; Some (GyroscopeUncal v bias) }"

definition decodeRawMagnetometer :: "u8 list \<Rightarrow> sensor_data option" where
  "decodeRawMagnetometer r = do {
     x \<leftarrow> read16 (drop 4 r); y \<leftarrow> read16 (drop 6 r); z \<leftarrow> read16 (drop 8 r); t \<leftarrow> read32 (drop 12 r);
     Some (RawMagnetometer x y z t) }"

definition decodeMagneticFieldCalibrated :: "u8 list \<Rightarrow> sensor_data option" where
  "decodeMagneticFieldCalibrated r = do { v \<leftarrow> vec_at 4 4 r; Some (MagneticField v) }"

definition decodeMagneticFieldUncal :: "u8 list \<Rightarrow> sensor_data option" where
  "decodeMagneticFieldUncal r = do { v \<leftarrow> vec_at 4 4 r; bias \<leftarrow> vec_at 4 10 r; Some (MagneticFieldUncal v bias) }"

definition decodeRotationVector :: "u8 list \<Rightarrow> sensor_data option" where
  "decodeRotationVector r = do { q \<leftarrow> quat_at 14 4 r; accuracy \<leftarrow> q16 12 12 r; Some (RotationVector q accuracy) }"

definition decodeGameRotationVector :: "u8 list \<Rightarrow> sensor_data option" where
  "decodeGameRotationVector r = do { q \<leftarrow> quat_at 14 4 r; Some (GameRotationVector q) }"

definition decodeGeomagneticRotationVector :: "u8 list \<Rightarrow> sensor_data option" where
  "decodeGeomagneticRotationVector r =
     do { q \<leftarrow> quat_at 14 4 r; accuracy \<leftarrow> q16 12 12 r; Some (GeoMagRotationVector q accuracy) }"

definition decodePressure :: "u8 list \<Rightarrow> sensor_data option" where
  "decodePressure r = do { v \<leftarrow> q32 20 4 r; Some (Pressure v) }"

definition decodeAmbientLight :: "u8 list \<Rightarrow> sensor_data option" where
  "decodeAmbientLight r = do { v \<leftarrow> q32 8 4 r; Some (AmbientLight v) }"

definition decodeHumidity :: "u8 list \<Rightarrow> sensor_data option" where
  "decodeHumidity r = do { v \<leftarrow> q16 8 4 r; Some (Humidity v) }"

definition decodeProximity :: "u8 list \<Rightarrow> sensor_data option" where
  "decodeProximity r = do { v \<leftarrow> q16 4 4 r; Some (Proximity v) }"

definition decodeTemperature :: "u8 list \<Rightarrow> sensor_data option" where
  "decodeTemperature r = do { v \<leftarrow> q16 7 4 r; Some (Temperature v) }"

definition decodeReserved :: "u8 list \<Rightarrow> sensor_data option" where
  "decodeReserved r = do { v \<leftarrow> q16 7 4 r; Some (Reserved v) }"

definition decodeTapDetector :: "u8 list \<Rightarrow> sensor_data option" where
  "decodeTapDetector r = do { v \<leftarrow> readu8 (drop 4 r); Some (TapDetector v) }"

definition decodeStepDetector :: "u8 list \<Rightarrow> sensor_data option" where
  "decodeStepDetector r = do { v \<leftarrow> readu32 (drop 4 r); Some (StepDetector v) }"

text \<open>The steps are read with 32 bits and stored with 16.\<close>

definition decodeStepCounter :: "u8 list \<Rightarrow> sensor_data option" where
  "decodeStepCounter r =
     do { latency \<leftarrow> readu32 (drop 4 r); steps \<leftarrow> readu32 (drop 8 r); Some (StepCounter latency (ucast steps)) }"

definition decodeSignificantMotion :: "u8 list \<Rightarrow> sensor_data option" where
  "decodeSignificantMotion r = do { v \<leftarrow> readu16 (drop 4 r); Some (SigMotion v) }"

definition decodeStabilityClassifier :: "u8 list \<Rightarrow> sensor_data option" where
  "decodeStabilityClassifier r = do { v \<leftarrow> readu8 (drop 4 r); Some (StabilityClassifier v) }"

definition decodeShakeDetector :: "u8 list \<Rightarrow> sensor_data option" where
  "decodeShakeDetector r = do { v \<leftarrow> readu16 (drop 4 r); Some (ShakeDetector v) }"

definition decodeFlipDetector :: "u8 list \<Rightarrow> sensor_data option" where
  "decodeFlipDetector r = do { v \<leftarrow> readu16 (drop 4 r); Some (FlipDetector v) }"

definition decodePickupDetector :: "u8 list \<Rightarrow> sensor_data option" where
  "decodePickupDetector r = do { v \<leftarrow> readu16 (drop 4 r); Some (PickupDetector v) }"

definition decodeStabilityDetector :: "u8 list \<Rightarrow> sensor_data option" where
  "decodeStabilityDetector r = do { v \<leftarrow> readu16 (drop 4 r); Some (StabilityDetector v) }"

definition decodePersonalActivityClassifier :: "u8 list \<Rightarrow> sensor_data option" where
  "decodePersonalActivityClassifier r = do {
     b \<leftarrow> readu8 (drop 4 r); state \<leftarrow> readu8 (drop 5 r);
     confidence \<leftarrow> those (map (\<lambda>n. readu8 (drop (6 + n) r)) [0..<10]);
     Some (PersonalActivityClassifier (b AND 0x7F) (b AND 0x80 \<noteq> 0) state confidence) }"

definition decodeSleepDetector :: "u8 list \<Rightarrow> sensor_data option" where
  "decodeSleepDetector r = do { v \<leftarrow> readu8 (drop 4 r); Some (SleepDetector v) }"

definition decodeTiltDetector :: "u8 list \<Rightarrow> sensor_data option" where
  "decodeTiltDetector r = do { v \<leftarrow> readu16 (drop 4 r); Some (TiltDetector v) }"

definition decodePocketDetector :: "u8 list \<Rightarrow> sensor_data option" where
  "decodePocketDetector r = do { v \<leftarrow> readu16 (drop 4 r); Some (PocketDetector v) }"

definition decodeCircleDetector :: "u8 list \<Rightarrow> sensor_data option" where
  "decodeCircleDetector r = do { v \<leftarrow> readu16 (drop 4 r); Some (CircleDetector v) }"

definition decodeHeartRateMonitor :: "u8 list \<Rightarrow> sensor_data option" where
  "decodeHeartRateMonitor r = do { v \<leftarrow> readu16 (drop 4 r); Some (HeartRateMonitor v) }"

definition decodeArvrStabilizedRV :: "u8 list \<Rightarrow> sensor_data option" where
  "decodeArvrStabilizedRV r = do { q \<leftarrow> quat_at 14 4 r; accuracy \<leftarrow> q16 12 12 r; Some (ArvrStabilizedRV q accuracy) }"

definition decodeArvrStabilizedGRV :: "u8 list \<Rightarrow> sensor_data option" where
  "decodeArvrStabilizedGRV r = do { q \<leftarrow> quat_at 14 4 r; Some (ArvrStabilizedGRV q) }"

definition decodeGyroIntegratedRV :: "u8 list \<Rightarrow> sensor_data option" where
  "decodeGyroIntegratedRV r = do { q \<leftarrow> quat_at 14 0 r; angVel \<leftarrow> vec_at 10 8 r; Some (GyroIntegratedRV q angVel) }"

definition decodeIZroRequest :: "u8 list \<Rightarrow> sensor_data option" where
  "decodeIZroRequest r = do { intent \<leftarrow> readu8 (drop 4 r); request \<leftarrow> readu8 (drop 5 r); Some (IZroRequest intent request) }"

text \<open>The switch over the sensor.\<close>

definition decoders :: "(u8 \<times> (u8 list \<Rightarrow> sensor_data option)) list" where
  "decoders =
    [(SH2_RAW_ACCELEROMETER, decodeRawAccelerometer), (SH2_ACCELEROMETER, decodeAccelerometer),
     (SH2_LINEAR_ACCELERATION, decodeLinearAcceleration), (SH2_GRAVITY, decodeGravity),
     (SH2_RAW_GYROSCOPE, decodeRawGyroscope), (SH2_GYROSCOPE_CALIBRATED, decodeGyroscopeCalibrated),
     (SH2_GYROSCOPE_UNCALIBRATED, decodeGyroscopeUncal), (SH2_RAW_MAGNETOMETER, decodeRawMagnetometer),
     (SH2_MAGNETIC_FIELD_CALIBRATED, decodeMagneticFieldCalibrated),
     (SH2_MAGNETIC_FIELD_UNCALIBRATED, decodeMagneticFieldUncal),
     (SH2_ROTATION_VECTOR, decodeRotationVector), (SH2_GAME_ROTATION_VECTOR, decodeGameRotationVector),
     (SH2_GEOMAGNETIC_ROTATION_VECTOR, decodeGeomagneticRotationVector), (SH2_PRESSURE, decodePressure),
     (SH2_AMBIENT_LIGHT, decodeAmbientLight), (SH2_HUMIDITY, decodeHumidity),
     (SH2_PROXIMITY, decodeProximity), (SH2_TEMPERATURE, decodeTemperature), (SH2_RESERVED, decodeReserved),
     (SH2_TAP_DETECTOR, decodeTapDetector), (SH2_STEP_DETECTOR, decodeStepDetector),
     (SH2_STEP_COUNTER, decodeStepCounter), (SH2_SIGNIFICANT_MOTION, decodeSignificantMotion),
     (SH2_STABILITY_CLASSIFIER, decodeStabilityClassifier), (SH2_SHAKE_DETECTOR, decodeShakeDetector),
     (SH2_FLIP_DETECTOR, decodeFlipDetector), (SH2_PICKUP_DETECTOR, decodePickupDetector),
     (SH2_STABILITY_DETECTOR, decodeStabilityDetector),
     (SH2_PERSONAL_ACTIVITY_CLASSIFIER, decodePersonalActivityClassifier),
     (SH2_SLEEP_DETECTOR, decodeSleepDetector), (SH2_TILT_DETECTOR, decodeTiltDetector),
     (SH2_POCKET_DETECTOR, decodePocketDetector), (SH2_CIRCLE_DETECTOR, decodeCircleDetector),
     (SH2_HEART_RATE_MONITOR, decodeHeartRateMonitor), (SH2_ARVR_STABILIZED_RV, decodeArvrStabilizedRV),
     (SH2_ARVR_STABILIZED_GRV, decodeArvrStabilizedGRV), (SH2_GYRO_INTEGRATED_RV, decodeGyroIntegratedRV),
     (SH2_IZRO_MOTION_REQUEST, decodeIZroRequest)]"

text \<open>The result is the status and the value; \<open>None\<close>: an access outside the report.\<close>

definition sh2_decodeSensorEvent :: "sh2_SensorEvent \<Rightarrow> (int \<times> sh2_SensorValue) option" where
  "sh2_decodeSensorEvent event = do {
     (seq, status) \<leftarrow> (if ev_reportId event \<noteq> SH2_GYRO_INTEGRATED_RV then do {
         seq \<leftarrow> readu8 (drop 1 (ev_report event)); status \<leftarrow> readu8 (drop 2 (ev_report event));
         Some (seq, status AND 0x03) }
       else Some (0, 0));
     let value = \<lparr>sensorId_of = ev_reportId event, sequence_of = seq, status_of = status,
       timestamp_of = ev_timestamp_uS event, un_of = None\<rparr>;
     (case map_of decoders (ev_reportId event) of
        None \<Rightarrow> Some (SH2_ERR, value)
      | Some decode \<Rightarrow> do { d \<leftarrow> decode (ev_report event); Some (SH2_OK, value\<lparr>un_of := Some d\<rparr>) }) }"


section \<open>Reading what was written\<close>

lemma byte_mask: "(0xFF :: 'a::len word) = mask 8"
  by (simp add: mask_eq_exp_minus_1)

lemma ucast_byte_mask: "(ucast (v AND 0xFF) :: u8) = ucast v"
  unfolding byte_mask by (rule bit_word_eqI) (auto simp: bit_unsigned_iff bit_and_iff bit_mask_iff dest: bit_imp_le_length)

lemma ucast_signed_drop_bit:
  assumes "8 + n \<le> LENGTH('a)"
  shows "(ucast (signed_drop_bit n v) :: u8) = ucast (drop_bit n (v :: 'a::len word))"
  by (rule bit_word_eqI) (use assms in \<open>auto simp: bit_unsigned_iff bit_signed_drop_bit_iff bit_drop_bit_eq\<close>)

lemma writeu16_bytes: "writeu16 (a # b # p) v = Some (bytes_le 2 v @ p)"
  by (simp add: ucast_byte_mask numeral_2_eq_2)

lemma writeu32_bytes: "writeu32 (a # b # c # d # p) v = Some (bytes_le 4 v @ p)"
  by (simp add: ucast_byte_mask numeral_eq_Suc)

lemma write16_unsigned: "write16 p v = writeu16 p v"
  by (cases "(p, v)" rule: write16.cases) (simp_all add: ucast_byte_mask ucast_signed_drop_bit)

lemma write32_unsigned: "write32 p v = writeu32 p v"
  by (cases "(p, v)" rule: write32.cases)
    (simp_all add: ucast_byte_mask ucast_signed_drop_bit signed_drop_bit_signed_drop_bit drop_bit_drop_bit)

lemma readu16_bytes: "readu16 (bytes_le 2 v @ p) = Some v"
  using word_le_bytes_le [of 2 v] by (simp add: numeral_2_eq_2 push_bit_of_0)

lemma readu32_bytes: "readu32 (bytes_le 4 v @ p) = Some v"
  using word_le_bytes_le [of 4 v] by (simp add: numeral_eq_Suc push_bit_or push_bit_push_bit)

lemma read16_unsigned: "read16 p = readu16 p"
  by (cases p rule: read16.cases) simp_all

lemma read32_unsigned: "read32 p = readu32 p"
  by (cases p rule: read32.cases) simp_all

lemma read16_drop: "off + 2 \<le> length r \<Longrightarrow> read16 (drop off r) = Some (le16 (r ! off) (r ! (off + 1)))"
proof -
  assume "off + 2 \<le> length r"
  then have "drop off r = r ! off # r ! (off + 1) # drop (off + 2) r"
    by (metis Cons_nth_drop_Suc Suc_eq_plus1 Suc_le_lessD add_2_eq_Suc' add.commute le_eq_less_or_eq lessI less_trans)
  moreover have "(ucast a OR push_bit 8 (ucast b) :: u16) = le16 a b" for a b :: u8
    by (rule bit_word_eqI)
      (auto simp: le16_def bit_or_iff bit_push_bit_iff bit_unsigned_iff bit_word_cat_iff possible_bit_word dest: bit_imp_le_length)
  ultimately show ?thesis by simp
qed

lemma drop4_Cons:
  assumes "off + 4 \<le> length r"
  shows "\<exists>a b c d p. drop off r = a # b # c # d # p"
proof -
  from assms have "4 \<le> length (drop off r)" by simp
  then show ?thesis by (auto simp: numeral_eq_Suc Suc_le_length_iff simp del: length_drop)
qed

lemma read32_drop: "off + 4 \<le> length r \<Longrightarrow> \<exists>w. read32 (drop off r) = Some w"
  using drop4_Cons [of off r] by auto

lemma readu8_drop: "off < length r \<Longrightarrow> readu8 (drop off r) = Some (r ! off)"
  by (simp flip: Cons_nth_drop_Suc)

lemma readu16_drop: "off + 2 \<le> length r \<Longrightarrow> readu16 (drop off r) = Some (le16 (r ! off) (r ! (off + 1)))"
  using read16_drop [of off r] by (simp add: read16_unsigned)

lemma q16_drop: "off + 2 \<le> length r \<Longrightarrow>
    q16 n off r = Some (real_of_int (sint (le16 (r ! off) (r ! (off + 1)))) * SCALE_Q n)"
  by (simp add: q16_def read16_drop)

lemma q32_drop: "off + 4 \<le> length r \<Longrightarrow> \<exists>x. q32 n off r = Some x"
  using read32_drop [of off r] by (auto simp: q32_def)

lemma vec_at_total: "off + 6 \<le> length r \<Longrightarrow> \<exists>v. vec_at n off r = Some v"
  by (simp add: vec_at_def q16_drop)

lemma quat_at_total: "off + 8 \<le> length r \<Longrightarrow> \<exists>v. quat_at n off r = Some v"
  by (simp add: quat_at_def q16_drop)

section \<open>The decoders stay inside the report and tag the union\<close>

text \<open>The sensor whose decoder sets a member of the union.\<close>

fun sensor_of :: "sensor_data \<Rightarrow> u8" where
  "sensor_of (RawAccelerometer _ _ _ _) = SH2_RAW_ACCELEROMETER"
| "sensor_of (Accelerometer _) = SH2_ACCELEROMETER"
| "sensor_of (LinearAcceleration _) = SH2_LINEAR_ACCELERATION"
| "sensor_of (Gravity _) = SH2_GRAVITY"
| "sensor_of (RawGyroscope _ _ _ _ _) = SH2_RAW_GYROSCOPE"
| "sensor_of (Gyroscope _) = SH2_GYROSCOPE_CALIBRATED"
| "sensor_of (GyroscopeUncal _ _) = SH2_GYROSCOPE_UNCALIBRATED"
| "sensor_of (RawMagnetometer _ _ _ _) = SH2_RAW_MAGNETOMETER"
| "sensor_of (MagneticField _) = SH2_MAGNETIC_FIELD_CALIBRATED"
| "sensor_of (MagneticFieldUncal _ _) = SH2_MAGNETIC_FIELD_UNCALIBRATED"
| "sensor_of (RotationVector _ _) = SH2_ROTATION_VECTOR"
| "sensor_of (GameRotationVector _) = SH2_GAME_ROTATION_VECTOR"
| "sensor_of (GeoMagRotationVector _ _) = SH2_GEOMAGNETIC_ROTATION_VECTOR"
| "sensor_of (Pressure _) = SH2_PRESSURE"
| "sensor_of (AmbientLight _) = SH2_AMBIENT_LIGHT"
| "sensor_of (Humidity _) = SH2_HUMIDITY"
| "sensor_of (Proximity _) = SH2_PROXIMITY"
| "sensor_of (Temperature _) = SH2_TEMPERATURE"
| "sensor_of (Reserved _) = SH2_RESERVED"
| "sensor_of (TapDetector _) = SH2_TAP_DETECTOR"
| "sensor_of (StepDetector _) = SH2_STEP_DETECTOR"
| "sensor_of (StepCounter _ _) = SH2_STEP_COUNTER"
| "sensor_of (SigMotion _) = SH2_SIGNIFICANT_MOTION"
| "sensor_of (StabilityClassifier _) = SH2_STABILITY_CLASSIFIER"
| "sensor_of (ShakeDetector _) = SH2_SHAKE_DETECTOR"
| "sensor_of (FlipDetector _) = SH2_FLIP_DETECTOR"
| "sensor_of (PickupDetector _) = SH2_PICKUP_DETECTOR"
| "sensor_of (StabilityDetector _) = SH2_STABILITY_DETECTOR"
| "sensor_of (PersonalActivityClassifier _ _ _ _) = SH2_PERSONAL_ACTIVITY_CLASSIFIER"
| "sensor_of (SleepDetector _) = SH2_SLEEP_DETECTOR"
| "sensor_of (TiltDetector _) = SH2_TILT_DETECTOR"
| "sensor_of (PocketDetector _) = SH2_POCKET_DETECTOR"
| "sensor_of (CircleDetector _) = SH2_CIRCLE_DETECTOR"
| "sensor_of (HeartRateMonitor _) = SH2_HEART_RATE_MONITOR"
| "sensor_of (ArvrStabilizedRV _ _) = SH2_ARVR_STABILIZED_RV"
| "sensor_of (ArvrStabilizedGRV _) = SH2_ARVR_STABILIZED_GRV"
| "sensor_of (GyroIntegratedRV _ _) = SH2_GYRO_INTEGRATED_RV"
| "sensor_of (IZroRequest _ _) = SH2_IZRO_MOTION_REQUEST"

lemmas decode_raw = decodeRawAccelerometer_def decodeRawGyroscope_def decodeRawMagnetometer_def

lemmas decode_vec = decodeAccelerometer_def decodeLinearAcceleration_def decodeGravity_def
  decodeGyroscopeCalibrated_def decodeGyroscopeUncal_def decodeMagneticFieldCalibrated_def
  decodeMagneticFieldUncal_def

lemmas decode_quat = decodeRotationVector_def decodeGameRotationVector_def
  decodeGeomagneticRotationVector_def decodeArvrStabilizedRV_def decodeArvrStabilizedGRV_def
  decodeGyroIntegratedRV_def

lemmas decode_scalar = decodePressure_def decodeAmbientLight_def decodeHumidity_def decodeProximity_def
  decodeTemperature_def decodeReserved_def

lemmas decode_event = decodeTapDetector_def decodeStepDetector_def decodeStepCounter_def
  decodeSignificantMotion_def decodeStabilityClassifier_def decodeShakeDetector_def decodeFlipDetector_def
  decodePickupDetector_def decodeStabilityDetector_def decodePersonalActivityClassifier_def
  decodeSleepDetector_def decodeTiltDetector_def decodePocketDetector_def decodeCircleDetector_def
  decodeHeartRateMonitor_def decodeIZroRequest_def

lemma confidence_total: "length r = 16 \<Longrightarrow> \<exists>c. those (map (\<lambda>n. readu8 (drop (6 + n) r)) [0..<10]) = Some c"
  by (rule those_map_Some [of "[0..<10]" "\<lambda>n. readu8 (drop (6 + n) r)"]) (auto simp: readu8_drop)

lemma readu32_total: "off + 4 \<le> length r \<Longrightarrow> \<exists>w. readu32 (drop off r) = Some w"
  using read32_drop [of off r] by (simp add: read32_unsigned)

lemma decoders_tag:
  assumes r: "length r = 16" and d: "map_of decoders i = Some decode"
  shows "\<exists>x. decode r = Some x \<and> sensor_of x = i"
proof -
  let ?ok = "\<lambda>(i, decode). \<exists>x. decode r = Some x \<and> sensor_of x = i"
  obtain t where t: "read32 (drop 12 r) = Some t" using read32_drop [of 12 r] r by auto
  obtain u where u: "readu32 (drop 4 r) = Some u" using readu32_total [of 4 r] r by auto
  obtain w where w: "readu32 (drop 8 r) = Some w" using readu32_total [of 8 r] r by auto
  obtain c where c: "those (map (\<lambda>n. readu8 (drop (6 + n) r)) [0..<10]) = Some c"
    using confidence_total [OF r] by auto
  have v: "\<exists>v. vec_at n off r = Some v" if "off \<le> 10" for n off using that r by (intro vec_at_total) simp
  have q: "\<exists>v. quat_at n off r = Some v" if "off \<le> 8" for n off using that r by (intro quat_at_total) simp
  have s: "\<exists>x. q32 n 4 r = Some x" for n using r by (intro q32_drop) simp
  have "list_all ?ok decoders"
    unfolding decoders_def list.pred_inject prod.case
  proof (intro conjI)
  qed (use r t u w c v [of 4 8] v [of 4 9] v [of 10 9] v [of 4 4] v [of 10 4] v [of 8 10] q [of 4 14] q [of 0 14]
      s [of 20] s [of 8] in \<open>auto simp: decode_raw decode_vec decode_quat decode_scalar decode_event read16_drop readu8_drop
      readu16_drop q16_drop simp del: upt.simps\<close>)
  with map_of_SomeD [OF d] show ?thesis by (auto simp: list_all_iff)
qed

lemma bit_u8_beyond [simp]: "8 \<le> n \<Longrightarrow> \<not> bit (a :: u8) n"
  by (auto dest: bit_imp_le_length)

lemma bytes_le_4: "bytes_le 4 w = [ucast w, ucast (drop_bit 8 w), ucast (drop_bit 16 w), ucast (drop_bit 24 w)]"
  by (simp add: numeral_eq_Suc drop_bit_drop_bit)

text \<open>Writing a value of 16 or 32 bits into a buffer and reading it back gives the value, signed or
  not, changes nothing behind it, and writing what was read changes nothing.\<close>

theorem buffer_roundtrip:
  fixes v :: u16 and w :: u32
  assumes "4 \<le> length p"
  shows "(\<exists>q. writeu16 p v = Some q \<and> write16 p v = Some q \<and> readu16 q = Some v \<and> read16 q = Some v \<and>
      length q = length p \<and> drop 2 q = drop 2 p) \<and>
    (\<exists>q. writeu32 p w = Some q \<and> write32 p w = Some q \<and> readu32 q = Some w \<and> read32 q = Some w \<and>
      length q = length p \<and> drop 4 q = drop 4 p) \<and>
    Option.bind (readu16 p) (writeu16 p) = Some p \<and> Option.bind (readu32 p) (writeu32 p) = Some p"
proof -
  from drop4_Cons [of 0 p] assms obtain a b c d r where p: "p = a # b # c # d # r" by auto
  have two: "bytes_le 2 (ucast a OR push_bit 8 (ucast b) :: u16) = [a, b]"
    unfolding numeral_2_eq_2 bytes_le.simps list.inject
    by (auto intro!: bit_word_eqI simp: bit_or_iff bit_push_bit_iff bit_unsigned_iff bit_drop_bit_eq possible_bit_word)
  have four: "bytes_le 4 (ucast a OR push_bit 8 (ucast b) OR push_bit 16 (ucast c) OR push_bit 24 (ucast d) :: u32) = [a, b, c, d]"
    unfolding bytes_le_4 list.inject
    by (auto intro!: bit_word_eqI simp: bit_or_iff bit_push_bit_iff bit_unsigned_iff bit_drop_bit_eq possible_bit_word)
  note bytes = writeu16_bytes writeu32_bytes write16_unsigned write32_unsigned readu16_bytes readu32_bytes
    read16_unsigned read32_unsigned
  show ?thesis
  proof (intro conjI)
    show "\<exists>q. writeu16 p v = Some q \<and> write16 p v = Some q \<and> readu16 q = Some v \<and> read16 q = Some v \<and>
        length q = length p \<and> drop 2 q = drop 2 p"
      unfolding p bytes by (intro exI [of _ "bytes_le 2 v @ c # d # r"]) (simp add: bytes)
    show "\<exists>q. writeu32 p w = Some q \<and> write32 p w = Some q \<and> readu32 q = Some w \<and> read32 q = Some w \<and>
        length q = length p \<and> drop 4 q = drop 4 p"
      unfolding p bytes by (intro exI [of _ "bytes_le 4 w @ r"]) (simp add: bytes)
  qed (simp_all only: p readu16.simps readu32.simps Option.bind.bind_lunit writeu16_bytes writeu32_bytes two four append_Cons append_Nil)
qed

theorem buffer_roundtrip_witness:
  "(\<exists>q. writeu16 [0, 0, 7, 9, 1] 0x8001 = Some q \<and> write16 [0, 0, 7, 9, 1] 0x8001 = Some q \<and> readu16 q = Some 0x8001 \<and>
     read16 q = Some 0x8001 \<and> length q = length [0, 0, 7, 9, 1 :: u8] \<and> drop 2 q = drop 2 [0, 0, 7, 9, 1])"
  using buffer_roundtrip [of "[0, 0, 7, 9, 1]" "0x8001" 0] by simp

text \<open>Decoding a sensor event never reads outside its 16 bytes of report; it succeeds for exactly the
  38 known sensors, and then the member of the union that it sets is the member of that sensor. For
  any other sensor the status is an error and no member is set.\<close>

theorem decode_tags_union:
  assumes "length (ev_report e) = 16"
  shows "\<exists>rc v. sh2_decodeSensorEvent e = Some (rc, v) \<and> sensorId_of v = ev_reportId e \<and> timestamp_of v = ev_timestamp_uS e \<and>
    (if ev_reportId e \<in> fst ` set decoders then rc = SH2_OK \<and> (\<exists>d. un_of v = Some d \<and> sensor_of d = sensorId_of v)
     else rc = SH2_ERR \<and> un_of v = None)"
proof -
  let ?start = "if ev_reportId e \<noteq> SH2_GYRO_INTEGRATED_RV then do {
         seq \<leftarrow> readu8 (drop 1 (ev_report e)); status \<leftarrow> readu8 (drop 2 (ev_report e));
         Some (seq, status AND 0x03) } else Some (0, 0)"
  have "\<exists>seq status. ?start = Some (seq, status)" using assms by (simp add: readu8_drop)
  then obtain seq status where start: "?start = Some (seq, status)" by blast
  show ?thesis
  proof (cases "map_of decoders (ev_reportId e)")
    case None
    then have "ev_reportId e \<notin> fst ` set decoders" by (simp add: map_of_eq_None_iff)
    with None show ?thesis by (simp add: sh2_decodeSensorEvent_def start)
  next
    case (Some decode)
    then have "ev_reportId e \<in> fst ` set decoders" by (metis map_of_eq_None_iff option.discI)
    with Some decoders_tag [OF assms Some] show ?thesis by (auto simp: sh2_decodeSensorEvent_def start)
  qed
qed

theorem decode_tags_union_witness:
  "\<exists>rc v. sh2_decodeSensorEvent \<lparr>ev_timestamp_uS = 9, ev_len = 10, ev_reportId = 1, ev_report = replicate 16 1\<rparr> = Some (rc, v) \<and>
     rc = SH2_OK \<and> (\<exists>d. un_of v = Some d \<and> sensor_of d = 1)"
  using decode_tags_union [of "\<lparr>ev_timestamp_uS = 9, ev_len = 10, ev_reportId = 1, ev_report = replicate 16 1\<rparr>"]
  by (auto simp: decoders_def)

section \<open>Fixed point\<close>

declare of_int_sint [simp del]

text \<open>How a sensor encodes a real number with \<open>n\<close> bits behind the point, and a report of vectors.\<close>

definition fixed :: "nat \<Rightarrow> real \<Rightarrow> i16" where
  "fixed n x = word_of_int (trunc_int (x * 2 ^ n))"

definition vec_report :: "u8 \<Rightarrow> u8 \<Rightarrow> u8 \<Rightarrow> nat \<Rightarrow> vec \<Rightarrow> u8 list" where
  "vec_report i seq status n v =
     [i, seq, status, 0] @ bytes_le 2 (fixed n (x_of v)) @ bytes_le 2 (fixed n (y_of v)) @ bytes_le 2 (fixed n (z_of v)) @
     replicate 6 0"

lemma trunc_int_close: "\<bar>of_int (trunc_int y) - y\<bar> < 1"
  by (simp add: trunc_int_def) linarith

lemma trunc_int_bound:
  assumes "\<bar>y\<bar> < of_int k"
  shows "- k < trunc_int y \<and> trunc_int y < k"
proof -
  from assms have y: "real_of_int (- k) < y" "y < of_int k" by auto
  then have "real_of_int (- k) < of_int k" by (rule less_trans)
  then have k: "0 < k" by linarith
  show ?thesis
  proof (cases "0 \<le> y")
    case True
    then have "0 \<le> \<lfloor>y\<rfloor>" by simp
    moreover have "\<lfloor>y\<rfloor> < k" using y by (simp add: floor_less_iff)
    ultimately have "- k < \<lfloor>y\<rfloor>" "\<lfloor>y\<rfloor> < k" using k by linarith+
    with True show ?thesis by (simp add: trunc_int_def)
  next
    case False
    then have "\<lceil>y\<rceil> \<le> 0" by (simp add: ceiling_le_iff)
    moreover have "- k < \<lceil>y\<rceil>" using y by (simp add: less_ceiling_iff)
    ultimately have "- k < \<lceil>y\<rceil>" "\<lceil>y\<rceil> < k" using k by linarith+
    with False show ?thesis by (simp add: trunc_int_def)
  qed
qed

lemma q16_fixed:
  assumes "read16 (drop off r) = Some (fixed n x)" and "\<bar>x\<bar> < 2 ^ 15 * SCALE_Q n"
  shows "\<exists>y. q16 n off r = Some y \<and> \<bar>y - x\<bar> < SCALE_Q n"
proof -
  let ?y = "x * 2 ^ n"
  have "\<bar>x\<bar> * 2 ^ n < 2 ^ 15 * SCALE_Q n * 2 ^ n" using assms(2) by (intro mult_strict_right_mono) simp_all
  then have "\<bar>?y\<bar> < of_int (2 ^ 15)" by (simp add: SCALE_Q_def abs_mult)
  then have "sint (fixed n x) = trunc_int ?y"
    unfolding fixed_def using trunc_int_bound [of ?y "2 ^ 15"]
    by (intro sint_word_of_int_fits) (simp add: fits_signed_def)
  then have q: "q16 n off r = Some (of_int (trunc_int ?y) * SCALE_Q n)" by (simp add: q16_def assms(1))
  have "\<bar>of_int (trunc_int ?y) * SCALE_Q n - x\<bar> = \<bar>of_int (trunc_int ?y) - ?y\<bar> * SCALE_Q n"
    by (simp add: SCALE_Q_def abs_div_pos diff_divide_distrib)
  also have "\<dots> < 1 * SCALE_Q n" by (intro mult_strict_right_mono trunc_int_close) (simp add: SCALE_Q_def)
  finally show ?thesis using q by simp
qed

text \<open>The sensors whose value is a vector behind four bytes of header, with their bits behind the point.\<close>

definition vector_sensors :: "(u8 \<times> nat \<times> (vec \<Rightarrow> sensor_data)) list" where
  "vector_sensors = [(SH2_ACCELEROMETER, 8, Accelerometer), (SH2_LINEAR_ACCELERATION, 8, LinearAcceleration),
     (SH2_GRAVITY, 8, Gravity), (SH2_GYROSCOPE_CALIBRATED, 9, Gyroscope), (SH2_MAGNETIC_FIELD_CALIBRATED, 4, MagneticField)]"

lemma vector_decoder:
  assumes "(i, n, C) \<in> set vector_sensors" and "vec_at n 4 r = Some w"
  shows "\<exists>decode. map_of decoders i = Some decode \<and> decode r = Some (C w) \<and> i \<noteq> SH2_GYRO_INTEGRATED_RV"
proof -
  have tab: "map_of decoders SH2_ACCELEROMETER = Some decodeAccelerometer"
    "map_of decoders SH2_LINEAR_ACCELERATION = Some decodeLinearAcceleration"
    "map_of decoders SH2_GRAVITY = Some decodeGravity"
    "map_of decoders SH2_GYROSCOPE_CALIBRATED = Some decodeGyroscopeCalibrated"
    "map_of decoders SH2_MAGNETIC_FIELD_CALIBRATED = Some decodeMagneticFieldCalibrated"
    by (simp_all add: decoders_def)
  from assms show ?thesis
    unfolding vector_sensors_def by (auto simp: tab decode_vec)
qed

lemma vec_report_decodes:
  assumes "\<bar>x_of v\<bar> < 2 ^ 15 * SCALE_Q n" "\<bar>y_of v\<bar> < 2 ^ 15 * SCALE_Q n" "\<bar>z_of v\<bar> < 2 ^ 15 * SCALE_Q n"
  shows "\<exists>w. vec_at n 4 (vec_report i seq status n v) = Some w \<and>
    \<bar>x_of w - x_of v\<bar> < SCALE_Q n \<and> \<bar>y_of w - y_of v\<bar> < SCALE_Q n \<and> \<bar>z_of w - z_of v\<bar> < SCALE_Q n"
proof -
  let ?r = "vec_report i seq status n v"
  have at: "read16 (drop 4 ?r) = Some (fixed n (x_of v))" "read16 (drop 6 ?r) = Some (fixed n (y_of v))"
    "read16 (drop 8 ?r) = Some (fixed n (z_of v))"
    by (simp_all add: vec_report_def read16_unsigned readu16_bytes)
  from q16_fixed [OF at(1) assms(1)] q16_fixed [OF at(2) assms(2)] q16_fixed [OF at(3) assms(3)]
  show ?thesis by (auto simp: vec_at_def)
qed

text \<open>A vector that fits the fixed point format of an acceleration, gravity, angular velocity or
  magnetic field sensor comes out of the decoder within one unit of the last place in every
  component, with the sequence number and the accuracy of its report.\<close>

theorem decoded_vector_close:
  assumes "(i, n, C) \<in> set vector_sensors"
    and "\<bar>x_of v\<bar> < 2 ^ 15 * SCALE_Q n" "\<bar>y_of v\<bar> < 2 ^ 15 * SCALE_Q n" "\<bar>z_of v\<bar> < 2 ^ 15 * SCALE_Q n"
  shows "\<exists>w. sh2_decodeSensorEvent \<lparr>ev_timestamp_uS = t, ev_len = l, ev_reportId = i, ev_report = vec_report i seq status n v\<rparr> =
      Some (SH2_OK, \<lparr>sensorId_of = i, sequence_of = seq, status_of = status AND 3, timestamp_of = t, un_of = Some (C w)\<rparr>) \<and>
    \<bar>x_of w - x_of v\<bar> < SCALE_Q n \<and> \<bar>y_of w - y_of v\<bar> < SCALE_Q n \<and> \<bar>z_of w - z_of v\<bar> < SCALE_Q n"
proof -
  from vec_report_decodes [OF assms(2-4), of i seq status] obtain w where
    w: "vec_at n 4 (vec_report i seq status n v) = Some w"
      "\<bar>x_of w - x_of v\<bar> < SCALE_Q n" "\<bar>y_of w - y_of v\<bar> < SCALE_Q n" "\<bar>z_of w - z_of v\<bar> < SCALE_Q n" by blast
  have head: "readu8 (drop 1 (vec_report i seq status n v)) = Some seq"
    "readu8 (drop 2 (vec_report i seq status n v)) = Some status" by (simp_all add: vec_report_def)
  have "sh2_decodeSensorEvent \<lparr>ev_timestamp_uS = t, ev_len = l, ev_reportId = i, ev_report = vec_report i seq status n v\<rparr> =
      Some (SH2_OK, \<lparr>sensorId_of = i, sequence_of = seq, status_of = status AND 3, timestamp_of = t, un_of = Some (C w)\<rparr>)"
    using vector_decoder [OF assms(1) w(1)] by (auto simp: sh2_decodeSensorEvent_def head simp del: One_nat_def)
  with w show ?thesis by blast
qed

theorem decoded_vector_close_witness:
  "\<exists>w. sh2_decodeSensorEvent \<lparr>ev_timestamp_uS = 5, ev_len = 10, ev_reportId = 1,
        ev_report = vec_report 1 7 2 8 \<lparr>x_of = 1, y_of = - 9, z_of = 1 / 3\<rparr>\<rparr> =
      Some (SH2_OK, \<lparr>sensorId_of = 1, sequence_of = 7, status_of = 2 AND 3, timestamp_of = 5, un_of = Some (Accelerometer w)\<rparr>) \<and>
    \<bar>x_of w - 1\<bar> < SCALE_Q 8 \<and> \<bar>y_of w - (- 9)\<bar> < SCALE_Q 8 \<and> \<bar>z_of w - 1 / 3\<bar> < SCALE_Q 8"
  using decoded_vector_close [of 1 8 Accelerometer "\<lparr>x_of = 1, y_of = - 9, z_of = 1 / 3\<rparr>" 5 10 7 2]
  by (simp add: vector_sensors_def SCALE_Q_def)

end
