(* ===== verification/Bno_Node.thy ===== *)
theory Bno_Node
  imports Bno_Bus Sh2_Value
begin

text \<open>
  The class \<open>BNO08x\<close> (\<^verbatim>\<open>bno08x_driver/src/bno08x.cpp\<close>) and the node \<open>BNO08xROS\<close>
  (\<^verbatim>\<open>bno08x_ros.cpp\<close>). The SH-2 library below them is a parameter: what each call returns after
  the calls before it, and which sensor values it hands to the callback while it runs, because
  every call that waits for an answer also serves the bus. Times are nanoseconds.
\<close>

section \<open>Sensor values and the library\<close>

datatype sensor_value =
    MAGNETIC_FIELD_CALIBRATED vec | ROTATION_VECTOR quat | ACCELEROMETER vec | GYROSCOPE_CALIBRATED vec
  | Other_sensor

datatype sensor_id = Id_magnetic_field | Id_rotation_vector | Id_accelerometer | Id_gyroscope

text \<open>The configuration that \<open>enable_report\<close> fills in: every option off but the interval.\<close>

record SensorConfig =
  changeSensitivityEnabled :: bool
  wakeupEnabled :: bool
  changeSensitivityRelative :: bool
  alwaysOnEnabled :: bool
  changeSensitivity :: u16
  batchInterval_us :: u32
  sensorSpecific :: u32
  reportInterval_us :: u32

datatype sh2_call =
    Sh2_open | Sh2_getProdIds | Sh2_setSensorCallback | Sh2_setSensorConfig sensor_id SensorConfig
  | Sh2_service | Sh2_close | Comm_close

type_synonym sh2_lib = "sh2_call list \<Rightarrow> sh2_call \<Rightarrow> int \<times> sensor_value list"

section \<open>The node\<close>

record imu_message =
  orientation :: quat
  angular_velocity :: vec
  linear_acceleration :: vec

datatype ros_output =
    Imu_published imu_message "i32 \<times> u32" | Mag_published vec "i32 \<times> u32"

text \<open>
  Members that the constructor has not yet set are \<open>None\<close>: the flags, the watchdog. A publisher
  is a null pointer until it is created. \<open>callback_set\<close>: the library knows the sensor callback.
\<close>

record BNO08xROS =
  publish_imu :: bool
  imu_rate :: i32
  publish_magnetic_field :: bool
  magnetic_field_rate :: i32
  imu_publisher :: bool
  mag_publisher :: bool
  imu_msg :: imu_message
  mag_msg :: vec
  imu_received_flag :: "u8 option"
  watchdog :: "Watchdog option"
  comm_interface :: bool
  reset_occurred :: "bool option"
  callback_set :: bool
  calls :: "sh2_call list"
  published :: "ros_output list"

abbreviation ROTATION_VECTOR_RECEIVED :: u8 where "ROTATION_VECTOR_RECEIVED \<equiv> 0x01"
abbreviation ACCELEROMETER_RECEIVED :: u8 where "ACCELEROMETER_RECEIVED \<equiv> 0x02"
abbreviation GYROSCOPE_RECEIVED :: u8 where "GYROSCOPE_RECEIVED \<equiv> 0x04"

definition zero_vec3 :: vec where
  "zero_vec3 = \<lparr>x_of = 0, y_of = 0, z_of = 0\<rparr>"

definition zero_imu_msg :: imu_message where
  "zero_imu_msg = \<lparr>orientation = \<lparr>i_of = 0, j_of = 0, k_of = 0, real_of = 1\<rparr>, angular_velocity = zero_vec3,
     linear_acceleration = zero_vec3\<rparr>"

text \<open>The parameters of the node, as \<open>init_parameters\<close> and \<open>init_comms\<close> read them.\<close>

record bno_parameters =
  par_publish_imu :: bool
  par_imu_rate :: i32
  par_publish_magnetic_field :: bool
  par_magnetic_field_rate :: i32
  i2c_enabled :: bool
  uart_enabled :: bool
  spi_enabled :: bool
  i2c_address :: "u8 option"

definition default_bno_parameters :: bno_parameters where
  "default_bno_parameters = \<lparr>par_publish_imu = True, par_imu_rate = 100, par_publish_magnetic_field = True,
     par_magnetic_field_rate = 100, i2c_enabled = True, uart_enabled = False, spi_enabled = False,
     i2c_address = Some 0x4A\<rparr>"

definition init_parameters :: "bno_parameters \<Rightarrow> BNO08xROS" where
  "init_parameters p = \<lparr>publish_imu = par_publish_imu p, imu_rate = par_imu_rate p,
     publish_magnetic_field = par_publish_magnetic_field p, magnetic_field_rate = par_magnetic_field_rate p,
     imu_publisher = False, mag_publisher = False, imu_msg = zero_imu_msg, mag_msg = zero_vec3,
     imu_received_flag = None, watchdog = None, comm_interface = False, reset_occurred = None,
     callback_set = False, calls = [], published = []\<rparr>"

text \<open>Only the I2C interface can be constructed; the address is what \<open>stoi\<close> makes of its text.\<close>

definition init_comms :: "bno_parameters \<Rightarrow> (BNO08xROS, unit) prog" where
  "init_comms p =
     (if i2c_enabled p then
        (case i2c_address p of None \<Rightarrow> fault_with Uncaught_Exception | Some a \<Rightarrow> modify (comm_interface_update (\<lambda>_. True)))
      else if uart_enabled p then fault_with Uncaught_Exception
      else if spi_enabled p then fault_with Uncaught_Exception
      else fault_with Uncaught_Exception)"

text \<open>\<open>header.stamp\<close>: seconds as a \<open>double\<close> converted to \<open>int32\<close>, all nanoseconds converted to \<open>uint32\<close>.\<close>

definition stamp_of :: "int \<Rightarrow> (i32 \<times> u32) option" where
  "stamp_of now = (case real_to_i32 (real_of_int now / 1000000000) of
     None \<Rightarrow> None
   | Some sec \<Rightarrow> Some (sec, word_of_int now))"

definition reset_watchdog :: "int \<Rightarrow> (BNO08xROS, unit) prog" where
  "reset_watchdog now = bnd (gets watchdog) (\<lambda>w. case w of
     None \<Rightarrow> fault_with Undefined_Behaviour
   | Some w \<Rightarrow> modify (watchdog_update (\<lambda>_. Some (wd_reset now w))))"

definition flag_received :: "u8 \<Rightarrow> (BNO08xROS, unit) prog" where
  "flag_received m = bnd (gets imu_received_flag) (\<lambda>f. case f of
     None \<Rightarrow> fault_with Undefined_Behaviour
   | Some f \<Rightarrow> modify (imu_received_flag_update (\<lambda>_. Some (f OR m))))"

text \<open>The switch over the kind of the value.\<close>

definition store_value :: "int \<Rightarrow> sensor_value \<Rightarrow> (BNO08xROS, unit) prog" where
  "store_value now v = (case v of
     MAGNETIC_FIELD_CALIBRATED m \<Rightarrow>
       seqp (modify (mag_msg_update (\<lambda>_. m)))
       (bnd (lift_opt (stamp_of now)) (\<lambda>st.
        bnd (gets publish_magnetic_field) (\<lambda>pub.
          if pub then
            bnd (gets mag_publisher) (\<lambda>there.
              if there then modify (published_update (\<lambda>os. os @ [Mag_published m st]))
              else fault_with Null_Pointer)
          else ret ())))
   | ROTATION_VECTOR q \<Rightarrow>
       seqp (modify (imu_msg_update (orientation_update (\<lambda>_. q)))) (flag_received ROTATION_VECTOR_RECEIVED)
   | ACCELEROMETER a \<Rightarrow>
       seqp (modify (imu_msg_update (linear_acceleration_update (\<lambda>_. a)))) (flag_received ACCELEROMETER_RECEIVED)
   | GYROSCOPE_CALIBRATED g \<Rightarrow>
       seqp (modify (imu_msg_update (angular_velocity_update (\<lambda>_. g)))) (flag_received GYROSCOPE_RECEIVED)
   | Other_sensor \<Rightarrow> ret ())"

definition publish_when_complete :: "int \<Rightarrow> (BNO08xROS, unit) prog" where
  "publish_when_complete now = bnd (gets imu_received_flag) (\<lambda>f. case f of
     None \<Rightarrow> fault_with Undefined_Behaviour
   | Some f \<Rightarrow>
       if f = (ROTATION_VECTOR_RECEIVED OR ACCELEROMETER_RECEIVED OR GYROSCOPE_RECEIVED) then
         bnd (lift_opt (stamp_of now)) (\<lambda>st.
         bnd (gets imu_publisher) (\<lambda>there.
           if there then
             modify (\<lambda>n. n\<lparr>published := published n @ [Imu_published (imu_msg n) st], imu_received_flag := Some 0\<rparr>)
           else fault_with Null_Pointer))
       else ret ())"

definition sensor_callback :: "int \<Rightarrow> sensor_value \<Rightarrow> (BNO08xROS, unit) prog" where
  "sensor_callback now v = seqp (reset_watchdog now) (seqp (store_value now v) (publish_when_complete now))"

fun sensor_callbacks :: "int \<Rightarrow> sensor_value list \<Rightarrow> (BNO08xROS, unit) prog" where
  "sensor_callbacks now [] = ret ()"
| "sensor_callbacks now (v # vs) = seqp (sensor_callback now v) (sensor_callbacks now vs)"

text \<open>A call of the library: its status; values reach the node once the callback is set.\<close>

definition sh2 :: "sh2_lib \<Rightarrow> int \<Rightarrow> sh2_call \<Rightarrow> (BNO08xROS, int) prog" where
  "sh2 lib now c =
     bnd (gets (\<lambda>n. (lib (calls n) c, callback_set n))) (\<lambda>((status, vs), set).
     seqp (modify (calls_update (\<lambda>cs. cs @ [c])))
     (seqp (if set then sensor_callbacks now vs else ret ()) (ret status)))"

text \<open>\<open>BNO08x::begin\<close> and \<open>init\<close>.\<close>

definition bno_init :: "sh2_lib \<Rightarrow> int \<Rightarrow> (BNO08xROS, bool) prog" where
  "bno_init lib now =
     bnd (sh2 lib now Sh2_open) (\<lambda>status.
     if status \<noteq> SH2_OK then ret False else
     bnd (sh2 lib now Sh2_getProdIds) (\<lambda>status.
     if status \<noteq> SH2_OK then ret False else
     bnd (sh2 lib now Sh2_setSensorCallback) (\<lambda>status.
     if status \<noteq> SH2_OK then ret False else
     seqp (modify (callback_set_update (\<lambda>_. True))) (ret True))))"

definition bno_begin :: "sh2_lib \<Rightarrow> int \<Rightarrow> (BNO08xROS, bool) prog" where
  "bno_begin lib now = bnd (gets comm_interface) (\<lambda>comm. if comm then bno_init lib now else ret False)"

definition enable_report :: "sh2_lib \<Rightarrow> int \<Rightarrow> sensor_id \<Rightarrow> u32 \<Rightarrow> (BNO08xROS, bool) prog" where
  "enable_report lib now sensorId interval_us =
     (let config = \<lparr>changeSensitivityEnabled = False, wakeupEnabled = False, changeSensitivityRelative = False,
        alwaysOnEnabled = False, changeSensitivity = 0, batchInterval_us = 0, sensorSpecific = 0,
        reportInterval_us = interval_us\<rparr>
      in bnd (sh2 lib now (Sh2_setSensorConfig sensorId config)) (\<lambda>status. ret (status = SH2_OK)))"

definition poll :: "sh2_lib \<Rightarrow> int \<Rightarrow> (BNO08xROS, unit) prog" where
  "poll lib now = seqp (sh2 lib now Sh2_service) (ret ())"

text \<open>The library's asynchronous event, and the flag it leaves.\<close>

definition hal_callback :: "bool \<Rightarrow> BNO08xROS \<Rightarrow> BNO08xROS" where
  "hal_callback is_reset n = (if is_reset then n\<lparr>reset_occurred := Some True\<rparr> else n)"

definition was_reset :: "(BNO08xROS, bool) prog" where
  "was_reset = bnd (gets reset_occurred) (\<lambda>r. case r of
     None \<Rightarrow> fault_with Undefined_Behaviour
   | Some x \<Rightarrow> seqp (modify (reset_occurred_update (\<lambda>_. Some False))) (ret x))"

text \<open>\<open>1000000 / rate\<close> in \<open>int\<close>: a division by 0 is undefined.\<close>

definition int_div :: "int \<Rightarrow> i32 \<Rightarrow> int option" where
  "int_div k rate = (if sint rate = 0 then None else Some (k sdiv sint rate))"

definition enable_at :: "sh2_lib \<Rightarrow> int \<Rightarrow> sensor_id \<Rightarrow> i32 \<Rightarrow> (BNO08xROS, unit) prog" where
  "enable_at lib now sensorId rate =
     bnd (lift_opt (int_div 1000000 rate)) (\<lambda>interval.
     seqp (enable_report lib now sensorId (word_of_int interval)) (ret ()))"

definition init_sensor :: "sh2_lib \<Rightarrow> int \<Rightarrow> (BNO08xROS, unit) prog" where
  "init_sensor lib now =
     seqp (modify (\<lambda>n. n\<lparr>reset_occurred := None\<rparr>))
     (bnd (bno_begin lib now) (\<lambda>ok.
     if \<not> ok then fault_with Uncaught_Exception else
     bnd (gets (\<lambda>n. (publish_magnetic_field n, magnetic_field_rate n, publish_imu n, imu_rate n))) (\<lambda>(mag, mag_rate, imu, rate).
     seqp (if mag then enable_at lib now Id_magnetic_field mag_rate else ret ())
     (seqp (if imu then
              seqp (enable_at lib now Id_rotation_vector rate)
              (seqp (enable_at lib now Id_accelerometer rate) (enable_at lib now Id_gyroscope rate))
            else ret ())
     (if \<not> (imu \<or> mag) then fault_with Uncaught_Exception else ret ())))))"

text \<open>The constructor: the timer's period is its result, in milliseconds.\<close>

definition new_BNO08xROS :: "sh2_lib \<Rightarrow> int \<Rightarrow> bno_parameters \<Rightarrow> fault + (int \<times> BNO08xROS)" where
  "new_BNO08xROS lib now p =
     seqp (init_comms p)
     (seqp (init_sensor lib now)
     (seqp (modify (\<lambda>n. n\<lparr>imu_publisher := publish_imu n, mag_publisher := publish_magnetic_field n,
        imu_received_flag := Some 0\<rparr>))
     (bnd (gets (\<lambda>n. if sint (imu_rate n) < sint (magnetic_field_rate n) then magnetic_field_rate n else imu_rate n)) (\<lambda>rate.
      bnd (lift_opt (int_div 1000 rate)) (\<lambda>period.
      seqp (modify (watchdog_update (\<lambda>_. Some (wd_start now
        (set_callback True (set_check_interval 1000000000 (set_timeout 2000000000
          (new_Watchdog 1000000000 500000000 True now))))))))
      (ret period)))))) (init_parameters p)"

text \<open>What the watchdog calls: the destructor of the sensor object, and a new one.\<close>

definition bno_reset :: "sh2_lib \<Rightarrow> int \<Rightarrow> (BNO08xROS, unit) prog" where
  "bno_reset lib now =
     seqp (sh2 lib now Sh2_close)
     (seqp (modify (\<lambda>n. n\<lparr>calls := calls n @ [Comm_close], callback_set := False\<rparr>)) (init_sensor lib now))"

definition poll_timer_callback :: "sh2_lib \<Rightarrow> int \<Rightarrow> (BNO08xROS, unit) prog" where
  "poll_timer_callback lib now = poll lib now"

section \<open>The flags as a set\<close>

text \<open>The abstract node keeps the set of kinds received since its last message.\<close>

datatype kind = Rotation | Acceleration | Gyration

fun kind_of :: "sensor_value \<Rightarrow> kind option" where
  "kind_of (ROTATION_VECTOR _) = Some Rotation"
| "kind_of (ACCELEROMETER _) = Some Acceleration"
| "kind_of (GYROSCOPE_CALIBRATED _) = Some Gyration"
| "kind_of _ = None"

definition flag_of :: "kind set \<Rightarrow> u8" where
  "flag_of K = (if Rotation \<in> K then 1 else 0) OR (if Acceleration \<in> K then 2 else 0) OR (if Gyration \<in> K then 4 else 0)"

lemma kind_UNIV: "K = UNIV \<longleftrightarrow> Rotation \<in> K \<and> Acceleration \<in> K \<and> Gyration \<in> K"
proof
  assume "Rotation \<in> K \<and> Acceleration \<in> K \<and> Gyration \<in> K"
  then have "k \<in> K" for k by (cases k) simp_all
  then show "K = UNIV" by blast
qed simp

lemma flag_of_insert:
  "flag_of K OR 1 = flag_of (insert Rotation K)" "flag_of K OR 2 = flag_of (insert Acceleration K)"
  "flag_of K OR 4 = flag_of (insert Gyration K)"
  by (simp_all add: flag_of_def)

lemma flag_of_complete: "flag_of K = 7 \<longleftrightarrow> K = UNIV"
  by (simp add: flag_of_def kind_UNIV)

lemma flag_of_empty [simp]: "flag_of {} = 0"
  by (simp add: flag_of_def)

definition received :: "sensor_value \<Rightarrow> kind set \<Rightarrow> kind set" where
  "received v K = (case kind_of v of None \<Rightarrow> K | Some k \<Rightarrow> insert k K)"

fun stored :: "sensor_value \<Rightarrow> imu_message \<Rightarrow> imu_message" where
  "stored (ROTATION_VECTOR q) m = m\<lparr>orientation := q\<rparr>"
| "stored (ACCELEROMETER a) m = m\<lparr>linear_acceleration := a\<rparr>"
| "stored (GYROSCOPE_CALIBRATED g) m = m\<lparr>angular_velocity := g\<rparr>"
| "stored _ m = m"

text \<open>What the abstract node publishes for a list of values with their times; \<open>mag\<close>: whether the
  magnetic field is published.\<close>

definition mag_output :: "bool \<Rightarrow> int \<Rightarrow> sensor_value \<Rightarrow> ros_output list" where
  "mag_output mag now v = (case v of
     MAGNETIC_FIELD_CALIBRATED m \<Rightarrow> if mag then [Mag_published m (the (stamp_of now))] else []
   | _ \<Rightarrow> [])"

fun imu_spec :: "bool \<Rightarrow> kind set \<Rightarrow> imu_message \<Rightarrow> (int \<times> sensor_value) list \<Rightarrow> ros_output list" where
  "imu_spec mag K m [] = []"
| "imu_spec mag K m ((now, v) # vs) =
     mag_output mag now v @
     (if received v K = UNIV
      then Imu_published (stored v m) (the (stamp_of now)) # imu_spec mag {} (stored v m) vs
      else imu_spec mag (received v K) (stored v m) vs)"

definition serving :: "kind set \<Rightarrow> BNO08xROS \<Rightarrow> bool" where
  "serving K n \<longleftrightarrow> watchdog n \<noteq> None \<and> imu_received_flag n = Some (flag_of K) \<and> imu_publisher n \<and>
     (publish_magnetic_field n \<longrightarrow> mag_publisher n)"

text \<open>A time whose seconds fit the message.\<close>

definition stampable :: "int \<Rightarrow> bool" where
  "stampable now \<longleftrightarrow> 0 \<le> now \<and> now < 2147483648000000000"

lemma stamp_of_stampable:
  assumes "stampable now"
  shows "stamp_of now = Some (word_of_int (now div 1000000000), word_of_int now)"
proof -
  have t: "trunc_int (real_of_int now / 1000000000) = now div 1000000000"
    using assms floor_divide_of_int_eq [of now 1000000000, where ?'a = real]
    by (simp add: trunc_int_def stampable_def)
  have "1000000000 * (now div 1000000000) + now mod 1000000000 = now" by (rule mult_div_mod_eq)
  moreover have "0 \<le> now mod 1000000000" "now mod 1000000000 < 1000000000"
    by (rule pos_mod_sign pos_mod_bound; simp)+
  ultimately have "0 \<le> now div 1000000000" "now div 1000000000 < 2147483648"
    using assms unfolding stampable_def by linarith+
  then show ?thesis by (simp add: stamp_of_def real_to_i32_def t fits_signed_def)
qed

lemma store_value_serving:
  assumes "serving K n" "stampable now"
  shows "\<exists>n'. store_value now v n = Inr ((), n') \<and> serving (received v K) n' \<and>
    published n' = published n @ mag_output (publish_magnetic_field n) now v \<and>
    imu_msg n' = stored v (imu_msg n) \<and> publish_magnetic_field n' = publish_magnetic_field n \<and> watchdog n' = watchdog n"
  using assms(1) stamp_of_stampable [OF assms(2)]
  by (cases v) (simp_all add: store_value_def flag_received_def serving_def received_def mag_output_def seqp_def bnd_def
      flag_of_insert)

lemma publish_when_complete_serving:
  assumes "serving K n" "stampable now"
  shows "publish_when_complete now n = Inr ((), if K = UNIV
    then n\<lparr>published := published n @ [Imu_published (imu_msg n) (the (stamp_of now))], imu_received_flag := Some 0\<rparr>
    else n)"
  using assms(1) stamp_of_stampable [OF assms(2)] flag_of_complete [of K]
  by (simp add: publish_when_complete_def serving_def bnd_def)

lemma sensor_callback_serving:
  assumes "serving K n" "stampable now"
  shows "\<exists>n'. sensor_callback now v n = Inr ((), n') \<and>
    serving (if received v K = UNIV then {} else received v K) n' \<and>
    published n' = published n @ mag_output (publish_magnetic_field n) now v @
      (if received v K = UNIV then [Imu_published (stored v (imu_msg n)) (the (stamp_of now))] else []) \<and>
    imu_msg n' = stored v (imu_msg n) \<and> publish_magnetic_field n' = publish_magnetic_field n \<and>
    map_option last_reset (watchdog n') = Some now"
proof -
  obtain w where w: "watchdog n = Some w" using assms(1) by (auto simp: serving_def)
  let ?n = "n\<lparr>watchdog := Some (wd_reset now w)\<rparr>"
  have 1: "reset_watchdog now n = Inr ((), ?n)" "serving K ?n"
    using assms(1) w by (simp_all add: reset_watchdog_def serving_def)
  from store_value_serving [OF 1(2) assms(2), of v] obtain n2 where
    2: "store_value now v ?n = Inr ((), n2)" "serving (received v K) n2"
      "published n2 = published n @ mag_output (publish_magnetic_field n) now v"
      "imu_msg n2 = stored v (imu_msg n)" "publish_magnetic_field n2 = publish_magnetic_field n"
      "watchdog n2 = Some (wd_reset now w)" by auto
  note 3 = publish_when_complete_serving [OF 2(2) assms(2)]
  have "sensor_callback now v n = publish_when_complete now n2"
    using 1(1) 2(1) by (simp add: sensor_callback_def)
  with 2 3 show ?thesis
    by (simp add: serving_def wd_reset_def)
qed

text \<open>The callbacks of a list of values, each at its time.\<close>

fun serve :: "(int \<times> sensor_value) list \<Rightarrow> (BNO08xROS, unit) prog" where
  "serve [] = ret ()"
| "serve ((now, v) # vs) = seqp (sensor_callback now v) (serve vs)"

lemma serve_refines:
  assumes "serving K n" "K \<noteq> UNIV" "\<forall>(now, v) \<in> set vs. stampable now"
  shows "\<exists>n'. serve vs n = Inr ((), n') \<and>
    published n' = published n @ imu_spec (publish_magnetic_field n) K (imu_msg n) vs \<and>
    (vs \<noteq> [] \<longrightarrow> map_option last_reset (watchdog n') = Some (fst (last vs)))"
  using assms
proof (induction vs arbitrary: K n)
  case (Cons e vs)
  obtain now v where e: "e = (now, v)" by force
  have now: "stampable now" and vs: "\<forall>(now, v) \<in> set vs. stampable now" using Cons.prems(3) e by auto
  from sensor_callback_serving [OF Cons.prems(1) now] obtain n1 where
    1: "sensor_callback now v n = Inr ((), n1)" "serving (if received v K = UNIV then {} else received v K) n1"
      "published n1 = published n @ mag_output (publish_magnetic_field n) now v @
        (if received v K = UNIV then [Imu_published (stored v (imu_msg n)) (the (stamp_of now))] else [])"
      "imu_msg n1 = stored v (imu_msg n)" "publish_magnetic_field n1 = publish_magnetic_field n"
      "map_option last_reset (watchdog n1) = Some now" by blast
  have "(if received v K = UNIV then {} else received v K) \<noteq> UNIV" by auto
  from Cons.IH [OF 1(2) this vs] 1 e show ?case by (auto split: if_splits)
qed simp

section \<open>The constructor\<close>

text \<open>A library whose calls succeed and hand over no value.\<close>

definition quiet_lib :: "sh2_lib \<Rightarrow> bool" where
  "quiet_lib lib \<longleftrightarrow> (\<forall>cs c. lib cs c = (SH2_OK, []))"

lemma sh2_quiet: "lib (calls n) c = (status, []) \<Longrightarrow> sh2 lib now c n = Inr (status, n\<lparr>calls := calls n @ [c]\<rparr>)"
  by (simp add: sh2_def bnd_def seqp_def)

lemma bno_begin_quiet:
  assumes "comm_interface n" "lib (calls n) Sh2_open = (SH2_OK, [])" "lib (calls n @ [Sh2_open]) Sh2_getProdIds = (SH2_OK, [])"
    "lib (calls n @ [Sh2_open, Sh2_getProdIds]) Sh2_setSensorCallback = (SH2_OK, [])"
  shows "bno_begin lib now n = Inr (True, n\<lparr>calls := calls n @ [Sh2_open, Sh2_getProdIds, Sh2_setSensorCallback],
    callback_set := True\<rparr>)"
  using assms by (simp add: bno_begin_def bno_init_def bnd_def seqp_def sh2_quiet)

lemma enable_at_quiet:
  assumes "quiet_lib lib" "sint rate \<noteq> 0"
  shows "\<exists>c. enable_at lib now k rate n = Inr ((), n\<lparr>calls := calls n @ [c]\<rparr>)"
  using assms
  by (simp add: enable_at_def enable_report_def int_div_def bnd_def seqp_def sh2_quiet quiet_lib_def) (rule exI, rule refl)

lemma enable_at_zero: "sint rate = 0 \<Longrightarrow> enable_at lib now k rate n = Inl Undefined_Behaviour"
  by (simp add: enable_at_def int_div_def bnd_def)

text \<open>Programs that change nothing of a node but its record of calls.\<close>

definition calls_only :: "BNO08xROS \<Rightarrow> (BNO08xROS, unit) prog \<Rightarrow> bool" where
  "calls_only n m \<longleftrightarrow> (\<forall>cs. \<exists>cs'. m (n\<lparr>calls := cs\<rparr>) = Inr ((), n\<lparr>calls := cs'\<rparr>))"

lemma calls_only_ret: "calls_only n (ret ())"
  unfolding calls_only_def ret_apply by blast

lemma calls_only_seqp: "calls_only n m \<Longrightarrow> calls_only n m' \<Longrightarrow> calls_only n (seqp m m')"
  unfolding calls_only_def by (metis seqp_Inr)

lemma calls_only_enable: "quiet_lib lib \<Longrightarrow> sint rate \<noteq> 0 \<Longrightarrow> calls_only n (enable_at lib now k rate)"
  unfolding calls_only_def
proof (intro allI)
  fix cs
  assume "quiet_lib lib" "sint rate \<noteq> 0"
  from enable_at_quiet [OF this, of now k "n\<lparr>calls := cs\<rparr>"]
  show "\<exists>cs'. enable_at lib now k rate (n\<lparr>calls := cs\<rparr>) = Inr ((), n\<lparr>calls := cs'\<rparr>)" by auto
qed

definition enable_all :: "sh2_lib \<Rightarrow> int \<Rightarrow> bool \<Rightarrow> i32 \<Rightarrow> bool \<Rightarrow> i32 \<Rightarrow> (BNO08xROS, unit) prog" where
  "enable_all lib now mag mag_rate imu rate =
     seqp (if mag then enable_at lib now Id_magnetic_field mag_rate else ret ())
     (seqp (if imu then
              seqp (enable_at lib now Id_rotation_vector rate)
              (seqp (enable_at lib now Id_accelerometer rate) (enable_at lib now Id_gyroscope rate))
            else ret ())
     (if \<not> (imu \<or> mag) then fault_with Uncaught_Exception else ret ()))"

lemma calls_only_enable_all:
  assumes "quiet_lib lib" "imu \<longrightarrow> sint rate \<noteq> 0" "mag \<longrightarrow> sint mag_rate \<noteq> 0" "imu \<or> mag"
  shows "calls_only n (enable_all lib now mag mag_rate imu rate)"
  using assms by (auto simp: enable_all_def intro!: calls_only_seqp calls_only_enable calls_only_ret)

lemma init_sensor_enable_all: "init_sensor lib now =
    seqp (modify (\<lambda>n. n\<lparr>reset_occurred := None\<rparr>))
     (bnd (bno_begin lib now) (\<lambda>ok.
     if \<not> ok then fault_with Uncaught_Exception else
     bnd (gets (\<lambda>n. (publish_magnetic_field n, magnetic_field_rate n, publish_imu n, imu_rate n))) (\<lambda>(mag, mag_rate, imu, rate).
     enable_all lib now mag mag_rate imu rate)))"
  unfolding init_sensor_def enable_all_def ..

lemma init_sensor_quiet:
  assumes "quiet_lib lib" "comm_interface n" "publish_imu n \<longrightarrow> sint (imu_rate n) \<noteq> 0"
    "publish_magnetic_field n \<longrightarrow> sint (magnetic_field_rate n) \<noteq> 0" "publish_imu n \<or> publish_magnetic_field n"
  shows "\<exists>cs. init_sensor lib now n = Inr ((), n\<lparr>reset_occurred := None, callback_set := True, calls := cs\<rparr>)"
proof -
  let ?n = "n\<lparr>reset_occurred := None\<rparr>" and ?cs = "calls n @ [Sh2_open, Sh2_getProdIds, Sh2_setSensorCallback]"
  let ?b = "n\<lparr>reset_occurred := None, callback_set := True\<rparr>"
  have b: "bno_begin lib now ?n = Inr (True, ?b\<lparr>calls := ?cs\<rparr>)"
    using bno_begin_quiet [of ?n lib now] assms(1,2) by (simp add: quiet_lib_def)
  obtain cs where "enable_all lib now (publish_magnetic_field n) (magnetic_field_rate n) (publish_imu n) (imu_rate n)
      (?b\<lparr>calls := ?cs\<rparr>) = Inr ((), ?b\<lparr>calls := cs\<rparr>)"
    using calls_only_enable_all [OF assms(1,3,4,5), of ?b now] unfolding calls_only_def by blast
  then have "init_sensor lib now n = Inr ((), ?b\<lparr>calls := cs\<rparr>)"
    by (simp add: init_sensor_enable_all b)
  then show ?thesis by (intro exI [of _ cs]) simp
qed

lemma constructor_quiet:
  assumes "quiet_lib lib" "i2c_enabled p" "i2c_address p \<noteq> None"
    and "par_publish_imu p \<or> par_publish_magnetic_field p" "0 < sint (par_imu_rate p)" "0 < sint (par_magnetic_field_rate p)"
  shows "\<exists>period n. new_BNO08xROS lib now p = Inr (period, n) \<and> imu_received_flag n = Some 0 \<and> published n = [] \<and>
    imu_msg n = zero_imu_msg \<and> publish_magnetic_field n = par_publish_magnetic_field p \<and>
    imu_publisher n = par_publish_imu p \<and> mag_publisher n = par_publish_magnetic_field p \<and>
    watchdog n = Some \<lparr>wd_timeout = 2000000000, wd_check_interval = 1000000000, wd_callback = True,
      enable_watchdog = True, last_reset = now, watchdog_thread = At_test\<rparr>"
proof -
  let ?n0 = "init_parameters p\<lparr>comm_interface := True\<rparr>"
  have comms: "init_comms p (init_parameters p) = Inr ((), ?n0)"
    using assms(2,3) by (auto simp: init_comms_def)
  obtain cs where "init_sensor lib now ?n0 = Inr ((), ?n0\<lparr>reset_occurred := None, callback_set := True, calls := cs\<rparr>)"
    using init_sensor_quiet [OF assms(1), of ?n0 now] assms(4-6) by (auto simp: init_parameters_def)
  then show ?thesis
    using comms assms(5,6)
    by (simp add: new_BNO08xROS_def seqp_def bnd_def init_parameters_def int_div_def new_Watchdog_def wd_start_def start_enable_def start_last_reset_def
        set_callback_def set_check_interval_def set_timeout_def)
qed

section \<open>Properties\<close>

text \<open>C3: The IMU node publishes what it should: started on a working sensor with positive rates, it handles any
  sequence of sensor values without a fault, publishes a magnetic field message for each field value
  when that is enabled, and one IMU message, holding the newest of each, each time all three kinds have
  come since the last one. Every value resets the watchdog.\<close>

theorem imu_node_refines_spec:
  assumes "quiet_lib lib" "i2c_enabled p" "i2c_address p \<noteq> None" "par_publish_imu p"
    and "0 < sint (par_imu_rate p)" "0 < sint (par_magnetic_field_rate p)" "\<forall>(now, v) \<in> set vs. stampable now"
  shows "\<exists>period n n'. new_BNO08xROS lib t0 p = Inr (period, n) \<and> serve vs n = Inr ((), n') \<and>
    published n' = imu_spec (par_publish_magnetic_field p) {} zero_imu_msg vs \<and>
    (vs \<noteq> [] \<longrightarrow> map_option last_reset (watchdog n') = Some (fst (last vs)))"
proof -
  from constructor_quiet [OF assms(1-3) _ assms(5,6), of t0] assms(4) obtain period n where
    n: "new_BNO08xROS lib t0 p = Inr (period, n)" "imu_received_flag n = Some 0" "published n = []"
      "imu_msg n = zero_imu_msg" "publish_magnetic_field n = par_publish_magnetic_field p" "imu_publisher n"
      "mag_publisher n = par_publish_magnetic_field p" "watchdog n \<noteq> None" by auto
  then have "serving {} n" by (simp add: serving_def)
  from serve_refines [OF this _ assms(7)] n show ?thesis by auto
qed

text \<open>With the IMU disabled the node crashes all the same: the sensor still sends the three kinds of values
  now and then, and the first complete set is published through a publisher that was never created.
  Only the magnetic field is guarded.\<close>

theorem disabled_imu_null_pointer:
  assumes "quiet_lib lib" "i2c_enabled p" "i2c_address p \<noteq> None" "\<not> par_publish_imu p" "par_publish_magnetic_field p"
    and "0 < sint (par_imu_rate p)" "0 < sint (par_magnetic_field_rate p)" "stampable t"
  shows "\<exists>period n. new_BNO08xROS lib t0 p = Inr (period, n) \<and>
    serve [(t, ROTATION_VECTOR q), (t, ACCELEROMETER a), (t, GYROSCOPE_CALIBRATED g)] n = Inl Null_Pointer"
proof -
  from constructor_quiet [OF assms(1-3) _ assms(6,7), of t0] assms(4,5) obtain period n w where
    n: "new_BNO08xROS lib t0 p = Inr (period, n)" "imu_received_flag n = Some 0" "\<not> imu_publisher n"
      "watchdog n = Some w" by auto
  have "serve [(t, ROTATION_VECTOR q), (t, ACCELEROMETER a), (t, GYROSCOPE_CALIBRATED g)] n = Inl Null_Pointer"
    using n(2-4) stamp_of_stampable [OF assms(8)]
    by (simp add: sensor_callback_def reset_watchdog_def store_value_def publish_when_complete_def flag_received_def
        seqp_def bnd_def)
  with n(1) show ?thesis by blast
qed

text \<open>The watchdog is used before it exists: the constructor enables the reports before it creates the
  watchdog, and if the library hands over a value while it waits for the first report to be enabled, the
  callback goes through the uninitialised pointer.\<close>

theorem early_value_undefined:
  assumes "i2c_enabled p" "i2c_address p \<noteq> None" "par_publish_imu p" "\<not> par_publish_magnetic_field p"
    and "sint (par_imu_rate p) \<noteq> 0"
    and "lib [] Sh2_open = (SH2_OK, [])" "lib [Sh2_open] Sh2_getProdIds = (SH2_OK, [])"
    and "lib [Sh2_open, Sh2_getProdIds] Sh2_setSensorCallback = (SH2_OK, [])"
    and "\<And>config. snd (lib [Sh2_open, Sh2_getProdIds, Sh2_setSensorCallback] (Sh2_setSensorConfig Id_rotation_vector config)) \<noteq> []"
  shows "new_BNO08xROS lib now p = Inl Undefined_Behaviour"
proof -
  let ?n = "init_parameters p\<lparr>comm_interface := True\<rparr>"
  let ?b = "?n\<lparr>reset_occurred := None, calls := [Sh2_open, Sh2_getProdIds, Sh2_setSensorCallback], callback_set := True\<rparr>"
  have b: "bno_begin lib now (?n\<lparr>reset_occurred := None\<rparr>) = Inr (True, ?b)"
    using bno_begin_quiet [of "?n\<lparr>reset_occurred := None\<rparr>" lib now] assms(6-8) by (simp add: init_parameters_def)
  have "sh2 lib now (Sh2_setSensorConfig Id_rotation_vector config) ?b = Inl Undefined_Behaviour" for config
    using assms(9) [of config]
    by (cases "snd (lib (calls ?b) (Sh2_setSensorConfig Id_rotation_vector config))")
      (auto simp: sh2_def bnd_def seqp_def sensor_callback_def reset_watchdog_def init_parameters_def split: prod.splits)
  then have e: "enable_at lib now Id_rotation_vector (par_imu_rate p) ?b = Inl Undefined_Behaviour"
    using assms(5) by (simp add: enable_at_def enable_report_def int_div_def bnd_def seqp_def Let_def)
  have "init_sensor lib now ?n = Inl Undefined_Behaviour"
    using assms(3,4) b e by (simp add: init_sensor_def init_parameters_def)
  moreover have "init_comms p (init_parameters p) = Inr ((), ?n)"
    using assms(1,2) by (auto simp: init_comms_def)
  ultimately show ?thesis by (simp add: new_BNO08xROS_def)
qed

text \<open>The reset that the watchdog runs ends the program when the sensor is gone: if the bus cannot be opened
  again the exception of \<open>init_sensor\<close> leaves the watchdog's thread uncaught, with the sensor object deleted.\<close>

theorem failed_reset_terminates:
  assumes "comm_interface n" "snd (lib (calls n) Sh2_close) = []"
    and "fst (lib (calls n @ [Sh2_close, Comm_close]) Sh2_open) \<noteq> SH2_OK"
  shows "bno_reset lib now n = Inl Uncaught_Exception"
proof -
  obtain st where c: "lib (calls n) Sh2_close = (st, [])" using assms(2) by (metis prod.collapse)
  obtain st' vs where o: "lib (calls n @ [Sh2_close, Comm_close]) Sh2_open = (st', vs)" "st' \<noteq> SH2_OK"
    using assms(3) by (metis prod.collapse)
  let ?n = "n\<lparr>calls := calls n @ [Sh2_close, Comm_close], callback_set := False, reset_occurred := None\<rparr>"
  have close: "sh2 lib now Sh2_close n = Inr (st, n\<lparr>calls := calls n @ [Sh2_close]\<rparr>)" using sh2_quiet [where lib = lib and n = n and c = Sh2_close and status = st, OF c] .
  have "sh2 lib now Sh2_open ?n = Inr (st', ?n\<lparr>calls := calls n @ [Sh2_close, Comm_close, Sh2_open]\<rparr>)"
    using o(1) by (simp add: sh2_def bnd_def seqp_def)
  then have "bno_begin lib now ?n = Inr (False, ?n\<lparr>calls := calls n @ [Sh2_close, Comm_close, Sh2_open]\<rparr>)"
    using assms(1) o(2) by (simp add: bno_begin_def bno_init_def)
  then show ?thesis by (simp add: bno_reset_def close init_sensor_def bnd_def)
qed

text \<open>Time stamps are wrong most of the time: the nanoseconds of a message are all nanoseconds of the clock
  modulo 2 to the 32, so seconds and nanoseconds give the time only when that equals the part below one second.\<close>

theorem stamp_right_iff:
  assumes "stampable now"
  shows "\<exists>sec ns. stamp_of now = Some (sec, ns) \<and> sint sec = now div 1000000000 \<and>
    (sint sec * 1000000000 + uint ns = now \<longleftrightarrow> now mod 2 ^ 32 = now mod 1000000000)"
proof -
  have m: "1000000000 * (now div 1000000000) + now mod 1000000000 = now" by (rule mult_div_mod_eq)
  moreover have "0 \<le> now mod 1000000000" "now mod 1000000000 < 1000000000"
    by (rule pos_mod_sign pos_mod_bound; simp)+
  ultimately have "0 \<le> now div 1000000000" "now div 1000000000 < 2147483648"
    using assms unfolding stampable_def by linarith+
  then have "sint (word_of_int (now div 1000000000) :: i32) = now div 1000000000"
    by (intro sint_word_of_int_fits) (simp add: fits_signed_def)
  moreover have "uint (word_of_int now :: u32) = now mod 2 ^ 32"
    by (simp add: uint_word_of_int)
  moreover have "now div 1000000000 * 1000000000 + x = now \<longleftrightarrow> x = now mod 1000000000" for x
    using m by (metis add_left_cancel mult.commute)
  ultimately show ?thesis using stamp_of_stampable [OF assms] by (simp only: option.inject prod.inject) auto
qed

section \<open>Witnesses\<close>

definition sample_lib :: sh2_lib where
  "sample_lib cs c = (SH2_OK, [])"

definition sample_values :: "(int \<times> sensor_value) list" where
  "sample_values = [(5, ROTATION_VECTOR \<lparr>i_of = 0, j_of = 0, k_of = 1, real_of = 0\<rparr>), (6, ACCELEROMETER zero_vec3),
     (7, MAGNETIC_FIELD_CALIBRATED zero_vec3), (8, GYROSCOPE_CALIBRATED zero_vec3), (9, Other_sensor)]"

lemma sample_lib_quiet: "quiet_lib sample_lib"
  by (simp add: quiet_lib_def sample_lib_def)

lemma stampable_small: "0 \<le> t \<Longrightarrow> t < 1000 \<Longrightarrow> stampable t"
  by (simp add: stampable_def)

theorem imu_node_refines_spec_witness:
  "\<exists>period n n'. new_BNO08xROS sample_lib 0 default_bno_parameters = Inr (period, n) \<and> serve sample_values n = Inr ((), n') \<and>
     length (published n') = 2"
proof -
  have "\<forall>(now, v) \<in> set sample_values. stampable now"
    by (simp add: sample_values_def stampable_small)
  from imu_node_refines_spec [OF sample_lib_quiet _ _ _ _ _ this, of default_bno_parameters 0]
  obtain period n n' where "new_BNO08xROS sample_lib 0 default_bno_parameters = Inr (period, n)"
    "serve sample_values n = Inr ((), n')" "published n' = imu_spec True {} zero_imu_msg sample_values"
    by (auto simp: default_bno_parameters_def)
  moreover have "length (imu_spec True {} zero_imu_msg sample_values) = 2"
    by (simp add: sample_values_def received_def kind_UNIV mag_output_def)
  ultimately show ?thesis by auto
qed

theorem disabled_imu_null_pointer_witness:
  "\<exists>period n. new_BNO08xROS sample_lib 0 (default_bno_parameters\<lparr>par_publish_imu := False\<rparr>) = Inr (period, n) \<and>
     serve [(1, ROTATION_VECTOR \<lparr>i_of = 0, j_of = 0, k_of = 1, real_of = 0\<rparr>), (1, ACCELEROMETER zero_vec3),
       (1, GYROSCOPE_CALIBRATED zero_vec3)] n = Inl Null_Pointer"
  by (rule disabled_imu_null_pointer [OF sample_lib_quiet]) (simp_all add: default_bno_parameters_def stampable_small)

theorem early_value_undefined_witness:
  "new_BNO08xROS (\<lambda>cs c. if length cs = 3 then (SH2_OK, [Other_sensor]) else (SH2_OK, [])) 0
     (default_bno_parameters\<lparr>par_publish_magnetic_field := False\<rparr>) = Inl Undefined_Behaviour"
  by (rule early_value_undefined) (simp_all add: default_bno_parameters_def)

theorem failed_reset_terminates_witness:
  "bno_reset (\<lambda>cs c. if c = Sh2_open then (-1, []) else (SH2_OK, [])) 0
     (init_parameters default_bno_parameters\<lparr>comm_interface := True\<rparr>) = Inl Uncaught_Exception"
  by (rule failed_reset_terminates) (simp_all add: init_parameters_def)

theorem stamp_right_iff_witness:
  "\<exists>sec ns. stamp_of 1500000000 = Some (sec, ns) \<and> sint sec * 1000000000 + uint ns \<noteq> 1500000000"
  using stamp_right_iff [of 1500000000] by (auto simp: stampable_def)

end
