(* ===== verification/Shtp.thy ===== *)
theory Shtp
  imports Sh2_Value
begin

text \<open>
  The transport protocol of the SH-2 library (\<^verbatim>\<open>bno08x_driver/include/sh2/shtp.c\<close>): payloads
  travel in transfers with a header of four bytes, on channels that the hub advertises together with
  its applications. The hardware layer below is a parameter: what a write and a read return after the
  calls before. The clients above are a parameter too: what their callbacks do, given a way to send.
  The record of an instance can be extended by the client's own state. A callback is named by a
  number, its cookie is one, and 0 is the null cookie.

  Sending waits for the hardware by serving the receiver, and serving may send: the functions that do
  so take fuel, one unit for each call and each round of a loop, and end in the fault \<open>No_Return\<close>
  without it.
\<close>

section \<open>The state of an instance\<close>

abbreviation SH2_HAL_MAX_TRANSFER_OUT :: nat where "SH2_HAL_MAX_TRANSFER_OUT \<equiv> 256"
abbreviation SH2_HAL_MAX_PAYLOAD_OUT :: nat where "SH2_HAL_MAX_PAYLOAD_OUT \<equiv> 256"
abbreviation SH2_HAL_MAX_TRANSFER_IN :: nat where "SH2_HAL_MAX_TRANSFER_IN \<equiv> 384"
abbreviation SH2_HAL_MAX_PAYLOAD_IN :: nat where "SH2_HAL_MAX_PAYLOAD_IN \<equiv> 384"
abbreviation SH2_MAX_APPS :: nat where "SH2_MAX_APPS \<equiv> 5"
abbreviation SH2_MAX_CHANS :: nat where "SH2_MAX_CHANS \<equiv> 8"
abbreviation SHTP_NAME_LEN :: nat where "SHTP_NAME_LEN \<equiv> 32"
abbreviation SHTP_HDR_LEN :: u16 where "SHTP_HDR_LEN \<equiv> 4"
abbreviation GUID_SHTP :: u16 where "GUID_SHTP \<equiv> 0"

datatype advert_phase = ADVERT_NEEDED | ADVERT_REQUESTED | ADVERT_IDLE

datatype shtp_Event =
  SHTP_TX_DISCARD | SHTP_SHORT_FRAGMENT | SHTP_TOO_LARGE_PAYLOADS | SHTP_BAD_RX_CHAN | SHTP_BAD_TX_CHAN

datatype chan_callback = Cmd_listener | Client_listener nat
datatype advert_callback = Shtp_advert | Client_advert nat

type_synonym cookie = nat

text \<open>The bytes of a name up to its closing zero.\<close>

type_synonym cname = "u8 list"

definition cname_of :: "string \<Rightarrow> cname" where
  "cname_of s = map of_char s"

record App =
  app_guid :: u32
  appName :: cname

record AppListener =
  al_guid :: u16
  al_callback :: "advert_callback option"
  al_cookie :: cookie

record ChanListener =
  cl_guid :: u16
  cl_chanName :: cname
  cl_callback :: "chan_callback option"
  cl_cookie :: cookie

record Channel =
  nextOutSeq :: u8
  nextInSeq :: u8
  ch_guid :: u32
  ch_chanName :: cname
  ch_wake :: bool
  ch_callback :: "chan_callback option"
  ch_cookie :: cookie

text \<open>The calls of the hardware layer, newest last; what each returns after those before it.\<close>

datatype hal_call = Hal_open | Hal_close | Hal_write "u8 list" | Hal_read | Hal_getTimeUs

record hal =
  hal_write :: "hal_call list \<Rightarrow> u8 list \<Rightarrow> int"
  hal_read :: "hal_call list \<Rightarrow> int \<times> u8 list \<times> u32"
  hal_time :: "hal_call list \<Rightarrow> u32"

record shtp =
  pHal :: bool
  eventCallback :: "nat option"
  eventCookie :: cookie
  shtpVersion :: cname
  outMaxPayload :: u16
  outMaxTransfer :: u16
  outTransfer :: "u8 list"
  inMaxTransfer :: u16
  inRemaining :: u16
  inChan :: u8
  inPayload :: "u8 list"
  inCursor :: u16
  inTimestamp :: u32
  inTransfer :: "u8 list"
  advertPhase :: advert_phase
  apps :: "App list"
  nextApp :: u8
  nextAppListener :: u8
  appListener :: "AppListener list"
  chans :: "Channel list"
  chanListener :: "ChanListener list"
  nextChanListener :: u8
  txDiscards :: u32
  shortFragments :: u32
  tooLargePayloads :: u32
  badRxChan :: u32
  badTxChan :: u32
  hal_calls :: "hal_call list"

text \<open>
  The callbacks of the clients. That of a channel reads the payload in the buffer of the instance and
  can send; that of an application gets the rest of the payload from the value on, or a null pointer.
\<close>

type_synonym 's sender = "u8 \<Rightarrow> u8 list \<Rightarrow> ('s, int) prog"

record 's clients =
  on_channel :: "'s sender \<Rightarrow> nat \<Rightarrow> cookie \<Rightarrow> u16 \<Rightarrow> u32 \<Rightarrow> ('s, unit) prog"
  on_advert :: "nat \<Rightarrow> cookie \<Rightarrow> u8 \<Rightarrow> u8 \<Rightarrow> u8 list option \<Rightarrow> ('s, unit) prog"
  on_event :: "nat \<Rightarrow> cookie \<Rightarrow> shtp_Event \<Rightarrow> ('s, unit) prog"

section \<open>Strings\<close>

text \<open>The string at a pointer; \<open>None\<close>: it has no end in the buffer. A copy into an array of a size.\<close>

definition c_string :: "u8 list \<Rightarrow> cname option" where
  "c_string p = (if 0 \<in> set p then Some (takeWhile (\<lambda>b. b \<noteq> 0) p) else None)"

definition strcpy :: "nat \<Rightarrow> u8 list \<Rightarrow> cname option" where
  "strcpy n p = (case c_string p of None \<Rightarrow> None | Some s \<Rightarrow> if length s < n then Some s else None)"

section \<open>Applications, channels and their listeners\<close>

definition addAdvertListener :: "u16 \<Rightarrow> advert_callback option \<Rightarrow> cookie \<Rightarrow> 'c shtp_scheme \<Rightarrow> 'c shtp_scheme" where
  "addAdvertListener guid callback cookie s =
     (if unat (nextAppListener s) \<ge> SH2_MAX_APPS then s
      else s\<lparr>appListener := (appListener s)[unat (nextAppListener s) :=
               \<lparr>al_guid = guid, al_callback = callback, al_cookie = cookie\<rparr>],
             nextAppListener := nextAppListener s + 1\<rparr>)"

definition listener_for :: "ChanListener list \<Rightarrow> u32 \<Rightarrow> cname \<Rightarrow> ChanListener option" where
  "listener_for ls guid name =
     List.find (\<lambda>l. cl_callback l \<noteq> None \<and> ucast (cl_guid l) = guid \<and> name = cl_chanName l) ls"

definition updateCallback :: "ChanListener list \<Rightarrow> Channel \<Rightarrow> Channel" where
  "updateCallback ls ch =
     (let ch = ch\<lparr>ch_callback := None\<rparr> in
      if ch_guid ch = 0xFFFFFFFF then ch
      else case listener_for ls (ch_guid ch) (ch_chanName ch) of
        None \<Rightarrow> ch
      | Some l \<Rightarrow> ch\<lparr>ch_callback := cl_callback l, ch_cookie := cl_cookie l\<rparr>)"

definition updateCallbacks :: "'c shtp_scheme \<Rightarrow> 'c shtp_scheme" where
  "updateCallbacks s = s\<lparr>chans := map (updateCallback (chanListener s)) (chans s)\<rparr>"

definition addChanListener ::
  "u16 \<Rightarrow> cname \<Rightarrow> chan_callback option \<Rightarrow> cookie \<Rightarrow> ('c shtp_scheme, int) prog" where
  "addChanListener guid chanName callback cookie = (\<lambda>s.
     if unat (nextChanListener s) \<ge> SH2_MAX_CHANS then Inr (SH2_ERR, s)
     else if length chanName \<ge> SHTP_NAME_LEN then Inl Undefined_Behaviour
     else Inr (SH2_OK, updateCallbacks (s\<lparr>
       chanListener := (chanListener s)[unat (nextChanListener s) :=
         \<lparr>cl_guid = guid, cl_chanName = chanName, cl_callback = callback, cl_cookie = cookie\<rparr>],
       nextChanListener := nextChanListener s + 1\<rparr>)))"

definition addApp :: "u32 \<Rightarrow> 'c shtp_scheme \<Rightarrow> 'c shtp_scheme" where
  "addApp guid s =
     (if \<exists>a \<in> set (take (unat (nextApp s)) (apps s)). app_guid a = guid then s
      else if unat (nextApp s) \<ge> SH2_MAX_APPS then s
      else updateCallbacks (s\<lparr>apps := (apps s)[unat (nextApp s) := \<lparr>app_guid = guid, appName = []\<rparr>],
             nextApp := nextApp s + 1\<rparr>))"

fun name_first :: "u32 \<Rightarrow> cname \<Rightarrow> App list \<Rightarrow> App list" where
  "name_first guid name [] = []"
| "name_first guid name (a # as) =
     (if app_guid a = guid then a\<lparr>appName := name\<rparr> # as else a # name_first guid name as)"

definition setAppName :: "u32 \<Rightarrow> cname \<Rightarrow> 'c shtp_scheme \<Rightarrow> 'c shtp_scheme" where
  "setAppName guid name s =
     s\<lparr>apps := name_first guid name (take (unat (nextApp s)) (apps s)) @ drop (unat (nextApp s)) (apps s)\<rparr>"

definition addChannel :: "u8 \<Rightarrow> u32 \<Rightarrow> cname \<Rightarrow> bool \<Rightarrow> 'c shtp_scheme \<Rightarrow> 'c shtp_scheme" where
  "addChannel chanNo guid chanName wake s =
     (if unat chanNo \<ge> SH2_MAX_CHANS then s
      else updateCallbacks (s\<lparr>chans := (chans s)[unat chanNo :=
        \<lparr>nextOutSeq = 0, nextInSeq = 0, ch_guid = guid, ch_chanName = chanName, ch_wake = wake,
         ch_callback = None, ch_cookie = 0\<rparr>]\<rparr>))"

section \<open>Advertisements\<close>

abbreviation TAG_NULL :: u8 where "TAG_NULL \<equiv> 0"
abbreviation TAG_GUID :: u8 where "TAG_GUID \<equiv> 1"
abbreviation TAG_MAX_CARGO_PLUS_HEADER_WRITE :: u8 where "TAG_MAX_CARGO_PLUS_HEADER_WRITE \<equiv> 2"
abbreviation TAG_MAX_CARGO_PLUS_HEADER_READ :: u8 where "TAG_MAX_CARGO_PLUS_HEADER_READ \<equiv> 3"
abbreviation TAG_MAX_TRANSFER_WRITE :: u8 where "TAG_MAX_TRANSFER_WRITE \<equiv> 4"
abbreviation TAG_MAX_TRANSFER_READ :: u8 where "TAG_MAX_TRANSFER_READ \<equiv> 5"
abbreviation TAG_NORMAL_CHANNEL :: u8 where "TAG_NORMAL_CHANNEL \<equiv> 6"
abbreviation TAG_WAKE_CHANNEL :: u8 where "TAG_WAKE_CHANNEL \<equiv> 7"
abbreviation TAG_APP_NAME :: u8 where "TAG_APP_NAME \<equiv> 8"
abbreviation TAG_CHANNEL_NAME :: u8 where "TAG_CHANNEL_NAME \<equiv> 9"
abbreviation TAG_SHTP_VERSION :: u8 where "TAG_SHTP_VERSION \<equiv> 0x80"

definition shtpAdvertHdlr :: "u8 \<Rightarrow> u8 \<Rightarrow> u8 list option \<Rightarrow> ('c shtp_scheme, unit) prog" where
  "shtpAdvertHdlr tag len val =
     (if tag = TAG_SHTP_VERSION then
        (case val of None \<Rightarrow> fault_with Null_Pointer
         | Some p \<Rightarrow> bnd (lift_opt (c_string p)) (\<lambda>v.
             if length v < 8 then modify (shtpVersion_update (\<lambda>_. v)) else ret ()))
      else ret ())"

definition callAdvertHandler ::
  "'c shtp_scheme clients \<Rightarrow> u32 \<Rightarrow> u8 \<Rightarrow> u8 \<Rightarrow> u8 list option \<Rightarrow> ('c shtp_scheme, unit) prog" where
  "callAdvertHandler cl guid tag len val =
     bnd (gets appListener) (\<lambda>ls.
     case List.find (\<lambda>l. ucast (al_guid l) = guid \<and> al_callback l \<noteq> None) ls of
       None \<Rightarrow> ret ()
     | Some l \<Rightarrow> (case al_callback l of
         None \<Rightarrow> ret ()
       | Some Shtp_advert \<Rightarrow> shtpAdvertHdlr tag len val
       | Some (Client_advert k) \<Rightarrow> on_advert cl k (al_cookie l) tag len val))"

text \<open>One entry of an advertisement; the result is the application, channel and wake flag from then on.\<close>

definition processTag ::
  "'c shtp_scheme clients \<Rightarrow> u8 \<Rightarrow> u8 list \<Rightarrow> u32 \<times> u8 \<times> bool \<Rightarrow> ('c shtp_scheme, u32 \<times> u8 \<times> bool) prog" where
  "processTag cl tag val = (\<lambda>(guid, chanNo, wake).
     if tag = TAG_GUID then
       seqp (callAdvertHandler cl guid TAG_NULL 0 None)
       (bnd (lift_opt (readu32 val)) (\<lambda>guid. seqp (modify (addApp guid)) (ret (guid, chanNo, wake))))
     else if tag = TAG_MAX_CARGO_PLUS_HEADER_WRITE then
       bnd (lift_opt (readu16 val)) (\<lambda>v. let x = v - SHTP_HDR_LEN in
       seqp (if unat x < SH2_HAL_MAX_PAYLOAD_OUT then modify (outMaxPayload_update (\<lambda>_. x)) else ret ())
       (ret (guid, chanNo, wake)))
     else if tag = TAG_MAX_CARGO_PLUS_HEADER_READ then
       bnd (lift_opt (readu16 val)) (\<lambda>v. ret (guid, chanNo, wake))
     else if tag = TAG_MAX_TRANSFER_WRITE then
       bnd (lift_opt (readu16 val)) (\<lambda>v. let x = v - SHTP_HDR_LEN in
       seqp (modify (outMaxTransfer_update (\<lambda>_. if unat x < SH2_HAL_MAX_TRANSFER_OUT then x else 256)))
       (ret (guid, chanNo, wake)))
     else if tag = TAG_MAX_TRANSFER_READ then
       bnd (lift_opt (readu16 val)) (\<lambda>v. let x = v - SHTP_HDR_LEN in
       seqp (if unat x < SH2_HAL_MAX_TRANSFER_IN then modify (inMaxTransfer_update (\<lambda>_. x)) else ret ())
       (ret (guid, chanNo, wake)))
     else if tag = TAG_NORMAL_CHANNEL then bnd (lift_opt (readu8 val)) (\<lambda>c. ret (guid, c, False))
     else if tag = TAG_WAKE_CHANNEL then bnd (lift_opt (readu8 val)) (\<lambda>c. ret (guid, c, True))
     else if tag = TAG_APP_NAME then
       bnd (lift_opt (strcpy SHTP_NAME_LEN val)) (\<lambda>name.
       seqp (modify (setAppName guid name)) (ret (guid, chanNo, wake)))
     else if tag = TAG_CHANNEL_NAME then
       bnd (lift_opt (strcpy SHTP_NAME_LEN val)) (\<lambda>name.
       seqp (modify (addChannel chanNo guid name wake))
       (seqp (if unat chanNo < SH2_MAX_CHANS then
                modify (\<lambda>s. s\<lparr>chans := (chans s)[unat chanNo :=
                  (chans s ! unat chanNo)\<lparr>ch_guid := guid, ch_chanName := name, ch_wake := wake\<rparr>]\<rparr>)
              else ret ())
       (ret (guid, chanNo, wake))))
     else ret (guid, chanNo, wake))"

text \<open>
  The loop. An access behind the buffer is a fault, so the cursor stays far below the bound of its 16
  bits.
\<close>

definition byte_at :: "u8 list \<Rightarrow> nat \<Rightarrow> u8 option" where
  "byte_at p i = (if i < length p then Some (p ! i) else None)"

function (sequential) advert_loop ::
  "'c shtp_scheme clients \<Rightarrow> u8 list \<Rightarrow> nat \<Rightarrow> nat \<Rightarrow> u32 \<times> u8 \<times> bool \<Rightarrow> ('c shtp_scheme, unit) prog" where
  "advert_loop cl payload payloadLen cursor st =
     (if cursor < payloadLen then
        bnd (lift_opt (byte_at payload cursor)) (\<lambda>tag.
        bnd (lift_opt (byte_at payload (cursor + 1))) (\<lambda>len.
        bnd (processTag cl tag (drop (cursor + 2) payload) st) (\<lambda>st'.
        seqp (callAdvertHandler cl (fst st') tag len (Some (drop (cursor + 2) payload)))
        (advert_loop cl payload payloadLen (cursor + 2 + unat len) st'))))
      else callAdvertHandler cl (fst st) TAG_NULL 0 None)"
  by pat_completeness auto
termination by (relation "measure (\<lambda>(cl, payload, payloadLen, cursor, st). payloadLen - cursor)") auto

declare advert_loop.simps [simp del]

definition processAdvertisement :: "'c shtp_scheme clients \<Rightarrow> u8 list \<Rightarrow> u16 \<Rightarrow> ('c shtp_scheme, unit) prog" where
  "processAdvertisement cl payload payloadLen =
     seqp (modify (advertPhase_update (\<lambda>_. ADVERT_IDLE))) (advert_loop cl payload (unat payloadLen) 1 (0, 0, False))"

definition shtpCmdListener :: "'c shtp_scheme clients \<Rightarrow> u16 \<Rightarrow> ('c shtp_scheme, unit) prog" where
  "shtpCmdListener cl len =
     (if len = 0 then ret ()
      else bnd (gets inPayload) (\<lambda>payload.
        bnd (lift_opt (byte_at payload 0)) (\<lambda>response.
        if response = 0 then processAdvertisement cl payload len else ret ())))"

section \<open>Receiving\<close>

definition shtp_event :: "'c shtp_scheme clients \<Rightarrow> shtp_Event \<Rightarrow> ('c shtp_scheme, unit) prog" where
  "shtp_event cl e = bnd (gets (\<lambda>s. (eventCallback s, eventCookie s))) (\<lambda>(callback, c).
     case callback of None \<Rightarrow> ret () | Some k \<Rightarrow> on_event cl k c e)"

text \<open>A complete payload goes to the callback of its channel.\<close>

definition deliver :: "'c shtp_scheme clients \<Rightarrow> 'c shtp_scheme sender \<Rightarrow> u8 \<Rightarrow> ('c shtp_scheme, unit) prog" where
  "deliver cl send chan = bnd (gets (\<lambda>s. s)) (\<lambda>s.
     case ch_callback (chans s ! unat chan) of
       None \<Rightarrow> ret ()
     | Some Cmd_listener \<Rightarrow> shtpCmdListener cl (inCursor s)
     | Some (Client_listener k) \<Rightarrow>
         on_channel cl send k (ch_cookie (chans s ! unat chan)) (inCursor s) (inTimestamp s))"

text \<open>The copy of the fragment behind what has been received; \<open>None\<close>: it leaves a buffer.\<close>

definition rx_append :: "u16 \<Rightarrow> u16 \<Rightarrow> 'c shtp_scheme \<Rightarrow> 'c shtp_scheme option" where
  "rx_append len payloadLen s =
     (let len = (if len > payloadLen then payloadLen else len);
          n = unat (len - SHTP_HDR_LEN);
          cursor = unat (inCursor s)
      in if 4 + n > length (inTransfer s) \<or> cursor + n > length (inPayload s) then None
         else Some (s\<lparr>
           inPayload := take cursor (inPayload s) @ take n (drop 4 (inTransfer s)) @ drop (cursor + n) (inPayload s),
           inCursor := inCursor s + (len - SHTP_HDR_LEN),
           inRemaining := payloadLen - len\<rparr>))"

text \<open>A fragment that does not continue the one before discards what was received.\<close>

definition rx_resync :: "bool \<Rightarrow> u8 \<Rightarrow> u8 \<Rightarrow> 'c shtp_scheme \<Rightarrow> 'c shtp_scheme" where
  "rx_resync continuation chan seq s =
     (if inRemaining s \<noteq> 0 \<and> (\<not> continuation \<or> chan \<noteq> inChan s \<or> seq \<noteq> nextInSeq (chans s ! unat chan))
      then s\<lparr>inRemaining := 0\<rparr> else s)"

definition rx_begin :: "u32 \<Rightarrow> u8 \<Rightarrow> 'c shtp_scheme \<Rightarrow> 'c shtp_scheme" where
  "rx_begin t_us chan s =
     (if inRemaining s = 0 then s\<lparr>inTimestamp := t_us, inCursor := 0, inChan := chan\<rparr> else s)"

definition rx_finish ::
  "'c shtp_scheme clients \<Rightarrow> 'c shtp_scheme sender \<Rightarrow> u8 \<Rightarrow> u8 \<Rightarrow> ('c shtp_scheme, unit) prog" where
  "rx_finish cl send chan seq =
     bnd (gets inRemaining) (\<lambda>remaining.
     seqp (if remaining = 0 then deliver cl send chan else ret ())
     (modify (\<lambda>s. s\<lparr>chans := (chans s)[unat chan := (chans s ! unat chan)\<lparr>nextInSeq := seq + 1\<rparr>]\<rparr>)))"

definition rx_fragment ::
  "'c shtp_scheme clients \<Rightarrow> 'c shtp_scheme sender \<Rightarrow> u16 \<Rightarrow> u16 \<Rightarrow> u8 \<Rightarrow> u8 \<Rightarrow> u32 \<Rightarrow> ('c shtp_scheme, unit) prog" where
  "rx_fragment cl send len payloadLen chan seq t_us = (\<lambda>s.
     if inRemaining s = 0 \<and> unat payloadLen > SH2_HAL_MAX_PAYLOAD_IN then
       seqp (modify (\<lambda>s. s\<lparr>tooLargePayloads := tooLargePayloads s + 1\<rparr>)) (shtp_event cl SHTP_TOO_LARGE_PAYLOADS) s
     else case rx_append len payloadLen (rx_begin t_us chan s) of
       None \<Rightarrow> Inl Undefined_Behaviour
     | Some s \<Rightarrow> rx_finish cl send chan seq s)"

definition rxAssemble ::
  "'c shtp_scheme clients \<Rightarrow> 'c shtp_scheme sender \<Rightarrow> u16 \<Rightarrow> u32 \<Rightarrow> ('c shtp_scheme, unit) prog" where
  "rxAssemble cl send len t_us =
     (if len < SHTP_HDR_LEN then modify (\<lambda>s. s\<lparr>shortFragments := shortFragments s + 1\<rparr>)
      else bnd (gets (\<lambda>s. (inTransfer s, nextChanListener s))) (\<lambda>(inp, listeners).
        let payloadLen = le16 (inp ! 0) (inp ! 1) AND NOT 0x8000;
            continuation = (inp ! 1 AND 0x80 \<noteq> 0);
            chan = inp ! 2; seq = inp ! 3
        in if payloadLen < SHTP_HDR_LEN then
             seqp (modify (\<lambda>s. s\<lparr>shortFragments := shortFragments s + 1\<rparr>)) (shtp_event cl SHTP_SHORT_FRAGMENT)
           else if unat chan \<ge> SH2_MAX_CHANS \<or> chan \<ge> listeners then
             seqp (modify (\<lambda>s. s\<lparr>badRxChan := badRxChan s + 1\<rparr>)) (shtp_event cl SHTP_BAD_RX_CHAN)
           else seqp (modify (rx_resync continuation chan seq)) (rx_fragment cl send len payloadLen chan seq t_us)))"

text \<open>The read of the hardware layer fills the buffer from its start; what it returns is its length.\<close>

definition hal_do_read :: "hal \<Rightarrow> ('c shtp_scheme, int \<times> u32) prog" where
  "hal_do_read h = bnd (gets (\<lambda>s. hal_read h (hal_calls s))) (\<lambda>(len, bytes, t).
     seqp (modify (\<lambda>s. s\<lparr>hal_calls := hal_calls s @ [Hal_read],
       inTransfer := take (length (inTransfer s)) (bytes @ drop (length bytes) (inTransfer s))\<rparr>)) (ret (len, t)))"

definition service_read ::
  "hal \<Rightarrow> 'c shtp_scheme clients \<Rightarrow> 'c shtp_scheme sender \<Rightarrow> ('c shtp_scheme, unit) prog" where
  "service_read h cl send = bnd (hal_do_read h) (\<lambda>(len, t).
     if len \<noteq> 0 then rxAssemble cl send (word_of_int len) t else ret ())"

section \<open>Sending\<close>

definition hal_do_write :: "hal \<Rightarrow> u16 \<Rightarrow> ('c shtp_scheme, int) prog" where
  "hal_do_write h lenField = bnd (gets (\<lambda>s. (hal_calls s, take (unat lenField) (outTransfer s)))) (\<lambda>(calls, bytes).
     seqp (modify (hal_calls_update (\<lambda>cs. cs @ [Hal_write bytes]))) (ret (hal_write h calls bytes)))"

text \<open>A transfer in the buffer: the header, and the next part of the payload behind it.\<close>

definition tx_header :: "u16 \<Rightarrow> bool \<Rightarrow> u8 \<Rightarrow> u8 \<Rightarrow> u8 list" where
  "tx_header lenField continuation chan seq =
     [lo8 lenField, if continuation then hi8 lenField OR 0x80 else hi8 lenField, chan, seq]"

definition tx_stage ::
  "u8 \<Rightarrow> u8 list \<Rightarrow> bool \<Rightarrow> u16 \<Rightarrow> u16 \<Rightarrow> ('c shtp_scheme, unit) prog" where
  "tx_stage chan pData continuation cursor transferLen = (\<lambda>s.
     let ch = chans s ! unat chan;
         staged = tx_header (transferLen + SHTP_HDR_LEN) continuation chan (nextOutSeq ch) @
           take (unat transferLen) (drop (unat cursor) pData)
     in if 4 + unat transferLen > length (outTransfer s) \<or> unat cursor + unat transferLen > length pData
        then Inl Undefined_Behaviour
        else Inr ((), s\<lparr>outTransfer := staged @ drop (length staged) (outTransfer s),
               chans := (chans s)[unat chan := ch\<lparr>nextOutSeq := nextOutSeq ch + 1\<rparr>]\<rparr>))"

definition advertise :: "u8 list" where
  "advertise = [0, 1]"

fun tx_write :: "hal \<Rightarrow> 'c shtp_scheme clients \<Rightarrow> nat \<Rightarrow> u16 \<Rightarrow> ('c shtp_scheme, int) prog"
  and txProcess :: "hal \<Rightarrow> 'c shtp_scheme clients \<Rightarrow> nat \<Rightarrow> u8 \<Rightarrow> u8 list \<Rightarrow> bool \<Rightarrow> u16 \<Rightarrow> u16 \<Rightarrow> ('c shtp_scheme, int) prog"
  and shtp_send :: "hal \<Rightarrow> 'c shtp_scheme clients \<Rightarrow> nat \<Rightarrow> u8 \<Rightarrow> u8 list \<Rightarrow> ('c shtp_scheme, int) prog"
  and shtp_service :: "hal \<Rightarrow> 'c shtp_scheme clients \<Rightarrow> nat \<Rightarrow> ('c shtp_scheme, unit) prog" where
  "tx_write h cl 0 lenField = fault_with No_Return"
| "tx_write h cl (Suc n) lenField =
     bnd (hal_do_write h lenField) (\<lambda>status.
     if status = 0 then seqp (shtp_service h cl n) (tx_write h cl n lenField) else ret status)"
| "txProcess h cl 0 chan pData continuation cursor remaining = fault_with No_Return"
| "txProcess h cl (Suc n) chan pData continuation cursor remaining =
     (if remaining > 0 then
        bnd (gets outMaxTransfer) (\<lambda>outMax.
        let transferLen = (if remaining < outMax - SHTP_HDR_LEN then remaining else outMax - SHTP_HDR_LEN) in
        seqp (tx_stage chan pData continuation cursor transferLen)
        (bnd (tx_write h cl n (transferLen + SHTP_HDR_LEN)) (\<lambda>status.
         if status < 0 then seqp (modify (\<lambda>s. s\<lparr>txDiscards := txDiscards s + 1\<rparr>)) (ret status)
         else txProcess h cl n chan pData True (cursor + transferLen) (remaining - transferLen))))
      else ret SH2_OK)"
| "shtp_send h cl 0 channel payload = fault_with No_Return"
| "shtp_send h cl (Suc n) channel payload =
     bnd (gets outMaxPayload) (\<lambda>outMax.
     if length payload > unat outMax then ret SH2_ERR_BAD_PARAM
     else if unat channel \<ge> SH2_MAX_CHANS then
       seqp (modify (\<lambda>s. s\<lparr>badTxChan := badTxChan s + 1\<rparr>)) (ret SH2_ERR_BAD_PARAM)
     else txProcess h cl n channel payload False 0 (of_nat (length payload)))"
| "shtp_service h cl 0 = fault_with No_Return"
| "shtp_service h cl (Suc n) =
     bnd (gets advertPhase) (\<lambda>phase.
     seqp (if phase = ADVERT_NEEDED then
             seqp (modify (advertPhase_update (\<lambda>_. ADVERT_REQUESTED)))
             (bnd (shtp_send h cl n 0 advertise) (\<lambda>status.
              if status \<noteq> SH2_OK then modify (advertPhase_update (\<lambda>_. ADVERT_NEEDED)) else ret ()))
           else ret ())
     (service_read h cl (shtp_send h cl n)))"

section \<open>The other operations\<close>

definition shtp_setEventCallback :: "nat option \<Rightarrow> cookie \<Rightarrow> 'c shtp_scheme \<Rightarrow> 'c shtp_scheme" where
  "shtp_setEventCallback callback c s = s\<lparr>eventCallback := callback, eventCookie := c\<rparr>"

text \<open>\<open>None\<close> is the null pointer.\<close>

definition shtp_listenChan ::
  "u16 \<Rightarrow> cname option \<Rightarrow> chan_callback option \<Rightarrow> cookie \<Rightarrow> ('c shtp_scheme, int) prog" where
  "shtp_listenChan guid chan callback c =
     (case chan of None \<Rightarrow> ret SH2_ERR_BAD_PARAM
      | Some name \<Rightarrow> if length name = 0 then ret SH2_ERR_BAD_PARAM else addChanListener guid name callback c)"

definition shtp_listenAdvert ::
  "u16 \<Rightarrow> advert_callback option \<Rightarrow> cookie \<Rightarrow> ('c shtp_scheme, int) prog" where
  "shtp_listenAdvert guid callback c =
     seqp (modify (addAdvertListener guid callback c))
     (seqp (modify (\<lambda>s. if advertPhase s = ADVERT_IDLE then s\<lparr>advertPhase := ADVERT_NEEDED\<rparr> else s)) (ret SH2_OK))"

fun chan_index :: "nat \<Rightarrow> (Channel \<Rightarrow> bool) \<Rightarrow> Channel list \<Rightarrow> u8" where
  "chan_index i P [] = 0xFF"
| "chan_index i P (c # cs) = (if P c then of_nat i else chan_index (Suc i) P cs)"

definition shtp_chanNo :: "cname \<Rightarrow> cname \<Rightarrow> 'c shtp_scheme \<Rightarrow> u8" where
  "shtp_chanNo app chan s =
     (let guid = (case List.find (\<lambda>a. appName a = app) (apps s) of None \<Rightarrow> 0xFFFFFFFF | Some a \<Rightarrow> app_guid a)
      in if guid = 0xFFFFFFFF then 0xFF
         else chan_index 0 (\<lambda>c. ch_chanName c = chan \<and> ch_guid c = guid) (chans s))"

text \<open>The one instance of the library, cleared; opening it, with what the client has beside it.\<close>

definition zero_App :: App where
  "zero_App = \<lparr>app_guid = 0, appName = []\<rparr>"

definition zero_AppListener :: AppListener where
  "zero_AppListener = \<lparr>al_guid = 0, al_callback = None, al_cookie = 0\<rparr>"

definition zero_ChanListener :: ChanListener where
  "zero_ChanListener = \<lparr>cl_guid = 0, cl_chanName = [], cl_callback = None, cl_cookie = 0\<rparr>"

definition zero_Channel :: Channel where
  "zero_Channel = \<lparr>nextOutSeq = 0, nextInSeq = 0, ch_guid = 0, ch_chanName = [], ch_wake = False,
     ch_callback = None, ch_cookie = 0\<rparr>"

definition clear_shtp :: "'c shtp_scheme \<Rightarrow> 'c shtp_scheme" where
  "clear_shtp s = s\<lparr>pHal := False, eventCallback := None, eventCookie := 0, shtpVersion := [], outMaxPayload := 0,
     outMaxTransfer := 0, outTransfer := replicate SH2_HAL_MAX_TRANSFER_OUT 0, inMaxTransfer := 0, inRemaining := 0,
     inChan := 0, inPayload := replicate SH2_HAL_MAX_PAYLOAD_IN 0, inCursor := 0, inTimestamp := 0,
     inTransfer := replicate SH2_HAL_MAX_TRANSFER_IN 0, advertPhase := ADVERT_NEEDED,
     apps := replicate SH2_MAX_APPS zero_App, nextApp := 0, nextAppListener := 0,
     appListener := replicate SH2_MAX_APPS zero_AppListener, chans := replicate SH2_MAX_CHANS zero_Channel,
     chanListener := replicate SH2_MAX_CHANS zero_ChanListener, nextChanListener := 0, txDiscards := 0,
     shortFragments := 0, tooLargePayloads := 0, badRxChan := 0, badTxChan := 0\<rparr>"

text \<open>\<open>hal\<close>: the pointer is not null. The result says whether an instance was free.\<close>

definition shtp_open :: "bool \<Rightarrow> bool \<Rightarrow> ('c shtp_scheme, bool) prog" where
  "shtp_open initialized hal =
     seqp (if \<not> initialized then modify clear_shtp else ret ())
     (if \<not> hal then ret False else
      bnd (gets pHal) (\<lambda>in_use.
      if in_use then ret False else
      seqp (modify (\<lambda>s. (clear_shtp s)\<lparr>pHal := True, eventCallback := None, eventCookie := 0, outMaxPayload := 256,
        outMaxTransfer := 256\<rparr>))
      (seqp (modify (addApp (ucast GUID_SHTP)))
      (seqp (modify (addChannel 0 (ucast GUID_SHTP) (cname_of ''command'') False))
      (bnd (shtp_listenAdvert GUID_SHTP (Some Shtp_advert) 0) (\<lambda>_.
      (bnd (shtp_listenChan GUID_SHTP (Some (cname_of ''command'')) (Some Cmd_listener) 0) (\<lambda>_.
      seqp (modify (\<lambda>s. s\<lparr>advertPhase := ADVERT_REQUESTED\<rparr>))
      (seqp (modify (hal_calls_update (\<lambda>cs. cs @ [Hal_open]))) (ret True))))))))))"

definition shtp_close :: "('c shtp_scheme, bool) prog" where
  "shtp_close = seqp (modify (hal_calls_update (\<lambda>cs. cs @ [Hal_close]))) (seqp (modify clear_shtp) (ret False))"

section \<open>The invariant of an instance\<close>

text \<open>
  The arrays keep their sizes, the counters stay inside them, names fit, and the callback of every
  channel is that of the first listener for its application and name. \<open>J\<close> is the client's part.
\<close>

definition callback_for :: "ChanListener list \<Rightarrow> Channel \<Rightarrow> chan_callback option" where
  "callback_for ls c = (if ch_guid c = 0xFFFFFFFF then None else
     case listener_for ls (ch_guid c) (ch_chanName c) of None \<Rightarrow> None | Some l \<Rightarrow> cl_callback l)"

definition name_ok :: "cname \<Rightarrow> bool" where
  "name_ok n \<longleftrightarrow> length n < SHTP_NAME_LEN"

definition shtp_sizes :: "('c \<Rightarrow> bool) \<Rightarrow> 'c shtp_scheme \<Rightarrow> bool" where
  "shtp_sizes J s \<longleftrightarrow>
     length (outTransfer s) = SH2_HAL_MAX_TRANSFER_OUT \<and> length (inTransfer s) = SH2_HAL_MAX_TRANSFER_IN \<and>
     length (inPayload s) = SH2_HAL_MAX_PAYLOAD_IN \<and> unat (inCursor s) \<le> SH2_HAL_MAX_PAYLOAD_IN \<and>
     length (apps s) = SH2_MAX_APPS \<and> unat (nextApp s) \<le> SH2_MAX_APPS \<and>
     length (appListener s) = SH2_MAX_APPS \<and> unat (nextAppListener s) \<le> SH2_MAX_APPS \<and>
     length (chans s) = SH2_MAX_CHANS \<and> length (chanListener s) = SH2_MAX_CHANS \<and>
     unat (nextChanListener s) \<le> SH2_MAX_CHANS \<and> unat (outMaxTransfer s) \<le> SH2_HAL_MAX_TRANSFER_OUT \<and>
     length (shtpVersion s) < 8 \<and> list_all (\<lambda>a. name_ok (appName a)) (apps s) \<and>
     list_all (\<lambda>c. name_ok (ch_chanName c)) (chans s) \<and>
     list_all (\<lambda>l. name_ok (cl_chanName l)) (chanListener s) \<and> J (shtp.more s)"

definition callbacks_ok :: "'c shtp_scheme \<Rightarrow> bool" where
  "callbacks_ok s \<longleftrightarrow> list_all (\<lambda>c. ch_callback c = callback_for (chanListener s) c) (chans s)"

definition shtp_ok :: "('c \<Rightarrow> bool) \<Rightarrow> 'c shtp_scheme \<Rightarrow> bool" where
  "shtp_ok J s \<longleftrightarrow> shtp_sizes J s \<and> callbacks_ok s"

lemma list_all_update: "list_all P xs \<Longrightarrow> P y \<Longrightarrow> list_all P (xs[i := y])"
  by (auto simp: list_all_iff dest: subsetD [OF set_update_subset_insert])

lemma updateCallback_simps [simp]:
  "ch_guid (updateCallback ls c) = ch_guid c" "ch_chanName (updateCallback ls c) = ch_chanName c"
  "nextOutSeq (updateCallback ls c) = nextOutSeq c" "nextInSeq (updateCallback ls c) = nextInSeq c"
  "ch_wake (updateCallback ls c) = ch_wake c"
  "ch_callback (updateCallback ls c) = callback_for ls c"
  by (auto simp: updateCallback_def callback_for_def Let_def split: option.split)

lemma callback_for_cong:
  "ch_guid c = ch_guid c' \<Longrightarrow> ch_chanName c = ch_chanName c' \<Longrightarrow> callback_for ls c = callback_for ls c'"
  by (simp add: callback_for_def)

lemma callback_for_updateCallback [simp]: "callback_for ls (updateCallback ls' c) = callback_for ls c"
  by (rule callback_for_cong) simp_all

lemma shtp_ok_updateCallbacks [simp]: "shtp_ok J (updateCallbacks s) \<longleftrightarrow> shtp_sizes J s"
  by (simp add: shtp_ok_def shtp_sizes_def callbacks_ok_def updateCallbacks_def list.pred_map comp_def list_all_iff)

lemma callbacks_ok_update:
  assumes "callbacks_ok s" "ch_callback c = callback_for (chanListener s) c"
  shows "callbacks_ok (s\<lparr>chans := (chans s)[i := c]\<rparr>)"
  using assms by (simp add: callbacks_ok_def list_all_update)

lemma unat_Suc8: "unat (n :: u8) < k \<Longrightarrow> k \<le> 255 \<Longrightarrow> unat (n + 1) = Suc (unat n)"
  by (simp add: unat_word_ariths)

lemma shtp_ok_addAdvertListener [simp]: "shtp_ok J s \<Longrightarrow> shtp_ok J (addAdvertListener guid callback c s)"
  by (simp add: shtp_ok_def shtp_sizes_def callbacks_ok_def addAdvertListener_def unat_Suc8 [where k = 5])

lemma shtp_okD: "shtp_ok J s \<Longrightarrow> shtp_sizes J s"
  by (simp add: shtp_ok_def)

lemma keeps_addChanListener [keeps_intro]: "keeps (shtp_ok J) (addChanListener guid name callback c)"
proof (rule keepsI)
  fix s r s' assume ok: "shtp_ok J s" and run: "addChanListener guid name callback c s = Inr (r, s')"
  have "shtp_sizes J (s\<lparr>chanListener := (chanListener s)[unat (nextChanListener s) :=
      \<lparr>cl_guid = guid, cl_chanName = name, cl_callback = callback, cl_cookie = c\<rparr>],
      nextChanListener := nextChanListener s + 1\<rparr>)"
    if "unat (nextChanListener s) < SH2_MAX_CHANS" "length name < SHTP_NAME_LEN"
    using shtp_okD [OF ok] that by (simp add: shtp_sizes_def unat_Suc8 [where k = 8] list_all_update name_ok_def)
  with ok run show "shtp_ok J s'" by (auto simp: addChanListener_def not_le split: if_splits)
qed

lemma shtp_ok_addApp [simp]:
  assumes "shtp_ok J s"
  shows "shtp_ok J (addApp guid s)"
proof -
  have "shtp_sizes J (s\<lparr>apps := (apps s)[unat (nextApp s) := \<lparr>app_guid = guid, appName = []\<rparr>], nextApp := nextApp s + 1\<rparr>)"
    if "unat (nextApp s) < SH2_MAX_APPS"
    using shtp_okD [OF assms] that by (simp add: shtp_sizes_def unat_Suc8 [where k = 5] list_all_update name_ok_def)
  with assms show ?thesis by (simp add: addApp_def not_le)
qed

lemma name_first_length [simp]: "length (name_first guid name as) = length as"
  by (induction as) auto

lemma name_first_ok: "list_all (\<lambda>a. name_ok (appName a)) as \<Longrightarrow> name_ok name \<Longrightarrow>
    list_all (\<lambda>a. name_ok (appName a)) (name_first guid name as)"
  by (induction as) auto

lemma list_all_parts: "list_all P xs \<Longrightarrow> list_all P (take n xs) \<and> list_all P (drop n xs)"
  by (metis append_take_drop_id list_all_append)

lemma shtp_ok_setAppName [simp]: "shtp_ok J s \<Longrightarrow> name_ok name \<Longrightarrow> shtp_ok J (setAppName guid name s)"
  by (simp add: setAppName_def shtp_ok_def shtp_sizes_def callbacks_ok_def list_all_parts name_first_ok)

lemma shtp_ok_addChannel [simp]:
  assumes "shtp_ok J s" "name_ok name"
  shows "shtp_ok J (addChannel ch guid name wake s)"
proof -
  have "shtp_sizes J (s\<lparr>chans := (chans s)[unat ch := \<lparr>nextOutSeq = 0, nextInSeq = 0, ch_guid = guid, ch_chanName = name,
      ch_wake = wake, ch_callback = None, ch_cookie = 0\<rparr>]\<rparr>)"
    using shtp_okD [OF assms(1)] assms(2) by (simp add: shtp_sizes_def list_all_update)
  with assms show ?thesis by (simp add: addChannel_def)
qed

section \<open>Clients that keep the invariant\<close>

text \<open>
  What the library asks of its clients: their callbacks keep the invariant, that of a channel whenever
  sending does.
\<close>

locale shtp_client =
  fixes cl :: "'c shtp_scheme clients"
    and J :: "'c \<Rightarrow> bool"
  assumes on_channel_keeps:
      "(\<And>ch p. keeps (shtp_ok J) (send ch p)) \<Longrightarrow> keeps (shtp_ok J) (on_channel cl send k c len t)"
    and on_advert_keeps: "keeps (shtp_ok J) (on_advert cl k c tag n val)"
    and on_event_keeps: "keeps (shtp_ok J) (on_event cl k c e)"
begin

lemma strcpy_name_ok: "strcpy SHTP_NAME_LEN p = Some name \<Longrightarrow> name_ok name"
  by (auto simp: strcpy_def name_ok_def split: option.splits if_splits)

lemma keeps_strcpy:
  assumes "\<And>name. name_ok name \<Longrightarrow> keeps I (k name)"
  shows "keeps I (bnd (lift_opt (strcpy SHTP_NAME_LEN p)) k)"
  using assms strcpy_name_ok by (cases "strcpy SHTP_NAME_LEN p") (auto simp: keeps_def)

lemma shtp_ok_simple [simp]:
  "shtp_ok J (advertPhase_update f1 s) \<longleftrightarrow> shtp_ok J s"
  "shtp_ok J (outMaxPayload_update f2 s) \<longleftrightarrow> shtp_ok J s"
  "shtp_ok J (inMaxTransfer_update f3 s) \<longleftrightarrow> shtp_ok J s"
  "shtp_ok J (shortFragments_update f4 s) \<longleftrightarrow> shtp_ok J s"
  "shtp_ok J (badRxChan_update f5 s) \<longleftrightarrow> shtp_ok J s"
  "shtp_ok J (badTxChan_update f6 s) \<longleftrightarrow> shtp_ok J s"
  "shtp_ok J (txDiscards_update f7 s) \<longleftrightarrow> shtp_ok J s"
  "shtp_ok J (tooLargePayloads_update f8 s) \<longleftrightarrow> shtp_ok J s"
  "shtp_ok J (inRemaining_update f9 s) \<longleftrightarrow> shtp_ok J s"
  "shtp_ok J (inTimestamp_update f10 s) \<longleftrightarrow> shtp_ok J s"
  "shtp_ok J (inChan_update f11 s) \<longleftrightarrow> shtp_ok J s"
  "shtp_ok J (hal_calls_update f12 s) \<longleftrightarrow> shtp_ok J s"
  "shtp_ok J (pHal_update f13 s) \<longleftrightarrow> shtp_ok J s"
  by (simp_all add: shtp_ok_def shtp_sizes_def callbacks_ok_def)

lemma keeps_shtpAdvertHdlr [keeps_intro]: "keeps (shtp_ok J) (shtpAdvertHdlr tag len val)"
  unfolding shtpAdvertHdlr_def
  by (intro keeps_intro) (simp add: shtp_ok_def shtp_sizes_def callbacks_ok_def)

lemma keeps_callAdvertHandler [keeps_intro]: "keeps (shtp_ok J) (callAdvertHandler cl guid tag len val)"
  unfolding callAdvertHandler_def
  by (intro keeps_bnd keeps_gets keeps_option keeps_ret) (auto split: advert_callback.split intro: keeps_intro on_advert_keeps)

lemma shtp_ok_relabel:
  assumes "shtp_ok J s" "name_ok name" "c = chans s ! i" "ch_guid c = guid" "ch_chanName c = name" "i < length (chans s)"
  shows "shtp_ok J (s\<lparr>chans := (chans s)[i := c\<lparr>ch_guid := guid, ch_chanName := name, ch_wake := wake\<rparr>]\<rparr>)"
proof -
  have "ch_callback c = callback_for (chanListener s) c"
    using assms by (simp add: shtp_ok_def callbacks_ok_def list_all_iff)
  with assms show ?thesis
    by (auto simp: shtp_ok_def shtp_sizes_def callbacks_ok_def intro!: list_all_update callback_for_cong)
qed

lemma keeps_channel_name:
  assumes "name_ok name"
  shows "keeps (shtp_ok J) (seqp (modify (addChannel ch guid name wake))
    (seqp (if unat ch < SH2_MAX_CHANS then
             modify (\<lambda>s. s\<lparr>chans := (chans s)[unat ch := (chans s ! unat ch)\<lparr>ch_guid := guid, ch_chanName := name, ch_wake := wake\<rparr>]\<rparr>)
           else ret ()) (ret x)))"
proof (rule keepsI)
  fix s r s' assume ok: "shtp_ok J s" and run: "seqp (modify (addChannel ch guid name wake))
    (seqp (if unat ch < SH2_MAX_CHANS then
             modify (\<lambda>s. s\<lparr>chans := (chans s)[unat ch := (chans s ! unat ch)\<lparr>ch_guid := guid, ch_chanName := name, ch_wake := wake\<rparr>]\<rparr>)
           else ret ()) (ret x)) s = Inr (r, s')"
  let ?s = "addChannel ch guid name wake s"
  have ok': "shtp_ok J ?s" using ok assms by simp
  show "shtp_ok J s'"
  proof (cases "unat ch < SH2_MAX_CHANS")
    case True
    have len: "length (chans s) = SH2_MAX_CHANS" using ok by (simp add: shtp_ok_def shtp_sizes_def)
    then have "ch_guid (chans ?s ! unat ch) = guid" "ch_chanName (chans ?s ! unat ch) = name" "length (chans ?s) = SH2_MAX_CHANS"
      using True by (simp_all add: addChannel_def updateCallbacks_def not_le)
    then have "shtp_ok J (?s\<lparr>chans := (chans ?s)[unat ch := (chans ?s ! unat ch)\<lparr>ch_guid := guid, ch_chanName := name, ch_wake := wake\<rparr>]\<rparr>)"
      using ok' assms True by (intro shtp_ok_relabel) simp_all
    with run True show ?thesis by simp
  next
    case False
    with run ok' show ?thesis by simp
  qed
qed

lemma keeps_processTag [keeps_intro]: "keeps (shtp_ok J) (processTag cl tag val st)"
proof -
  obtain guid ch wake where st: "st = (guid, ch, wake)" by (cases st) auto
  have maxT: "keeps (shtp_ok J) (modify (outMaxTransfer_update (\<lambda>_. if unat x < SH2_HAL_MAX_TRANSFER_OUT then x else 256)))" for x :: u16
    by (rule keeps_modify) (auto simp: shtp_ok_def shtp_sizes_def callbacks_ok_def)
  show ?thesis
    unfolding processTag_def st prod.case
    by (intro keeps_if keeps_strcpy keeps_channel_name maxT keeps_Let keeps_bnd keeps_seqp keeps_lift_opt keeps_ret
        keeps_callAdvertHandler keeps_modify) simp_all
qed

lemma keeps_advert_loop [keeps_intro]: "keeps (shtp_ok J) (advert_loop cl payload payloadLen cursor st)"
proof (induction "payloadLen - cursor" arbitrary: cursor st rule: less_induct)
  case less
  show ?case
  proof (cases "cursor < payloadLen")
    case True
    have "keeps (shtp_ok J) (advert_loop cl payload payloadLen (cursor + 2 + unat len) st')" for len :: u8 and st'
      using True by (intro less.hyps) simp
    with True show ?thesis
      by (subst advert_loop.simps) (simp only: if_True, intro keeps_intro)
  next
    case False
    then show ?thesis by (subst advert_loop.simps) (simp add: keeps_callAdvertHandler)
  qed
qed

lemma keeps_shtpCmdListener [keeps_intro]: "keeps (shtp_ok J) (shtpCmdListener cl len)"
  unfolding shtpCmdListener_def processAdvertisement_def by (intro keeps_intro) simp

lemma keeps_shtp_event [keeps_intro]: "keeps (shtp_ok J) (shtp_event cl e)"
  unfolding shtp_event_def by (intro keeps_intro on_event_keeps)

lemma keeps_deliver:
  assumes "\<And>ch p. keeps (shtp_ok J) (send ch p)"
  shows "keeps (shtp_ok J) (deliver cl send chan)"
  unfolding deliver_def
  by (intro keeps_bnd keeps_gets keeps_option keeps_ret)
    (auto split: chan_callback.split intro: keeps_intro on_channel_keeps assms)

lemma shtp_ok_rx_append:
  assumes "shtp_ok J s" "rx_append len payloadLen s = Some s'"
  shows "shtp_ok J s'"
proof -
  let ?len = "if len > payloadLen then payloadLen else len"
  have fit: "unat (inCursor s) + unat (?len - SHTP_HDR_LEN) \<le> length (inPayload s)"
    and s': "s' = s\<lparr>inPayload := take (unat (inCursor s)) (inPayload s) @ take (unat (?len - SHTP_HDR_LEN)) (drop 4 (inTransfer s)) @
        drop (unat (inCursor s) + unat (?len - SHTP_HDR_LEN)) (inPayload s),
      inCursor := inCursor s + (?len - SHTP_HDR_LEN), inRemaining := payloadLen - ?len\<rparr>"
    and tr: "4 + unat (?len - SHTP_HDR_LEN) \<le> length (inTransfer s)"
    using assms(2) by (simp_all only: rx_append_def Let_def not_le split: if_split_asm option.split_asm) auto
  have "unat (inCursor s + (?len - SHTP_HDR_LEN)) \<le> unat (inCursor s) + unat (?len - SHTP_HDR_LEN)"
    by (simp add: unat_word_ariths)
  with fit tr assms(1) show ?thesis
    unfolding s' by (auto simp: shtp_ok_def shtp_sizes_def callbacks_ok_def min_def)
qed

lemma shtp_ok_sequence:
  assumes "shtp_ok J s" "ch_guid c = ch_guid (chans s ! i)" "ch_chanName c = ch_chanName (chans s ! i)"
    "ch_callback c = ch_callback (chans s ! i)"
  shows "shtp_ok J (s\<lparr>chans := (chans s)[i := c]\<rparr>)"
proof (cases "i < length (chans s)")
  case True
  then have "name_ok (ch_chanName (chans s ! i))" "ch_callback (chans s ! i) = callback_for (chanListener s) (chans s ! i)"
    using assms(1) by (auto simp: shtp_ok_def shtp_sizes_def callbacks_ok_def list_all_iff)
  with assms callback_for_cong [of c "chans s ! i"] show ?thesis
    by (simp add: shtp_ok_def shtp_sizes_def callbacks_ok_def list_all_update)
next
  case False
  then have "(chans s)[i := c] = chans s" by (simp add: list_update_beyond not_less)
  with assms(1) show ?thesis by simp
qed

lemma keeps_rx_finish:
  "(\<And>ch p. keeps (shtp_ok J) (send ch p)) \<Longrightarrow> keeps (shtp_ok J) (rx_finish cl send chan seq)"
  unfolding rx_finish_def
  by (intro keeps_bnd keeps_gets keeps_seqp keeps_if keeps_deliver keeps_ret keeps_modify) (simp_all add: shtp_ok_sequence)

lemma keeps_count:
  assumes "\<And>s. shtp_ok J s \<Longrightarrow> shtp_ok J (g s)"
  shows "keeps (shtp_ok J) (seqp (modify g) (shtp_event cl e))"
  using assms by (intro keeps_intro)

lemma shtp_ok_rx_begin: "shtp_ok J s \<Longrightarrow> shtp_ok J (rx_begin t chan s)"
  by (simp add: rx_begin_def shtp_ok_def shtp_sizes_def callbacks_ok_def)

lemma keeps_rx_fragment:
  assumes "\<And>ch p. keeps (shtp_ok J) (send ch p)"
  shows "keeps (shtp_ok J) (rx_fragment cl send len payloadLen chan seq t)"
proof (rule keepsI)
  fix s r s' assume ok: "shtp_ok J s" and run: "rx_fragment cl send len payloadLen chan seq t s = Inr (r, s')"
  show "shtp_ok J s'"
  proof (cases "inRemaining s = 0 \<and> unat payloadLen > SH2_HAL_MAX_PAYLOAD_IN")
    case True
    with run have "seqp (modify (\<lambda>s. s\<lparr>tooLargePayloads := tooLargePayloads s + 1\<rparr>)) (shtp_event cl SHTP_TOO_LARGE_PAYLOADS) s = Inr (r, s')"
      by (simp add: rx_fragment_def)
    from keepsD [OF keeps_count ok this] show ?thesis by simp
  next
    case False
    with run obtain s1 where s1: "rx_append len payloadLen (rx_begin t chan s) = Some s1"
      and fin: "rx_finish cl send chan seq s1 = Inr (r, s')"
      by (simp only: rx_fragment_def if_False split: option.split_asm) auto
    from s1 ok have "shtp_ok J s1" by (auto intro: shtp_ok_rx_append shtp_ok_rx_begin)
    from keepsD [OF keeps_rx_finish this fin] assms show ?thesis by blast
  qed
qed

lemma keeps_rxAssemble:
  assumes "\<And>ch p. keeps (shtp_ok J) (send ch p)"
  shows "keeps (shtp_ok J) (rxAssemble cl send len t)"
  unfolding rxAssemble_def
  by (intro keeps_if keeps_bnd keeps_gets keeps_pair keeps_Let keeps_count keeps_seqp keeps_rx_fragment keeps_modify assms)
    (simp_all add: rx_resync_def)

lemma keeps_hal_do_read [keeps_intro]: "keeps (shtp_ok J) (hal_do_read h)"
  unfolding hal_do_read_def
  by (intro keeps_bnd keeps_gets keeps_pair keeps_seqp keeps_ret keeps_modify)
    (simp add: shtp_ok_def shtp_sizes_def callbacks_ok_def)

lemma keeps_service_read:
  assumes "\<And>ch p. keeps (shtp_ok J) (send ch p)"
  shows "keeps (shtp_ok J) (service_read h cl send)"
  unfolding service_read_def by (intro keeps_bnd keeps_hal_do_read keeps_pair keeps_if keeps_rxAssemble keeps_ret assms)

lemma keeps_hal_do_write [keeps_intro]: "keeps (shtp_ok J) (hal_do_write h lenField)"
  unfolding hal_do_write_def by (intro keeps_bnd keeps_gets keeps_pair keeps_seqp keeps_ret keeps_modify) simp

lemma keeps_tx_stage [keeps_intro]: "keeps (shtp_ok J) (tx_stage chan pData continuation cursor transferLen)"
proof (rule keepsI)
  fix s r s' assume ok: "shtp_ok J s" and run: "tx_stage chan pData continuation cursor transferLen s = Inr (r, s')"
  let ?ch = "(chans s ! unat chan)\<lparr>nextOutSeq := nextOutSeq (chans s ! unat chan) + 1\<rparr>"
  from ok have seq: "shtp_ok J (s\<lparr>chans := (chans s)[unat chan := ?ch]\<rparr>)" by (intro shtp_ok_sequence) simp_all
  let ?staged = "tx_header (transferLen + SHTP_HDR_LEN) continuation chan (nextOutSeq (chans s ! unat chan)) @
      take (unat transferLen) (drop (unat cursor) pData)"
  from run have s': "s' = s\<lparr>chans := (chans s)[unat chan := ?ch],
      outTransfer := ?staged @ drop (length ?staged) (outTransfer s)\<rparr>"
    and fits: "4 + unat transferLen \<le> length (outTransfer s)" "unat cursor + unat transferLen \<le> length pData"
    by (auto simp: tx_stage_def Let_def split: if_split_asm)
  then have len: "length (?staged @ drop (length ?staged) (outTransfer s)) = length (outTransfer s)"
    by (simp add: tx_header_def)
  from seq len show "shtp_ok J s'" unfolding s' shtp_ok_def shtp_sizes_def callbacks_ok_def by (simp del: length_append)
qed

lemma keeps_phase: "keeps (shtp_ok J) (modify (advertPhase_update (\<lambda>_. ph)))"
  by (rule keeps_modify) simp

lemma keeps_fuel:
  "keeps (shtp_ok J) (tx_write h cl n lenField) \<and>
   keeps (shtp_ok J) (txProcess h cl n chan pData continuation cursor remaining) \<and>
   keeps (shtp_ok J) (shtp_send h cl n ch p) \<and> keeps (shtp_ok J) (shtp_service h cl n)"
proof (induction n arbitrary: lenField chan pData continuation cursor remaining ch p)
  case 0
  show ?case
    unfolding tx_write.simps txProcess.simps shtp_send.simps shtp_service.simps by (intro conjI keeps_fault)
next
  case (Suc n)
  note IH = Suc.IH [THEN conjunct1] Suc.IH [THEN conjunct2, THEN conjunct1]
    Suc.IH [THEN conjunct2, THEN conjunct2, THEN conjunct1] Suc.IH [THEN conjunct2, THEN conjunct2, THEN conjunct2]
  have "keeps (shtp_ok J) (tx_write h cl (Suc n) lenField)"
    unfolding tx_write.simps by (intro keeps_bnd keeps_hal_do_write keeps_if keeps_seqp keeps_ret IH)
  moreover have "keeps (shtp_ok J) (txProcess h cl (Suc n) chan pData continuation cursor remaining)"
    unfolding txProcess.simps
    by (intro keeps_bnd keeps_gets keeps_tx_stage keeps_Let keeps_if keeps_seqp keeps_ret keeps_modify IH) simp
  moreover have "keeps (shtp_ok J) (shtp_send h cl (Suc n) ch p)"
    unfolding shtp_send.simps by (intro keeps_bnd keeps_gets keeps_if keeps_seqp keeps_ret keeps_modify IH) simp
  moreover have "keeps (shtp_ok J) (shtp_service h cl (Suc n))"
    unfolding shtp_service.simps
    by (intro keeps_bnd keeps_gets keeps_if keeps_seqp keeps_ret keeps_phase keeps_service_read IH)
  ultimately show ?case by blast
qed

lemmas keeps_send = keeps_fuel [THEN conjunct2, THEN conjunct2, THEN conjunct1]
lemmas keeps_service = keeps_fuel [THEN conjunct2, THEN conjunct2, THEN conjunct2]

end

end
