(* ===== verification/Shtp_Transfer.thy ===== *)
theory Shtp_Transfer
  imports Shtp
begin

text \<open>
  What the transport of \<open>Shtp\<close> does with payloads: how the receiver puts one together from its
  transfers, where it leaves its buffer, what the sender writes and when it ends, and what happens to a
  transfer that has to wait.
\<close>

section \<open>Transfers\<close>

text \<open>A transfer arrives: the hardware layer has put it into the buffer and returned its length.\<close>

definition arrive :: "'c shtp_scheme clients \<Rightarrow> 'c shtp_scheme sender \<Rightarrow> u32 \<Rightarrow> u8 list \<Rightarrow> ('c shtp_scheme, unit) prog" where
  "arrive cl send t bytes =
     seqp (modify (\<lambda>s. s\<lparr>inTransfer := take (length (inTransfer s)) (bytes @ drop (length bytes) (inTransfer s))\<rparr>))
     (rxAssemble cl send (of_nat (length bytes)) t)"

fun arrivals :: "'c shtp_scheme clients \<Rightarrow> 'c shtp_scheme sender \<Rightarrow> (u32 \<times> u8 list) list \<Rightarrow> ('c shtp_scheme, unit) prog" where
  "arrivals cl send [] = ret ()"
| "arrivals cl send ((t, bytes) # as) = seqp (arrive cl send t bytes) (arrivals cl send as)"

text \<open>A payload cut into parts, as the receiver wants it: the length of a header counts all that is left.\<close>

fun rest_fragments :: "u8 \<Rightarrow> u8 \<Rightarrow> bool \<Rightarrow> u8 list list \<Rightarrow> u8 list list" where
  "rest_fragments chan seq continuation [] = []"
| "rest_fragments chan seq continuation (c # cs) =
     (tx_header (of_nat (4 + length (concat (c # cs)))) continuation chan seq @ c) # rest_fragments chan (seq + 1) True cs"

text \<open>As the sender makes it: the length of a header counts the transfer.\<close>

fun own_fragments :: "u8 \<Rightarrow> u8 \<Rightarrow> bool \<Rightarrow> u8 list list \<Rightarrow> u8 list list" where
  "own_fragments chan seq continuation [] = []"
| "own_fragments chan seq continuation (c # cs) =
     (tx_header (of_nat (4 + length c)) continuation chan seq @ c) # own_fragments chan (seq + 1) True cs"

lemma bit_0x80: "bit (0x80 :: u8) n \<longleftrightarrow> n = 7"
proof -
  have "(0x80 :: u8) = 2 ^ 7" by simp
  then show ?thesis by (simp only: bit_exp_iff) (auto simp: possible_bit_word dest: spec [of _ 7])
qed

lemma bit_0x8000: "bit (0x8000 :: u16) n \<longleftrightarrow> n = 15"
proof -
  have "(0x8000 :: u16) = 2 ^ 15" by simp
  then show ?thesis by (simp only: bit_exp_iff) (auto simp: possible_bit_word dest: spec [of _ 7])
qed

lemma header_length_bits:
  fixes w :: u16
  assumes "unat w < 2 ^ 15"
  shows "le16 (lo8 w) (if b then hi8 w OR 0x80 else hi8 w) AND NOT 0x8000 = w" (is ?len)
    and "((if b then hi8 w OR 0x80 else hi8 w) AND 0x80 \<noteq> 0) = b" (is ?cont)
proof -
  have top: "\<not> bit w 15"
  proof
    assume "bit w 15"
    then have "bit (unat w) 15" by (simp add: bit_unsigned_iff)
    with assms show False by (simp add: bit_iff_odd)
  qed
  have hi: "bit (hi8 w) n \<longleftrightarrow> n < 8 \<and> bit w (8 + n)" for n
    by (auto simp: hi8_def bit_unsigned_iff bit_drop_bit_eq)
  have lo: "bit (lo8 w) n \<longleftrightarrow> n < 8 \<and> bit w n" for n by (auto simp: lo8_def bit_unsigned_iff)
  obtain h where h: "h = (if b then hi8 w OR 0x80 else hi8 w)" by simp
  have bit_h: "bit h n \<longleftrightarrow> n < 8 \<and> (bit w (8 + n) \<or> b \<and> n = 7)" for n
    unfolding h by (cases b) (simp_all only: if_True if_False bit_or_iff bit_0x80 hi, auto)
  obtain m :: u16 where m: "m = NOT 0x8000" by simp
  have bit_m: "bit m n \<longleftrightarrow> n < 16 \<and> n \<noteq> 15" for n
    unfolding m by (simp only: bit_not_iff bit_0x8000 possible_bit_word) auto
  have "le16 (lo8 w) h AND m = w"
    by (rule bit_word_eqI)
      (use top in \<open>auto simp: le16_def bit_and_iff bit_word_cat_iff bit_m bit_h lo possible_bit_word\<close>)
  then show ?len unfolding h m .
  have "(x AND 0x80 = 0) = (\<not> bit x 7)" for x :: u8
    unfolding bit_eq_iff [of "x AND 0x80"] by (simp only: bit_and_iff bit_0x80 bit_0_eq bot_apply) (auto simp: possible_bit_word dest: spec [of _ 7])
  then have "(h AND 0x80 \<noteq> 0) = bit h 7" by simp
  also have "\<dots> = b" using top by (simp add: bit_h)
  finally show ?cont unfolding h .
qed

lemma tx_header_read:
  assumes "n < 2 ^ 15"
  shows "le16 ((tx_header (of_nat n) b chan seq @ c) ! 0) ((tx_header (of_nat n) b chan seq @ c) ! 1) AND NOT 0x8000 = of_nat n"
    and "((tx_header (of_nat n) b chan seq @ c) ! 1 AND 0x80 \<noteq> 0) = b"
    and "(tx_header (of_nat n) b chan seq @ c) ! 2 = chan" "(tx_header (of_nat n) b chan seq @ c) ! 3 = seq"
  using header_length_bits [of "of_nat n" b] assms by (simp_all add: tx_header_def unat_of_nat)

lemma length_tx_header [simp]: "length (tx_header n b chan seq) = 4"
  by (simp add: tx_header_def)

definition buffered :: "u8 list \<Rightarrow> 'c shtp_scheme \<Rightarrow> 'c shtp_scheme" where
  "buffered bytes s = s\<lparr>inTransfer := take (length (inTransfer s)) (bytes @ drop (length bytes) (inTransfer s))\<rparr>"

lemma arrive_fragment:
  assumes "length (inTransfer s) = SH2_HAL_MAX_TRANSFER_IN" "length c \<le> 380" "n < 2 ^ 15" "4 \<le> n"
    and "unat chan < SH2_MAX_CHANS" "chan < nextChanListener s"
  shows "arrive cl send t (tx_header (of_nat n) b chan seq @ c) s =
    rx_fragment cl send (of_nat (4 + length c)) (of_nat n) chan seq t
      (rx_resync b chan seq (buffered (tx_header (of_nat n) b chan seq @ c) s))"
proof -
  let ?bytes = "tx_header (of_nat n) b chan seq @ c"
  have len: "length ?bytes = 4 + length c" by simp
  have small: "4 + length c < 2 ^ 16" using assms(2) by simp
  have short: "\<not> (of_nat (4 + length c) :: u16) < SHTP_HDR_LEN"
    using small by (simp add: word_less_nat_alt unat_of_nat del: of_nat_add)
  have plen: "\<not> (of_nat n :: u16) < SHTP_HDR_LEN" using assms(3,4) by (simp add: word_less_nat_alt unat_of_nat)
  let ?s = "buffered ?bytes s"
  have inp: "inTransfer ?s ! i = ?bytes ! i" if "i < 4" for i
    using that assms(1,2) by (simp add: buffered_def nth_append)
  have inps: "inTransfer ?s ! 0 = ?bytes ! 0" "inTransfer ?s ! 1 = ?bytes ! 1" "inTransfer ?s ! 2 = ?bytes ! 2"
    "inTransfer ?s ! 3 = ?bytes ! 3" by (rule inp, simp)+
  note read = tx_header_read [OF assms(3), of b chan seq c]
  have chan: "\<not> (unat chan \<ge> SH2_MAX_CHANS \<or> chan \<ge> nextChanListener ?s)" using assms(5,6) by (simp add: buffered_def)
  have "arrive cl send t ?bytes s = rxAssemble cl send (of_nat (4 + length c)) t ?s"
    unfolding arrive_def len by (simp only: seqp_Inr [OF modify_apply] buffered_def len)
  also have "\<dots> = rx_fragment cl send (of_nat (4 + length c)) (of_nat n) chan seq t (rx_resync b chan seq ?s)"
    unfolding rxAssemble_def if_not_P [OF short]
    by (subst bnd_Inr [OF gets_apply])
      (simp only: prod.case Let_def inps read
        if_not_P [OF plen] if_not_P [OF chan] seqp_Inr [OF modify_apply])
  finally show ?thesis .
qed

text \<open>
  What the instance knows while it assembles: the part of the payload it got, how much is left, the
  channel, its next sequence number, and the time of the first transfer. \<open>fixed\<close> are the listener, the
  client's state and the sizes.
\<close>

definition listening :: "u8 \<Rightarrow> nat \<Rightarrow> cookie \<Rightarrow> 'c \<Rightarrow> 'c shtp_scheme \<Rightarrow> bool" where
  "listening chan k ck m s \<longleftrightarrow>
     length (inTransfer s) = SH2_HAL_MAX_TRANSFER_IN \<and> length (inPayload s) = SH2_HAL_MAX_PAYLOAD_IN \<and>
     length (chans s) = SH2_MAX_CHANS \<and> unat chan < SH2_MAX_CHANS \<and> chan < nextChanListener s \<and>
     ch_callback (chans s ! unat chan) = Some (Client_listener k) \<and> ch_cookie (chans s ! unat chan) = ck \<and>
     shtp.more s = m"

definition received :: "u8 \<Rightarrow> u32 \<Rightarrow> u8 list \<Rightarrow> nat \<Rightarrow> 'c shtp_scheme \<Rightarrow> bool" where
  "received chan t got rest s \<longleftrightarrow>
     inRemaining s = of_nat rest \<and> inChan s = chan \<and> inTimestamp s = t \<and>
     inCursor s = of_nat (length got) \<and> take (length got) (inPayload s) = got"

lemma rx_append_fits:
  assumes "length (inTransfer s) = SH2_HAL_MAX_TRANSFER_IN" "length (inPayload s) = SH2_HAL_MAX_PAYLOAD_IN"
    and "take (length c) (drop 4 (inTransfer s)) = c" "length c \<le> 380"
    and "inCursor s = of_nat k" "k + length c \<le> SH2_HAL_MAX_PAYLOAD_IN" "4 + length c \<le> n" "n < 2 ^ 15"
  shows "rx_append (of_nat (4 + length c)) (of_nat n) s =
    Some (s\<lparr>inPayload := take k (inPayload s) @ c @ drop (k + length c) (inPayload s),
      inCursor := of_nat (k + length c), inRemaining := of_nat (n - (4 + length c))\<rparr>)"
proof -
  have le: "\<not> (of_nat n :: u16) < of_nat (4 + length c)"
    using assms(4,7,8) by (simp add: word_less_nat_alt unat_of_nat del: of_nat_add)
  have body: "(of_nat (4 + length c) :: u16) - SHTP_HDR_LEN = of_nat (length c)" by simp
  have rest: "(of_nat n :: u16) - of_nat (4 + length c) = of_nat (n - (4 + length c))"
    using assms(7) by (simp only: of_nat_diff)
  have un: "unat (of_nat (length c) :: u16) = length c" "unat (of_nat k :: u16) = k"
    using assms(4,6) by (simp_all add: unat_of_nat)
  show ?thesis
    using assms(1-6) unfolding rx_append_def Let_def if_not_P [OF le] body rest assms(5) un
    by simp
qed

lemma received_append:
  assumes "received chan t got rest s" "length (inPayload s) = SH2_HAL_MAX_PAYLOAD_IN" "length got + length c \<le> SH2_HAL_MAX_PAYLOAD_IN"
  shows "received chan t (got @ c) rest' (s\<lparr>inPayload := take (length got) (inPayload s) @ c @ drop (length got + length c) (inPayload s),
      inCursor := of_nat (length got + length c), inRemaining := of_nat rest'\<rparr>)"
  using assms by (simp add: received_def)

lemma buffered_body:
  assumes "length (inTransfer s) = SH2_HAL_MAX_TRANSFER_IN" "length c \<le> 380"
  shows "take (length c) (drop 4 (inTransfer (buffered (tx_header n b chan seq @ c) s))) = c"
    "length (inTransfer (buffered bytes s)) = SH2_HAL_MAX_TRANSFER_IN"
  using assms by (simp_all add: buffered_def)

lemma rx_steps_simps [simp]:
  "inTransfer (rx_begin t chan s) = inTransfer s" "inTransfer (rx_resync b chan seq s) = inTransfer s"
  "inPayload (rx_begin t chan s) = inPayload s" "inPayload (rx_resync b chan seq s) = inPayload s"
  "inPayload (buffered bytes s) = inPayload s" "inRemaining (rx_resync False chan seq s) = 0"
  "inRemaining s = 0 \<Longrightarrow> inCursor (rx_begin t chan s) = 0" "inRemaining s = 0 \<Longrightarrow> inChan (rx_begin t chan s) = chan"
  "inRemaining s = 0 \<Longrightarrow> inTimestamp (rx_begin t chan s) = t"
  by (simp_all add: rx_begin_def rx_resync_def buffered_def)

lemma listening_steps:
  assumes "listening chan k ck m s"
  shows "listening chan k ck m (rx_begin t ch s)" "listening chan k ck m (rx_resync b ch seq s)"
    "listening chan k ck m (buffered bytes s)"
  using assms by (auto simp: listening_def rx_begin_def rx_resync_def buffered_def)

text \<open>A first fragment starts anew whatever was there; a continuation in sequence goes on.\<close>

lemma first_fragment:
  assumes "listening chan k ck m s" and "length c \<le> n" "n \<le> 380" and "b \<Longrightarrow> inRemaining s = 0"
  shows "\<exists>s'. arrive cl send t (tx_header (of_nat (4 + n)) b chan seq @ c) s = rx_finish cl send chan seq s' \<and>
    listening chan k ck m s' \<and> received chan t c (n - length c) s'"
proof -
  let ?bytes = "tx_header (of_nat (4 + n)) b chan seq @ c"
  let ?s = "rx_begin t chan (rx_resync b chan seq (buffered ?bytes s))"
  let ?s1 = "?s\<lparr>inPayload := take 0 (inPayload ?s) @ c @ drop (0 + length c) (inPayload ?s),
      inCursor := of_nat (0 + length c), inRemaining := of_nat (4 + n - (4 + length c))\<rparr>"
  note l = assms(1) [unfolded listening_def]
  have c: "length c \<le> 380" using assms(2,3) by simp
  have zero: "inRemaining (rx_resync b chan seq (buffered ?bytes s)) = 0"
    using assms(4) by (auto simp: rx_resync_def buffered_def)
  have s: "length (inTransfer ?s) = SH2_HAL_MAX_TRANSFER_IN" "length (inPayload ?s) = SH2_HAL_MAX_PAYLOAD_IN"
    "take (length c) (drop 4 (inTransfer ?s)) = c" "inCursor ?s = of_nat 0" "inChan ?s = chan" "inTimestamp ?s = t"
    using buffered_body [OF _ c, of s] l zero by simp_all
  have listen: "listening chan k ck m ?s" by (intro listening_steps assms(1))
  have big: "\<not> unat (of_nat (4 + n) :: u16) > SH2_HAL_MAX_PAYLOAD_IN"
    using assms(3) by (simp add: unat_of_nat del: of_nat_add)
  have "arrive cl send t ?bytes s =
      rx_fragment cl send (of_nat (4 + length c)) (of_nat (4 + n)) chan seq t (rx_resync b chan seq (buffered ?bytes s))"
    using l c assms(3) by (intro arrive_fragment) simp_all
  also have "\<dots> = rx_finish cl send chan seq ?s1"
    using rx_append_fits [OF s(1-3) c s(4), of "4 + n"] assms(2,3) big zero by (simp add: rx_fragment_def del: of_nat_add)
  finally have "arrive cl send t ?bytes s = rx_finish cl send chan seq ?s1" .
  moreover have "listening chan k ck m ?s1" using listen s(2) c by (simp add: listening_def)
  moreover have "received chan t c (n - length c) ?s1" using s(5,6) by (simp add: received_def)
  ultimately show ?thesis by blast
qed

lemma next_fragment:
  assumes "listening chan k ck m s" and "received chan t got n s" and "length c \<le> n" "0 < n" "length got + n \<le> 380"
  shows "\<exists>s'. arrive cl send t' (tx_header (of_nat (4 + n)) True chan (nextInSeq (chans s ! unat chan)) @ c) s =
      rx_finish cl send chan (nextInSeq (chans s ! unat chan)) s' \<and>
    listening chan k ck m s' \<and> received chan t (got @ c) (n - length c) s'"
proof -
  let ?seq = "nextInSeq (chans s ! unat chan)"
  let ?bytes = "tx_header (of_nat (4 + n)) True chan ?seq @ c"
  let ?s = "buffered ?bytes s"
  let ?s1 = "?s\<lparr>inPayload := take (length got) (inPayload ?s) @ c @ drop (length got + length c) (inPayload ?s),
      inCursor := of_nat (length got + length c), inRemaining := of_nat (n - length c)\<rparr>"
  note l = assms(1) [unfolded listening_def] and r = assms(2) [unfolded received_def]
  have c: "length c \<le> 380" using assms(3,5) by simp
  have "unat (of_nat n :: u16) = n" using assms(5) by (simp add: unat_of_nat)
  then have "(of_nat n :: u16) \<noteq> 0" using assms(4) by auto
  then have nz: "inRemaining ?s \<noteq> 0" using r by (simp add: buffered_def)
  have same: "rx_begin t' chan (rx_resync True chan ?seq ?s) = ?s"
    using nz r by (simp add: rx_begin_def rx_resync_def buffered_def)
  have same': "rx_resync True chan ?seq ?s = ?s" using r by (simp add: rx_resync_def buffered_def)
  have s: "length (inTransfer ?s) = SH2_HAL_MAX_TRANSFER_IN" "length (inPayload ?s) = SH2_HAL_MAX_PAYLOAD_IN"
    "take (length c) (drop 4 (inTransfer ?s)) = c" "inCursor ?s = of_nat (length got)" "listening chan k ck m ?s"
    "received chan t got n ?s"
    using buffered_body [OF _ c, of s] l r by (simp_all add: buffered_def listening_def received_def)
  have "arrive cl send t' ?bytes s =
      rx_fragment cl send (of_nat (4 + length c)) (of_nat (4 + n)) chan ?seq t' (rx_resync True chan ?seq ?s)"
    using l c assms(3,5) by (intro arrive_fragment) simp_all
  also have "\<dots> = rx_finish cl send chan ?seq ?s1"
    using rx_append_fits [OF s(1-3) c s(4), of "4 + n"] assms(3,5) nz same
    unfolding same' by (simp add: rx_fragment_def del: of_nat_add)
  finally have "arrive cl send t' ?bytes s = rx_finish cl send chan ?seq ?s1" .
  moreover have "listening chan k ck m ?s1" using s(2,5) assms(3,5) by (simp add: listening_def)
  moreover have "received chan t (got @ c) (n - length c) ?s1"
    using assms(3,5) by (intro received_append [OF s(6,2)]) simp
  ultimately show ?thesis by blast
qed

lemma seqp_ret_unit: "seqp m (ret ()) s = m s"
  by (cases "m s") (auto simp: seqp_def bnd_def)

lemma rx_finish_more:
  assumes "listening chan k ck m s" "received chan t got n s" "0 < n" "n < 2 ^ 16"
  shows "\<exists>s'. rx_finish cl send chan seq s = Inr ((), s') \<and> listening chan k ck m s' \<and> received chan t got n s' \<and>
    nextInSeq (chans s' ! unat chan) = seq + 1"
proof -
  have "unat (of_nat n :: u16) = n" using assms(4) by (simp add: unat_of_nat)
  then have "(of_nat n :: u16) \<noteq> 0" using assms(3) by auto
  then have "rx_finish cl send chan seq s =
      Inr ((), s\<lparr>chans := (chans s)[unat chan := (chans s ! unat chan)\<lparr>nextInSeq := seq + 1\<rparr>]\<rparr>)"
    using assms(2) by (simp add: rx_finish_def received_def)
  with assms(1,2) show ?thesis by (simp add: listening_def received_def)
qed

lemma rx_finish_complete:
  assumes "listening chan k ck m s" "received chan t got 0 s"
  shows "rx_finish cl send chan seq s = seqp (on_channel cl send k ck (of_nat (length got)) t)
    (modify (\<lambda>s. s\<lparr>chans := (chans s)[unat chan := (chans s ! unat chan)\<lparr>nextInSeq := seq + 1\<rparr>]\<rparr>)) s"
  using assms by (simp add: rx_finish_def received_def listening_def deliver_def seqp_def bnd_def gets_def)

lemma continuations_arrive:
  assumes "listening chan k ck m s" "received chan t got (length (concat cs)) s"
    and "cs \<noteq> []" "\<forall>c \<in> set cs. c \<noteq> []" "length got + length (concat cs) \<le> 380" "length ts = length cs"
    and "seq = nextInSeq (chans s ! unat chan)"
  shows "\<exists>s' seq'. arrivals cl send (zip ts (rest_fragments chan seq True cs)) s = rx_finish cl send chan seq' s' \<and>
    listening chan k ck m s' \<and> received chan t (got @ concat cs) 0 s'"
  using assms
proof (induction cs arbitrary: s got ts seq)
  case Nil
  then show ?case by simp
next
  case (Cons c cs)
  obtain t' ts' where ts: "ts = t' # ts'" "length ts' = length cs" using Cons.prems(6) by (cases ts) auto
  have len: "length (concat (c # cs)) = length c + length (concat cs)" by simp
  have "0 < length c" using Cons.prems(4) by simp
  then obtain s1 where s1: "arrive cl send t' (tx_header (of_nat (4 + length (concat (c # cs)))) True chan seq @ c) s =
      rx_finish cl send chan seq s1"
    "listening chan k ck m s1" "received chan t (got @ c) (length (concat cs)) s1"
    using next_fragment [OF Cons.prems(1,2), where c = c and t' = t' and cl = cl and send = send] Cons.prems(5,7) by (auto simp: len)
  show ?case
  proof (cases "cs = []")
    case True
    have "arrivals cl send (zip ts (rest_fragments chan seq True (c # cs))) s = rx_finish cl send chan seq s1"
      using s1(1) by (simp add: ts True seqp_ret_unit)
    with s1 True show ?thesis by auto
  next
    case False
    then have "0 < length (concat cs)" using Cons.prems(4) by (cases cs) auto
    then obtain s2 where s2: "rx_finish cl send chan seq s1 = Inr ((), s2)" "listening chan k ck m s2"
      "received chan t (got @ c) (length (concat cs)) s2" "nextInSeq (chans s2 ! unat chan) = seq + 1"
      using rx_finish_more [OF s1(2,3), where cl = cl and send = send and seq = seq] Cons.prems(5) by auto
    have "arrivals cl send (zip ts (rest_fragments chan seq True (c # cs))) s =
        arrivals cl send (zip ts' (rest_fragments chan (seq + 1) True cs)) s2"
      using s1(1) s2(1) by (simp add: ts)
    with Cons.IH [OF s2(2,3) False, where ts = ts' and seq = "seq + 1"] Cons.prems(4,5) ts(2) s2(4) show ?thesis by auto
  qed
qed

text \<open>C13: A payload of up to 380 bytes, cut in any way into parts that are not empty and sent
  with headers that count what is left, reaches the callback of its channel as one payload with the
  time of its first transfer, however the transfers are timed and whatever assembly was going on
  before; the client is called once, at the last transfer.\<close>

theorem payload_reassembled:
  assumes "listening chan k ck m s" and "cs \<noteq> []" "\<forall>c \<in> set cs. c \<noteq> []" "length (concat cs) \<le> 380"
    and "length ts = length cs"
  shows "\<exists>s' seq'. arrivals cl send (zip ts (rest_fragments chan seq False cs)) s =
      seqp (on_channel cl send k ck (of_nat (length (concat cs))) (hd ts))
        (modify (\<lambda>s. s\<lparr>chans := (chans s)[unat chan := (chans s ! unat chan)\<lparr>nextInSeq := seq' + 1\<rparr>]\<rparr>)) s' \<and>
    take (length (concat cs)) (inPayload s') = concat cs \<and> shtp.more s' = m"
proof -
  obtain c cs' where cs: "cs = c # cs'" using assms(2) by (cases cs) auto
  obtain t ts' where ts: "ts = t # ts'" "length ts' = length cs'" using assms(5) cs by (cases ts) auto
  have len: "length (concat cs) = length c + length (concat cs')" using cs by simp
  obtain s1 where s1: "arrive cl send t (tx_header (of_nat (4 + length (concat cs))) False chan seq @ c) s =
      rx_finish cl send chan seq s1"
    "listening chan k ck m s1" "received chan t c (length (concat cs')) s1"
    using first_fragment [OF assms(1), where c = c and n = "length (concat cs)" and cl = cl and send = send and t = t and seq = seq and b = False] assms(4) len by auto
  have "\<exists>s' seq'. arrivals cl send (zip ts (rest_fragments chan seq False cs)) s = rx_finish cl send chan seq' s' \<and>
      listening chan k ck m s' \<and> received chan t (concat cs) 0 s'"
  proof (cases "cs' = []")
    case True
    with s1 show ?thesis by (auto simp: cs ts seqp_ret_unit)
  next
    case False
    then have "0 < length (concat cs')" using assms(3) cs by (cases cs') auto
    then obtain s2 where s2: "rx_finish cl send chan seq s1 = Inr ((), s2)" "listening chan k ck m s2"
      "received chan t c (length (concat cs')) s2" "nextInSeq (chans s2 ! unat chan) = seq + 1"
      using rx_finish_more [OF s1(2,3), where cl = cl and send = send and seq = seq] assms(4) len by auto
    have "arrivals cl send (zip ts (rest_fragments chan seq False cs)) s =
        arrivals cl send (zip ts' (rest_fragments chan (seq + 1) True cs')) s2"
      using s1(1) s2(1) by (simp add: ts cs)
    with continuations_arrive [OF s2(2,3) False, where ts = ts' and seq = "seq + 1" and cl = cl and send = send] assms(3,4) ts(2) s2(4) len cs show ?thesis by auto
  qed
  then obtain s' seq' where fin: "arrivals cl send (zip ts (rest_fragments chan seq False cs)) s = rx_finish cl send chan seq' s'"
    "listening chan k ck m s'" "received chan t (concat cs) 0 s'" by blast
  show ?thesis
  proof (intro exI conjI)
    show "arrivals cl send (zip ts (rest_fragments chan seq False cs)) s =
      seqp (on_channel cl send k ck (of_nat (length (concat cs))) (hd ts))
        (modify (\<lambda>s. s\<lparr>chans := (chans s)[unat chan := (chans s ! unat chan)\<lparr>nextInSeq := seq' + 1\<rparr>]\<rparr>)) s'"
      unfolding fin(1) rx_finish_complete [OF fin(2,3)] by (simp add: ts)
    show "take (length (concat cs)) (inPayload s') = concat cs" using fin(3) by (simp add: received_def)
    show "shtp.more s' = m" using fin(2) by (simp add: listening_def)
  qed
qed

text \<open>An instance for the examples: a client listens on channel 2.\<close>

definition example_shtp :: shtp where
  "example_shtp = \<lparr>pHal = True, eventCallback = None, eventCookie = 0, shtpVersion = [], outMaxPayload = 256,
     outMaxTransfer = 256, outTransfer = replicate SH2_HAL_MAX_TRANSFER_OUT 0, inMaxTransfer = 0, inRemaining = 0,
     inChan = 0, inPayload = replicate SH2_HAL_MAX_PAYLOAD_IN 0, inCursor = 0, inTimestamp = 0,
     inTransfer = replicate SH2_HAL_MAX_TRANSFER_IN 0, advertPhase = ADVERT_IDLE,
     apps = replicate SH2_MAX_APPS zero_App, nextApp = 0, nextAppListener = 0,
     appListener = replicate SH2_MAX_APPS zero_AppListener,
     chans = (replicate SH2_MAX_CHANS zero_Channel)[2 := zero_Channel\<lparr>ch_callback := Some (Client_listener 5), ch_cookie := 1\<rparr>],
     chanListener = replicate SH2_MAX_CHANS zero_ChanListener, nextChanListener = 6, txDiscards = 0,
     shortFragments = 0, tooLargePayloads = 0, badRxChan = 0, badTxChan = 0, hal_calls = []\<rparr>"

definition quiet_clients :: "'s clients" where
  "quiet_clients = \<lparr>on_channel = \<lambda>send k c len t. ret (), on_advert = \<lambda>k c tag len val. ret (), on_event = \<lambda>k c e. ret ()\<rparr>"

lemma example_listening: "listening 2 5 1 () example_shtp"
  by (simp add: listening_def example_shtp_def)

theorem payload_reassembled_witness:
  "\<exists>s' seq'. arrivals quiet_clients (\<lambda>ch p. ret 0) (zip [10, 20] (rest_fragments 2 7 False [[1, 2, 3], [4, 5]])) example_shtp =
      seqp (on_channel quiet_clients (\<lambda>ch p. ret 0) 5 1 (of_nat (length (concat [[1, 2, 3], [4, 5 :: u8]]))) (hd [10, 20]))
        (modify (\<lambda>s. s\<lparr>chans := (chans s)[unat (2 :: u8) := (chans s ! unat (2 :: u8))\<lparr>nextInSeq := seq' + 1\<rparr>]\<rparr>)) s' \<and>
    take (length (concat [[1, 2, 3], [4, 5 :: u8]])) (inPayload s') = concat [[1, 2, 3], [4, 5]] \<and> shtp.more s' = ()"
  by (rule payload_reassembled [OF example_listening]) simp_all

text \<open>A continuation is not checked against the buffer: when what it carries does not fit behind
  what was received, it is written behind the payload buffer.\<close>

theorem continuation_overflows:
  assumes "listening chan k ck m s" and "received chan t got n s" "inRemaining s \<noteq> 0"
    and "SH2_HAL_MAX_PAYLOAD_IN < length got + length c" "length got \<le> SH2_HAL_MAX_PAYLOAD_IN" "length c \<le> 380"
    and "length c \<le> n'" "n' < 2 ^ 15 - 4"
  shows "arrive cl send t' (tx_header (of_nat (4 + n')) True chan (nextInSeq (chans s ! unat chan)) @ c) s =
    Inl Undefined_Behaviour"
proof -
  let ?seq = "nextInSeq (chans s ! unat chan)"
  let ?s = "buffered (tx_header (of_nat (4 + n')) True chan ?seq @ c) s"
  note l = assms(1) [unfolded listening_def] and r = assms(2) [unfolded received_def]
  have same: "rx_begin t' chan (rx_resync True chan ?seq ?s) = ?s" "rx_resync True chan ?seq ?s = ?s"
    using assms(3) r by (simp_all add: rx_begin_def rx_resync_def buffered_def)
  have nz: "inRemaining ?s \<noteq> 0" using assms(3) by (simp add: buffered_def)
  have le: "\<not> (of_nat (4 + n') :: u16) < of_nat (4 + length c)"
    using assms(6-8) by (simp add: word_less_nat_alt unat_of_nat del: of_nat_add)
  have body: "(of_nat (4 + length c) :: u16) - SHTP_HDR_LEN = of_nat (length c)" by simp
  have un: "unat (of_nat (length c) :: u16) = length c" "unat (of_nat (length got) :: u16) = length got"
    using assms(5,6) by (simp_all add: unat_of_nat)
  have cur: "inCursor ?s = of_nat (length got)" "length (inPayload ?s) = SH2_HAL_MAX_PAYLOAD_IN"
    using l r by (simp_all add: buffered_def)
  have "rx_append (of_nat (4 + length c)) (of_nat (4 + n')) ?s = None"
    using assms(4) unfolding rx_append_def Let_def if_not_P [OF le] body cur un by simp
  then have "rx_fragment cl send (of_nat (4 + length c)) (of_nat (4 + n')) chan ?seq t' ?s = Inl Undefined_Behaviour"
    using nz same by (simp add: rx_fragment_def)
  with arrive_fragment [of s c "4 + n'" chan cl send t' True ?seq] l assms(6-8) same show ?thesis by simp
qed

theorem continuation_overflows_witness:
  "arrive quiet_clients (\<lambda>ch p. ret 0) 20 (tx_header (of_nat (4 + 380)) True 2 0 @ replicate 380 9)
    (example_shtp\<lparr>inRemaining := 80, inChan := 2, inCursor := 300, inTimestamp := 10\<rparr>) = Inl Undefined_Behaviour"
proof -
  let ?s = "example_shtp\<lparr>inRemaining := 80, inChan := 2, inCursor := 300, inTimestamp := 10\<rparr>"
  have "listening 2 5 1 () ?s" using example_listening by (simp add: listening_def)
  moreover have "received 2 10 (replicate 300 0) 80 ?s" by (simp add: received_def example_shtp_def)
  moreover have "nextInSeq (chans ?s ! unat (2 :: u8)) = 0" by (simp add: example_shtp_def zero_Channel_def)
  ultimately show ?thesis
    using continuation_overflows [of 2 5 1 "()" ?s 10 "replicate 300 0" 80 "replicate 380 9" 380 quiet_clients "\<lambda>ch p. ret 0" 20]
    by (simp add: example_shtp_def)
qed

section \<open>Sending\<close>

text \<open>A payload in parts of a size.\<close>

function (sequential) parts :: "nat \<Rightarrow> 'a list \<Rightarrow> 'a list list" where
  "parts k p = (if p = [] \<or> k = 0 then [] else take k p # parts k (drop k p))"
  by pat_completeness auto
termination by (relation "measure (\<lambda>(k, p). length p)") auto

declare parts.simps [simp del]

lemma parts_Nil [simp]: "parts k [] = []"
  by (simp add: parts.simps)

lemma parts_step: "p \<noteq> [] \<Longrightarrow> 0 < k \<Longrightarrow> parts k p = take k p # parts k (drop k p)"
  by (subst parts.simps) simp

lemma parts_join: "0 < k \<Longrightarrow> concat (parts k p) = p"
proof (induction k p rule: parts.induct)
  case (1 k p)
  then show ?case by (cases "p = []") (simp_all add: parts_step)
qed

lemma parts_sizes: "c \<in> set (parts k p) \<Longrightarrow> c \<noteq> [] \<and> length c \<le> k"
proof (induction k p rule: parts.induct)
  case (1 k p)
  then show ?case by (cases "p = [] \<or> k = 0") (auto simp: parts.simps [of k p])
qed

text \<open>One transfer with a hardware layer that takes it.\<close>

lemma tx_write_accepted:
  assumes "0 < hal_write h (hal_calls s) (take (unat lenField) (outTransfer s))"
  shows "tx_write h cl (Suc n) lenField s =
    Inr (hal_write h (hal_calls s) (take (unat lenField) (outTransfer s)),
      s\<lparr>hal_calls := hal_calls s @ [Hal_write (take (unat lenField) (outTransfer s))]\<rparr>)"
  using assms by (simp add: hal_do_write_def)

definition staged :: "u8 \<Rightarrow> bool \<Rightarrow> u8 list \<Rightarrow> 'c shtp_scheme \<Rightarrow> 'c shtp_scheme" where
  "staged chan continuation c s =
     (let bytes = tx_header (of_nat (4 + length c)) continuation chan (nextOutSeq (chans s ! unat chan)) @ c
      in s\<lparr>outTransfer := bytes @ drop (length bytes) (outTransfer s),
           chans := (chans s)[unat chan := (chans s ! unat chan)\<lparr>nextOutSeq := nextOutSeq (chans s ! unat chan) + 1\<rparr>]\<rparr>)"

lemma tx_stage_staged:
  assumes "length (outTransfer s) = SH2_HAL_MAX_TRANSFER_OUT" "c = take n (drop k pData)" "k + n \<le> length pData" "n \<le> 252"
    "k < 2 ^ 16"
  shows "tx_stage chan pData continuation (of_nat k) (of_nat n) s = Inr ((), staged chan continuation c s)"
proof -
  have un: "unat (of_nat n :: u16) = n" "unat (of_nat k :: u16) = k" using assms(4,5) by (simp_all add: unat_of_nat)
  have len: "length c = n" using assms(2,3) by simp
  have field: "(of_nat n :: u16) + SHTP_HDR_LEN = of_nat (4 + length c)" by (simp add: len)
  show ?thesis
    using assms(1,3,4) unfolding tx_stage_def staged_def Let_def un field assms(2) [symmetric] by simp
qed

lemma txProcess_accepted:
  assumes accept: "\<And>cs bs. 0 < hal_write h cs bs"
    and "outMaxTransfer s = of_nat m" "4 < m" "m \<le> SH2_HAL_MAX_TRANSFER_OUT"
    and "length (outTransfer s) = SH2_HAL_MAX_TRANSFER_OUT" "unat chan < length (chans s)" "length pData < 2 ^ 16"
    and "k \<le> length pData" "length pData - k < fuel"
  shows "\<exists>s'. txProcess h cl fuel chan pData continuation (of_nat k) (of_nat (length pData - k)) s = Inr (SH2_OK, s') \<and>
    hal_calls s' = hal_calls s @ map Hal_write (own_fragments chan (nextOutSeq (chans s ! unat chan)) continuation (parts (m - 4) (drop k pData))) \<and>
    shtp.more s' = shtp.more s"
  using assms(2-)
proof (induction fuel arbitrary: s k continuation)
  case 0
  then show ?case by simp
next
  case (Suc fuel)
  show ?case
  proof (cases "k = length pData")
    case True
    then show ?thesis by simp
  next
    case False
    let ?r = "length pData - k" and ?n = "min (length pData - k) (m - 4)"
    let ?c = "take ?n (drop k pData)" and ?seq = "nextOutSeq (chans s ! unat chan)"
    have r: "0 < ?r" "?r < 2 ^ 16" using False Suc.prems(6,7) by simp_all
    have ur: "unat (of_nat ?r :: u16) = ?r" using r(2) by (simp add: unat_of_nat)
    have um: "(of_nat m :: u16) - SHTP_HDR_LEN = of_nat (m - 4)" using Suc.prems(2) by (simp add: of_nat_diff)
    have umm: "unat (of_nat (m - 4) :: u16) = m - 4" using Suc.prems(3) by (simp add: unat_of_nat)
    have pos: "(of_nat ?r :: u16) > 0" using r(1) ur by (simp add: word_greater_zero_iff flip: unat_eq_0)
    have tl: "(if (of_nat ?r :: u16) < of_nat (m - 4) then of_nat ?r else of_nat (m - 4)) = (of_nat ?n :: u16)"
      by (simp add: word_less_nat_alt ur umm min_def)
    have n: "0 < ?n" "?n \<le> 252" "k + ?n \<le> length pData" using r(1) Suc.prems(2,3,7) by auto
    obtain fuel' where fuel: "fuel = Suc fuel'" using r(1) Suc.prems(8) by (cases fuel) auto
    have stage: "tx_stage chan pData continuation (of_nat k) (of_nat ?n) s = Inr ((), staged chan continuation ?c s)"
      using Suc.prems(4,6,7) n by (intro tx_stage_staged) simp_all
    have lc: "length ?c = ?n" using n(3) by simp
    let ?s1 = "staged chan continuation ?c s"
    let ?bytes = "tx_header (of_nat (4 + length ?c)) continuation chan ?seq @ ?c"
    let ?s2 = "?s1\<lparr>hal_calls := hal_calls s @ [Hal_write ?bytes]\<rparr>"
    have field: "(of_nat ?n :: u16) + SHTP_HDR_LEN = of_nat (4 + length ?c)" unfolding lc by simp
    have ub: "unat (of_nat (4 + length ?c) :: u16) = 4 + length ?c" using n(2) lc by (simp add: unat_of_nat del: of_nat_add)
    have sent: "take (4 + length ?c) (outTransfer ?s1) = ?bytes" "hal_calls ?s1 = hal_calls s"
      by (simp_all add: staged_def Let_def)
    obtain st where st: "tx_write h cl fuel (of_nat (4 + length ?c)) ?s1 = Inr (st, ?s2)" "0 < st"
      using accept unfolding fuel by (simp only: tx_write_accepted [OF accept] ub sent)
    have less: "length pData - (k + ?n) < fuel" using n(1,3) Suc.prems(8) by linarith
    have st': "\<not> st < 0" using st(2) by simp
    have nx: "(of_nat k :: u16) + of_nat ?n = of_nat (k + ?n)" "(of_nat ?r :: u16) - of_nat ?n = of_nat (length pData - (k + ?n))"
      using n(3) by (simp_all add: of_nat_diff)
    have "txProcess h cl (Suc fuel) chan pData continuation (of_nat k) (of_nat ?r) s =
        txProcess h cl fuel chan pData True (of_nat (k + ?n)) (of_nat (length pData - (k + ?n))) ?s2"
      unfolding txProcess.simps if_P [OF pos]
      by (subst bnd_Inr [OF gets_apply])
        (simp only: Let_def Suc.prems(1) um tl nx
          seqp_Inr [where m = "tx_stage chan pData continuation (of_nat k) (of_nat ?n)" and s = s, OF stage] field
          bnd_Inr [where m = "tx_write h cl fuel (of_nat (4 + length ?c))" and s = ?s1, OF st(1)]
          if_not_P [OF st'])
    moreover have "\<exists>s'. txProcess h cl fuel chan pData True (of_nat (k + ?n)) (of_nat (length pData - (k + ?n))) ?s2 = Inr (SH2_OK, s') \<and>
        hal_calls s' = hal_calls ?s2 @ map Hal_write (own_fragments chan (nextOutSeq (chans ?s2 ! unat chan)) True (parts (m - 4) (drop (k + ?n) pData))) \<and>
        shtp.more s' = shtp.more ?s2"
    proof (rule Suc.IH)
      show "outMaxTransfer ?s2 = of_nat m" "unat chan < length (chans ?s2)"
        using Suc.prems(1,5) by (simp_all add: staged_def Let_def)
      show "length (outTransfer ?s2) = SH2_HAL_MAX_TRANSFER_OUT"
        using Suc.prems(4) n(2) lc by (simp add: staged_def Let_def)
    qed (fact Suc.prems(2,3,6) n(3) less)+
    moreover have "parts (m - 4) (drop k pData) = ?c # parts (m - 4) (drop (k + ?n) pData)"
      using r(1) Suc.prems(2) by (subst parts_step) (auto simp: min_def add.commute)
    moreover have "nextOutSeq (chans ?s2 ! unat chan) = ?seq + 1" "shtp.more ?s2 = shtp.more s"
      using Suc.prems(5) by (simp_all add: staged_def Let_def)
    ultimately show ?thesis by auto
  qed
qed

text \<open>C14: With a hardware layer that takes every transfer, sending a payload within the limits
  returns, with fuel for one round per byte, and what was written is the payload in parts that fit a
  transfer, in order, each behind its header, with consecutive sequence numbers.\<close>

theorem send_transmits:
  assumes "\<forall>cs bs. 0 < hal_write h cs bs"
    and "outMaxTransfer s = of_nat m" "4 < m" "m \<le> SH2_HAL_MAX_TRANSFER_OUT"
    and "length (outTransfer s) = SH2_HAL_MAX_TRANSFER_OUT" "length (chans s) = SH2_MAX_CHANS" "unat chan < SH2_MAX_CHANS"
    and "length p \<le> unat (outMaxPayload s)" "length p + 1 < fuel"
  shows "\<exists>s'. shtp_send h cl fuel chan p s = Inr (SH2_OK, s') \<and>
    hal_calls s' = hal_calls s @ map Hal_write (own_fragments chan (nextOutSeq (chans s ! unat chan)) False (parts (m - 4) p)) \<and>
    concat (parts (m - 4) p) = p \<and> length ` set (parts (m - 4) p) \<subseteq> {1..m - 4} \<and> shtp.more s' = shtp.more s"
proof -
  obtain fuel' where fuel: "fuel = Suc fuel'" "length p < fuel'" using assms(9) by (cases fuel) auto
  have small: "length p < 2 ^ 16" using assms(8) unsigned_less [of "outMaxPayload s", where ?'a = nat] by simp
  have "shtp_send h cl fuel chan p s = txProcess h cl fuel' chan p False (of_nat 0) (of_nat (length p - 0)) s"
    using assms(7,8) by (simp add: fuel(1) not_less [symmetric])
  with txProcess_accepted [of h s m chan p 0 fuel' cl False] assms fuel(2) small
  obtain s' where "shtp_send h cl fuel chan p s = Inr (SH2_OK, s')"
    "hal_calls s' = hal_calls s @ map Hal_write (own_fragments chan (nextOutSeq (chans s ! unat chan)) False (parts (m - 4) p))"
    "shtp.more s' = shtp.more s" by auto
  moreover have "length ` set (parts (m - 4) p) \<subseteq> {1..m - 4}"
    by (auto simp: Suc_le_eq dest: parts_sizes)
  ultimately show ?thesis using parts_join [of "m - 4" p] assms(3) by auto
qed

definition taking_hal :: hal where
  "taking_hal = \<lparr>hal_write = \<lambda>cs bs. int (length bs) + 1, hal_read = \<lambda>cs. (0, [], 0), hal_time = \<lambda>cs. 0\<rparr>"

theorem send_transmits_witness:
  "\<exists>s'. shtp_send taking_hal quiet_clients 10 2 [1, 2, 3, 4, 5] (example_shtp\<lparr>outMaxTransfer := 7\<rparr>) = Inr (SH2_OK, s') \<and>
    hal_calls s' = [Hal_write [7, 0, 2, 0, 1, 2, 3], Hal_write [6, 0x80, 2, 1, 4, 5]]"
proof -
  let ?s = "example_shtp\<lparr>outMaxTransfer := 7\<rparr>"
  have parts: "parts 3 [1, 2, 3, 4, 5 :: u8] = [[1, 2, 3], [4, 5]]" by (simp add: parts_step)
  have "\<exists>s'. shtp_send taking_hal quiet_clients 10 2 [1, 2, 3, 4, 5] ?s = Inr (SH2_OK, s') \<and>
    hal_calls s' = hal_calls ?s @ map Hal_write (own_fragments 2 (nextOutSeq (chans ?s ! unat (2 :: u8))) False (parts (7 - 4) [1, 2, 3, 4, 5])) \<and>
    concat (parts (7 - 4) [1, 2, 3, 4, 5 :: u8]) = [1, 2, 3, 4, 5] \<and>
    length ` set (parts (7 - 4) [1, 2, 3, 4, 5 :: u8]) \<subseteq> {1..7 - 4} \<and> shtp.more s' = shtp.more ?s"
    by (rule send_transmits) (simp_all add: taking_hal_def example_shtp_def)
  then show ?thesis
    by (simp add: parts example_shtp_def zero_Channel_def tx_header_def lo8_def hi8_def)
qed

text \<open>The length a sender puts into a header is that of the transfer, which a receiver of the
  same library takes for all that is left: each transfer of a longer payload, the continuations too,
  is delivered to the client as a payload of its own.\<close>

theorem own_fragment_delivered_alone:
  assumes "listening chan k ck m s" and "length c \<le> 380" and "continuation \<longrightarrow> inRemaining s = 0"
  shows "\<exists>s'. arrivals cl send (zip [t] (own_fragments chan seq continuation [c])) s =
      seqp (on_channel cl send k ck (of_nat (length c)) t)
        (modify (\<lambda>s. s\<lparr>chans := (chans s)[unat chan := (chans s ! unat chan)\<lparr>nextInSeq := seq + 1\<rparr>]\<rparr>)) s' \<and>
    take (length c) (inPayload s') = c \<and> shtp.more s' = m"
proof -
  obtain s' where s': "arrive cl send t (tx_header (of_nat (4 + length c)) continuation chan seq @ c) s = rx_finish cl send chan seq s'"
    "listening chan k ck m s'" "received chan t c (length c - length c) s'"
    using first_fragment [OF assms(1) order_refl assms(2), of continuation cl send t seq] assms(3) by blast
  then have rec: "received chan t c 0 s'" by simp
  show ?thesis
  proof (intro exI conjI)
    show "arrivals cl send (zip [t] (own_fragments chan seq continuation [c])) s =
      seqp (on_channel cl send k ck (of_nat (length c)) t)
        (modify (\<lambda>s. s\<lparr>chans := (chans s)[unat chan := (chans s ! unat chan)\<lparr>nextInSeq := seq + 1\<rparr>]\<rparr>)) s'"
      using s'(1) by (simp add: seqp_ret_unit rx_finish_complete [OF s'(2) rec])
    show "take (length c) (inPayload s') = c" "shtp.more s' = m"
      using rec s'(2) by (simp_all add: received_def listening_def)
  qed
qed

theorem own_fragment_delivered_alone_witness:
  "\<exists>s'. arrivals quiet_clients (\<lambda>ch p. ret 0) (zip [9] (own_fragments 2 1 True [[4, 5]])) example_shtp =
      seqp (on_channel quiet_clients (\<lambda>ch p. ret 0) 5 1 (of_nat (length [4, 5 :: u8])) 9)
        (modify (\<lambda>s. s\<lparr>chans := (chans s)[unat (2 :: u8) := (chans s ! unat (2 :: u8))\<lparr>nextInSeq := 1 + 1\<rparr>]\<rparr>)) s' \<and>
    take (length [4, 5 :: u8]) (inPayload s') = [4, 5] \<and> shtp.more s' = ()"
  by (rule own_fragment_delivered_alone [OF example_listening]) (simp_all add: example_shtp_def)

section \<open>Advertised transfer sizes that break the sender\<close>

lemma tx_write_accepted_Inr:
  assumes "\<And>cs bs. 0 < hal_write h cs bs"
  shows "\<exists>st s'. tx_write h cl (Suc n) lenField s = Inr (st, s') \<and> 0 < st \<and> outMaxTransfer s' = outMaxTransfer s \<and>
    outTransfer s' = outTransfer s \<and> advertPhase s' = advertPhase s"
  unfolding tx_write_accepted [OF assms] using assms by simp

lemma txProcess_stuck:
  assumes accept: "\<And>cs bs. 0 < hal_write h cs bs"
    and "outMaxTransfer s = 4" "length (outTransfer s) = SH2_HAL_MAX_TRANSFER_OUT" "0 < remaining" "unat cursor \<le> length pData"
  shows "txProcess h cl fuel chan pData continuation cursor remaining s = Inl No_Return"
  using assms(2-)
proof (induction fuel arbitrary: s continuation)
  case 0
  then show ?case by simp
next
  case (Suc fuel)
  let ?s1 = "staged chan continuation [] s"
  have k: "(of_nat (unat cursor) :: u16) = cursor" by simp
  have cur: "unat cursor < 2 ^ 16" using unsigned_less [of cursor, where ?'a = nat] by simp
  have stage: "tx_stage chan pData continuation cursor 0 s = Inr ((), ?s1)"
    using tx_stage_staged [of s "[]" 0 "unat cursor" pData chan continuation] Suc.prems(2,4) cur by simp
  have stuck: "txProcess h cl fuel chan pData True cursor remaining s' = Inl No_Return"
    if "outMaxTransfer s' = outMaxTransfer ?s1" "outTransfer s' = outTransfer ?s1" for s'
    using that Suc.prems by (intro Suc.IH) (simp_all add: staged_def Let_def)
  show ?case
  proof (cases fuel)
    case 0
    with Suc.prems(1,3) stage show ?thesis by (simp add: bnd_def)
  next
    case (Suc n)
    obtain st s' where "tx_write h cl fuel 4 ?s1 = Inr (st, s')" "0 < st" "outMaxTransfer s' = outMaxTransfer ?s1"
        "outTransfer s' = outTransfer ?s1"
      using tx_write_accepted_Inr [OF accept] unfolding Suc by blast
    with stuck Suc.prems(1,3) stage show ?thesis by simp
  qed
qed

lemma txProcess_overflow:
  assumes "unat (outMaxTransfer s) < 4" "length (outTransfer s) = SH2_HAL_MAX_TRANSFER_OUT" "252 < unat remaining"
    "unat remaining < 65532"
  shows "txProcess h cl (Suc fuel) chan pData continuation cursor remaining s = Inl Undefined_Behaviour"
proof -
  have "outMaxTransfer s - SHTP_HDR_LEN = of_nat (unat (outMaxTransfer s) + 65532)"
    by (simp add: of_nat_add)
  then have max: "unat (outMaxTransfer s - SHTP_HDR_LEN) = unat (outMaxTransfer s) + 65532"
    using assms(1) by (simp add: unat_of_nat del: of_nat_add)
  have "0 < remaining" "remaining < outMaxTransfer s - SHTP_HDR_LEN"
    using assms(3,4) max by (auto simp: word_less_nat_alt)
  then show ?thesis using assms(2,3) by (simp add: tx_stage_def Let_def)
qed

text \<open>What the hub advertises as its longest transfer is not bounded from below: after an
  advertised 8 no payload is ever sent, the sender writes empty transfers without end, and after 4 to
  7 a payload longer than 252 bytes is copied behind the transfer buffer.\<close>

theorem small_transfer_size_breaks_sender:
  assumes "processTag cl TAG_MAX_TRANSFER_WRITE [b, 0] st s0 = Inr (r, s)"
    and "length (outTransfer s0) = SH2_HAL_MAX_TRANSFER_OUT" "unat chan < SH2_MAX_CHANS"
    and "p \<noteq> []" "length p \<le> unat (outMaxPayload s)" "\<forall>cs bs. 0 < hal_write h cs bs"
  shows "(b = 8 \<longrightarrow> shtp_send h cl fuel chan p s = Inl No_Return) \<and>
    (4 \<le> b \<and> b < 8 \<and> 252 < length p \<and> length p < 65532 \<longrightarrow> shtp_send h cl (Suc (Suc fuel)) chan p s = Inl Undefined_Behaviour)"
proof -
  obtain guid ch wake where st: "st = (guid, ch, wake)" by (cases st) auto
  let ?x = "(ucast b :: u16) - SHTP_HDR_LEN"
  have s: "s = s0\<lparr>outMaxTransfer := if unat ?x < SH2_HAL_MAX_TRANSFER_OUT then ?x else 256\<rparr>"
    using assms(1) by (simp add: processTag_def st Let_def)
  have len: "length p < 2 ^ 16" using assms(5) unsigned_less [of "outMaxPayload s", where ?'a = nat] by simp
  have rem: "unat (of_nat (length p) :: u16) = length p" using len by (simp add: unat_of_nat)
  then have pos: "0 < (of_nat (length p) :: u16)" using assms(4) by (auto simp: word_less_nat_alt)
  have buf: "length (outTransfer s) = SH2_HAL_MAX_TRANSFER_OUT" using assms(2) s by simp
  have go: "shtp_send h cl (Suc n) chan p s = txProcess h cl n chan p False 0 (of_nat (length p)) s" for n
    using assms(3,5) by (simp add: not_less [symmetric])
  have "shtp_send h cl fuel chan p s = Inl No_Return" if "b = 8"
  proof (cases fuel)
    case (Suc n)
    have "outMaxTransfer s = 4" using s that by simp
    then show ?thesis
      unfolding Suc go using assms(6) buf pos by (intro txProcess_stuck) simp_all
  qed simp
  moreover have "shtp_send h cl (Suc (Suc fuel)) chan p s = Inl Undefined_Behaviour"
    if "4 \<le> b" "b < 8" "252 < length p" "length p < 65532"
  proof -
    have b: "4 \<le> unat b" "unat b < 8" using that by (simp_all add: word_le_nat_alt word_less_nat_alt)
    have "unat (ucast b :: u16) = unat b"
      by (rule unsigned_ucast_eq [THEN trans]) (use b in \<open>simp add: take_bit_nat_eq_self_iff\<close>)
    then have "unat ?x = unat b - 4" using b by (subst unat_sub) (simp_all add: word_le_nat_alt)
    then have "unat ?x < 4" using b by linarith
    then have "unat (outMaxTransfer s) < 4" unfolding s by simp
    then show ?thesis unfolding go using that buf rem by (intro txProcess_overflow) simp_all
  qed
  ultimately show ?thesis by blast
qed

theorem small_transfer_size_breaks_sender_witness:
  "(8 = (8 :: u8) \<longrightarrow> shtp_send taking_hal quiet_clients 100 2 [1] (example_shtp\<lparr>outMaxTransfer := 4\<rparr>) = Inl No_Return) \<and>
    (4 \<le> (8 :: u8) \<and> (8 :: u8) < 8 \<and> 252 < length [1 :: u8] \<and> length [1 :: u8] < 65532 \<longrightarrow>
      shtp_send taking_hal quiet_clients (Suc (Suc 100)) 2 [1] (example_shtp\<lparr>outMaxTransfer := 4\<rparr>) = Inl Undefined_Behaviour)"
  by (rule small_transfer_size_breaks_sender [of _ _ "(0, 0, False)" example_shtp "(0, 0, False)"])
    (simp_all add: processTag_def example_shtp_def taking_hal_def)

section \<open>A transfer that has to wait\<close>

lemma hal_do_write_run:
  "hal_do_write h f s = Inr (hal_write h (hal_calls s) (take (unat f) (outTransfer s)),
    s\<lparr>hal_calls := hal_calls s @ [Hal_write (take (unat f) (outTransfer s))]\<rparr>)"
  by (cases s) (simp add: hal_do_write_def)

lemma service_pending:
  assumes "advertPhase s = ADVERT_NEEDED"
    and "shtp_send h cl n 0 advertise (s\<lparr>advertPhase := ADVERT_REQUESTED\<rparr>) = Inr (SH2_OK, s1)"
    and "hal_do_read h s1 = Inr ((0, t), s2)"
  shows "shtp_service h cl (Suc n) s = Inr ((), s2)"
  using assms by (simp add: service_read_def)

lemma tx_write_done:
  assumes "0 < hal_write h (hal_calls s) bs" "bs = take (unat f) (outTransfer s)"
  shows "tx_write h cl (Suc n) f s = Inr (hal_write h (hal_calls s) bs, s\<lparr>hal_calls := hal_calls s @ [Hal_write bs]\<rparr>)"
  using assms by (simp add: hal_do_write_run)

lemma tx_write_wait:
  assumes "hal_write h (hal_calls s) bs = 0" "bs = take (unat f) (outTransfer s)"
    and "shtp_service h cl n (s\<lparr>hal_calls := hal_calls s @ [Hal_write bs]\<rparr>) = Inr ((), s')"
  shows "tx_write h cl (Suc n) f s = tx_write h cl n f s'"
  using assms by (simp add: hal_do_write_run)

lemma overwritten_prefix:
  "length a = 6 \<Longrightarrow> take (4 + length p) (a @ drop 2 p) = take (4 + length p) (a @ drop 2 p @ r)"
  by (simp add: take_append)

lemma send_single:
  assumes "outMaxTransfer s = 256" "length (outTransfer s) = SH2_HAL_MAX_TRANSFER_OUT" "unat chan < SH2_MAX_CHANS"
    and "p \<noteq> []" "length p \<le> 252" "length p \<le> unat (outMaxPayload s)"
    and "tx_write h cl (Suc n) (of_nat (4 + length p)) (staged chan False p s) = Inr (st, s')" "0 < st"
  shows "shtp_send h cl (Suc (Suc (Suc n))) chan p s = Inr (SH2_OK, s')"
proof -
  have un: "unat (of_nat (length p) :: u16) = length p" using assms(5) by (simp add: unat_of_nat)
  have pos: "(of_nat (length p) :: u16) > 0" using assms(4) un by (auto simp: word_less_nat_alt)
  have tl: "(if (of_nat (length p) :: u16) < 256 - SHTP_HDR_LEN then of_nat (length p) else 256 - SHTP_HDR_LEN) = (of_nat (length p) :: u16)"
    using assms(5) un by (auto simp: word_less_nat_alt word_unat_eq_iff)
  have stage: "tx_stage chan p False 0 (of_nat (length p)) s = Inr ((), staged chan False p s)"
    using tx_stage_staged [of s p "length p" 0 p chan False] assms(2,5) by simp
  have field: "(of_nat (length p) :: u16) + SHTP_HDR_LEN = of_nat (4 + length p)" by simp
  have st: "\<not> st < 0" using assms(8) by simp
  have "txProcess h cl (Suc (Suc n)) chan p False 0 (of_nat (length p)) s = Inr (SH2_OK, s')"
    unfolding txProcess.simps(2) [of h cl "Suc n"] if_P [OF pos]
    by (subst bnd_Inr [OF gets_apply])
      (simp only: Let_def assms(1) tl field
        seqp_Inr [where m = "tx_stage chan p False 0 (of_nat (length p))" and s = s, OF stage]
        bnd_Inr [where m = "tx_write h cl (Suc n) (of_nat (4 + length p))" and s = "staged chan False p s", OF assms(7)]
        if_not_P [OF st] diff_self txProcess.simps less_irrefl if_False ret_apply)
  then show ?thesis using assms(3,6) by (simp add: not_less [symmetric] del: txProcess.simps)
qed

text \<open>While a transfer waits for the hardware layer the receiver is served, and a pending request
  for advertisements is sent through the same buffer: the payload that waited is written with the first
  six bytes of that request over its own, and sending reports success.\<close>

theorem waiting_transfer_overwritten:
  assumes "advertPhase s = ADVERT_NEEDED" "outMaxTransfer s = 256" "length (outTransfer s) = SH2_HAL_MAX_TRANSFER_OUT"
    and "length (chans s) = SH2_MAX_CHANS" "unat chan < SH2_MAX_CHANS" "chan \<noteq> 0"
    and "p \<noteq> []" "length p \<le> 252" "length p \<le> unat (outMaxPayload s)" "2 \<le> unat (outMaxPayload s)"
    and "\<forall>bs. hal_write h (hal_calls s) bs = 0" "\<forall>cs bs. cs \<noteq> hal_calls s \<longrightarrow> 0 < hal_write h cs bs"
    and "\<forall>cs. hal_read h cs = (0, [], t)"
  shows "\<exists>s'. shtp_send h cl (fuel + 7) chan p s = Inr (SH2_OK, s') \<and>
    hal_calls s' = hal_calls s @
      [Hal_write (tx_header (of_nat (4 + length p)) False chan (nextOutSeq (chans s ! unat chan)) @ p),
       Hal_write (tx_header 6 False 0 (nextOutSeq (chans s ! 0)) @ advertise), Hal_read,
       Hal_write (take (4 + length p) (tx_header 6 False 0 (nextOutSeq (chans s ! 0)) @ advertise @ drop 2 p))]"
proof -
  let ?own = "tx_header (of_nat (4 + length p)) False chan (nextOutSeq (chans s ! unat chan)) @ p"
  let ?adv = "tx_header 6 False 0 (nextOutSeq (chans s ! 0)) @ advertise"
  let ?s1 = "staged chan False p s"
  let ?s2 = "?s1\<lparr>hal_calls := hal_calls s @ [Hal_write ?own]\<rparr>"
  let ?s3 = "?s2\<lparr>advertPhase := ADVERT_REQUESTED\<rparr>"
  let ?s4 = "staged 0 False advertise ?s3"
  let ?s5 = "?s4\<lparr>hal_calls := hal_calls s @ [Hal_write ?own, Hal_write ?adv]\<rparr>"
  let ?s6 = "?s5\<lparr>hal_calls := hal_calls s @ [Hal_write ?own, Hal_write ?adv, Hal_read],
     inTransfer := take (length (inTransfer s)) (inTransfer s)\<rparr>"
  let ?field = "of_nat (4 + length p) :: u16"
  have ub: "unat ?field = 4 + length p" using assms(8) by (simp add: unat_of_nat del: of_nat_add)
  have chan0: "unat chan \<noteq> 0" using assms(6) by (simp add: unat_eq_0)
  have b1: "?own = take (unat ?field) (outTransfer ?s1)" "hal_calls ?s1 = hal_calls s"
    unfolding ub by (simp_all add: staged_def Let_def)
  have b4: "?adv = take (unat (of_nat (4 + length advertise) :: u16)) (outTransfer ?s4)" "hal_calls ?s4 = hal_calls s @ [Hal_write ?own]"
    using chan0 assms(4,5) by (simp_all add: staged_def Let_def advertise_def tx_header_def)
  have w4: "tx_write h cl (Suc n) (of_nat (4 + length advertise)) ?s4 = Inr (hal_write h (hal_calls ?s4) ?adv, ?s5)"
    "0 < hal_write h (hal_calls ?s4) ?adv" for n
  proof -
    show pos: "0 < hal_write h (hal_calls ?s4) ?adv" using assms(12) unfolding b4(2) by simp
    have "?s5 = ?s4\<lparr>hal_calls := hal_calls ?s4 @ [Hal_write ?adv]\<rparr>" unfolding b4(2) by simp
    then show "tx_write h cl (Suc n) (of_nat (4 + length advertise)) ?s4 = Inr (hal_write h (hal_calls ?s4) ?adv, ?s5)"
      using tx_write_done [OF pos b4(1)] by simp
  qed
  have send: "shtp_send h cl (Suc (Suc (Suc n))) 0 advertise ?s3 = Inr (SH2_OK, ?s5)" for n
    by (rule send_single [OF _ _ _ _ _ _ w4])
      (use assms(2,3,8,10) in \<open>simp_all add: staged_def Let_def advertise_def\<close>)
  have service: "shtp_service h cl (Suc (Suc (Suc (Suc n)))) ?s2 = Inr ((), ?s6)" for n
  proof -
    have phase: "advertPhase ?s2 = ADVERT_NEEDED" using assms(1) by (simp add: staged_def Let_def)
    have read: "hal_do_read h ?s5 = Inr ((0, t), ?s6)" using assms(13) by (simp add: hal_do_read_def staged_def Let_def)
    show ?thesis by (rule service_pending [OF phase send read])
  qed
  let ?bad = "take (4 + length p) (?adv @ drop 2 p)"
  let ?s7 = "?s6\<lparr>hal_calls := hal_calls ?s6 @ [Hal_write ?bad]\<rparr>"
  have seq0: "nextOutSeq (chans ?s3 ! unat (0 :: u8)) = nextOutSeq (chans s ! 0)"
    using chan0 assms(4,5) by (simp add: staged_def Let_def)
  have out3: "outTransfer ?s3 = ?own @ drop (4 + length p) (outTransfer s)" by (simp add: staged_def Let_def)
  have "outTransfer ?s6 = ?adv @ drop 6 (outTransfer ?s3)"
    using seq0 by (simp add: staged_def [of 0] Let_def advertise_def)
  then have out6: "outTransfer ?s6 = ?adv @ drop 2 p @ drop (2 - length p) (drop (4 + length p) (outTransfer s))"
    unfolding out3 by (simp add: tx_header_def)
  have "length ?adv = 6" by (simp add: advertise_def)
  then have b6: "?bad = take (unat ?field) (outTransfer ?s6)"
    unfolding ub out6 by (rule overwritten_prefix)
  have pos: "0 < hal_write h (hal_calls ?s6) ?bad" using assms(12) by simp
  have "tx_write h cl (Suc (fuel + 4)) ?field ?s1 = tx_write h cl (fuel + 4) ?field ?s6"
  proof (rule tx_write_wait [OF _ b1(1)])
    show "hal_write h (hal_calls ?s1) ?own = 0" unfolding b1(2) using assms(11) by simp
    have four: "fuel + 4 = Suc (Suc (Suc (Suc fuel)))" by simp
    show "shtp_service h cl (fuel + 4) (?s1\<lparr>hal_calls := hal_calls ?s1 @ [Hal_write ?own]\<rparr>) = Inr ((), ?s6)"
      unfolding b1(2) four by (rule service)
  qed
  also have "\<dots> = Inr (hal_write h (hal_calls ?s6) ?bad, ?s7)"
  proof -
    have four: "fuel + 4 = Suc (fuel + 3)" by simp
    show ?thesis unfolding four by (rule tx_write_done [OF pos b6])
  qed
  finally have run: "shtp_send h cl (Suc (Suc (Suc (fuel + 4)))) chan p s = Inr (SH2_OK, ?s7)"
    by (rule send_single [OF assms(2,3,5,7,8,9) _ pos])
  have seven: "fuel + 7 = Suc (Suc (Suc (fuel + 4)))" by simp
  show ?thesis
  proof (intro exI conjI)
    show "shtp_send h cl (fuel + 7) chan p s = Inr (SH2_OK, ?s7)" unfolding seven by (rule run)
  qed simp
qed

definition waiting_hal :: hal where
  "waiting_hal = \<lparr>hal_write = \<lambda>cs bs. if cs = [] then 0 else 1, hal_read = \<lambda>cs. (0, [], 0), hal_time = \<lambda>cs. 0\<rparr>"

theorem waiting_transfer_overwritten_witness:
  "\<exists>s'. shtp_send waiting_hal quiet_clients (0 + 7) 2 [0xFD, 5, 6] (example_shtp\<lparr>advertPhase := ADVERT_NEEDED\<rparr>) = Inr (SH2_OK, s') \<and>
    hal_calls s' = [Hal_write [7, 0, 2, 0, 0xFD, 5, 6], Hal_write [6, 0, 0, 0, 0, 1], Hal_read, Hal_write [6, 0, 0, 0, 0, 1, 6]]"
proof -
  let ?s = "example_shtp\<lparr>advertPhase := ADVERT_NEEDED\<rparr>"
  have "\<exists>s'. shtp_send waiting_hal quiet_clients (0 + 7) 2 [0xFD, 5, 6] ?s = Inr (SH2_OK, s') \<and>
    hal_calls s' = hal_calls ?s @
      [Hal_write (tx_header (of_nat (4 + length [0xFD, 5, 6 :: u8])) False 2 (nextOutSeq (chans ?s ! unat (2 :: u8))) @ [0xFD, 5, 6]),
       Hal_write (tx_header 6 False 0 (nextOutSeq (chans ?s ! 0)) @ advertise), Hal_read,
       Hal_write (take (4 + length [0xFD, 5, 6 :: u8]) (tx_header 6 False 0 (nextOutSeq (chans ?s ! 0)) @ advertise @ drop 2 [0xFD, 5, 6]))]"
    by (rule waiting_transfer_overwritten [where t = 0]) (simp_all add: waiting_hal_def example_shtp_def)
  then show ?thesis by (simp add: example_shtp_def zero_Channel_def tx_header_def lo8_def hi8_def advertise_def)
qed

end
