(* ===== verification/Sh2_Hub.thy ===== *)
theory Sh2_Hub
  imports Shtp_Transfer
begin

text \<open>
  The SH-2 sensor hub client (\<^verbatim>\<open>bno08x_driver/include/sh2/sh2.c\<close>) on top of the transport: its
  state, the operations with their requests and answers, the handlers of the channels and of the
  advertisements, and the functions of the library. The state extends that of the transport instance.

  Sensor events and asynchronous events go to the callbacks of the application, if it has set them;
  what is handed over is kept in the state, in order. Memory of the caller that an operation fills is
  part of its operation data; except for the product ids, which the code tests, its pointers are not
  null. A packed structure is read from the payload buffer where it is accessed.
\<close>

section \<open>State\<close>

abbreviation GUID_EXECUTABLE :: u16 where "GUID_EXECUTABLE \<equiv> 1"
abbreviation GUID_SENSORHUB :: u16 where "GUID_SENSORHUB \<equiv> 2"
abbreviation SH2_MAX_REPORT_IDS :: nat where "SH2_MAX_REPORT_IDS \<equiv> 64"
abbreviation MAX_VER_LEN :: nat where "MAX_VER_LEN \<equiv> 16"
abbreviation MAX_FRS_WORDS :: nat where "MAX_FRS_WORDS \<equiv> 72"

datatype sh2_op =
    getProdIdOp | getSensorConfigOp | setSensorConfigOp | getFrsOp | setFrsOp | getErrorsOp | getCountsOp
  | sendCmdOp | reinitOp | saveDcdNowOp | getOscTypeOp | setCalConfigOp | getCalConfigOp | forceFlushOp
  | startCalOp | finishCalOp

record ProductId =
  resetCause :: u8
  swVersionMajor :: u8
  swVersionMinor :: u8
  swPartNumber :: u32
  swBuildNumber :: u32
  swVersionPatch :: u16
  reserved0 :: u8
  reserved1 :: u8

record ProductIds =
  prod_entry :: "ProductId list"
  numEntries :: u8

record sh2_SensorConfig =
  cfg_changeSensitivityEnabled :: bool
  cfg_changeSensitivityRelative :: bool
  cfg_wakeupEnabled :: bool
  cfg_alwaysOnEnabled :: bool
  cfg_changeSensitivity :: u16
  cfg_reportInterval_us :: u32
  cfg_batchInterval_us :: u32
  cfg_sensorSpecific :: u32

record ErrorRecord =
  err_severity :: u8
  err_sequence :: u8
  err_source :: u8
  err_error :: u8
  err_module :: u8
  err_code :: u8

record Counts =
  cnt_offered :: u32
  cnt_accepted :: u32
  cnt_on :: u32
  cnt_attempted :: u32

text \<open>The union of the operation data. Where a member has a pointer, what it points to.\<close>

datatype op_data =
    D_none
  | D_sendCmd u8 "u8 list"
  | D_getProdIds "ProductIds option" u8 u8
  | D_sensorConfig sh2_SensorConfig u8
  | D_getFrs u16 "u32 list" u16 u16
  | D_setFrs u16 "u32 list" u16 u16
  | D_getErrors u8 "ErrorRecord list" u16 u16
  | D_getCounts u8 Counts
  | D_calConfig u8
  | D_getCalConfig u8
  | D_forceFlush u8
  | D_getOscType u8
  | D_startCal u32
  | D_finishCal u8

datatype sh2_AsyncEvent = SH2_RESET | SH2_SHTP_EVENT shtp_Event | SH2_GET_FEATURE_RESP u8 sh2_SensorConfig

text \<open>
  \<open>hub_pHal\<close> and \<open>pShtp\<close>: the pointers are not null. \<open>lastHostInt\<close> and \<open>rollovers\<close> are static variables of a function; \<open>event_local\<close> is what the local
  event of the input handlers holds before it is set. The last two fields collect what the
  application's callbacks were given.
\<close>

record sh2 = shtp +
  hub_pHal :: bool
  pShtp :: bool
  resetComplete :: bool
  advertDone :: bool
  executableChan :: u8
  controlChan :: u8
  hub_version :: cname
  reports :: "(u8 \<times> u8) list"
  pOp :: "sh2_op option"
  opStatus :: int
  opData :: op_data
  lastCmdId :: u8
  cmdSeq :: u8
  nextCmdSeq :: u8
  asyncCallback :: bool
  sensorCallback :: bool
  frsData :: "u32 list"
  frsDataLen :: u16
  execBadPayload :: u32
  emptyPayloads :: u32
  unknownReportIds :: u32
  lastHostInt :: u32
  rollovers :: u32
  event_local :: "u8 list"
  sensor_events :: "sh2_SensorEvent list"
  async_events :: "sh2_AsyncEvent list"

text \<open>Fields of a packed structure at a place of the payload buffer.\<close>

definition rep8 :: "nat \<Rightarrow> ('c shtp_scheme, u8) prog" where
  "rep8 i = bnd (gets inPayload) (\<lambda>b. lift_opt (readu8 (drop i b)))"

definition rep16 :: "nat \<Rightarrow> ('c shtp_scheme, u16) prog" where
  "rep16 i = bnd (gets inPayload) (\<lambda>b. lift_opt (readu16 (drop i b)))"

definition rep32 :: "nat \<Rightarrow> ('c shtp_scheme, u32) prog" where
  "rep32 i = bnd (gets inPayload) (\<lambda>b. lift_opt (readu32 (drop i b)))"

section \<open>Requests\<close>

abbreviation SENSORHUB_COMMAND_REQ :: u8 where "SENSORHUB_COMMAND_REQ \<equiv> 0xF2"
abbreviation SENSORHUB_COMMAND_RESP :: u8 where "SENSORHUB_COMMAND_RESP \<equiv> 0xF1"
abbreviation SENSORHUB_PROD_ID_REQ :: u8 where "SENSORHUB_PROD_ID_REQ \<equiv> 0xF9"
abbreviation SENSORHUB_PROD_ID_RESP :: u8 where "SENSORHUB_PROD_ID_RESP \<equiv> 0xF8"
abbreviation SENSORHUB_GET_FEATURE_REQ :: u8 where "SENSORHUB_GET_FEATURE_REQ \<equiv> 0xFE"
abbreviation SENSORHUB_GET_FEATURE_RESP :: u8 where "SENSORHUB_GET_FEATURE_RESP \<equiv> 0xFC"
abbreviation SENSORHUB_SET_FEATURE_CMD :: u8 where "SENSORHUB_SET_FEATURE_CMD \<equiv> 0xFD"
abbreviation SENSORHUB_FRS_WRITE_REQ :: u8 where "SENSORHUB_FRS_WRITE_REQ \<equiv> 0xF7"
abbreviation SENSORHUB_FRS_WRITE_DATA_REQ :: u8 where "SENSORHUB_FRS_WRITE_DATA_REQ \<equiv> 0xF6"
abbreviation SENSORHUB_FRS_WRITE_RESP :: u8 where "SENSORHUB_FRS_WRITE_RESP \<equiv> 0xF5"
abbreviation SENSORHUB_FRS_READ_REQ :: u8 where "SENSORHUB_FRS_READ_REQ \<equiv> 0xF4"
abbreviation SENSORHUB_FRS_READ_RESP :: u8 where "SENSORHUB_FRS_READ_RESP \<equiv> 0xF3"
abbreviation SENSORHUB_BASE_TIMESTAMP_REF :: u8 where "SENSORHUB_BASE_TIMESTAMP_REF \<equiv> 0xFB"
abbreviation SENSORHUB_TIMESTAMP_REBASE :: u8 where "SENSORHUB_TIMESTAMP_REBASE \<equiv> 0xFA"
abbreviation SENSORHUB_FORCE_SENSOR_FLUSH :: u8 where "SENSORHUB_FORCE_SENSOR_FLUSH \<equiv> 0xF0"
abbreviation SENSORHUB_FLUSH_COMPLETED :: u8 where "SENSORHUB_FLUSH_COMPLETED \<equiv> 0xEF"

abbreviation SH2_CMD_ERRORS :: u8 where "SH2_CMD_ERRORS \<equiv> 1"
abbreviation SH2_CMD_COUNTS :: u8 where "SH2_CMD_COUNTS \<equiv> 2"
abbreviation SH2_CMD_TARE :: u8 where "SH2_CMD_TARE \<equiv> 3"
abbreviation SH2_CMD_INITIALIZE :: u8 where "SH2_CMD_INITIALIZE \<equiv> 4"
abbreviation SH2_CMD_DCD :: u8 where "SH2_CMD_DCD \<equiv> 6"
abbreviation SH2_CMD_ME_CAL :: u8 where "SH2_CMD_ME_CAL \<equiv> 7"
abbreviation SH2_CMD_DCD_SAVE :: u8 where "SH2_CMD_DCD_SAVE \<equiv> 9"
abbreviation SH2_CMD_GET_OSC_TYPE :: u8 where "SH2_CMD_GET_OSC_TYPE \<equiv> 0x0A"
abbreviation SH2_CMD_CLEAR_DCD_AND_RESET :: u8 where "SH2_CMD_CLEAR_DCD_AND_RESET \<equiv> 0x0B"
abbreviation SH2_CMD_CAL :: u8 where "SH2_CMD_CAL \<equiv> 0x0C"
abbreviation SH2_CMD_INTERACTIVE_ZRO :: u8 where "SH2_CMD_INTERACTIVE_ZRO \<equiv> 0x0E"

definition opCompleted :: "int \<Rightarrow> 'u sh2_scheme \<Rightarrow> 'u sh2_scheme" where
  "opCompleted status s = s\<lparr>opStatus := status, pOp := None\<rparr>"

definition set_opData :: "op_data \<Rightarrow> ('u sh2_scheme, unit) prog" where
  "set_opData d = modify (opData_update (\<lambda>_. d))"

definition complete :: "int \<Rightarrow> ('u sh2_scheme, unit) prog" where
  "complete status = modify (opCompleted status)"

text \<open>The transport is used through a pointer that is null before the library is opened.\<close>

definition shtp_send_at :: "'u sh2_scheme sender \<Rightarrow> u8 \<Rightarrow> u8 list \<Rightarrow> ('u sh2_scheme, int) prog" where
  "shtp_send_at send ch data = bnd (gets pShtp) (\<lambda>p. if p then send ch data else fault_with Null_Pointer)"

definition sendExecutable :: "'u sh2_scheme sender \<Rightarrow> u8 \<Rightarrow> ('u sh2_scheme, int) prog" where
  "sendExecutable send cmd = bnd (gets executableChan) (\<lambda>ch. shtp_send_at send ch [cmd])"

definition sendCtrl :: "'u sh2_scheme sender \<Rightarrow> u8 list \<Rightarrow> ('u sh2_scheme, int) prog" where
  "sendCtrl send data = bnd (gets controlChan) (\<lambda>ch. shtp_send_at send ch data)"

text \<open>A command with its nine parameters, and the commands with the first few of them.\<close>

definition sendCmd :: "'u sh2_scheme sender \<Rightarrow> u8 \<Rightarrow> u8 list \<Rightarrow> ('u sh2_scheme, int) prog" where
  "sendCmd send cmd p =
     seqp (modify (\<lambda>s. s\<lparr>lastCmdId := cmd, cmdSeq := nextCmdSeq s, nextCmdSeq := nextCmdSeq s + 1\<rparr>))
     (bnd (gets cmdSeq) (\<lambda>seq. sendCtrl send ([SENSORHUB_COMMAND_REQ, seq, cmd] @ p)))"

definition sendCmd0 :: "'u sh2_scheme sender \<Rightarrow> u8 \<Rightarrow> ('u sh2_scheme, int) prog" where
  "sendCmd0 send cmd = sendCmd send cmd [0, 0, 0, 0, 0, 0, 0, 0, 0]"

definition sendCmd1 :: "'u sh2_scheme sender \<Rightarrow> u8 \<Rightarrow> u8 \<Rightarrow> ('u sh2_scheme, int) prog" where
  "sendCmd1 send cmd p0 = sendCmd send cmd [p0, 0, 0, 0, 0, 0, 0, 0, 0]"

definition sendCmd2 :: "'u sh2_scheme sender \<Rightarrow> u8 \<Rightarrow> u8 \<Rightarrow> u8 \<Rightarrow> ('u sh2_scheme, int) prog" where
  "sendCmd2 send cmd p0 p1 = sendCmd send cmd [p0, p1, 0, 0, 0, 0, 0, 0, 0]"

text \<open>Whether a report is not the answer to the last command.\<close>

definition wrongResponse :: "nat \<Rightarrow> ('u sh2_scheme, bool) prog" where
  "wrongResponse i =
     bnd (gets (\<lambda>s. (lastCmdId s, cmdSeq s))) (\<lambda>(cmd, seq).
     bnd (rep8 i) (\<lambda>rid. if rid \<noteq> SENSORHUB_COMMAND_RESP then ret True else
     bnd (rep8 (i + 2)) (\<lambda>c. if c \<noteq> cmd then ret True else
     bnd (rep8 (i + 3)) (\<lambda>q. ret (q \<noteq> seq)))))"

section \<open>The operations\<close>

definition getProdIdStart :: "'u sh2_scheme sender \<Rightarrow> ('u sh2_scheme, int) prog" where
  "getProdIdStart send =
     seqp (modify (\<lambda>s. s\<lparr>opData := (case opData s of D_getProdIds ids _ _ \<Rightarrow> D_getProdIds ids 0 4 | d \<Rightarrow> d)\<rparr>))
     (sendCtrl send [SENSORHUB_PROD_ID_REQ, 0])"

definition rep_ProductId :: "nat \<Rightarrow> ('u sh2_scheme, ProductId) prog" where
  "rep_ProductId i =
     bnd (rep8 (i + 1)) (\<lambda>cause. bnd (rep8 (i + 2)) (\<lambda>major. bnd (rep8 (i + 3)) (\<lambda>minor.
     bnd (rep32 (i + 4)) (\<lambda>part. bnd (rep32 (i + 8)) (\<lambda>build. bnd (rep16 (i + 12)) (\<lambda>patch.
     bnd (rep8 (i + 14)) (\<lambda>r0. bnd (rep8 (i + 15)) (\<lambda>r1.
     ret \<lparr>resetCause = cause, swVersionMajor = major, swVersionMinor = minor, swPartNumber = part,
       swBuildNumber = build, swVersionPatch = patch, reserved0 = r0, reserved1 = r1\<rparr>))))))))"

text \<open>The number of entries is stored through the pointer without a test of it.\<close>

definition getProdIdRx :: "nat \<Rightarrow> ('u sh2_scheme, unit) prog" where
  "getProdIdRx i =
     bnd (rep8 i) (\<lambda>rid. if rid \<noteq> SENSORHUB_PROD_ID_RESP then ret () else
     bnd (gets opData) (\<lambda>d. case d of
       D_getProdIds (Some ids) next expected \<Rightarrow>
         seqp (if next < expected then
             bnd (rep_ProductId i) (\<lambda>pid.
             if length (prod_entry ids) \<le> unat next then fault_with Undefined_Behaviour else
             modify (opData_update (\<lambda>_. D_getProdIds (Some (ids\<lparr>prod_entry := (prod_entry ids)[unat next := pid]\<rparr>))
               (next + 1) (if swPartNumber pid = 10004095 then 5 else expected))))
           else ret ())
         (bnd (gets opData) (\<lambda>d. case d of
            D_getProdIds (Some ids) next expected \<Rightarrow>
              if next \<ge> expected then
                modify (\<lambda>s. opCompleted SH2_OK (s\<lparr>opData := D_getProdIds (Some (ids\<lparr>numEntries := next\<rparr>)) next expected\<rparr>))
              else ret ()
          | _ \<Rightarrow> ret ()))
     | D_getProdIds None next expected \<Rightarrow> fault_with Null_Pointer
     | _ \<Rightarrow> fault_with Undefined_Behaviour))"

definition getSensorConfigStart :: "'u sh2_scheme sender \<Rightarrow> ('u sh2_scheme, int) prog" where
  "getSensorConfigStart send = bnd (gets opData) (\<lambda>d. case d of
     D_sensorConfig _ sensorId \<Rightarrow> sendCtrl send [SENSORHUB_GET_FEATURE_REQ, sensorId]
   | _ \<Rightarrow> fault_with Undefined_Behaviour)"

text \<open>The configuration in a feature response.\<close>

definition rep_SensorConfig :: "nat \<Rightarrow> ('u sh2_scheme, sh2_SensorConfig) prog" where
  "rep_SensorConfig i =
     bnd (rep8 (i + 2)) (\<lambda>flags. bnd (rep16 (i + 3)) (\<lambda>sens. bnd (rep32 (i + 5)) (\<lambda>interval.
     bnd (rep32 (i + 9)) (\<lambda>batch. bnd (rep32 (i + 13)) (\<lambda>specific.
     ret \<lparr>cfg_changeSensitivityEnabled = (flags AND 2 \<noteq> 0), cfg_changeSensitivityRelative = (flags AND 1 \<noteq> 0),
       cfg_wakeupEnabled = (flags AND 4 \<noteq> 0), cfg_alwaysOnEnabled = (flags AND 8 \<noteq> 0), cfg_changeSensitivity = sens,
       cfg_reportInterval_us = interval, cfg_batchInterval_us = batch, cfg_sensorSpecific = specific\<rparr>)))))"

definition getSensorConfigRx :: "nat \<Rightarrow> ('u sh2_scheme, unit) prog" where
  "getSensorConfigRx i = bnd (rep8 i) (\<lambda>rid. if rid \<noteq> SENSORHUB_GET_FEATURE_RESP then ret () else
     bnd (rep8 (i + 1)) (\<lambda>fid. bnd (gets opData) (\<lambda>d. case d of
       D_sensorConfig _ sensorId \<Rightarrow>
         if fid \<noteq> sensorId then ret () else
         bnd (rep_SensorConfig i) (\<lambda>cfg. modify (\<lambda>s. opCompleted SH2_OK (s\<lparr>opData := D_sensorConfig cfg sensorId\<rparr>)))
     | _ \<Rightarrow> fault_with Undefined_Behaviour)))"

definition set_feature_req :: "u8 \<Rightarrow> sh2_SensorConfig \<Rightarrow> u8 list" where
  "set_feature_req sensorId cfg =
     [SENSORHUB_SET_FEATURE_CMD, sensorId,
      (if cfg_changeSensitivityEnabled cfg then 2 else 0) OR (if cfg_changeSensitivityRelative cfg then 1 else 0) OR
      (if cfg_wakeupEnabled cfg then 4 else 0) OR (if cfg_alwaysOnEnabled cfg then 8 else 0)] @
     bytes_le 2 (cfg_changeSensitivity cfg) @ bytes_le 4 (cfg_reportInterval_us cfg) @
     bytes_le 4 (cfg_batchInterval_us cfg) @ bytes_le 4 (cfg_sensorSpecific cfg)"

definition setSensorConfigStart :: "'u sh2_scheme sender \<Rightarrow> ('u sh2_scheme, int) prog" where
  "setSensorConfigStart send = bnd (gets opData) (\<lambda>d. case d of
     D_sensorConfig cfg sensorId \<Rightarrow>
       bnd (sendCtrl send (set_feature_req sensorId cfg)) (\<lambda>rc. seqp (complete rc) (ret rc))
   | _ \<Rightarrow> fault_with Undefined_Behaviour)"

text \<open>
  Reading a record of the flash record system. A word goes to the caller's array when the offset is
  not above the number of words given; an empty record and a missed offset do not end the function.
\<close>

definition with_getFrs :: "(u16 \<Rightarrow> u32 list \<Rightarrow> u16 \<Rightarrow> u16 \<Rightarrow> ('u sh2_scheme, 'a) prog) \<Rightarrow> ('u sh2_scheme, 'a) prog" where
  "with_getFrs k = bnd (gets opData) (\<lambda>d. case d of
     D_getFrs frsType pData words nextOffset \<Rightarrow> k frsType pData words nextOffset
   | _ \<Rightarrow> fault_with Undefined_Behaviour)"

definition getFrsStart :: "'u sh2_scheme sender \<Rightarrow> ('u sh2_scheme, int) prog" where
  "getFrsStart send = with_getFrs (\<lambda>frsType pData words _.
     seqp (set_opData (D_getFrs frsType pData words 0))
     (sendCtrl send ([SENSORHUB_FRS_READ_REQ, 0] @ bytes_le 2 (0 :: u16) @ bytes_le 2 frsType @ bytes_le 2 (0 :: u16))))"

definition frs_set_words :: "u16 \<Rightarrow> ('u sh2_scheme, unit) prog" where
  "frs_set_words w = with_getFrs (\<lambda>frsType pData _ nextOffset. set_opData (D_getFrs frsType pData w nextOffset))"

definition frs_store :: "u16 \<Rightarrow> nat \<Rightarrow> u32 \<Rightarrow> u16 \<Rightarrow> ('u sh2_scheme, unit) prog" where
  "frs_store offset k x nextOff = with_getFrs (\<lambda>frsType pData words nextOffset.
     if words = 0 \<or> offset \<le> words then
       if length pData \<le> k then fault_with Undefined_Behaviour
       else set_opData (D_getFrs frsType (pData[k := x]) words nextOff)
     else ret ())"

abbreviation FRS_READ_STATUS :: "u8 \<Rightarrow> u8" where "FRS_READ_STATUS x \<equiv> x AND 0x0F"
abbreviation FRS_READ_DATALEN :: "u8 \<Rightarrow> u8" where "FRS_READ_DATALEN x \<equiv> drop_bit 4 x AND 0x0F"

definition frs_read_failed :: "u8 \<Rightarrow> bool" where
  "frs_read_failed status \<longleftrightarrow> status = 1 \<or> status = 2 \<or> status = 4 \<or> status = 8"

definition frs_read_done :: "u8 \<Rightarrow> bool" where
  "frs_read_done status \<longleftrightarrow> status = 3 \<or> status = 6 \<or> status = 7"

definition getFrsRx :: "nat \<Rightarrow> ('u sh2_scheme, unit) prog" where
  "getFrsRx i = bnd (rep8 i) (\<lambda>rid. if rid \<noteq> SENSORHUB_FRS_READ_RESP then ret () else
     bnd (rep8 (i + 1)) (\<lambda>len_status. let status = FRS_READ_STATUS len_status in
     if frs_read_failed status then complete SH2_ERR_HUB else
     seqp (if status = 5 then seqp (frs_set_words 0) (complete SH2_OK) else ret ())
     (bnd (rep16 (i + 2)) (\<lambda>offset.
     bnd (with_getFrs (\<lambda>_ _ _ nextOffset. ret nextOffset)) (\<lambda>nextOffset.
     seqp (if offset \<noteq> nextOffset then seqp (frs_set_words 0) (complete SH2_ERR_IO) else ret ())
     (bnd (rep32 (i + 4)) (\<lambda>data0.
     seqp (frs_store offset (unat offset) data0 (offset + 1))
     (seqp (if FRS_READ_DATALEN len_status = 2 then
              bnd (rep32 (i + 8)) (\<lambda>data1. frs_store offset (unat offset + 1) data1 (offset + 2))
            else ret ())
     (if frs_read_done status then
        bnd (with_getFrs (\<lambda>_ _ _ nextOffset. ret nextOffset)) (\<lambda>w. seqp (frs_set_words w) (complete SH2_OK))
      else ret ())))))))))"

definition setFrsStart :: "'u sh2_scheme sender \<Rightarrow> ('u sh2_scheme, int) prog" where
  "setFrsStart send = bnd (gets opData) (\<lambda>d. case d of
     D_setFrs frsType pData words _ \<Rightarrow>
       seqp (set_opData (D_setFrs frsType pData words 0))
       (sendCtrl send ([SENSORHUB_FRS_WRITE_REQ, 0] @ bytes_le 2 words @ bytes_le 2 frsType))
   | _ \<Rightarrow> fault_with Undefined_Behaviour)"

definition frs_write_failed :: "u8 \<Rightarrow> bool" where
  "frs_write_failed status \<longleftrightarrow>
     status = 1 \<or> status = 2 \<or> status = 5 \<or> status = 6 \<or> status = 7 \<or> status = 9 \<or> status = 10 \<or> status = 11"

text \<open>The next one or two words in a request; the result of the send is not looked at.\<close>

definition frs_write_data_req :: "u16 \<Rightarrow> u32 \<Rightarrow> u32 \<Rightarrow> u8 list" where
  "frs_write_data_req offset data0 data1 =
     [SENSORHUB_FRS_WRITE_DATA_REQ, 0] @ bytes_le 2 offset @ bytes_le 4 data0 @ bytes_le 4 data1"

definition setFrs_data :: "'u sh2_scheme sender \<Rightarrow> ('u sh2_scheme, unit) prog" where
  "setFrs_data send = bnd (gets opData) (\<lambda>d. case d of
     D_setFrs frsType pData words offset \<Rightarrow>
       if \<not> offset < words then ret ()
       else if length pData \<le> unat offset then fault_with Undefined_Behaviour
       else if offset + 1 < words then
         if length pData \<le> unat (offset + 1) then fault_with Undefined_Behaviour
         else seqp (set_opData (D_setFrs frsType pData words (offset + 2)))
           (bnd (sendCtrl send (frs_write_data_req offset (pData ! unat offset) (pData ! unat (offset + 1)))) (\<lambda>_. ret ()))
       else seqp (set_opData (D_setFrs frsType pData words (offset + 1)))
         (bnd (sendCtrl send (frs_write_data_req offset (pData ! unat offset) 0)) (\<lambda>_. ret ()))
   | _ \<Rightarrow> fault_with Undefined_Behaviour)"

definition setFrsRx :: "'u sh2_scheme sender \<Rightarrow> nat \<Rightarrow> ('u sh2_scheme, unit) prog" where
  "setFrsRx send i = bnd (rep8 i) (\<lambda>rid. if rid \<noteq> SENSORHUB_FRS_WRITE_RESP then ret () else
     bnd (rep8 (i + 1)) (\<lambda>status.
     if status = 0 \<or> status = 4 then setFrs_data send
     else if frs_write_failed status then complete SH2_ERR_HUB
     else if status = 3 then complete SH2_OK
     else ret ()))"

text \<open>The operations that send a command and wait for its response.\<close>

definition if_answered :: "nat \<Rightarrow> ('u sh2_scheme, unit) prog \<Rightarrow> ('u sh2_scheme, unit) prog" where
  "if_answered i m = bnd (wrongResponse i) (\<lambda>wrong. if wrong then ret () else m)"

abbreviation resp_r :: "nat \<Rightarrow> nat \<Rightarrow> nat" where "resp_r i k \<equiv> i + 5 + k"

definition getErrorsStart :: "'u sh2_scheme sender \<Rightarrow> ('u sh2_scheme, int) prog" where
  "getErrorsStart send = bnd (gets opData) (\<lambda>d. case d of
     D_getErrors severity errs num _ \<Rightarrow>
       seqp (set_opData (D_getErrors severity errs num 0)) (sendCmd1 send SH2_CMD_ERRORS severity)
   | _ \<Rightarrow> fault_with Undefined_Behaviour)"

definition rep_ErrorRecord :: "nat \<Rightarrow> ('u sh2_scheme, ErrorRecord) prog" where
  "rep_ErrorRecord i =
     bnd (rep8 (resp_r i 0)) (\<lambda>severity. bnd (rep8 (resp_r i 1)) (\<lambda>seq. bnd (rep8 (resp_r i 2)) (\<lambda>src.
     bnd (rep8 (resp_r i 3)) (\<lambda>e. bnd (rep8 (resp_r i 4)) (\<lambda>m. bnd (rep8 (resp_r i 5)) (\<lambda>c.
     ret \<lparr>err_severity = severity, err_sequence = seq, err_source = src, err_error = e, err_module = m, err_code = c\<rparr>))))))"

definition getErrorsRx :: "nat \<Rightarrow> ('u sh2_scheme, unit) prog" where
  "getErrorsRx i = if_answered i (bnd (rep8 (resp_r i 2)) (\<lambda>src. bnd (gets opData) (\<lambda>d. case d of
     D_getErrors severity errs num errsRead \<Rightarrow>
       if src = 255 then seqp (set_opData (D_getErrors severity errs errsRead errsRead)) (complete SH2_OK)
       else if errsRead < num then
         bnd (rep_ErrorRecord i) (\<lambda>e.
         if length errs \<le> unat errsRead then fault_with Undefined_Behaviour
         else set_opData (D_getErrors severity (errs[unat errsRead := e]) num (errsRead + 1)))
       else ret ()
   | _ \<Rightarrow> fault_with Undefined_Behaviour)))"

definition getCountsStart :: "'u sh2_scheme sender \<Rightarrow> ('u sh2_scheme, int) prog" where
  "getCountsStart send = bnd (gets opData) (\<lambda>d. case d of
     D_getCounts sensorId _ \<Rightarrow> sendCmd2 send SH2_CMD_COUNTS 0 sensorId
   | _ \<Rightarrow> fault_with Undefined_Behaviour)"

definition getCountsRx :: "nat \<Rightarrow> ('u sh2_scheme, unit) prog" where
  "getCountsRx i = if_answered i (bnd (rep8 (i + 4)) (\<lambda>respSeq. bnd (gets opData) (\<lambda>d. case d of
     D_getCounts sensorId c \<Rightarrow>
       bnd (rep32 (resp_r i 3)) (\<lambda>a. bnd (rep32 (resp_r i 7)) (\<lambda>b.
       seqp (set_opData (D_getCounts sensorId
         (if respSeq = 0 then c\<lparr>cnt_offered := a, cnt_accepted := b\<rparr> else c\<lparr>cnt_on := a, cnt_attempted := b\<rparr>)))
       (if respSeq = 1 then complete SH2_OK else ret ())))
   | _ \<Rightarrow> fault_with Undefined_Behaviour)))"

definition sendCmdStart :: "'u sh2_scheme sender \<Rightarrow> ('u sh2_scheme, int) prog" where
  "sendCmdStart send = bnd (gets opData) (\<lambda>d. case d of
     D_sendCmd cmd p \<Rightarrow> bnd (sendCmd send cmd p) (\<lambda>status. seqp (complete status) (ret status))
   | _ \<Rightarrow> fault_with Undefined_Behaviour)"

definition reinitStart :: "'u sh2_scheme sender \<Rightarrow> ('u sh2_scheme, int) prog" where
  "reinitStart send = sendCmd1 send SH2_CMD_INITIALIZE 1"

definition reinitRx :: "nat \<Rightarrow> ('u sh2_scheme, unit) prog" where
  "reinitRx i = if_answered i (bnd (rep8 (resp_r i 0)) (\<lambda>r0. complete (if r0 \<noteq> 0 then SH2_ERR_HUB else SH2_OK)))"

definition saveDcdNowStart :: "'u sh2_scheme sender \<Rightarrow> ('u sh2_scheme, int) prog" where
  "saveDcdNowStart send = sendCmd0 send SH2_CMD_DCD"

definition saveDcdNowRx :: "nat \<Rightarrow> ('u sh2_scheme, unit) prog" where
  "saveDcdNowRx i = if_answered i (bnd (rep8 (resp_r i 0)) (\<lambda>r0. complete (if r0 \<noteq> 0 then SH2_ERR_HUB else SH2_OK)))"

definition getOscTypeStart :: "'u sh2_scheme sender \<Rightarrow> ('u sh2_scheme, int) prog" where
  "getOscTypeStart send = sendCmd0 send SH2_CMD_GET_OSC_TYPE"

definition getOscTypeRx :: "nat \<Rightarrow> ('u sh2_scheme, unit) prog" where
  "getOscTypeRx i = if_answered i (bnd (rep8 (resp_r i 0)) (\<lambda>r0. bnd (gets opData) (\<lambda>d. case d of
     D_getOscType _ \<Rightarrow> seqp (set_opData (D_getOscType r0)) (complete SH2_OK)
   | _ \<Rightarrow> fault_with Undefined_Behaviour)))"

abbreviation SH2_CAL_ACCEL :: u8 where "SH2_CAL_ACCEL \<equiv> 1"
abbreviation SH2_CAL_GYRO :: u8 where "SH2_CAL_GYRO \<equiv> 2"
abbreviation SH2_CAL_MAG :: u8 where "SH2_CAL_MAG \<equiv> 4"
abbreviation SH2_CAL_PLANAR :: u8 where "SH2_CAL_PLANAR \<equiv> 8"

definition cal_flag :: "u8 \<Rightarrow> u8 \<Rightarrow> u8" where
  "cal_flag sensors m = (if sensors AND m \<noteq> 0 then 1 else 0)"

definition setCalConfigStart :: "'u sh2_scheme sender \<Rightarrow> ('u sh2_scheme, int) prog" where
  "setCalConfigStart send = bnd (gets opData) (\<lambda>d. case d of
     D_calConfig sensors \<Rightarrow> sendCmd send SH2_CMD_ME_CAL
       [cal_flag sensors SH2_CAL_ACCEL, cal_flag sensors SH2_CAL_GYRO, cal_flag sensors SH2_CAL_MAG, 0,
        cal_flag sensors SH2_CAL_PLANAR, 0, 0, 0, 0]
   | _ \<Rightarrow> fault_with Undefined_Behaviour)"

definition setCalConfigRx :: "nat \<Rightarrow> ('u sh2_scheme, unit) prog" where
  "setCalConfigRx i = if_answered i (bnd (rep8 (resp_r i 0)) (\<lambda>r0. complete (if r0 \<noteq> 0 then SH2_ERR_HUB else SH2_OK)))"

definition getCalConfigStart :: "'u sh2_scheme sender \<Rightarrow> ('u sh2_scheme, int) prog" where
  "getCalConfigStart send = sendCmd send SH2_CMD_ME_CAL [0, 0, 0, 1, 0, 0, 0, 0, 0]"

definition cal_sensors :: "u8 \<Rightarrow> u8 \<Rightarrow> u8 \<Rightarrow> u8 \<Rightarrow> u8" where
  "cal_sensors r1 r2 r3 r4 =
     (if r1 \<noteq> 0 then SH2_CAL_ACCEL else 0) OR (if r2 \<noteq> 0 then SH2_CAL_GYRO else 0) OR
     (if r3 \<noteq> 0 then SH2_CAL_MAG else 0) OR (if r4 \<noteq> 0 then SH2_CAL_PLANAR else 0)"

definition getCalConfigRx :: "nat \<Rightarrow> ('u sh2_scheme, unit) prog" where
  "getCalConfigRx i = if_answered i (bnd (rep8 (resp_r i 0)) (\<lambda>r0.
     if r0 \<noteq> 0 then complete SH2_ERR_HUB else
     bnd (rep8 (resp_r i 1)) (\<lambda>r1. bnd (rep8 (resp_r i 2)) (\<lambda>r2. bnd (rep8 (resp_r i 3)) (\<lambda>r3.
     bnd (rep8 (resp_r i 4)) (\<lambda>r4. bnd (gets opData) (\<lambda>d. case d of
       D_getCalConfig _ \<Rightarrow> seqp (set_opData (D_getCalConfig (cal_sensors r1 r2 r3 r4))) (complete SH2_OK)
     | _ \<Rightarrow> fault_with Undefined_Behaviour)))))))"

definition forceFlushStart :: "'u sh2_scheme sender \<Rightarrow> ('u sh2_scheme, int) prog" where
  "forceFlushStart send = bnd (gets opData) (\<lambda>d. case d of
     D_forceFlush sensorId \<Rightarrow> sendCtrl send [SENSORHUB_FORCE_SENSOR_FLUSH, sensorId]
   | _ \<Rightarrow> fault_with Undefined_Behaviour)"

definition forceFlushRx :: "nat \<Rightarrow> ('u sh2_scheme, unit) prog" where
  "forceFlushRx i = bnd (rep8 i) (\<lambda>rid. if rid \<noteq> SENSORHUB_FLUSH_COMPLETED then ret () else
     bnd (rep8 (i + 1)) (\<lambda>sid. bnd (gets opData) (\<lambda>d. case d of
       D_forceFlush sensorId \<Rightarrow> if sid \<noteq> sensorId then ret () else complete SH2_OK
     | _ \<Rightarrow> fault_with Undefined_Behaviour)))"

definition startCalStart :: "'u sh2_scheme sender \<Rightarrow> ('u sh2_scheme, int) prog" where
  "startCalStart send = bnd (gets opData) (\<lambda>d. case d of
     D_startCal interval \<Rightarrow> sendCmd send SH2_CMD_CAL
       [0, ucast (interval AND 0xFF), ucast (drop_bit 8 interval AND 0xFF), ucast (drop_bit 16 interval AND 0xFF),
        ucast (drop_bit 24 interval AND 0xFF), 0, 0, 0, 0]
   | _ \<Rightarrow> fault_with Undefined_Behaviour)"

definition startCalRx :: "nat \<Rightarrow> ('u sh2_scheme, unit) prog" where
  "startCalRx i = if_answered i (complete SH2_OK)"

definition finishCalStart :: "'u sh2_scheme sender \<Rightarrow> ('u sh2_scheme, int) prog" where
  "finishCalStart send = sendCmd1 send SH2_CMD_CAL 1"

definition finishCalRx :: "nat \<Rightarrow> ('u sh2_scheme, unit) prog" where
  "finishCalRx i = if_answered i (bnd (rep8 (resp_r i 1)) (\<lambda>r1.
     seqp (set_opData (D_finishCal r1)) (complete (if r1 = 0 then SH2_OK else SH2_ERR_HUB))))"

text \<open>The operations as the code tables them: none of them has a time limit, some no receiver.\<close>

definition op_timeout :: "sh2_op \<Rightarrow> u32" where
  "op_timeout op = 0"

fun op_start :: "'u sh2_scheme sender \<Rightarrow> sh2_op \<Rightarrow> ('u sh2_scheme, int) prog" where
  "op_start send getProdIdOp = getProdIdStart send"
| "op_start send getSensorConfigOp = getSensorConfigStart send"
| "op_start send setSensorConfigOp = setSensorConfigStart send"
| "op_start send getFrsOp = getFrsStart send"
| "op_start send setFrsOp = setFrsStart send"
| "op_start send getErrorsOp = getErrorsStart send"
| "op_start send getCountsOp = getCountsStart send"
| "op_start send sendCmdOp = sendCmdStart send"
| "op_start send reinitOp = reinitStart send"
| "op_start send saveDcdNowOp = saveDcdNowStart send"
| "op_start send getOscTypeOp = getOscTypeStart send"
| "op_start send setCalConfigOp = setCalConfigStart send"
| "op_start send getCalConfigOp = getCalConfigStart send"
| "op_start send forceFlushOp = forceFlushStart send"
| "op_start send startCalOp = startCalStart send"
| "op_start send finishCalOp = finishCalStart send"

fun op_rx :: "'u sh2_scheme sender \<Rightarrow> sh2_op \<Rightarrow> nat \<Rightarrow> ('u sh2_scheme, unit) prog" where
  "op_rx send getProdIdOp = getProdIdRx"
| "op_rx send getSensorConfigOp = getSensorConfigRx"
| "op_rx send setSensorConfigOp = (\<lambda>_. ret ())"
| "op_rx send getFrsOp = getFrsRx"
| "op_rx send setFrsOp = setFrsRx send"
| "op_rx send getErrorsOp = getErrorsRx"
| "op_rx send getCountsOp = getCountsRx"
| "op_rx send sendCmdOp = (\<lambda>_. ret ())"
| "op_rx send reinitOp = reinitRx"
| "op_rx send saveDcdNowOp = saveDcdNowRx"
| "op_rx send getOscTypeOp = getOscTypeRx"
| "op_rx send setCalConfigOp = setCalConfigRx"
| "op_rx send getCalConfigOp = getCalConfigRx"
| "op_rx send forceFlushOp = forceFlushRx"
| "op_rx send startCalOp = startCalRx"
| "op_rx send finishCalOp = finishCalRx"

definition opRx :: "'u sh2_scheme sender \<Rightarrow> nat \<Rightarrow> ('u sh2_scheme, unit) prog" where
  "opRx send i = bnd (gets pOp) (\<lambda>p. case p of None \<Rightarrow> ret () | Some op \<Rightarrow> op_rx send op i)"

definition opStart :: "'u sh2_scheme sender \<Rightarrow> sh2_op \<Rightarrow> ('u sh2_scheme, int) prog" where
  "opStart send op = bnd (gets pOp) (\<lambda>p.
     if p \<noteq> None then ret SH2_ERR_OP_IN_PROGRESS else
     seqp (modify (\<lambda>s. s\<lparr>pOp := Some op, opStatus := SH2_OK\<rparr>))
     (bnd (op_start send op) (\<lambda>rc.
     seqp (if rc \<noteq> SH2_OK then modify (\<lambda>s. s\<lparr>opStatus := rc, pOp := None\<rparr>) else ret ())
     (ret rc))))"

end
