(* ===== verification/Sh2_Handlers.thy ===== *)
theory Sh2_Handlers
  imports Sh2_Hub
begin

text \<open>
  What the SH-2 library (\<^verbatim>\<open>bno08x_driver/include/sh2/sh2.c\<close>) does with what the transport hands it:
  the handlers of the advertisements, of the five channels and of the transport's events, and the loop
  that waits for an operation. Together they are the clients of the transport.

  The cursors of the handlers are natural numbers: a report is read from the payload buffer, so they
  stay far below the bound of their 16 bits.
\<close>

section \<open>Advertisements\<close>

abbreviation TAG_SH2_VERSION :: u8 where "TAG_SH2_VERSION \<equiv> 0x80"
abbreviation TAG_SH2_REPORT_LENGTHS :: u8 where "TAG_SH2_REPORT_LENGTHS \<equiv> 0x81"

definition report_lengths :: "nat \<Rightarrow> u8 list \<Rightarrow> (u8 \<times> u8) list option" where
  "report_lengths n val =
     (if 2 * n \<le> length val then Some (map (\<lambda>k. (val ! (2 * k), val ! (2 * k + 1))) [0..<n]) else None)"

definition sensorhubAdvertHdlr :: "u8 \<Rightarrow> u8 \<Rightarrow> u8 list option \<Rightarrow> ('u sh2_scheme, unit) prog" where
  "sensorhubAdvertHdlr tag len val =
     (if tag = TAG_SH2_VERSION then
        (case val of None \<Rightarrow> fault_with Null_Pointer
         | Some p \<Rightarrow> bnd (lift_opt (strcpy (MAX_VER_LEN + 1) p)) (\<lambda>v. modify (hub_version_update (\<lambda>_. v))))
      else if tag = TAG_SH2_REPORT_LENGTHS then
        (case val of None \<Rightarrow> fault_with Null_Pointer
         | Some p \<Rightarrow> let n = min (unat len div 2) SH2_MAX_REPORT_IDS in
             bnd (lift_opt (report_lengths n p)) (\<lambda>rs. modify (reports_update (\<lambda>old. rs @ drop n old))))
      else if tag = TAG_NULL then
        modify (\<lambda>s. s\<lparr>executableChan := shtp_chanNo (cname_of ''executable'') (cname_of ''device'') s,
          controlChan := shtp_chanNo (cname_of ''sensorhub'') (cname_of ''control'') s, advertDone := True\<rparr>)
      else ret ())"

definition executableAdvertHdlr :: "u8 \<Rightarrow> u8 \<Rightarrow> u8 list option \<Rightarrow> ('u sh2_scheme, unit) prog" where
  "executableAdvertHdlr tag len val = ret ()"

section \<open>The control channel\<close>

definition getReportLen :: "(u8 \<times> u8) list \<Rightarrow> u8 \<Rightarrow> u8" where
  "getReportLen rs rid = (case List.find (\<lambda>r. fst r = rid) rs of None \<Rightarrow> 0 | Some r \<Rightarrow> snd r)"

definition async_event :: "sh2_AsyncEvent \<Rightarrow> ('u sh2_scheme, unit) prog" where
  "async_event e = modify (\<lambda>s. if asyncCallback s then s\<lparr>async_events := async_events s @ [e]\<rparr> else s)"

definition count_unknown :: "('u sh2_scheme, unit) prog" where
  "count_unknown = modify (\<lambda>s. s\<lparr>unknownReportIds := unknownReportIds s + 1\<rparr>)"

lemma report_shrinks: "cursor < len \<Longrightarrow> (n :: u8) \<noteq> 0 \<Longrightarrow> len - (cursor + unat n) < len - cursor"
  using unat_gt_0 [of n] by simp

text \<open>An unsolicited response to the initialize command is looked at and not used.\<close>

definition control_report :: "u8 \<Rightarrow> nat \<Rightarrow> ('u sh2_scheme, unit) prog" where
  "control_report reportId cursor =
     (if reportId = SENSORHUB_COMMAND_RESP then
        bnd (rep8 (cursor + 2)) (\<lambda>cmd. if cmd = SH2_CMD_INITIALIZE OR 0x80 then bnd (rep8 (resp_r cursor 1)) (\<lambda>_. ret ()) else ret ())
      else if reportId = SENSORHUB_GET_FEATURE_RESP then
        bnd (gets asyncCallback) (\<lambda>cb. if \<not> cb then ret () else
        bnd (rep8 (cursor + 1)) (\<lambda>sensorId. bnd (rep_SensorConfig cursor) (\<lambda>cfg.
        async_event (SH2_GET_FEATURE_RESP sensorId cfg))))
      else ret ())"

function (sequential) control_loop :: "'u sh2_scheme sender \<Rightarrow> nat \<Rightarrow> nat \<Rightarrow> ('u sh2_scheme, unit) prog" where
  "control_loop send len cursor =
     (if cursor < len then
        bnd (rep8 cursor) (\<lambda>reportId.
        bnd (gets (\<lambda>s. getReportLen (reports s) reportId)) (\<lambda>reportLen.
        if reportLen = 0 then count_unknown
        else seqp (control_report reportId cursor)
          (seqp (opRx send cursor) (control_loop send len (cursor + unat reportLen)))))
      else ret ())"
  by pat_completeness auto
termination by (relation "measure (\<lambda>(send, len, cursor). len - cursor)") (auto simp: report_shrinks)

declare control_loop.simps [simp del]

definition sensorhubControlHdlr :: "'u sh2_scheme sender \<Rightarrow> u16 \<Rightarrow> ('u sh2_scheme, unit) prog" where
  "sensorhubControlHdlr send len =
     (if len = 0 then modify (\<lambda>s. s\<lparr>emptyPayloads := emptyPayloads s + 1\<rparr>) else control_loop send (unat len) 0)"

section \<open>The input channels\<close>

text \<open>\<open>(referenceDelta + delay) * 100\<close> in \<open>int\<close>; \<open>None\<close>: it overflows.\<close>

definition delta_us :: "u32 \<Rightarrow> u16 \<Rightarrow> u32 option" where
  "delta_us referenceDelta delay =
     (let a = sint referenceDelta + int (unat delay) in
      if fits_signed 32 a \<and> fits_signed 32 (a * 100) then Some (word_of_int (a * 100)) else None)"

definition touSTimestamp :: "u32 \<Rightarrow> u32 \<Rightarrow> u16 \<Rightarrow> ('u sh2_scheme, u64) prog" where
  "touSTimestamp hostInt referenceDelta delay =
     seqp (modify (\<lambda>s. s\<lparr>rollovers := (if hostInt < lastHostInt s then rollovers s + 1 else rollovers s), lastHostInt := hostInt\<rparr>))
     (bnd (lift_opt (delta_us referenceDelta delay)) (\<lambda>d.
     gets (\<lambda>s. push_bit 32 (ucast (rollovers s)) + ucast (hostInt + d))))"

text \<open>A report copied into the local event, and the event handed to the application.\<close>

definition event_report :: "u8 \<Rightarrow> nat \<Rightarrow> u8 list \<Rightarrow> u8 list \<Rightarrow> u8 list option" where
  "event_report reportLen cursor old payload =
     (if length old < unat reportLen \<or> length payload < cursor + unat reportLen then None
      else Some (take (unat reportLen) (drop cursor payload) @ drop (unat reportLen) old))"

definition sensor_event :: "sh2_SensorEvent \<Rightarrow> ('u sh2_scheme, unit) prog" where
  "sensor_event e = modify (\<lambda>s. if sensorCallback s then s\<lparr>sensor_events := sensor_events s @ [e]\<rparr> else s)"

definition report_delay :: "u8 \<Rightarrow> u8 \<Rightarrow> u16" where
  "report_delay b2 b3 = push_bit 6 (ucast (b2 AND 0xFC)) + ucast b3"

function (sequential) input_loop ::
  "'u sh2_scheme sender \<Rightarrow> nat \<Rightarrow> u32 \<Rightarrow> nat \<Rightarrow> u32 \<Rightarrow> u8 list \<Rightarrow> ('u sh2_scheme, unit) prog" where
  "input_loop send len timestamp cursor referenceDelta event =
     (if cursor < len then
        bnd (rep8 cursor) (\<lambda>reportId.
        bnd (gets (\<lambda>s. getReportLen (reports s) reportId)) (\<lambda>reportLen.
        if reportLen = 0 then count_unknown
        else if reportId = SENSORHUB_BASE_TIMESTAMP_REF then
          bnd (rep32 (cursor + 1)) (\<lambda>timebase.
          input_loop send len timestamp (cursor + unat reportLen) (- timebase) event)
        else if reportId = SENSORHUB_TIMESTAMP_REBASE then
          bnd (rep32 (cursor + 1)) (\<lambda>timebase.
          input_loop send len timestamp (cursor + unat reportLen) (referenceDelta + timebase) event)
        else if reportId = SENSORHUB_FLUSH_COMPLETED then
          seqp (opRx send cursor) (input_loop send len timestamp (cursor + unat reportLen) referenceDelta event)
        else
          bnd (rep8 (cursor + 2)) (\<lambda>b2. bnd (rep8 (cursor + 3)) (\<lambda>b3.
          bnd (touSTimestamp timestamp referenceDelta (report_delay b2 b3)) (\<lambda>t.
          bnd (gets inPayload) (\<lambda>payload.
          bnd (lift_opt (event_report reportLen cursor event payload)) (\<lambda>event.
          seqp (sensor_event \<lparr>ev_timestamp_uS = t, ev_len = reportLen, ev_reportId = reportId, ev_report = event\<rparr>)
          (input_loop send len timestamp (cursor + unat reportLen) referenceDelta event))))))))
      else ret ())"
  by pat_completeness auto
termination
  by (relation "measure (\<lambda>(send, len, t, cursor, ref, ev). len - cursor)") (auto simp: report_shrinks)

declare input_loop.simps [simp del]

definition sensorhubInputHdlr :: "'u sh2_scheme sender \<Rightarrow> u16 \<Rightarrow> u32 \<Rightarrow> ('u sh2_scheme, unit) prog" where
  "sensorhubInputHdlr send len timestamp =
     bnd (gets event_local) (\<lambda>event. input_loop send (unat len) timestamp 0 0 event)"

text \<open>The loop ends only if the length of the report is not 0: it takes fuel, one unit per round.\<close>

fun gyro_loop :: "nat \<Rightarrow> nat \<Rightarrow> u32 \<Rightarrow> u8 \<Rightarrow> nat \<Rightarrow> u8 list \<Rightarrow> ('u sh2_scheme, unit) prog" where
  "gyro_loop 0 len timestamp reportLen cursor event = fault_with No_Return"
| "gyro_loop (Suc n) len timestamp reportLen cursor event =
     (if cursor < len then
        bnd (gets inPayload) (\<lambda>payload.
        bnd (lift_opt (event_report reportLen cursor event payload)) (\<lambda>event.
        seqp (sensor_event \<lparr>ev_timestamp_uS = ucast timestamp, ev_len = reportLen, ev_reportId = SH2_GYRO_INTEGRATED_RV,
          ev_report = event\<rparr>)
        (gyro_loop n len timestamp reportLen (cursor + unat reportLen) event)))
      else ret ())"

definition sensorhubInputGyroRvHdlr :: "nat \<Rightarrow> u16 \<Rightarrow> u32 \<Rightarrow> ('u sh2_scheme, unit) prog" where
  "sensorhubInputGyroRvHdlr n len timestamp =
     bnd (gets (\<lambda>s. (getReportLen (reports s) SH2_GYRO_INTEGRATED_RV, event_local s))) (\<lambda>(reportLen, event).
     gyro_loop n (unat len) timestamp reportLen 0 event)"

section \<open>The device channel and the events of the transport\<close>

definition executableDeviceHdlr :: "u16 \<Rightarrow> ('u sh2_scheme, unit) prog" where
  "executableDeviceHdlr len =
     (if len \<noteq> 1 then modify (\<lambda>s. s\<lparr>execBadPayload := execBadPayload s + 1\<rparr>)
      else bnd (rep8 0) (\<lambda>b.
        if b = 1 then seqp (modify (resetComplete_update (\<lambda>_. True))) (async_event SH2_RESET)
        else modify (\<lambda>s. s\<lparr>execBadPayload := execBadPayload s + 1\<rparr>)))"

definition shtpEventCallback :: "shtp_Event \<Rightarrow> ('u sh2_scheme, unit) prog" where
  "shtpEventCallback e = async_event (SH2_SHTP_EVENT e)"

text \<open>
  The callbacks as \<open>sh2_open\<close> numbers them: control, normal input, wake input, gyro rotation vector,
  device; the advertisements of the sensor hub and of the executable. A payload is never longer than
  its 16-bit length, which is fuel enough for the loop over it.
\<close>

definition hub_clients :: "'u sh2_scheme clients" where
  "hub_clients = \<lparr>
     on_channel = (\<lambda>send k c len timestamp.
       if k = 1 then sensorhubControlHdlr send len
       else if k = 2 \<or> k = 3 then sensorhubInputHdlr send len timestamp
       else if k = 4 then sensorhubInputGyroRvHdlr (Suc (unat len)) len timestamp
       else if k = 5 then executableDeviceHdlr len
       else ret ()),
     on_advert = (\<lambda>k c tag len val.
       if k = 1 then sensorhubAdvertHdlr tag len val else if k = 2 then executableAdvertHdlr tag len val else ret ()),
     on_event = (\<lambda>k c e. shtpEventCallback e)\<rparr>"

section \<open>Waiting for an operation\<close>

definition hub_getTimeUs :: "hal \<Rightarrow> ('u sh2_scheme, u32) prog" where
  "hub_getTimeUs h = bnd (gets (\<lambda>s. (hub_pHal s, hal_calls s))) (\<lambda>(p, calls).
     if \<not> p then fault_with Null_Pointer
     else seqp (modify (\<lambda>s. s\<lparr>hal_calls := hal_calls s @ [Hal_getTimeUs]\<rparr>)) (ret (hal_time h calls)))"

definition hub_shtp_service :: "hal \<Rightarrow> nat \<Rightarrow> ('u sh2_scheme, unit) prog" where
  "hub_shtp_service h n = bnd (gets pShtp) (\<lambda>p. if p then shtp_service h hub_clients n else fault_with Null_Pointer)"

fun op_wait :: "hal \<Rightarrow> nat \<Rightarrow> sh2_op \<Rightarrow> u32 \<Rightarrow> u32 \<Rightarrow> ('u sh2_scheme, unit) prog" where
  "op_wait h 0 op start_us now_us = fault_with No_Return"
| "op_wait h (Suc n) op start_us now_us =
     bnd (gets pOp) (\<lambda>p.
     if p \<noteq> None \<and> (op_timeout op = 0 \<or> now_us - start_us < op_timeout op) then
       seqp (hub_shtp_service h n) (bnd (hub_getTimeUs h) (\<lambda>now_us. op_wait h n op start_us now_us))
     else ret ())"

definition opProcess :: "hal \<Rightarrow> nat \<Rightarrow> sh2_op \<Rightarrow> ('u sh2_scheme, int) prog" where
  "opProcess h n op =
     bnd (hub_getTimeUs h) (\<lambda>start_us.
     bnd (opStart (shtp_send h hub_clients n) op) (\<lambda>status.
     if status \<noteq> SH2_OK then ret status else
     seqp (op_wait h n op start_us start_us)
     (seqp (modify (\<lambda>s. if pOp s \<noteq> None then s\<lparr>pOp := None, opStatus := SH2_ERR_TIMEOUT\<rparr> else s))
     (gets opStatus))))"

section \<open>The clients keep the invariant of the transport\<close>

text \<open>The part of the invariant that is the library's own: its arrays keep their sizes.\<close>

definition hub_sizes :: "'u sh2_scheme \<Rightarrow> bool" where
  "hub_sizes s \<longleftrightarrow> length (reports s) = SH2_MAX_REPORT_IDS \<and> length (hub_version s) \<le> MAX_VER_LEN"

definition hub_part :: "'u sh2_ext \<Rightarrow> bool" where
  "hub_part m = hub_sizes (shtp.extend example_shtp m)"

abbreviation hub_ok :: "'u sh2_scheme \<Rightarrow> bool" where "hub_ok \<equiv> shtp_ok hub_part"

lemma hub_part_more [simp]: "hub_part (shtp.more s) = hub_sizes s"
  by (cases s) (simp add: hub_part_def hub_sizes_def shtp.defs example_shtp_def)

lemma shtp_ok_hub: "hub_ok s \<longleftrightarrow> shtp_ok (\<lambda>_. True) s \<and> hub_sizes s"
  by (auto simp: shtp_ok_def shtp_sizes_def callbacks_ok_def)

lemma shtp_ok_library [simp]:
  "hub_ok (resetComplete_update f1 s) \<longleftrightarrow> hub_ok s"
  "hub_ok (advertDone_update f2 s) \<longleftrightarrow> hub_ok s"
  "hub_ok (executableChan_update f3 s) \<longleftrightarrow> hub_ok s"
  "hub_ok (controlChan_update f4 s) \<longleftrightarrow> hub_ok s"
  "hub_ok (pOp_update f5 s) \<longleftrightarrow> hub_ok s"
  "hub_ok (opStatus_update f6 s) \<longleftrightarrow> hub_ok s"
  "hub_ok (opData_update f7 s) \<longleftrightarrow> hub_ok s"
  "hub_ok (lastCmdId_update f8 s) \<longleftrightarrow> hub_ok s"
  "hub_ok (cmdSeq_update f9 s) \<longleftrightarrow> hub_ok s"
  "hub_ok (nextCmdSeq_update f10 s) \<longleftrightarrow> hub_ok s"
  "hub_ok (execBadPayload_update f11 s) \<longleftrightarrow> hub_ok s"
  "hub_ok (emptyPayloads_update f12 s) \<longleftrightarrow> hub_ok s"
  "hub_ok (unknownReportIds_update f13 s) \<longleftrightarrow> hub_ok s"
  "hub_ok (lastHostInt_update f14 s) \<longleftrightarrow> hub_ok s"
  "hub_ok (rollovers_update f15 s) \<longleftrightarrow> hub_ok s"
  "hub_ok (sensor_events_update f16 s) \<longleftrightarrow> hub_ok s"
  "hub_ok (async_events_update f17 s) \<longleftrightarrow> hub_ok s"
  "hub_ok (hal_calls_update f18 s) \<longleftrightarrow> hub_ok s"
  by (simp_all add: shtp_ok_def shtp_sizes_def callbacks_ok_def hub_sizes_def)

lemma keeps_op_data [keeps_intro]:
  "keeps I a \<Longrightarrow> (\<And>x y. keeps I (b x y)) \<Longrightarrow> (\<And>x y z. keeps I (c x y z)) \<Longrightarrow> (\<And>x y. keeps I (d x y)) \<Longrightarrow>
   (\<And>x y z w. keeps I (e x y z w)) \<Longrightarrow> (\<And>x y z w. keeps I (f x y z w)) \<Longrightarrow> (\<And>x y z w. keeps I (g x y z w)) \<Longrightarrow>
   (\<And>x y. keeps I (k x y)) \<Longrightarrow> (\<And>x. keeps I (l x)) \<Longrightarrow> (\<And>x. keeps I (m x)) \<Longrightarrow> (\<And>x. keeps I (n x)) \<Longrightarrow>
   (\<And>x. keeps I (q x)) \<Longrightarrow> (\<And>x. keeps I (u x)) \<Longrightarrow> (\<And>x. keeps I (v x)) \<Longrightarrow>
   keeps I (case x of D_none \<Rightarrow> a | D_sendCmd x y \<Rightarrow> b x y | D_getProdIds x y z \<Rightarrow> c x y z | D_sensorConfig x y \<Rightarrow> d x y
     | D_getFrs x y z w \<Rightarrow> e x y z w | D_setFrs x y z w \<Rightarrow> f x y z w | D_getErrors x y z w \<Rightarrow> g x y z w
     | D_getCounts x y \<Rightarrow> k x y | D_calConfig x \<Rightarrow> l x | D_getCalConfig x \<Rightarrow> m x | D_forceFlush x \<Rightarrow> n x
     | D_getOscType x \<Rightarrow> q x | D_startCal x \<Rightarrow> u x | D_finishCal x \<Rightarrow> v x)"
  by (cases x) simp_all

lemma keeps_reads [keeps_intro]: "keeps I (rep8 i)" "keeps I (rep16 i)" "keeps I (rep32 i)"
  unfolding rep8_def rep16_def rep32_def by (intro keeps_intro)+

lemma keeps_set_opData [keeps_intro]: "keeps hub_ok (set_opData d)"
  unfolding set_opData_def by (intro keeps_intro) simp

lemma keeps_complete [keeps_intro]: "keeps hub_ok (complete status)"
  unfolding complete_def by (intro keeps_intro) (simp add: opCompleted_def)

lemma keeps_send_at [keeps_intro]:
  "(\<And>ch p. keeps hub_ok (send ch p)) \<Longrightarrow> keeps hub_ok (shtp_send_at send ch p)"
  unfolding shtp_send_at_def by (intro keeps_intro)

lemma keeps_sendCtrl [keeps_intro]: "(\<And>ch p. keeps hub_ok (send ch p)) \<Longrightarrow> keeps hub_ok (sendCtrl send p)"
  unfolding sendCtrl_def by (intro keeps_intro)

lemma keeps_sendCmd [keeps_intro]: "(\<And>ch p. keeps hub_ok (send ch p)) \<Longrightarrow> keeps hub_ok (sendCmd send c p)"
  unfolding sendCmd_def by (intro keeps_intro) simp_all

lemmas op_start_defs = getProdIdStart_def getSensorConfigStart_def setSensorConfigStart_def getFrsStart_def with_getFrs_def
  setFrsStart_def getErrorsStart_def getCountsStart_def sendCmdStart_def reinitStart_def saveDcdNowStart_def
  getOscTypeStart_def setCalConfigStart_def getCalConfigStart_def forceFlushStart_def startCalStart_def finishCalStart_def
  sendCmd0_def sendCmd1_def sendCmd2_def

lemmas op_rx_defs = getProdIdRx_def rep_ProductId_def getSensorConfigRx_def rep_SensorConfig_def getFrsRx_def with_getFrs_def
  frs_set_words_def frs_store_def setFrsRx_def setFrs_data_def getErrorsRx_def rep_ErrorRecord_def getCountsRx_def reinitRx_def
  saveDcdNowRx_def getOscTypeRx_def setCalConfigRx_def getCalConfigRx_def forceFlushRx_def startCalRx_def finishCalRx_def
  if_answered_def wrongResponse_def

lemma keeps_op_start:
  assumes "\<And>ch p. keeps hub_ok (send ch p)"
  shows "keeps hub_ok (op_start send op)"
  by (cases op; simp only: op_start.simps op_start_defs; intro keeps_intro assms; simp)

lemma keeps_op_rx:
  assumes "\<And>ch p. keeps hub_ok (send ch p)"
  shows "keeps hub_ok (op_rx send op i)"
  by (cases op; simp only: op_rx.simps op_rx_defs; intro keeps_intro assms; simp add: opCompleted_def)

lemma keeps_opRx [keeps_intro]: "(\<And>ch p. keeps hub_ok (send ch p)) \<Longrightarrow> keeps hub_ok (opRx send i)"
  unfolding opRx_def by (intro keeps_intro keeps_op_rx)

lemma keeps_opStart [keeps_intro]: "(\<And>ch p. keeps hub_ok (send ch p)) \<Longrightarrow> keeps hub_ok (opStart send op)"
  unfolding opStart_def by (intro keeps_intro keeps_op_start) simp_all

lemma hub_ok_version: "hub_ok s \<Longrightarrow> length v \<le> MAX_VER_LEN \<Longrightarrow> hub_ok (hub_version_update (\<lambda>_. v) s)"
  by (simp add: shtp_ok_def shtp_sizes_def callbacks_ok_def hub_sizes_def)

lemma hub_ok_reports:
  "hub_ok s \<Longrightarrow> report_lengths n p = Some rs \<Longrightarrow> n \<le> SH2_MAX_REPORT_IDS \<Longrightarrow>
   hub_ok (reports_update (\<lambda>old. rs @ drop n old) s)"
  by (auto simp: shtp_ok_def shtp_sizes_def callbacks_ok_def hub_sizes_def report_lengths_def split: if_splits)

lemma keeps_sensorhubAdvertHdlr: "keeps hub_ok (sensorhubAdvertHdlr tag len val)"
proof -
  have version: "keeps hub_ok (bnd (lift_opt (strcpy (MAX_VER_LEN + 1) p)) (\<lambda>v. modify (hub_version_update (\<lambda>_. v))))" for p
    by (intro keepsI) (auto elim!: bnd_InrE simp: lift_opt_Inr strcpy_def intro!: hub_ok_version split: option.splits if_splits)
  have lengths: "keeps hub_ok (bnd (lift_opt (report_lengths n p)) (\<lambda>rs. modify (reports_update (\<lambda>old. rs @ drop n old))))"
    if "n \<le> SH2_MAX_REPORT_IDS" for n p
    using that by (intro keepsI) (auto elim!: bnd_InrE simp: lift_opt_Inr intro!: hub_ok_reports)
  show ?thesis
    unfolding sensorhubAdvertHdlr_def Let_def
    by (intro keeps_if keeps_option keeps_fault keeps_ret keeps_modify version lengths) simp_all
qed

lemma keeps_events [keeps_intro]: "keeps hub_ok (async_event e)" "keeps hub_ok (sensor_event ev)" "keeps hub_ok count_unknown"
  unfolding async_event_def sensor_event_def count_unknown_def by (auto intro!: keeps_modify)

lemma keeps_control_report [keeps_intro]: "keeps hub_ok (control_report rid cursor)"
  unfolding control_report_def rep_SensorConfig_def by (intro keeps_intro)

lemma keeps_control_loop [keeps_intro]:
  assumes "\<And>ch p. keeps hub_ok (send ch p)"
  shows "keeps hub_ok (control_loop send len cursor)"
proof (induction "len - cursor" arbitrary: cursor rule: less_induct)
  case less
  have "keeps hub_ok (control_loop send len (cursor + unat n))" if "cursor < len" "n \<noteq> 0" for n :: u8
    using less.hyps report_shrinks [OF that] by blast
  then show ?case by (subst control_loop.simps) (intro keeps_intro assms)
qed

lemma keeps_touSTimestamp [keeps_intro]: "keeps hub_ok (touSTimestamp t ref d)"
  unfolding touSTimestamp_def by (intro keeps_intro) simp

lemma keeps_input_loop [keeps_intro]:
  assumes "\<And>ch p. keeps hub_ok (send ch p)"
  shows "keeps hub_ok (input_loop send len t cursor ref ev)"
proof (induction "len - cursor" arbitrary: cursor ref ev rule: less_induct)
  case less
  have "keeps hub_ok (input_loop send len t (cursor + unat n) ref ev)" if "cursor < len" "n \<noteq> 0" for n :: u8 and ref ev
    using less.hyps report_shrinks [OF that] by blast
  then show ?case by (subst input_loop.simps) (intro keeps_intro assms)
qed

lemma keeps_gyro_loop [keeps_intro]: "keeps hub_ok (gyro_loop n len t rl cursor ev)"
  by (induction n arbitrary: cursor ev) (simp_all only: gyro_loop.simps, (intro keeps_intro | assumption)+)

lemma keeps_channels:
  assumes "\<And>ch p. keeps hub_ok (send ch p)"
  shows "keeps hub_ok (on_channel hub_clients send k c len t)"
  unfolding hub_clients_def clients.simps sensorhubControlHdlr_def sensorhubInputHdlr_def sensorhubInputGyroRvHdlr_def
    executableDeviceHdlr_def
  by (intro keeps_intro assms) simp_all

interpretation hub: shtp_client hub_clients hub_part
proof
  show "keeps hub_ok (on_channel hub_clients send k c len t)" if "\<And>ch p. keeps hub_ok (send ch p)" for send k c len t
    using that by (rule keeps_channels)
  show "keeps hub_ok (on_advert hub_clients k c tag n val)" for k c tag n val
    by (simp add: hub_clients_def executableAdvertHdlr_def keeps_sensorhubAdvertHdlr keeps_ret)
  show "keeps hub_ok (on_event hub_clients k c e)" for k c e
    by (simp add: hub_clients_def shtpEventCallback_def keeps_events)
qed

lemma keeps_hub_getTimeUs [keeps_intro]: "keeps hub_ok (hub_getTimeUs h)"
  unfolding hub_getTimeUs_def by (intro keeps_intro) simp

lemma keeps_hub_shtp_service [keeps_intro]: "keeps hub_ok (hub_shtp_service h n)"
  unfolding hub_shtp_service_def by (intro keeps_intro hub.keeps_service)

lemma keeps_op_wait [keeps_intro]: "keeps hub_ok (op_wait h n op start now)"
  by (induction n arbitrary: now) (simp_all only: op_wait.simps, (intro keeps_intro | assumption)+)

lemma keeps_opProcess [keeps_intro]: "keeps hub_ok (opProcess h n op)"
  unfolding opProcess_def by (intro keeps_intro hub.keeps_send) simp

text \<open>The first steps of an operation, by what its start returns.\<close>

definition op_begun :: "sh2_op \<Rightarrow> 'u sh2_scheme \<Rightarrow> 'u sh2_scheme" where
  "op_begun op s = s\<lparr>hal_calls := hal_calls s @ [Hal_getTimeUs], pOp := Some op, opStatus := SH2_OK\<rparr>"

lemma opProcess_refused:
  assumes "hub_pHal s" "pOp s = Some op'"
  shows "opProcess h n op s = Inr (SH2_ERR_OP_IN_PROGRESS, s\<lparr>hal_calls := hal_calls s @ [Hal_getTimeUs]\<rparr>)"
  using assms by (simp add: opProcess_def hub_getTimeUs_def opStart_def)

lemma opProcess_start_failed:
  assumes "hub_pHal s" "pOp s = None" "op_start (shtp_send h hub_clients n) op (op_begun op s) = Inr (rc, s')" "rc \<noteq> SH2_OK"
  shows "opProcess h n op s = Inr (rc, s'\<lparr>opStatus := rc, pOp := None\<rparr>)"
  using assms by (simp add: opProcess_def hub_getTimeUs_def opStart_def op_begun_def)

lemma opProcess_waits:
  assumes "hub_pHal s" "pOp s = None" "op_start (shtp_send h hub_clients n) op (op_begun op s) = Inr (SH2_OK, s')"
  shows "opProcess h n op s = seqp (op_wait h n op (hal_time h (hal_calls s)) (hal_time h (hal_calls s)))
     (seqp (modify (\<lambda>s. if pOp s \<noteq> None then s\<lparr>pOp := None, opStatus := SH2_ERR_TIMEOUT\<rparr> else s)) (gets opStatus)) s'"
  using assms by (simp add: opProcess_def hub_getTimeUs_def opStart_def op_begun_def)

lemma op_wait_done: "pOp s = None \<Longrightarrow> 0 < n \<Longrightarrow> op_wait h n op start now s = Inr ((), s)"
  by (cases n) simp_all

end
