(* ===== verification/Sh2_Api.thy ===== *)
theory Sh2_Api
  imports Sh2_Handlers
begin

text \<open>
  The functions of the SH-2 library (\<^verbatim>\<open>bno08x_driver/include/sh2/sh2.c\<close>), each with the hardware
  layer and its fuel, and the invariant that they all keep. What an operation stores through the
  pointers of its caller is found in the operation data after it.
\<close>

section \<open>Opening and closing\<close>

definition clear_sh2 :: "'u sh2_scheme \<Rightarrow> 'u sh2_scheme" where
  "clear_sh2 s = s\<lparr>hub_pHal := False, pShtp := False, resetComplete := False, advertDone := False, executableChan := 0,
     controlChan := 0, hub_version := [], reports := replicate SH2_MAX_REPORT_IDS (0, 0), pOp := None, opStatus := 0,
     opData := D_none, lastCmdId := 0, cmdSeq := 0, nextCmdSeq := 0, asyncCallback := False, sensorCallback := False,
     frsData := replicate MAX_FRS_WORDS 0, frsDataLen := 0, execBadPayload := 0, emptyPayloads := 0,
     unknownReportIds := 0\<rparr>"

text \<open>The listeners of the library; what the registrations return is not looked at.\<close>

definition hub_listen :: "('u sh2_scheme, unit) prog" where
  "hub_listen =
     seqp (modify (shtp_setEventCallback (Some 1) 1))
     (seqp (shtp_listenAdvert GUID_SENSORHUB (Some (Client_advert 1)) 1)
     (seqp (shtp_listenChan GUID_SENSORHUB (Some (cname_of ''control'')) (Some (Client_listener 1)) 1)
     (seqp (shtp_listenChan GUID_SENSORHUB (Some (cname_of ''inputNormal'')) (Some (Client_listener 2)) 1)
     (seqp (shtp_listenChan GUID_SENSORHUB (Some (cname_of ''inputWake'')) (Some (Client_listener 3)) 1)
     (seqp (shtp_listenChan GUID_SENSORHUB (Some (cname_of ''inputGyroRv'')) (Some (Client_listener 4)) 1)
     (seqp (shtp_listenAdvert GUID_EXECUTABLE (Some (Client_advert 2)) 1)
     (seqp (shtp_listenChan GUID_EXECUTABLE (Some (cname_of ''device'')) (Some (Client_listener 5)) 1)
     (ret ()))))))))"

abbreviation ADVERT_TIMEOUT_US :: u32 where "ADVERT_TIMEOUT_US \<equiv> 200000"

fun reset_wait :: "hal \<Rightarrow> nat \<Rightarrow> u32 \<Rightarrow> u32 \<Rightarrow> ('u sh2_scheme, unit) prog" where
  "reset_wait h 0 start_us now_us = fault_with No_Return"
| "reset_wait h (Suc n) start_us now_us =
     bnd (gets resetComplete) (\<lambda>done.
     if now_us - start_us < ADVERT_TIMEOUT_US \<and> \<not> done then
       seqp (hub_shtp_service h n) (bnd (hub_getTimeUs h) (\<lambda>now_us. reset_wait h n start_us now_us))
     else ret ())"

text \<open>
  \<open>hal\<close>: the pointer to the hardware layer is not null; \<open>cb\<close>: there is a callback for events;
  \<open>initialized\<close>: the transport has been initialized before.
\<close>

definition sh2_open :: "hal \<Rightarrow> nat \<Rightarrow> bool \<Rightarrow> bool \<Rightarrow> bool \<Rightarrow> ('u sh2_scheme, int) prog" where
  "sh2_open h n initialized hal cb =
     (if \<not> hal then ret SH2_ERR_BAD_PARAM else
      seqp (modify (\<lambda>s. (clear_sh2 s)\<lparr>controlChan := 0xFF, hub_pHal := True, asyncCallback := cb\<rparr>))
      (bnd (shtp_open initialized True) (\<lambda>opened.
      if \<not> opened then ret SH2_ERR else
      seqp (modify (pShtp_update (\<lambda>_. True)))
      (seqp hub_listen
      (bnd (hub_getTimeUs h) (\<lambda>start_us.
      seqp (reset_wait h n start_us start_us) (ret SH2_OK)))))))"

definition sh2_close :: "('u sh2_scheme, unit) prog" where
  "sh2_close = bnd (gets (\<lambda>s. pShtp s \<and> pHal s)) (\<lambda>p. if \<not> p then fault_with Null_Pointer else
     seqp shtp_close (modify clear_sh2))"

definition sh2_service :: "hal \<Rightarrow> nat \<Rightarrow> ('u sh2_scheme, unit) prog" where
  "sh2_service h n = hub_shtp_service h n"

definition sh2_setSensorCallback :: "bool \<Rightarrow> ('u sh2_scheme, int) prog" where
  "sh2_setSensorCallback cb = seqp (modify (sensorCallback_update (\<lambda>_. cb))) (ret SH2_OK)"

section \<open>The device channel\<close>

definition sh2_devReset :: "hal \<Rightarrow> nat \<Rightarrow> ('u sh2_scheme, int) prog" where
  "sh2_devReset h n = sendExecutable (shtp_send h hub_clients n) 1"

definition sh2_devOn :: "hal \<Rightarrow> nat \<Rightarrow> ('u sh2_scheme, int) prog" where
  "sh2_devOn h n = sendExecutable (shtp_send h hub_clients n) 2"

definition sh2_devSleep :: "hal \<Rightarrow> nat \<Rightarrow> ('u sh2_scheme, int) prog" where
  "sh2_devSleep h n = sendExecutable (shtp_send h hub_clients n) 3"

section \<open>Operations\<close>

definition sh2_getProdIds :: "hal \<Rightarrow> nat \<Rightarrow> ProductIds option \<Rightarrow> ('u sh2_scheme, int) prog" where
  "sh2_getProdIds h n prodIds = seqp (set_opData (D_getProdIds prodIds 0 0)) (opProcess h n getProdIdOp)"

definition sh2_getSensorConfig :: "hal \<Rightarrow> nat \<Rightarrow> u8 \<Rightarrow> sh2_SensorConfig \<Rightarrow> ('u sh2_scheme, int) prog" where
  "sh2_getSensorConfig h n sensorId cfg = seqp (set_opData (D_sensorConfig cfg sensorId)) (opProcess h n getSensorConfigOp)"

definition sh2_setSensorConfig :: "hal \<Rightarrow> nat \<Rightarrow> u8 \<Rightarrow> sh2_SensorConfig \<Rightarrow> ('u sh2_scheme, int) prog" where
  "sh2_setSensorConfig h n sensorId cfg = seqp (set_opData (D_sensorConfig cfg sensorId)) (opProcess h n setSensorConfigOp)"

text \<open>\<open>None\<close> is the null pointer. The array has as many words as the list; \<open>words\<close> is what the caller says.\<close>

definition sh2_getFrs :: "hal \<Rightarrow> nat \<Rightarrow> u16 \<Rightarrow> u32 list option \<Rightarrow> u16 option \<Rightarrow> ('u sh2_scheme, int) prog" where
  "sh2_getFrs h n recordId pData words = (case (pData, words) of
     (Some p, Some w) \<Rightarrow> seqp (set_opData (D_getFrs recordId p w 0)) (opProcess h n getFrsOp)
   | _ \<Rightarrow> ret SH2_ERR_BAD_PARAM)"

definition sh2_setFrs :: "hal \<Rightarrow> nat \<Rightarrow> u16 \<Rightarrow> u32 list option \<Rightarrow> u16 \<Rightarrow> ('u sh2_scheme, int) prog" where
  "sh2_setFrs h n recordId pData words =
     (if pData = None \<and> words \<noteq> 0 then ret SH2_ERR_BAD_PARAM else
      seqp (set_opData (D_setFrs recordId (case pData of None \<Rightarrow> [] | Some p \<Rightarrow> p) words 0)) (opProcess h n setFrsOp))"

definition sh2_getErrors :: "hal \<Rightarrow> nat \<Rightarrow> u8 \<Rightarrow> ErrorRecord list \<Rightarrow> u16 \<Rightarrow> ('u sh2_scheme, int) prog" where
  "sh2_getErrors h n severity errs numErrors =
     seqp (set_opData (D_getErrors severity errs numErrors 0)) (opProcess h n getErrorsOp)"

definition sh2_getCounts :: "hal \<Rightarrow> nat \<Rightarrow> u8 \<Rightarrow> Counts \<Rightarrow> ('u sh2_scheme, int) prog" where
  "sh2_getCounts h n sensorId c = seqp (set_opData (D_getCounts sensorId c)) (opProcess h n getCountsOp)"

text \<open>The operations that only send a command, with their parameters.\<close>

definition hub_command :: "hal \<Rightarrow> nat \<Rightarrow> u8 \<Rightarrow> u8 list \<Rightarrow> ('u sh2_scheme, int) prog" where
  "hub_command h n cmd p = seqp (set_opData (D_sendCmd cmd (p @ replicate (9 - length p) 0))) (opProcess h n sendCmdOp)"

definition sh2_clearCounts :: "hal \<Rightarrow> nat \<Rightarrow> u8 \<Rightarrow> ('u sh2_scheme, int) prog" where
  "sh2_clearCounts h n sensorId = hub_command h n SH2_CMD_COUNTS [1, sensorId]"

definition sh2_setTareNow :: "hal \<Rightarrow> nat \<Rightarrow> u8 \<Rightarrow> u8 \<Rightarrow> ('u sh2_scheme, int) prog" where
  "sh2_setTareNow h n axes basis = hub_command h n SH2_CMD_TARE [0, axes, basis]"

definition sh2_clearTare :: "hal \<Rightarrow> nat \<Rightarrow> ('u sh2_scheme, int) prog" where
  "sh2_clearTare h n = hub_command h n SH2_CMD_TARE [2]"

definition sh2_persistTare :: "hal \<Rightarrow> nat \<Rightarrow> ('u sh2_scheme, int) prog" where
  "sh2_persistTare h n = hub_command h n SH2_CMD_TARE [1]"

record sh2_Quaternion =
  q_x :: double
  q_y :: double
  q_z :: double
  q_w :: double

text \<open>\<open>None\<close>: the conversion is undefined.\<close>

definition toQ14 :: "double \<Rightarrow> i16 option" where
  "toQ14 x = (let k = trunc_int (x * 16384) in if fits_signed 16 k then Some (word_of_int k) else None)"

definition sh2_setReorientation :: "hal \<Rightarrow> nat \<Rightarrow> sh2_Quaternion \<Rightarrow> ('u sh2_scheme, int) prog" where
  "sh2_setReorientation h n q =
     bnd (lift_opt (toQ14 (q_x q))) (\<lambda>x. bnd (lift_opt (toQ14 (q_y q))) (\<lambda>y.
     bnd (lift_opt (toQ14 (q_z q))) (\<lambda>z. bnd (lift_opt (toQ14 (q_w q))) (\<lambda>w.
     hub_command h n SH2_CMD_TARE ([2] @ bytes_le 2 x @ bytes_le 2 y @ bytes_le 2 z @ bytes_le 2 w)))))"

definition sh2_reinitialize :: "hal \<Rightarrow> nat \<Rightarrow> ('u sh2_scheme, int) prog" where
  "sh2_reinitialize h n = opProcess h n reinitOp"

definition sh2_saveDcdNow :: "hal \<Rightarrow> nat \<Rightarrow> ('u sh2_scheme, int) prog" where
  "sh2_saveDcdNow h n = opProcess h n saveDcdNowOp"

definition sh2_getOscType :: "hal \<Rightarrow> nat \<Rightarrow> u8 \<Rightarrow> ('u sh2_scheme, int) prog" where
  "sh2_getOscType h n osc = seqp (set_opData (D_getOscType osc)) (opProcess h n getOscTypeOp)"

definition sh2_setCalConfig :: "hal \<Rightarrow> nat \<Rightarrow> u8 \<Rightarrow> ('u sh2_scheme, int) prog" where
  "sh2_setCalConfig h n sensors = seqp (set_opData (D_calConfig sensors)) (opProcess h n setCalConfigOp)"

definition sh2_getCalConfig :: "hal \<Rightarrow> nat \<Rightarrow> u8 \<Rightarrow> ('u sh2_scheme, int) prog" where
  "sh2_getCalConfig h n sensors = seqp (set_opData (D_getCalConfig sensors)) (opProcess h n getCalConfigOp)"

definition sh2_setDcdAutoSave :: "hal \<Rightarrow> nat \<Rightarrow> bool \<Rightarrow> ('u sh2_scheme, int) prog" where
  "sh2_setDcdAutoSave h n enabled = hub_command h n SH2_CMD_DCD_SAVE [if enabled then 0 else 1]"

definition sh2_flush :: "hal \<Rightarrow> nat \<Rightarrow> u8 \<Rightarrow> ('u sh2_scheme, int) prog" where
  "sh2_flush h n sensorId = seqp (set_opData (D_forceFlush sensorId)) (opProcess h n forceFlushOp)"

definition sh2_clearDcdAndReset :: "hal \<Rightarrow> nat \<Rightarrow> ('u sh2_scheme, int) prog" where
  "sh2_clearDcdAndReset h n = hub_command h n SH2_CMD_CLEAR_DCD_AND_RESET []"

definition sh2_startCal :: "hal \<Rightarrow> nat \<Rightarrow> u32 \<Rightarrow> ('u sh2_scheme, int) prog" where
  "sh2_startCal h n interval_us = seqp (set_opData (D_startCal interval_us)) (opProcess h n startCalOp)"

text \<open>The caller's status is not used.\<close>

definition sh2_finishCal :: "hal \<Rightarrow> nat \<Rightarrow> u8 \<Rightarrow> ('u sh2_scheme, int \<times> u8) prog" where
  "sh2_finishCal h n status =
     seqp (set_opData (D_finishCal 0)) (bnd (opProcess h n finishCalOp) (\<lambda>rc. ret (rc, status)))"

definition sh2_setIZro :: "hal \<Rightarrow> nat \<Rightarrow> u8 \<Rightarrow> ('u sh2_scheme, int) prog" where
  "sh2_setIZro h n intent = hub_command h n SH2_CMD_INTERACTIVE_ZRO [intent]"

section \<open>Metadata\<close>

record sh2_SensorMetadata =
  md_meVersion :: u8
  md_mhVersion :: u8
  md_shVersion :: u8
  md_range :: u32
  md_resolution :: u32
  md_revision :: u16
  md_power_mA :: u16
  md_minPeriod_uS :: u32
  md_maxPeriod_uS :: u32
  md_fifoReserved :: u32
  md_fifoMax :: u32
  md_batchBufferBytes :: u32
  md_qPoint1 :: u16
  md_qPoint2 :: u16
  md_qPoint3 :: u16
  md_vendorIdLen :: u32
  md_vendorId :: "u8 list"
  md_sensorSpecificLen :: u32
  md_sensorSpecific :: "u8 list"

definition sensorToRecordMap :: "(u8 \<times> u16) list" where
  "sensorToRecordMap =
     [(SH2_RAW_ACCELEROMETER, 0xE301), (SH2_ACCELEROMETER, 0xE302), (SH2_LINEAR_ACCELERATION, 0xE303),
      (SH2_GRAVITY, 0xE304), (SH2_RAW_GYROSCOPE, 0xE305), (SH2_GYROSCOPE_CALIBRATED, 0xE306),
      (SH2_GYROSCOPE_UNCALIBRATED, 0xE307), (SH2_RAW_MAGNETOMETER, 0xE308),
      (SH2_MAGNETIC_FIELD_CALIBRATED, 0xE309), (SH2_MAGNETIC_FIELD_UNCALIBRATED, 0xE30A),
      (SH2_ROTATION_VECTOR, 0xE30B), (SH2_GAME_ROTATION_VECTOR, 0xE30C),
      (SH2_GEOMAGNETIC_ROTATION_VECTOR, 0xE30D), (SH2_PRESSURE, 0xE30E), (SH2_AMBIENT_LIGHT, 0xE30F),
      (SH2_HUMIDITY, 0xE310), (SH2_PROXIMITY, 0xE311), (SH2_TEMPERATURE, 0xE312), (SH2_TAP_DETECTOR, 0xE313),
      (SH2_STEP_DETECTOR, 0xE314), (SH2_STEP_COUNTER, 0xE315), (SH2_SIGNIFICANT_MOTION, 0xE316),
      (SH2_STABILITY_CLASSIFIER, 0xE317), (SH2_SHAKE_DETECTOR, 0xE318), (SH2_FLIP_DETECTOR, 0xE319),
      (SH2_PICKUP_DETECTOR, 0xE31A), (SH2_STABILITY_DETECTOR, 0xE31B),
      (SH2_PERSONAL_ACTIVITY_CLASSIFIER, 0xE31C), (SH2_SLEEP_DETECTOR, 0xE31D), (SH2_TILT_DETECTOR, 0xE31E),
      (SH2_POCKET_DETECTOR, 0xE31F), (SH2_CIRCLE_DETECTOR, 0xE320)]"

text \<open>A copy of bytes into an array; \<open>None\<close>: one of the two is too short.\<close>

definition memcpy :: "u8 list \<Rightarrow> u8 list \<Rightarrow> nat \<Rightarrow> u8 list option" where
  "memcpy dst src n = (if length dst < n \<or> length src < n then None else Some (take n src @ drop n dst))"

definition frs_bytes :: "u32 list \<Rightarrow> nat \<Rightarrow> u8 list" where
  "frs_bytes frs k = concat (map (bytes_le 4) (drop k frs))"

abbreviation lo16 :: "u32 \<Rightarrow> u32" where "lo16 w \<equiv> w AND 0xFFFF"
abbreviation hi16 :: "u32 \<Rightarrow> u32" where "hi16 w \<equiv> drop_bit 16 w AND 0xFFFF"

definition metadata_fixed :: "u32 list \<Rightarrow> sh2_SensorMetadata \<Rightarrow> sh2_SensorMetadata" where
  "metadata_fixed frs d = d\<lparr>
     md_meVersion := ucast (frs ! 0 AND 0xFF), md_mhVersion := ucast (drop_bit 8 (frs ! 0) AND 0xFF),
     md_shVersion := ucast (drop_bit 16 (frs ! 0) AND 0xFF), md_range := frs ! 1, md_resolution := frs ! 2,
     md_power_mA := ucast (lo16 (frs ! 3)), md_revision := ucast (hi16 (frs ! 3)), md_minPeriod_uS := frs ! 4,
     md_maxPeriod_uS := 0, md_fifoMax := lo16 (frs ! 5), md_fifoReserved := hi16 (frs ! 5),
     md_batchBufferBytes := lo16 (frs ! 6), md_vendorIdLen := hi16 (frs ! 6), md_qPoint1 := 0, md_qPoint2 := 0,
     md_qPoint3 := 0, md_sensorSpecificLen := 0, md_vendorId := (md_vendorId d)[0 := 0]\<rparr>"

text \<open>The part for the revision, with the word where the vendor id begins.\<close>

definition metadata_revision :: "u32 list \<Rightarrow> sh2_SensorMetadata \<Rightarrow> (sh2_SensorMetadata \<times> nat) option" where
  "metadata_revision frs d =
     (let r = md_revision d;
          points = d\<lparr>md_qPoint1 := ucast (lo16 (frs ! 7)), md_qPoint2 := ucast (hi16 (frs ! 7))\<rparr>;
          len = lo16 (frs ! 8);
          specific = (\<lambda>d k. case memcpy (md_sensorSpecific d) (frs_bytes frs k) (unat len) of
            None \<Rightarrow> None | Some b \<Rightarrow> Some (d\<lparr>md_sensorSpecific := b\<rparr>, k + (unat len + 3) div 4))
      in if r = 0 then Some (d, 8)
         else if r = 1 then Some (points, 8)
         else if r = 2 then specific (points\<lparr>md_sensorSpecificLen := len\<rparr>) 9
         else if r = 3 then specific (points\<lparr>md_sensorSpecificLen := len, md_qPoint3 := ucast (hi16 (frs ! 8))\<rparr>) 9
         else if r = 4 then specific (points\<lparr>md_sensorSpecificLen := len, md_qPoint3 := ucast (hi16 (frs ! 8)),
           md_maxPeriod_uS := frs ! 9\<rparr>) 10
         else Some (d, 8))"

definition stuffMetadata :: "u32 list \<Rightarrow> sh2_SensorMetadata \<Rightarrow> sh2_SensorMetadata option" where
  "stuffMetadata frs d =
     (if length frs < 10 then None else
      case metadata_revision frs (metadata_fixed frs d) of
        None \<Rightarrow> None
      | Some (d, k) \<Rightarrow> (case memcpy (md_vendorId d) (frs_bytes frs k) (unat (md_vendorIdLen d)) of
          None \<Rightarrow> None | Some b \<Rightarrow> Some (d\<lparr>md_vendorId := b\<rparr>)))"

text \<open>The record is read into the array of the library, with the length of that array.\<close>

definition sh2_getMetadata ::
  "hal \<Rightarrow> nat \<Rightarrow> u8 \<Rightarrow> sh2_SensorMetadata option \<Rightarrow> ('u sh2_scheme, int \<times> sh2_SensorMetadata option) prog" where
  "sh2_getMetadata h n sensorId pData = (case pData of
     None \<Rightarrow> ret (SH2_ERR_BAD_PARAM, None)
   | Some d \<Rightarrow> (case map_of sensorToRecordMap sensorId of
       None \<Rightarrow> ret (SH2_ERR_BAD_PARAM, pData)
     | Some recordId \<Rightarrow>
         seqp (modify (\<lambda>s. s\<lparr>frsDataLen := of_nat MAX_FRS_WORDS, opData := D_getFrs recordId (frsData s) (of_nat MAX_FRS_WORDS) 0\<rparr>))
         (bnd (opProcess h n getFrsOp) (\<lambda>status.
         seqp (modify (\<lambda>s. case opData s of D_getFrs _ frs words _ \<Rightarrow> s\<lparr>frsData := frs, frsDataLen := words\<rparr> | _ \<Rightarrow> s))
         (if status = SH2_OK then
            bnd (gets frsData) (\<lambda>frs. bnd (lift_opt (stuffMetadata frs d)) (\<lambda>d. ret (status, Some d)))
          else ret (status, pData))))))"

end
