(* ===== verification/Sh2_Reports.thy ===== *)
theory Sh2_Reports
  imports Sh2_Api
begin

text \<open>
  What the handlers and receivers of the SH-2 library make of the reports in a payload: product ids,
  configurations, records of the flash record system, and the sensor events with their times.
\<close>

section \<open>Reading a report at its place\<close>

lemma rep_at:
  assumes "drop i (inPayload s) = xs"
  shows "rep8 (i + k) s = lift_opt (readu8 (drop k xs)) s" "rep16 (i + k) s = lift_opt (readu16 (drop k xs)) s"
    "rep32 (i + k) s = lift_opt (readu32 (drop k xs)) s" "rep8 i s = lift_opt (readu8 xs) s"
    "rep8 (Suc i) s = lift_opt (readu8 (drop 1 xs)) s" "rep8 (Suc (Suc i)) s = lift_opt (readu8 (drop 2 xs)) s"
    "rep16 (Suc (Suc i)) s = lift_opt (readu16 (drop 2 xs)) s" "rep32 (Suc i) s = lift_opt (readu32 (drop 1 xs)) s"
  using assms by (auto simp: rep8_def rep16_def rep32_def add.commute)

lemmas read_report = readu16_bytes readu32_bytes

section \<open>An example\<close>

text \<open>A session after the advertisements: the control channel is channel 2, the lengths of some reports are known.\<close>

definition example_hub :: sh2 where
  "example_hub = shtp.extend
     (example_shtp\<lparr>chans := (replicate SH2_MAX_CHANS zero_Channel)[2 := zero_Channel\<lparr>ch_callback := Some (Client_listener 1), ch_cookie := 1\<rparr>]\<rparr>)
     (sh2.fields True True True True 1 2 []
       ([(0xF8, 16), (0xFC, 17), (0xF1, 16), (0xFB, 5), (0xFA, 5), (0xEF, 2), (1, 10), (0xF3, 16), (0xF5, 4)] @ replicate 55 (0, 0))
       None 0 D_none 0 0 0 True True (replicate MAX_FRS_WORDS 0) 0 0 0 0 0 0 (replicate 16 0) [] [])"

lemma example_hub_simps [simp]:
  "inPayload example_hub = replicate SH2_HAL_MAX_PAYLOAD_IN 0" "sensorCallback example_hub" "pOp example_hub = None"
  "event_local example_hub = replicate 16 0" "lastHostInt example_hub = 0" "rollovers example_hub = 0"
  "sensor_events example_hub = []" "hub_pHal example_hub" "pShtp example_hub" "controlChan example_hub = 2"
  "opData example_hub = D_none" "hal_calls example_hub = []" "advertPhase example_hub = ADVERT_IDLE"
  "outMaxTransfer example_hub = 256" "outMaxPayload example_hub = 256" "length (outTransfer example_hub) = SH2_HAL_MAX_TRANSFER_OUT"
  "length (inTransfer example_hub) = SH2_HAL_MAX_TRANSFER_IN" "nextChanListener example_hub = 6"
  "chans example_hub = (replicate SH2_MAX_CHANS zero_Channel)[2 := zero_Channel\<lparr>ch_callback := Some (Client_listener 1), ch_cookie := 1\<rparr>]"
  by (simp_all add: example_hub_def sh2.defs shtp.defs example_shtp_def)

lemma example_reports: "reports example_hub =
    [(0xF8, 16), (0xFC, 17), (0xF1, 16), (0xFB, 5), (0xFA, 5), (0xEF, 2), (1, 10), (0xF3, 16), (0xF5, 4)] @ replicate 55 (0, 0)"
  by (simp add: example_hub_def sh2.defs shtp.defs)

lemma find_replicate_None: "\<not> P x \<Longrightarrow> List.find P (replicate n x) = None"
  by (induction n) auto

lemma example_lengths [simp]:
  "getReportLen (reports example_hub) 0xF8 = 16" "getReportLen (reports example_hub) 0xFB = 5"
  "getReportLen (reports example_hub) 1 = 10" "getReportLen (reports example_hub) 0x2A = 0"
  by (simp_all add: example_reports getReportLen_def find_replicate_None)

section \<open>Configurations\<close>

definition feature_flags :: "sh2_SensorConfig \<Rightarrow> u8" where
  "feature_flags cfg =
     (if cfg_changeSensitivityEnabled cfg then 2 else 0) OR (if cfg_changeSensitivityRelative cfg then 1 else 0) OR
     (if cfg_wakeupEnabled cfg then 4 else 0) OR (if cfg_alwaysOnEnabled cfg then 8 else 0)"

lemma feature_flags_bits:
  "(feature_flags cfg AND 2 \<noteq> 0) = cfg_changeSensitivityEnabled cfg"
  "(feature_flags cfg AND 1 \<noteq> 0) = cfg_changeSensitivityRelative cfg"
  "(feature_flags cfg AND 4 \<noteq> 0) = cfg_wakeupEnabled cfg"
  "(feature_flags cfg AND 8 \<noteq> 0) = cfg_alwaysOnEnabled cfg"
  by (cases "cfg_changeSensitivityEnabled cfg"; cases "cfg_changeSensitivityRelative cfg";
      cases "cfg_wakeupEnabled cfg"; cases "cfg_alwaysOnEnabled cfg"; simp add: feature_flags_def)+

text \<open>C32: 
  The hub reports the configuration of a sensor in the layout in which it is set: the response to the
  query for the sensor, with the bytes of the request that set the configuration behind the report id,
  completes the query with exactly that configuration.
\<close>

theorem configuration_roundtrip:
  assumes "drop i (inPayload s) = SENSORHUB_GET_FEATURE_RESP # tl (set_feature_req sensorId cfg) @ rest"
    and "opData s = D_sensorConfig old sensorId"
  shows "getSensorConfigRx i s = Inr ((), s\<lparr>opData := D_sensorConfig cfg sensorId, opStatus := SH2_OK, pOp := None\<rparr>)"
proof -
  have req: "drop i (inPayload s) = SENSORHUB_GET_FEATURE_RESP # sensorId # feature_flags cfg #
      bytes_le 2 (cfg_changeSensitivity cfg) @ bytes_le 4 (cfg_reportInterval_us cfg) @
      bytes_le 4 (cfg_batchInterval_us cfg) @ bytes_le 4 (cfg_sensorSpecific cfg) @ rest"
    using assms(1) by (simp only: set_feature_req_def feature_flags_def append_Cons append_Nil list.sel append_assoc)
  have "rep_SensorConfig i s = Inr (cfg, s)"
    by (simp add: rep_SensorConfig_def rep_at [OF req] read_report feature_flags_bits)
  with assms(2) show ?thesis
    by (simp add: getSensorConfigRx_def rep_at [OF req] read_report opCompleted_def)
qed

definition example_config :: sh2_SensorConfig where
  "example_config = \<lparr>cfg_changeSensitivityEnabled = True, cfg_changeSensitivityRelative = False, cfg_wakeupEnabled = True,
     cfg_alwaysOnEnabled = False, cfg_changeSensitivity = 500, cfg_reportInterval_us = 10000, cfg_batchInterval_us = 0,
     cfg_sensorSpecific = 7\<rparr>"

theorem configuration_roundtrip_witness:
  fixes s :: sh2
  defines "s \<equiv> example_hub\<lparr>inPayload := [0xFC] @ tl (set_feature_req 5 example_config) @ [0],
    opData := D_sensorConfig (example_config\<lparr>cfg_sensorSpecific := 0, cfg_wakeupEnabled := False\<rparr>) 5\<rparr>"
  shows "getSensorConfigRx 0 s = Inr ((), s\<lparr>opData := D_sensorConfig example_config 5, opStatus := SH2_OK, pOp := None\<rparr>)"
  by (rule configuration_roundtrip [where rest = "[0]"]) (simp_all add: s_def)

section \<open>Product ids\<close>

definition enc_ProductId :: "ProductId \<Rightarrow> u8 list" where
  "enc_ProductId p = [SENSORHUB_PROD_ID_RESP, resetCause p, swVersionMajor p, swVersionMinor p] @
     bytes_le 4 (swPartNumber p) @ bytes_le 4 (swBuildNumber p) @ bytes_le 2 (swVersionPatch p) @ [reserved0 p, reserved1 p]"

lemma length_enc_ProductId [simp]: "length (enc_ProductId p) = 16"
  by (simp add: enc_ProductId_def)

lemma rep_ProductId_at:
  assumes "drop i (inPayload s) = enc_ProductId p @ rest"
  shows "rep_ProductId i s = Inr (p, s)"
proof -
  have "drop i (inPayload s) = SENSORHUB_PROD_ID_RESP # resetCause p # swVersionMajor p # swVersionMinor p #
      bytes_le 4 (swPartNumber p) @ bytes_le 4 (swBuildNumber p) @ bytes_le 2 (swVersionPatch p) @ reserved0 p # reserved1 p # rest"
    using assms by (simp add: enc_ProductId_def)
  note at = rep_at [OF this]
  show ?thesis by (simp add: rep_ProductId_def at read_report)
qed

abbreviation FSP200 :: u32 where "FSP200 \<equiv> 10004095"

definition expected_ids :: "ProductId list \<Rightarrow> nat" where
  "expected_ids ps = (if FSP200 \<in> swPartNumber ` set ps then 5 else 4)"

lemma getProdIdRx_entry:
  fixes j e :: nat
  assumes "drop i (inPayload s) = enc_ProductId p @ rest" "opData s = D_getProdIds (Some ids) (of_nat j) (of_nat e)"
    and "j < e" "e \<le> 5" "e' = (if swPartNumber p = FSP200 then 5 else e)" "j < length (prod_entry ids)"
  shows "getProdIdRx i s = Inr ((),
    if e' \<le> j + 1 then s\<lparr>opData := D_getProdIds (Some (ids\<lparr>prod_entry := (prod_entry ids)[j := p], numEntries := of_nat (j + 1)\<rparr>))
      (of_nat (j + 1)) (of_nat e'), opStatus := SH2_OK, pOp := None\<rparr>
    else s\<lparr>opData := D_getProdIds (Some (ids\<lparr>prod_entry := (prod_entry ids)[j := p]\<rparr>)) (of_nat (j + 1)) (of_nat e')\<rparr>)"
proof -
  have un: "unat (of_nat k :: u8) = k" if "k \<le> 5" for k using that by (simp add: unat_of_nat)
  have room: "(of_nat j :: u8) < of_nat e" using assms(3,4) by (simp add: word_less_nat_alt un)
  have e': "e' \<le> 5" using assms(4,5) by simp
  have complete: "(of_nat e' :: u8) \<le> of_nat (j + 1) \<longleftrightarrow> e' \<le> j + 1"
    using un [of "j + 1"] un [OF e'] assms(3,4) by (simp only: word_le_nat_alt)
  have part: "(if swPartNumber p = FSP200 then 5 else of_nat e) = (of_nat e' :: u8)" using assms(5) by simp
  have inside: "\<not> length (prod_entry ids) \<le> unat (of_nat j :: u8)" using assms(3,4,6) by (simp add: un)
  have "rep8 i s = Inr (SENSORHUB_PROD_ID_RESP, s)"
    using assms(1) by (simp add: rep_at(4) [OF assms(1)] enc_ProductId_def)
  moreover have "(of_nat j :: u8) + 1 = of_nat (j + 1)" by simp
  moreover have "unat (of_nat j :: u8) = j" using assms(3,4) by (simp add: un)
  ultimately show ?thesis
    using assms(2) room inside complete
    by (simp add: getProdIdRx_def rep_ProductId_at [OF assms(1)] part opCompleted_def del: of_nat_add of_nat_Suc)
qed

lemma drop_beyond: "drop i xs = a @ b \<Longrightarrow> length a = n \<Longrightarrow> drop (i + n) xs = b"
  by (metis add.commute append_eq_conv_conj drop_drop)

lemma control_loop_report:
  assumes "cursor < len" "rep8 cursor s = Inr (rid, s)" "getReportLen (reports s) rid = n" "n \<noteq> 0"
    "control_report rid cursor s = Inr ((), s1)" "opRx send cursor s1 = Inr ((), s2)"
  shows "control_loop send len cursor s = control_loop send len (cursor + unat n) s2"
  using assms by (subst control_loop.simps) simp

lemma control_loop_end: "len \<le> cursor \<Longrightarrow> control_loop send len cursor s = Inr ((), s)"
  by (subst control_loop.simps) simp

lemma replace_entry: "length d < length old \<Longrightarrow> (d @ drop (length d) old)[length d := p] = (d @ [p]) @ drop (length (d @ [p])) old"
  by (simp add: list_update_append flip: Cons_nth_drop_Suc)

lemma expected_ids_bounds: "4 \<le> expected_ids ps" "expected_ids ps \<le> 5"
  by (simp_all add: expected_ids_def)

lemma control_loop_ids:
  assumes "length old = 5" "length ps = expected_ids ps" "\<And>j. j < length ps \<Longrightarrow> j < expected_ids (take j ps)"
  shows "\<lbrakk>ps = d @ todo; todo \<noteq> []; getReportLen (reports s) SENSORHUB_PROD_ID_RESP = 16; pOp s = Some getProdIdOp;
     drop cursor (inPayload s) = concat (map enc_ProductId todo) @ rest; len = cursor + 16 * length todo;
     opData s = D_getProdIds (Some (ids\<lparr>prod_entry := d @ drop (length d) old\<rparr>)) (of_nat (length d)) (of_nat (expected_ids d))\<rbrakk> \<Longrightarrow>
   control_loop send len cursor s = Inr ((), s\<lparr>
     opData := D_getProdIds (Some (ids\<lparr>prod_entry := ps @ drop (length ps) old, numEntries := of_nat (length ps)\<rparr>))
       (of_nat (length ps)) (of_nat (length ps)), opStatus := SH2_OK, pOp := None\<rparr>)"
proof (induction todo arbitrary: s cursor d)
  case Nil
  then show ?case by simp
next
  case (Cons p todo)
  let ?d = "d @ [p]"
  have bound: "length d < length ps" using Cons.prems(1) by simp
  have "take (length d) ps = d" using Cons.prems(1) by simp
  with assms(3) [OF bound] have room: "length d < expected_ids d" by simp
  have small: "length ps \<le> 5" using assms(2) expected_ids_bounds by metis
  have at: "drop cursor (inPayload s) = enc_ProductId p @ concat (map enc_ProductId todo) @ rest" using Cons.prems(5) by simp
  have e': "expected_ids ?d = (if swPartNumber p = FSP200 then 5 else expected_ids d)" by (auto simp: expected_ids_def)
  have entries: "(prod_entry (ids\<lparr>prod_entry := d @ drop (length d) old\<rparr>))[length d := p] = ?d @ drop (length ?d) old"
    using replace_entry [of d old p] bound small assms(1) by simp
  let ?s1 = "if expected_ids ?d \<le> length ?d
    then s\<lparr>opData := D_getProdIds (Some (ids\<lparr>prod_entry := ?d @ drop (length ?d) old, numEntries := of_nat (length ?d)\<rparr>))
      (of_nat (length ?d)) (of_nat (expected_ids ?d)), opStatus := SH2_OK, pOp := None\<rparr>
    else s\<lparr>opData := D_getProdIds (Some (ids\<lparr>prod_entry := ?d @ drop (length ?d) old\<rparr>)) (of_nat (length ?d)) (of_nat (expected_ids ?d))\<rparr>"
  have inside: "length d < length (prod_entry (ids\<lparr>prod_entry := d @ drop (length d) old\<rparr>))"
    using bound small assms(1) by simp
  have rx: "opRx send cursor s = Inr ((), ?s1)"
    using getProdIdRx_entry [OF at Cons.prems(7) room expected_ids_bounds(2) e' inside] Cons.prems(4) entries
    by (simp add: opRx_def)
  have "control_loop send len cursor s = control_loop send len (cursor + unat (16 :: u8)) ?s1"
  proof (rule control_loop_report)
    show "rep8 cursor s = Inr (SENSORHUB_PROD_ID_RESP, s)" by (simp add: rep_at(4) [OF at] enc_ProductId_def)
    show "control_report SENSORHUB_PROD_ID_RESP cursor s = Inr ((), s)" by (simp add: control_report_def)
  qed (use Cons.prems(3,6) rx in simp_all)
  also have "\<dots> = Inr ((), s\<lparr>
     opData := D_getProdIds (Some (ids\<lparr>prod_entry := ps @ drop (length ps) old, numEntries := of_nat (length ps)\<rparr>))
       (of_nat (length ps)) (of_nat (length ps)), opStatus := SH2_OK, pOp := None\<rparr>)"
  proof (cases "todo = []")
    case True
    then have "ps = ?d" using Cons.prems(1) by simp
    then show ?thesis using assms(2) Cons.prems(6) True by (simp add: control_loop_end)
  next
    case False
    then have "length ?d < length ps" using Cons.prems(1) by simp
    from assms(3) [OF this] have more: "length ?d < expected_ids ?d" using Cons.prems(1) by simp
    have next_at: "drop (cursor + unat (16 :: u8)) (inPayload s) = concat (map enc_ProductId todo) @ rest"
      using drop_beyond [OF at] by simp
    let ?s2 = "s\<lparr>opData := D_getProdIds (Some (ids\<lparr>prod_entry := ?d @ drop (length ?d) old\<rparr>)) (of_nat (length ?d)) (of_nat (expected_ids ?d))\<rparr>"
    have "control_loop send len (cursor + unat (16 :: u8)) ?s2 = Inr ((), ?s2\<lparr>
     opData := D_getProdIds (Some (ids\<lparr>prod_entry := ps @ drop (length ps) old, numEntries := of_nat (length ps)\<rparr>))
       (of_nat (length ps)) (of_nat (length ps)), opStatus := SH2_OK, pOp := None\<rparr>)"
      using Cons.prems(1,3,4,6) next_at by (intro Cons.IH [where d = ?d, OF _ False]) simp_all
    with more show ?thesis by simp
  qed
  finally show ?case .
qed

text \<open>
  The answers to the request for product ids: four of them, or five when one of the first four is that
  of an FSP200. Arriving in one payload on the control channel they complete the request, and the
  caller's structure holds them in the order in which they came, with their number.
\<close>

theorem product_ids_collected:
  assumes "getReportLen (reports s) SENSORHUB_PROD_ID_RESP = 16" "pOp s = Some getProdIdOp"
    and "opData s = D_getProdIds (Some ids) 0 4" "length (prod_entry ids) = 5"
    and "length ps = 4 \<and> FSP200 \<notin> swPartNumber ` set ps \<or> length ps = 5 \<and> FSP200 \<in> swPartNumber ` set (take 4 ps)"
    and "inPayload s = concat (map enc_ProductId ps) @ rest" "len = of_nat (16 * length ps)"
  shows "sensorhubControlHdlr send len s = Inr ((), s\<lparr>
    opData := D_getProdIds (Some (ids\<lparr>prod_entry := ps @ drop (length ps) (prod_entry ids), numEntries := of_nat (length ps)\<rparr>))
      (of_nat (length ps)) (of_nat (length ps)), opStatus := SH2_OK, pOp := None\<rparr>)"
proof -
  have count: "length ps = expected_ids ps"
    using assms(5) by (auto simp: expected_ids_def dest: in_set_takeD)
  have room: "j < expected_ids (take j ps)" if "j < length ps" for j
  proof (cases "j < 4")
    case True
    then show ?thesis using expected_ids_bounds(1) [of "take j ps"] by simp
  next
    case False
    then have "j = 4" using that assms(5) by auto
    then show ?thesis using that assms(5) by (auto simp: expected_ids_def)
  qed
  have "ps \<noteq> []" using assms(5) by auto
  moreover have "length ps \<le> 5" using assms(5) by auto
  then have len: "unat len = 16 * length ps" "len \<noteq> 0"
    using \<open>ps \<noteq> []\<close> unfolding assms(7) by (auto simp: unat_of_nat simp del: of_nat_mult simp flip: unat_eq_0)
  ultimately have "control_loop send (unat len) 0 s = Inr ((), s\<lparr>
    opData := D_getProdIds (Some (ids\<lparr>prod_entry := ps @ drop (length ps) (prod_entry ids), numEntries := of_nat (length ps)\<rparr>))
      (of_nat (length ps)) (of_nat (length ps)), opStatus := SH2_OK, pOp := None\<rparr>)"
    using assms(1-4,6) by (intro control_loop_ids [OF assms(4) count room, where d = "[]"]) (simp_all add: expected_ids_def)
  with len(2) show ?thesis by (simp add: sensorhubControlHdlr_def)
qed

definition example_id :: "u8 \<Rightarrow> ProductId" where
  "example_id k = \<lparr>resetCause = 1, swVersionMajor = 3, swVersionMinor = k, swPartNumber = 10003608, swBuildNumber = 370,
     swVersionPatch = 6, reserved0 = 0, reserved1 = 0\<rparr>"

definition blank_ids :: ProductIds where
  "blank_ids = \<lparr>prod_entry = replicate 5 (example_id 0), numEntries = 0\<rparr>"

theorem product_ids_collected_witness:
  fixes s :: sh2 and ps :: "ProductId list"
  defines "ps \<equiv> map example_id [1, 2, 3, 4]"
  defines "s \<equiv> example_hub\<lparr>pOp := Some getProdIdOp, opData := D_getProdIds (Some blank_ids) 0 4, inPayload := concat (map enc_ProductId ps) @ []\<rparr>"
  shows "sensorhubControlHdlr (\<lambda>ch p. ret 0) 64 s = Inr ((), s\<lparr>
    opData := D_getProdIds (Some (blank_ids\<lparr>prod_entry := ps @ [example_id 0], numEntries := 4\<rparr>)) 4 4, opStatus := SH2_OK, pOp := None\<rparr>)"
  using product_ids_collected [of s blank_ids ps "[]" 64 "\<lambda>ch p. ret 0"]
  by (simp add: s_def ps_def blank_ids_def example_id_def)

text \<open>
  Without a structure to store them in, which the code foresees and which nothing rejects, the first
  product id that arrives makes the code store the number of entries through the null pointer.
\<close>

theorem product_ids_null_pointer:
  assumes "drop i (inPayload s) = enc_ProductId p @ rest" "opData s = D_getProdIds None n e"
  shows "getProdIdRx i s = Inl Null_Pointer"
  using assms(2) rep_at(4) [OF assms(1)] by (simp add: getProdIdRx_def enc_ProductId_def)

theorem product_ids_null_pointer_witness:
  "getProdIdRx 0 (example_hub\<lparr>inPayload := enc_ProductId (example_id 1) @ [], opData := D_getProdIds None 0 4\<rparr>) = Inl Null_Pointer"
  by (rule product_ids_null_pointer [where p = "example_id 1" and rest = "[]" and n = 0 and e = 4]) simp_all

section \<open>Sensor events and their times\<close>

text \<open>
  The reports on an input channel. Times count in units of 100 us; the delay of a sensor report has 14
  bits, split over its third and fourth byte.
\<close>

datatype hub_report =
    Base_timestamp u32
  | Rebase_timestamp i32
  | Flush_completed u8
  | Sensor_report u8 u8 nat nat "u8 list"

fun enc_report :: "hub_report \<Rightarrow> u8 list" where
  "enc_report (Base_timestamp tb) = SENSORHUB_BASE_TIMESTAMP_REF # bytes_le 4 tb"
| "enc_report (Rebase_timestamp d) = SENSORHUB_TIMESTAMP_REBASE # bytes_le 4 d"
| "enc_report (Flush_completed sid) = [SENSORHUB_FLUSH_COMPLETED, sid]"
| "enc_report (Sensor_report rid seq status delay data) =
     [rid, seq, of_nat (4 * (delay div 256) + status), of_nat (delay mod 256)] @ data"

fun report_ok :: "(u8 \<times> u8) list \<Rightarrow> hub_report \<Rightarrow> bool" where
  "report_ok rs (Sensor_report rid seq status delay data) \<longleftrightarrow>
     rid \<noteq> SENSORHUB_BASE_TIMESTAMP_REF \<and> rid \<noteq> SENSORHUB_TIMESTAMP_REBASE \<and> rid \<noteq> SENSORHUB_FLUSH_COMPLETED \<and>
     status < 4 \<and> delay < 2 ^ 14 \<and> length data \<le> 12 \<and> getReportLen rs rid = of_nat (4 + length data)"
| "report_ok rs r \<longleftrightarrow> getReportLen rs (hd (enc_report r)) = of_nat (length (enc_report r))"

text \<open>The events: each at the time of the interrupt, plus the base and the delay of its report.\<close>

fun report_events :: "int \<Rightarrow> int \<Rightarrow> u8 list \<Rightarrow> hub_report list \<Rightarrow> sh2_SensorEvent list" where
  "report_events T off event [] = []"
| "report_events T off event (Base_timestamp tb # rs) = report_events T (- uint tb) event rs"
| "report_events T off event (Rebase_timestamp d # rs) = report_events T (off + sint d) event rs"
| "report_events T off event (Flush_completed sid # rs) = report_events T off event rs"
| "report_events T off event (Sensor_report rid seq status delay data # rs) =
     (let bytes = enc_report (Sensor_report rid seq status delay data);
          event = bytes @ drop (length bytes) event
      in \<lparr>ev_timestamp_uS = word_of_int (T + 100 * (off + int delay)), ev_len = of_nat (length bytes), ev_reportId = rid,
           ev_report = event\<rparr> # report_events T off event rs)"

text \<open>Every time fits: the offset in \<open>int\<close>, and the sum in the 32 bits of the interrupt's time.\<close>

fun times_fit :: "u32 \<Rightarrow> int \<Rightarrow> hub_report list \<Rightarrow> bool" where
  "times_fit t off [] \<longleftrightarrow> True"
| "times_fit t off (Base_timestamp tb # rs) \<longleftrightarrow> times_fit t (- uint tb) rs"
| "times_fit t off (Rebase_timestamp d # rs) \<longleftrightarrow> times_fit t (off + sint d) rs"
| "times_fit t off (Flush_completed sid # rs) \<longleftrightarrow> times_fit t off rs"
| "times_fit t off (Sensor_report rid seq status delay data # rs) \<longleftrightarrow>
     fits_signed 32 off \<and> fits_signed 32 (100 * (off + int delay)) \<and>
     0 \<le> uint t + 100 * (off + int delay) \<and> uint t + 100 * (off + int delay) < 2 ^ 32 \<and> times_fit t off rs"

text \<open>The number of rollovers that an event with the given interrupt time counts with.\<close>

definition epoch :: "u32 \<Rightarrow> 'u sh2_scheme \<Rightarrow> u32" where
  "epoch t s = (if t < lastHostInt s then rollovers s + 1 else rollovers s)"

definition stamped :: "u32 \<Rightarrow> 'u sh2_scheme \<Rightarrow> 'u sh2_scheme" where
  "stamped t s = s\<lparr>rollovers := epoch t s, lastHostInt := t\<rparr>"

lemma stamped_simps [simp]:
  "inPayload (stamped t s) = inPayload s" "reports (stamped t s) = reports s" "sensorCallback (stamped t s) = sensorCallback s"
  "sensor_events (stamped t s) = sensor_events s" "pOp (stamped t s) = pOp s" "epoch t (stamped t s) = epoch t s"
  by (simp_all add: stamped_def epoch_def)

lemma touSTimestamp_run:
  "touSTimestamp t ref delay s = (case delta_us ref delay of
     None \<Rightarrow> Inl Undefined_Behaviour
   | Some d \<Rightarrow> Inr (push_bit 32 (ucast (epoch t s)) + ucast (t + d), stamped t s))"
  by (cases s) (simp add: touSTimestamp_def stamped_def epoch_def split: option.split)

lemma delta_us_fits:
  assumes "fits_signed 32 off" "fits_signed 32 (100 * (off + int (unat delay)))"
  shows "delta_us (word_of_int off) delay = Some (word_of_int (100 * (off + int (unat delay))))"
proof -
  have off: "sint (word_of_int off :: u32) = off"
    using assms(1) by (intro sint_word_of_int_fits) simp
  have "fits_signed 32 (off + int (unat delay))"
    using assms by (simp add: fits_signed_def)
  with assms(2) off show ?thesis by (simp add: delta_us_def mult.commute)
qed

lemma stamp_value:
  fixes t :: u32 and R :: u32
  assumes "0 \<le> uint t + x + 2 ^ 32 * k" "uint t + x + 2 ^ 32 * k < 2 ^ 32"
  shows "push_bit 32 (ucast R) + ucast (t + word_of_int x) = (word_of_int (2 ^ 32 * uint R + uint t + x + 2 ^ 32 * k) :: u64)"
proof -
  have "uint (t + word_of_int x) = (uint t + x) mod 2 ^ 32"
    by (simp add: uint_word_ariths uint_word_of_int mod_simps)
  also have "\<dots> = (uint t + x + 2 ^ 32 * k) mod 2 ^ 32" by simp
  also have "\<dots> = uint t + x + 2 ^ 32 * k" using assms by (intro mod_pos_pos_trivial)
  finally have sum: "uint (t + word_of_int x) = uint t + x + 2 ^ 32 * k" .
  have "push_bit 32 (ucast R :: u64) = word_of_int (2 ^ 32 * uint R)"
    by (simp add: push_bit_eq_mult ucast_eq mult.commute)
  moreover have "ucast (t + word_of_int x) = (word_of_int (uint t + x + 2 ^ 32 * k) :: u64)"
    unfolding sum [symmetric] by (rule ucast_eq)
  ultimately show ?thesis by (simp add: add.assoc)
qed

lemma report_delay_value:
  assumes "status < 4" "delay < 2 ^ 14"
  shows "unat (report_delay (of_nat (4 * (delay div 256) + status)) (of_nat (delay mod 256))) = delay"
proof -
  define d where "d = delay div 256"
  define b2 :: u8 where "b2 = of_nat (4 * d + status)"
  have d: "d < 64" using assms(2) by (simp add: d_def)
  then have "4 * d + status < 256" using assms(1) by simp
  then have b2: "unat b2 = 4 * d + status" unfolding b2_def by (simp add: unat_of_nat del: of_nat_add of_nat_mult)
  have "b2 AND 0xFC = push_bit 2 (take_bit 6 (drop_bit 2 b2))"
    by (simp add: slice_eq_mask and.assoc mask_eq_exp_minus_1)
  also have "unat \<dots> = take_bit 8 (push_bit 2 (take_bit 6 (drop_bit 2 (unat b2))))"
    by (simp add: unsigned_push_bit_eq unsigned_take_bit_eq unat_drop_bit_eq)
  also have "\<dots> = 4 * d"
    using d assms(1) by (simp add: b2 take_bit_eq_mod push_bit_eq_mult drop_bit_eq_div)
  finally have "unat (b2 AND 0xFC) = 4 * d" .
  then have "unat (report_delay b2 (of_nat (delay mod 256))) = 256 * d + delay mod 256"
    using d by (simp add: report_delay_def unat_word_ariths unsigned_push_bit_eq unsigned_ucast_eq unat_of_nat take_bit_eq_mod push_bit_eq_mult)
  then show ?thesis by (simp add: d_def b2_def)
qed

lemma length_enc_report:
  "length (enc_report (Base_timestamp tb)) = 5" "length (enc_report (Rebase_timestamp d)) = 5"
  "length (enc_report (Flush_completed sid)) = 2" "length (enc_report (Sensor_report rid q st dl data)) = 4 + length data"
  by simp_all

lemma input_loop_end: "len \<le> cursor \<Longrightarrow> input_loop send len t cursor ref ev s = Inr ((), s)"
  by (subst input_loop.simps) simp

lemma input_loop_base:
  assumes at: "drop cursor (inPayload s) = enc_report (Base_timestamp tb) @ rest" and "cursor < len"
    and "report_ok (reports s) (Base_timestamp tb)"
  shows "input_loop send len t cursor ref ev s = input_loop send len t (cursor + 5) (- tb) ev s"
  using assms(2,3) by (subst input_loop.simps) (simp add: rep_at [OF at] read_report)

lemma input_loop_rebase:
  assumes at: "drop cursor (inPayload s) = enc_report (Rebase_timestamp d) @ rest" and "cursor < len"
    and "report_ok (reports s) (Rebase_timestamp d)"
  shows "input_loop send len t cursor ref ev s = input_loop send len t (cursor + 5) (ref + d) ev s"
  using assms(2,3) by (subst input_loop.simps) (simp add: rep_at [OF at] read_report)

lemma input_loop_flush:
  assumes at: "drop cursor (inPayload s) = enc_report (Flush_completed sid) @ rest" and "cursor < len"
    and "report_ok (reports s) (Flush_completed sid)" "pOp s = None"
  shows "input_loop send len t cursor ref ev s = input_loop send len t (cursor + 2) ref ev s"
  using assms(2-) by (subst input_loop.simps) (simp add: rep_at [OF at] opRx_def)

lemma input_loop_sensor:
  fixes rid seq :: u8 and status delay :: nat and data :: "u8 list"
  defines "r \<equiv> Sensor_report rid seq status delay data"
  assumes at: "drop cursor (inPayload s) = enc_report r @ rest" and "cursor < len" and ok: "report_ok (reports s) r"
    and ev: "length ev = 16" and cb: "sensorCallback s" and fit: "times_fit t off [r]"
  shows "input_loop send len t cursor (word_of_int off) ev s =
    input_loop send len t (cursor + length (enc_report r)) (word_of_int off) (enc_report r @ drop (length (enc_report r)) ev)
      ((stamped t s)\<lparr>sensor_events := sensor_events s @ report_events (2 ^ 32 * uint (epoch t s) + uint t) off ev [r]\<rparr>)"
proof -
  define n where "n = length (enc_report r)"
  define b2 b3 :: u8 where "b2 = of_nat (4 * (delay div 256) + status)" and "b3 = of_nat (delay mod 256)"
  define stamp where "stamp = (word_of_int (2 ^ 32 * uint (epoch t s) + uint t + 100 * (off + int delay)) :: u64)"
  have enc: "enc_report r = rid # seq # b2 # b3 # data" by (simp add: r_def b2_def b3_def)
  have len: "n = 4 + length data" unfolding n_def r_def by (rule length_enc_report)
  then have n: "n \<le> 16" "0 < n" using ok by (simp_all add: r_def)
  then have un: "unat (of_nat n :: u8) = n" "(of_nat n :: u8) \<noteq> 0" by (auto simp: unat_of_nat simp flip: unat_eq_0)
  have rl: "getReportLen (reports s) rid = of_nat n" unfolding len using ok by (simp only: r_def report_ok.simps)
  have kinds: "rid \<noteq> SENSORHUB_BASE_TIMESTAMP_REF" "rid \<noteq> SENSORHUB_TIMESTAMP_REBASE" "rid \<noteq> SENSORHUB_FLUSH_COMPLETED"
    using ok by (simp_all add: r_def)
  have delay: "unat (report_delay b2 b3) = delay"
    unfolding b2_def b3_def using ok by (intro report_delay_value) (simp_all add: r_def)
  have "delta_us (word_of_int off) (report_delay b2 b3) = Some (word_of_int (100 * (off + int delay)))"
    using delta_us_fits [of off "report_delay b2 b3"] fit by (simp add: r_def delay)
  moreover have "push_bit 32 (ucast (epoch t s)) + ucast (t + word_of_int (100 * (off + int delay))) = stamp"
    using stamp_value [of t "100 * (off + int delay)" 0 "epoch t s"] fit by (simp add: r_def stamp_def)
  ultimately have time: "touSTimestamp t (word_of_int off) (report_delay b2 b3) s = Inr (stamp, stamped t s)"
    by (simp add: touSTimestamp_run)
  have payload: "event_report (of_nat n) cursor ev (inPayload s) = Some (enc_report r @ drop n ev)"
  proof -
    have "length (drop cursor (inPayload s)) = n + length rest" unfolding at n_def by simp
    then have "cursor + n \<le> length (inPayload s)" using n(2) by simp
    moreover have "take n (drop cursor (inPayload s)) = enc_report r" unfolding at n_def by simp
    ultimately show ?thesis using n(1) ev by (simp add: event_report_def un)
  qed
  have reads: "rep8 cursor s = Inr (rid, s)" "rep8 (cursor + 2) s = Inr (b2, s)" "rep8 (cursor + 3) s = Inr (b3, s)"
    by (simp_all add: rep_at [OF at] enc del: add_2_eq_Suc')
  have events: "report_events (2 ^ 32 * uint (epoch t s) + uint t) off ev [r] = [\<lparr>ev_timestamp_uS = stamp, ev_len = of_nat n,
      ev_reportId = rid, ev_report = enc_report r @ drop n ev\<rparr>]"
    by (simp add: r_def n_def stamp_def Let_def)
  show ?thesis
    unfolding events n_def [symmetric] using \<open>cursor < len\<close> un
    by (subst input_loop.simps) (simp add: reads rl kinds time payload sensor_event_def cb del: add_2_eq_Suc')
qed

lemma report_events_sensor:
  "report_events T off ev (Sensor_report rid seq status delay data # rs) =
     report_events T off ev [Sensor_report rid seq status delay data] @
     report_events T off (enc_report (Sensor_report rid seq status delay data) @
       drop (length (enc_report (Sensor_report rid seq status delay data))) ev) rs"
  by (simp add: Let_def)

lemma input_loop_events:
  assumes "length ev = 16" "sensorCallback s" "pOp s = None" "list_all (report_ok (reports s)) rs" "times_fit t off rs"
    and "drop cursor (inPayload s) = concat (map enc_report rs) @ rest" "len = cursor + length (concat (map enc_report rs))"
  shows "\<exists>s'. input_loop send len t cursor (word_of_int off) ev s = Inr ((), s') \<and>
    sensor_events s' = sensor_events s @ report_events (2 ^ 32 * uint (epoch t s) + uint t) off ev rs"
  using assms
proof (induction rs arbitrary: s cursor off ev)
  case Nil
  then show ?case by (simp add: input_loop_end)
next
  case (Cons r rs)
  have at: "drop cursor (inPayload s) = enc_report r @ concat (map enc_report rs) @ rest" using Cons.prems(6) by simp
  have behind: "drop (cursor + length (enc_report r)) (inPayload s) = concat (map enc_report rs) @ rest"
    using at by (rule drop_beyond) simp
  have len: "len = cursor + length (enc_report r) + length (concat (map enc_report rs))" using Cons.prems(7) by simp
  have "0 < length (enc_report r)" by (cases r) simp_all
  then have less: "cursor < len" using len by simp
  have ok: "report_ok (reports s) r" "list_all (report_ok (reports s)) rs" using Cons.prems(4) by simp_all
  show ?case
  proof (cases r)
    case (Base_timestamp tb)
    have "input_loop send len t cursor (word_of_int off) ev s = input_loop send len t (cursor + 5) (word_of_int (- uint tb)) ev s"
      using input_loop_base [of cursor s tb] at less ok(1) Base_timestamp by simp
    moreover have "\<exists>s'. input_loop send len t (cursor + 5) (word_of_int (- uint tb)) ev s = Inr ((), s') \<and>
      sensor_events s' = sensor_events s @ report_events (2 ^ 32 * uint (epoch t s) + uint t) (- uint tb) ev rs"
      using Cons.prems(1-3,5) ok(2) behind len Base_timestamp by (intro Cons.IH) simp_all
    ultimately show ?thesis using Base_timestamp by simp
  next
    case (Rebase_timestamp d)
    have "word_of_int off + d = word_of_int (off + sint d)" by (simp add: of_int_sint)
    then have "input_loop send len t cursor (word_of_int off) ev s = input_loop send len t (cursor + 5) (word_of_int (off + sint d)) ev s"
      using input_loop_rebase [of cursor s d] at less ok(1) Rebase_timestamp by simp
    moreover have "\<exists>s'. input_loop send len t (cursor + 5) (word_of_int (off + sint d)) ev s = Inr ((), s') \<and>
      sensor_events s' = sensor_events s @ report_events (2 ^ 32 * uint (epoch t s) + uint t) (off + sint d) ev rs"
      using Cons.prems(1-3,5) ok(2) behind len Rebase_timestamp by (intro Cons.IH) simp_all
    ultimately show ?thesis using Rebase_timestamp by simp
  next
    case (Flush_completed sid)
    have "input_loop send len t cursor (word_of_int off) ev s = input_loop send len t (cursor + 2) (word_of_int off) ev s"
      using input_loop_flush [of cursor s sid] at less ok(1) Flush_completed Cons.prems(3) by simp
    moreover have "\<exists>s'. input_loop send len t (cursor + 2) (word_of_int off) ev s = Inr ((), s') \<and>
      sensor_events s' = sensor_events s @ report_events (2 ^ 32 * uint (epoch t s) + uint t) off ev rs"
      using Cons.prems(1-3,5) ok(2) behind len Flush_completed by (intro Cons.IH) simp_all
    ultimately show ?thesis using Flush_completed by simp
  next
    case (Sensor_report rid seq status delay data)
    let ?r = "Sensor_report rid seq status delay data"
    let ?n = "length (enc_report ?r)"
    let ?ev = "enc_report ?r @ drop ?n ev"
    let ?s = "(stamped t s)\<lparr>sensor_events := sensor_events s @ report_events (2 ^ 32 * uint (epoch t s) + uint t) off ev [?r]\<rparr>"
    have fit: "times_fit t off [?r]" "times_fit t off rs" using Cons.prems(5) Sensor_report by simp_all
    have "?n \<le> 16" using ok(1) Sensor_report by simp
    then have ev: "length ?ev = 16" using Cons.prems(1) by simp
    have same: "epoch t ?s = epoch t s" by (simp add: epoch_def stamped_def)
    have "\<exists>s'. input_loop send len t (cursor + ?n) (word_of_int off) ?ev ?s = Inr ((), s') \<and>
      sensor_events s' = sensor_events ?s @ report_events (2 ^ 32 * uint (epoch t ?s) + uint t) off ?ev rs"
    proof (rule Cons.IH [OF ev])
      show "drop (cursor + ?n) (inPayload ?s) = concat (map enc_report rs) @ rest"
        using behind unfolding Sensor_report by (simp del: enc_report.simps)
      show "len = cursor + ?n + length (concat (map enc_report rs))" using len unfolding Sensor_report .
    qed (use Cons.prems(2,3) ok(2) fit(2) in simp_all)
    moreover have "input_loop send len t cursor (word_of_int off) ev s = input_loop send len t (cursor + ?n) (word_of_int off) ?ev ?s"
      using at less ok(1) fit(1) Cons.prems(1,2) unfolding Sensor_report by (intro input_loop_sensor)
    ultimately show ?thesis
      unfolding Sensor_report report_events_sensor [of _ _ _ rid seq status delay data rs] same by (auto simp del: enc_report.simps report_events.simps)
  qed
qed

text \<open>C6: 
  A payload on an input channel, made of sensor reports, time bases and completed flushes as the hub
  sends them, gives the application one event for each sensor report, in order: with the bytes of the
  report, and the time of the interrupt plus the base and the delay that apply to it, in microseconds
  and continued over the rollovers of the 32-bit clock, as long as the sum needs no more than its 32
  bits.
\<close>

theorem input_events_in_time:
  assumes "inPayload s = concat (map enc_report rs) @ rest" "list_all (report_ok (reports s)) rs"
    and "times_fit t 0 rs" "sensorCallback s" "pOp s = None" "length (event_local s) = 16"
    and "length (concat (map enc_report rs)) < 2 ^ 16" "len = of_nat (length (concat (map enc_report rs)))"
  shows "\<exists>s'. sensorhubInputHdlr send len t s = Inr ((), s') \<and>
    sensor_events s' = sensor_events s @ report_events (2 ^ 32 * uint (epoch t s) + uint t) 0 (event_local s) rs"
proof -
  have "unat len = length (concat (map enc_report rs))" using assms(7,8) by (simp add: unat_of_nat)
  with input_loop_events [where off = 0 and cursor = 0 and ev = "event_local s" and s = s and t = t and rs = rs and send = send] assms
  show ?thesis by (simp add: sensorhubInputHdlr_def)
qed

theorem input_events_in_time_witness:
  fixes s :: sh2
  defines "s \<equiv> example_hub\<lparr>inPayload := concat (map enc_report [Base_timestamp 120, Sensor_report 1 7 3 17 [1, 2, 3, 4, 5, 6]]) @ [9]\<rparr>"
  shows "\<exists>s'. sensorhubInputHdlr (\<lambda>ch p. ret 0) 15 1000000 s = Inr ((), s') \<and> sensor_events s' =
    [\<lparr>ev_timestamp_uS = 989700, ev_len = 10, ev_reportId = 1, ev_report = [1, 7, 3, 17, 1, 2, 3, 4, 5, 6] @ replicate 6 0\<rparr>]"
proof -
  let ?rs = "[Base_timestamp 120, Sensor_report 1 7 3 17 [1, 2, 3, 4, 5, 6]]"
  have "\<exists>s'. sensorhubInputHdlr (\<lambda>ch p. ret 0) 15 1000000 s = Inr ((), s') \<and>
    sensor_events s' = sensor_events s @ report_events (2 ^ 32 * uint (epoch 1000000 s) + uint (1000000 :: u32)) 0 (event_local s) ?rs"
    by (rule input_events_in_time [where rest = "[9]"]) (simp_all add: s_def fits_signed_def)
  then show ?thesis by (simp add: s_def epoch_def)
qed

text \<open>
  The time of an event is formed from the 32-bit time of the interrupt before the rollovers are put
  above it. An event that lies before the last rollover, by a base or a delay that reaches back over
  it, is stamped 2^32 us too late, an hour and eleven minutes.
\<close>

theorem event_before_rollover_stamped_late:
  assumes "fits_signed 32 off" "fits_signed 32 (100 * (off + int (unat delay)))"
    and "uint t + 100 * (off + int (unat delay)) < 0"
  shows "touSTimestamp t (word_of_int off) delay s =
    Inr (word_of_int (2 ^ 32 * uint (epoch t s) + uint t + 100 * (off + int (unat delay)) + 2 ^ 32), stamped t s)"
proof -
  have "- 2147483648 \<le> 100 * (off + int (unat delay))" using assms(2) by (simp add: fits_signed_def)
  then have "0 \<le> uint t + 100 * (off + int (unat delay)) + 4294967296" using uint_ge_0 [of t] by linarith
  then have "0 \<le> uint t + 100 * (off + int (unat delay)) + 2 ^ 32 * 1" by simp
  then have "push_bit 32 (ucast (epoch t s)) + ucast (t + word_of_int (100 * (off + int (unat delay)))) =
      (word_of_int (2 ^ 32 * uint (epoch t s) + uint t + 100 * (off + int (unat delay)) + 2 ^ 32 * 1) :: u64)"
    using assms(3) by (intro stamp_value) simp_all
  with delta_us_fits [OF assms(1,2)] show ?thesis by (simp add: touSTimestamp_run)
qed

theorem event_before_rollover_stamped_late_witness:
  fixes s :: sh2
  defines "s \<equiv> example_hub\<lparr>lastHostInt := 4294960000, rollovers := 3\<rparr>"
  shows "touSTimestamp 5000 (word_of_int (- 60)) 0 s = Inr (word_of_int (2 ^ 32 * 4 + 5000 - 6000 + 2 ^ 32), stamped 5000 s)"
  using event_before_rollover_stamped_late [of "- 60" 0 5000 s] by (simp add: s_def fits_signed_def epoch_def)

text \<open>
  The loop over the reports of the gyro rotation vector steps by the length the hub has advertised for
  them. Before that is known the length is 0, and the first payload on the channel is an endless run of
  events: no number of rounds is enough.
\<close>

theorem gyro_without_length_hangs:
  assumes "getReportLen (reports s) SH2_GYRO_INTEGRATED_RV = 0" "0 < len"
  shows "sensorhubInputGyroRvHdlr n len t s = Inl No_Return"
proof -
  have "gyro_loop n (unat len) t 0 0 ev s' = Inl No_Return" for n ev and s' :: "'a sh2_scheme"
    by (induction n arbitrary: ev s') (use assms(2) in \<open>simp_all add: event_report_def sensor_event_def word_less_nat_alt\<close>)
  with assms(1) show ?thesis by (simp add: sensorhubInputGyroRvHdlr_def)
qed

theorem gyro_without_length_hangs_witness:
  "sensorhubInputGyroRvHdlr 99 14 0 example_hub = Inl No_Return"
  by (rule gyro_without_length_hangs) simp_all

end
