(* ===== verification/Sh2_Session.thy ===== *)
theory Sh2_Session
  imports Sh2_Reports
begin

text \<open>
  What holds of a session with the sensor hub: opening it establishes the invariant of the library and
  of the transport below, every function keeps it; and the cases in which a function never returns or
  leaves the library unusable.
\<close>

section \<open>Opening establishes the invariant, the functions keep it\<close>

lemma hub_ok_clear: "hub_ok (clear_shtp s) \<longleftrightarrow> hub_sizes s"
  by (simp add: shtp_ok_def shtp_sizes_def callbacks_ok_def clear_shtp_def hub_sizes_def name_ok_def zero_App_def
      zero_Channel_def zero_ChanListener_def callback_for_def listener_for_def list_all_iff find_replicate_None)

lemma hub_ok_instance [simp]:
  "hub_ok (pHal_update f1 s) \<longleftrightarrow> hub_ok s" "hub_ok (eventCallback_update f2 s) \<longleftrightarrow> hub_ok s"
  "hub_ok (eventCookie_update f3 s) \<longleftrightarrow> hub_ok s" "hub_ok (outMaxPayload_update f4 s) \<longleftrightarrow> hub_ok s"
  "hub_ok (advertPhase_update f5 s) \<longleftrightarrow> hub_ok s" "hub_ok (hub_pHal_update f6 s) \<longleftrightarrow> hub_ok s"
  "hub_ok (pShtp_update f7 s) \<longleftrightarrow> hub_ok s" "hub_ok (asyncCallback_update f8 s) \<longleftrightarrow> hub_ok s"
  "hub_ok (sensorCallback_update f9 s) \<longleftrightarrow> hub_ok s" "hub_ok (frsData_update f10 s) \<longleftrightarrow> hub_ok s"
  "hub_ok (frsDataLen_update f11 s) \<longleftrightarrow> hub_ok s"
  by (simp_all add: shtp_ok_def shtp_sizes_def callbacks_ok_def hub_sizes_def)

lemma hub_ok_max_transfer [simp]: "hub_ok s \<Longrightarrow> hub_ok (outMaxTransfer_update (\<lambda>_. 256) s)"
  by (simp add: shtp_ok_def shtp_sizes_def callbacks_ok_def hub_sizes_def)

lemma keeps_listenAdvert [keeps_intro]: "keeps hub_ok (shtp_listenAdvert guid callback c)"
  unfolding shtp_listenAdvert_def by (intro keeps_intro) simp_all

lemma keeps_listenChan [keeps_intro]: "keeps hub_ok (shtp_listenChan guid chan callback c)"
  unfolding shtp_listenChan_def by (intro keeps_intro)

lemma keeps_hub_listen [keeps_intro]: "keeps hub_ok hub_listen"
  unfolding hub_listen_def by (intro keeps_intro) (simp add: shtp_setEventCallback_def)

lemma keeps_reset_wait [keeps_intro]: "keeps hub_ok (reset_wait h n start now)"
  by (induction n arbitrary: now) (simp_all only: reset_wait.simps, (intro keeps_intro | assumption)+)

text \<open>The transport establishes the invariant when it hands out its instance.\<close>

lemma shtp_open_ok:
  assumes "hub_sizes s" "shtp_open initialized True s = Inr (True, s')"
  shows "hub_ok s'"
proof -
  define s0 where "s0 = (if initialized then s else clear_shtp s)"
  let ?fresh = "(clear_shtp s0)\<lparr>pHal := True, eventCallback := None, eventCookie := 0, outMaxPayload := 256, outMaxTransfer := 256\<rparr>"
  let ?rest = "seqp (modify (addApp (ucast GUID_SHTP)))
      (seqp (modify (addChannel 0 (ucast GUID_SHTP) (cname_of ''command'') False))
      (bnd (shtp_listenAdvert GUID_SHTP (Some Shtp_advert) 0) (\<lambda>_.
      (bnd (shtp_listenChan GUID_SHTP (Some (cname_of ''command'')) (Some Cmd_listener) 0) (\<lambda>_.
      seqp (modify (\<lambda>s. s\<lparr>advertPhase := ADVERT_REQUESTED\<rparr>))
      (seqp (modify (hal_calls_update (\<lambda>cs. cs @ [Hal_open]))) (ret True)))))))"
  have sizes: "hub_sizes s0" using assms(1) by (simp add: s0_def hub_sizes_def clear_shtp_def)
  have "?rest ?fresh = Inr (True, s')"
    using assms(2) by (simp add: shtp_open_def s0_def split: if_splits)
  moreover have "hub_ok ?fresh" using sizes by (simp add: hub_ok_clear)
  moreover have "keeps hub_ok ?rest"
    by (intro keeps_intro) (simp_all add: name_ok_def cname_of_def)
  ultimately show ?thesis by (blast dest: keepsD)
qed

lemma open_establishes:
  assumes "sh2_open h n initialized hal cb s = Inr (SH2_OK, s')"
  shows "hub_ok s'"
proof -
  let ?s1 = "(clear_sh2 s)\<lparr>controlChan := 0xFF, hub_pHal := True, asyncCallback := cb\<rparr>"
  let ?rest = "seqp (modify (pShtp_update (\<lambda>_. True))) (seqp hub_listen
      (bnd (hub_getTimeUs h) (\<lambda>start. seqp (reset_wait h n start start) (ret SH2_OK))))"
  from assms obtain s2 where opened: "shtp_open initialized True ?s1 = Inr (True, s2)" and rest: "?rest s2 = Inr (SH2_OK, s')"
    by (auto simp: sh2_open_def seqp_def elim!: bnd_InrE split: if_splits)
  have "hub_sizes ?s1" by (simp add: hub_sizes_def clear_sh2_def)
  from shtp_open_ok [OF this opened] have "hub_ok s2" .
  moreover have "keeps hub_ok ?rest" by (intro keeps_intro) simp
  ultimately show ?thesis using rest by (blast dest: keepsD)
qed

text \<open>The calls an application can make in a session.\<close>

datatype sh2_call =
    Call_service | Call_setSensorCallback bool | Call_devReset | Call_devOn | Call_devSleep
  | Call_getProdIds "ProductIds option" | Call_getSensorConfig u8 sh2_SensorConfig
  | Call_setSensorConfig u8 sh2_SensorConfig | Call_getMetadata u8 "sh2_SensorMetadata option"
  | Call_getFrs u16 "u32 list option" "u16 option" | Call_setFrs u16 "u32 list option" u16
  | Call_getErrors u8 "ErrorRecord list" u16 | Call_getCounts u8 Counts | Call_clearCounts u8
  | Call_setTareNow u8 u8 | Call_clearTare | Call_persistTare | Call_setReorientation sh2_Quaternion
  | Call_reinitialize | Call_saveDcdNow | Call_getOscType u8 | Call_setCalConfig u8 | Call_getCalConfig u8
  | Call_setDcdAutoSave bool | Call_flush u8 | Call_clearDcdAndReset | Call_startCal u32 | Call_finishCal u8
  | Call_setIZro u8

definition result :: "('s, 'a) prog \<Rightarrow> ('s, unit) prog" where
  "result m = bnd m (\<lambda>_. ret ())"

fun sh2_do :: "hal \<Rightarrow> nat \<Rightarrow> sh2_call \<Rightarrow> ('u sh2_scheme, unit) prog" where
  "sh2_do h n Call_service = sh2_service h n"
| "sh2_do h n (Call_setSensorCallback cb) = result (sh2_setSensorCallback cb)"
| "sh2_do h n Call_devReset = result (sh2_devReset h n)"
| "sh2_do h n Call_devOn = result (sh2_devOn h n)"
| "sh2_do h n Call_devSleep = result (sh2_devSleep h n)"
| "sh2_do h n (Call_getProdIds ids) = result (sh2_getProdIds h n ids)"
| "sh2_do h n (Call_getSensorConfig i cfg) = result (sh2_getSensorConfig h n i cfg)"
| "sh2_do h n (Call_setSensorConfig i cfg) = result (sh2_setSensorConfig h n i cfg)"
| "sh2_do h n (Call_getMetadata i d) = result (sh2_getMetadata h n i d)"
| "sh2_do h n (Call_getFrs r p w) = result (sh2_getFrs h n r p w)"
| "sh2_do h n (Call_setFrs r p w) = result (sh2_setFrs h n r p w)"
| "sh2_do h n (Call_getErrors v es k) = result (sh2_getErrors h n v es k)"
| "sh2_do h n (Call_getCounts i c) = result (sh2_getCounts h n i c)"
| "sh2_do h n (Call_clearCounts i) = result (sh2_clearCounts h n i)"
| "sh2_do h n (Call_setTareNow a b) = result (sh2_setTareNow h n a b)"
| "sh2_do h n Call_clearTare = result (sh2_clearTare h n)"
| "sh2_do h n Call_persistTare = result (sh2_persistTare h n)"
| "sh2_do h n (Call_setReorientation q) = result (sh2_setReorientation h n q)"
| "sh2_do h n Call_reinitialize = result (sh2_reinitialize h n)"
| "sh2_do h n Call_saveDcdNow = result (sh2_saveDcdNow h n)"
| "sh2_do h n (Call_getOscType t) = result (sh2_getOscType h n t)"
| "sh2_do h n (Call_setCalConfig v) = result (sh2_setCalConfig h n v)"
| "sh2_do h n (Call_getCalConfig v) = result (sh2_getCalConfig h n v)"
| "sh2_do h n (Call_setDcdAutoSave b) = result (sh2_setDcdAutoSave h n b)"
| "sh2_do h n (Call_flush i) = result (sh2_flush h n i)"
| "sh2_do h n Call_clearDcdAndReset = result (sh2_clearDcdAndReset h n)"
| "sh2_do h n (Call_startCal t) = result (sh2_startCal h n t)"
| "sh2_do h n (Call_finishCal v) = result (sh2_finishCal h n v)"
| "sh2_do h n (Call_setIZro v) = result (sh2_setIZro h n v)"

fun sh2_session :: "hal \<Rightarrow> nat \<Rightarrow> sh2_call list \<Rightarrow> ('u sh2_scheme, unit) prog" where
  "sh2_session h n [] = ret ()"
| "sh2_session h n (c # cs) = seqp (sh2_do h n c) (sh2_session h n cs)"

lemmas sh2_call_defs = sh2_service_def sh2_setSensorCallback_def sh2_devReset_def sh2_devOn_def sh2_devSleep_def
  sendExecutable_def sh2_getProdIds_def sh2_getSensorConfig_def sh2_setSensorConfig_def sh2_getFrs_def sh2_setFrs_def
  sh2_getErrors_def sh2_getCounts_def sh2_clearCounts_def sh2_setTareNow_def sh2_clearTare_def sh2_persistTare_def
  sh2_setReorientation_def sh2_reinitialize_def sh2_saveDcdNow_def sh2_getOscType_def sh2_setCalConfig_def
  sh2_getCalConfig_def sh2_setDcdAutoSave_def sh2_flush_def sh2_clearDcdAndReset_def sh2_startCal_def
  sh2_finishCal_def sh2_setIZro_def hub_command_def result_def sh2_getMetadata_def

lemma keeps_sh2_do: "keeps hub_ok (sh2_do h n c)"
  by (cases c; simp only: sh2_do.simps sh2_call_defs; intro keeps_intro hub.keeps_send; simp split: op_data.split)

lemma keeps_sh2_session: "keeps hub_ok (sh2_session h n cs)"
  by (induction cs) (simp_all only: sh2_session.simps keeps_ret keeps_seqp keeps_sh2_do)

text \<open>C5: 
  After a successful opening, and after any sequence of calls that returns, the buffers and tables of
  the library and of its transport have their sizes, and each channel delivers to the first listener
  that was registered for its application and its name.
\<close>

theorem session_keeps_invariant:
  assumes "sh2_open h n initialized hal cb s = Inr (SH2_OK, s1)" "sh2_session h m cs s1 = Inr (r, s2)"
  shows "hub_ok s2"
  using open_establishes [OF assms(1)] assms(2) by (rule keepsD [OF keeps_sh2_session])

section \<open>A hub that does not answer\<close>

text \<open>Programs that return and keep a property of the state.\<close>

named_theorems ends_intro "programs return and keep a property"

definition ends :: "('s \<Rightarrow> bool) \<Rightarrow> ('s, 'a) prog \<Rightarrow> bool" where
  "ends I m \<longleftrightarrow> (\<forall>s. I s \<longrightarrow> (\<exists>x s'. m s = Inr (x, s') \<and> I s'))"

lemma endsE:
  assumes "ends I m" "I s"
  obtains x s' where "m s = Inr (x, s')" "I s'"
  using assms by (auto simp: ends_def)

lemma ends_ret [ends_intro]: "ends I (ret x)"
  by (simp add: ends_def)

lemma ends_gets [ends_intro]: "ends I (gets g)"
  by (simp add: ends_def)

lemma ends_modify [ends_intro]: "(\<And>s. I s \<Longrightarrow> I (g s)) \<Longrightarrow> ends I (modify g)"
  by (simp add: ends_def)

lemma ends_bnd [ends_intro]: "ends I m \<Longrightarrow> (\<And>x. ends I (k x)) \<Longrightarrow> ends I (bnd m k)"
  unfolding ends_def by (metis bnd_Inr)

lemma ends_seqp [ends_intro]: "ends I m \<Longrightarrow> ends I n \<Longrightarrow> ends I (seqp m n)"
  unfolding seqp_def by (rule ends_bnd)

lemma ends_if [ends_intro]: "(b \<Longrightarrow> ends I m) \<Longrightarrow> (\<not> b \<Longrightarrow> ends I n) \<Longrightarrow> ends I (if b then m else n)"
  by simp

text \<open>The state from the opening of the transport until the hub has advertised its channels, in which the application has been handed the given events.\<close>

definition unopened :: "sh2_SensorEvent list \<times> sh2_AsyncEvent list \<Rightarrow> 'u sh2_scheme \<Rightarrow> bool" where
  "unopened es s \<longleftrightarrow> (sensor_events s, async_events s) = es \<and> hub_pHal s \<and> controlChan s = 0xFF \<and> pOp s = None \<and> \<not> resetComplete s \<and> outMaxPayload s = 256 \<and>
     advertPhase s \<noteq> ADVERT_IDLE"

lemma unopened_simps [simp]:
  "unopened es (eventCallback_update f1 s) \<longleftrightarrow> unopened es s" "unopened es (eventCookie_update f2 s) \<longleftrightarrow> unopened es s"
  "unopened es (appListener_update f3 s) \<longleftrightarrow> unopened es s" "unopened es (nextAppListener_update f4 s) \<longleftrightarrow> unopened es s"
  "unopened es (chanListener_update f5 s) \<longleftrightarrow> unopened es s" "unopened es (nextChanListener_update f6 s) \<longleftrightarrow> unopened es s"
  "unopened es (chans_update f7 s) \<longleftrightarrow> unopened es s" "unopened es (hal_calls_update f8 s) \<longleftrightarrow> unopened es s"
  "unopened es (apps_update f9 s) \<longleftrightarrow> unopened es s" "unopened es (nextApp_update f10 s) \<longleftrightarrow> unopened es s"
  "unopened es (opData_update f11 s) \<longleftrightarrow> unopened es s" "unopened es (pShtp_update f12 s) \<longleftrightarrow> unopened es s"
  by (simp_all add: unopened_def)

lemma unopened_tables [simp]:
  "unopened es (updateCallbacks s) \<longleftrightarrow> unopened es s"
  "unopened es (addAdvertListener guid callback c s) \<longleftrightarrow> unopened es s"
  "unopened es (addApp guid' s) \<longleftrightarrow> unopened es s" "unopened es (addChannel ch guid' name wake s) \<longleftrightarrow> unopened es s"
  by (simp_all add: addAdvertListener_def updateCallbacks_def addApp_def addChannel_def)

lemma open_phase [simp]: "unopened es s \<Longrightarrow> advertPhase s \<noteq> ADVERT_IDLE"
  by (simp add: unopened_def)

definition requested :: "sh2_SensorEvent list \<times> sh2_AsyncEvent list \<Rightarrow> 'u sh2_scheme \<Rightarrow> bool" where
  "requested es s \<longleftrightarrow> unopened es s \<and> pShtp s \<and> advertPhase s = ADVERT_REQUESTED"

lemma ends_listenAdvert [ends_intro]:
  assumes "\<And>s. I s \<Longrightarrow> I (addAdvertListener guid callback c s)" "\<And>s. I s \<Longrightarrow> advertPhase s \<noteq> ADVERT_IDLE"
  shows "ends I (shtp_listenAdvert guid callback c)"
  unfolding shtp_listenAdvert_def using assms by (intro ends_intro) auto

lemma ends_listenChan [ends_intro]:
  assumes "length name < SHTP_NAME_LEN" "\<And>s f g. I s \<Longrightarrow> I (updateCallbacks (s\<lparr>chanListener := f, nextChanListener := g\<rparr>))"
  shows "ends I (shtp_listenChan guid (Some name) callback c)"
  using assms by (auto simp: shtp_listenChan_def addChanListener_def ends_def)

lemma requested_simps [simp]:
  "requested es (updateCallbacks s) \<longleftrightarrow> requested es s"
  "requested es (addAdvertListener guid callback c s) \<longleftrightarrow> requested es s"
  "requested es (chanListener_update f1 s) \<longleftrightarrow> requested es s" "requested es (nextChanListener_update f2 s) \<longleftrightarrow> requested es s"
  "requested es (eventCallback_update f3 s) \<longleftrightarrow> requested es s" "requested es (eventCookie_update f4 s) \<longleftrightarrow> requested es s"
  "requested es (hal_calls_update f5 s) \<longleftrightarrow> requested es s" "requested es (opData_update f6 s) \<longleftrightarrow> requested es s"
  by (simp_all add: requested_def updateCallbacks_def addAdvertListener_def)

lemma requested_phase: "requested es s \<Longrightarrow> advertPhase s \<noteq> ADVERT_IDLE"
  by (simp add: requested_def)

lemma calls_tables [simp]:
  "hal_calls (updateCallbacks s) = hal_calls s" "hal_calls (addAdvertListener guid callback c s) = hal_calls s"
  "hal_calls (addApp guid' s) = hal_calls s" "hal_calls (addChannel ch guid' name wake s) = hal_calls s"
  by (simp_all add: addAdvertListener_def updateCallbacks_def addApp_def addChannel_def)

lemma ends_hub_listen: "ends (\<lambda>s. requested es s \<and> hal_calls s = cs) hub_listen"
  unfolding hub_listen_def
  by (intro ends_intro) (auto simp: shtp_setEventCallback_def cname_of_def dest: requested_phase)

text \<open>A free transport opens.\<close>

lemma shtp_open_requested:
  assumes "unopened es (s\<lparr>outMaxPayload := 256, advertPhase := ADVERT_NEEDED\<rparr>)" "initialized \<longrightarrow> \<not> pHal s"
  obtains s' where "shtp_open initialized True s = Inr (True, s')" "requested es (s'\<lparr>pShtp := True\<rparr>)"
    "hal_calls s' = hal_calls s @ [Hal_open]"
proof -
  define s0 where "s0 = (if initialized then s else clear_shtp s)"
  let ?fresh = "(clear_shtp s0)\<lparr>pHal := True, eventCallback := None, eventCookie := 0, outMaxPayload := 256, outMaxTransfer := 256\<rparr>"
  have "\<not> pHal s0" using assms(2) by (simp add: s0_def clear_shtp_def)
  have "unopened es ?fresh" using assms(1) by (simp add: s0_def unopened_def clear_shtp_def)
  let ?listen = "seqp (modify (addApp (ucast GUID_SHTP)))
      (seqp (modify (addChannel 0 (ucast GUID_SHTP) (cname_of ''command'') False))
      (seqp (shtp_listenAdvert GUID_SHTP (Some Shtp_advert) 0)
      (shtp_listenChan GUID_SHTP (Some (cname_of ''command'')) (Some Cmd_listener) 0)))"
  have calls: "hal_calls ?fresh = hal_calls s" by (simp add: s0_def clear_shtp_def)
  have "ends (\<lambda>s'. unopened es s' \<and> hal_calls s' = hal_calls s) ?listen"
    by (intro ends_intro) (auto simp: cname_of_def dest: open_phase)
  then obtain x s1 where "?listen ?fresh = Inr (x, s1)" "unopened es s1" "hal_calls s1 = hal_calls s"
    using \<open>unopened es ?fresh\<close> calls by (elim endsE) auto
  then show ?thesis
    using \<open>\<not> pHal s0\<close>
    by (intro that [of "s1\<lparr>advertPhase := ADVERT_REQUESTED, hal_calls := hal_calls s1 @ [Hal_open]\<rparr>"])
      (auto simp: shtp_open_def s0_def requested_def unopened_def seqp_def bnd_def split: sum.splits prod.splits if_splits)
qed

lemma silent_service:
  assumes "hal_read h (hal_calls s) = (0, [], t)" "advertPhase s \<noteq> ADVERT_NEEDED"
  shows "shtp_service h cl (Suc n) s = Inr ((), s\<lparr>hal_calls := hal_calls s @ [Hal_read]\<rparr>)"
proof -
  have "hal_do_read h s = Inr ((0, t), s\<lparr>hal_calls := hal_calls s @ [Hal_read]\<rparr>)"
    using assms(1) by (cases s) (simp add: hal_do_read_def)
  with assms(2) show ?thesis by (simp add: service_read_def)
qed

text \<open>How often the clock has been looked at.\<close>

definition ticks :: "hal_call list \<Rightarrow> nat" where
  "ticks cs = length (filter (\<lambda>c. c = Hal_getTimeUs) cs)"

lemma ticks_simps [simp]:
  "ticks [] = 0" "ticks (c # cs) = (if c = Hal_getTimeUs then 1 else 0) + ticks cs" "ticks (cs @ ds) = ticks cs + ticks ds"
  by (simp_all add: ticks_def)

lemma elapsed:
  fixes step a k :: nat
  assumes "step * k < 2 ^ 32"
  shows "(of_nat (step * (a + k)) - of_nat (step * a) :: u32) < ADVERT_TIMEOUT_US \<longleftrightarrow> step * k < 200000"
proof -
  have diff: "(of_nat (step * (a + k)) - of_nat (step * a) :: u32) = of_nat (step * k)"
    by (simp add: distrib_left)
  have small: "unat (of_nat (step * k) :: u32) = step * k"
    using assms by (simp add: unat_of_nat del: of_nat_mult)
  have limit: "unat ADVERT_TIMEOUT_US = 200000" by simp
  show ?thesis unfolding diff word_less_nat_alt small limit by (rule refl)
qed

lemma reset_wait_silent:
  assumes silent: "\<And>cs. hal_read h cs = (0, [], 0)" and clock: "\<And>cs. hal_time h cs = of_nat (step * ticks cs)"
    and step: "0 < step" "step \<le> 2 ^ 31"
  shows "\<lbrakk>requested es s; ticks (hal_calls s) = a + k + 1; step * k < 200000 + step; 200000 \<le> step * (k + m);
      step * (k + m) < 200000 + step; m + 2 \<le> n\<rbrakk> \<Longrightarrow>
    \<exists>s'. reset_wait h n (of_nat (step * a)) (of_nat (step * (a + k))) s = Inr ((), s') \<and> requested es s' \<and>
      hal_calls s' = hal_calls s @ concat (replicate m [Hal_read, Hal_getTimeUs])"
proof (induction m arbitrary: k s n)
  case 0
  then obtain n' where n: "n = Suc n'" by (cases n) auto
  from 0 step have "step * k < 2 ^ 32" by simp
  from elapsed [OF this, of a] 0 show ?case by (simp add: n)
next
  case (Suc m)
  obtain n' where n: "n = Suc (Suc n')" using Suc.prems(6) by (cases n; cases "n - 1") auto
  from Suc.prems(3) step have small: "step * k < 2 ^ 32" by simp
  note time = elapsed [OF this, of a]
  show ?case
  proof (cases "step * k < 200000")
    case False
    moreover have "step * k \<le> step * (k + m)" by (rule mult_le_mono2) simp
    moreover have "step * (k + m) < 200000" using Suc.prems(5) by simp
    ultimately show ?thesis by linarith
  next
    case True
    let ?s1 = "s\<lparr>hal_calls := hal_calls s @ [Hal_read]\<rparr>"
    let ?s2 = "?s1\<lparr>hal_calls := hal_calls ?s1 @ [Hal_getTimeUs]\<rparr>"
    have req: "hub_pHal s" "pShtp s" "\<not> resetComplete s" "advertPhase s \<noteq> ADVERT_NEEDED"
      using Suc.prems(1) by (auto simp: requested_def unopened_def)
    from silent_service [OF silent req(4)] have service: "hub_shtp_service h (Suc n') s = Inr ((), ?s1)"
      by (simp add: hub_shtp_service_def req del: shtp_service.simps)
    have now: "hub_getTimeUs h ?s1 = Inr (of_nat (step * (a + Suc k)), ?s2)"
      using Suc.prems(2) req by (simp add: hub_getTimeUs_def clock del: of_nat_mult of_nat_add of_nat_Suc)
    have "\<exists>s'. reset_wait h (Suc n') (of_nat (step * a)) (of_nat (step * (a + Suc k))) ?s2 = Inr ((), s') \<and>
        requested es s' \<and> hal_calls s' = hal_calls ?s2 @ concat (replicate m [Hal_read, Hal_getTimeUs])"
    proof (rule Suc.IH)
      show "requested es ?s2" using Suc.prems(1) by simp
      show "ticks (hal_calls ?s2) = a + Suc k + 1" using Suc.prems(2) by simp
      show "step * Suc k < 200000 + step" using True by simp
      show "200000 \<le> step * (Suc k + m)" using Suc.prems(4) by simp
      show "step * (Suc k + m) < 200000 + step" using Suc.prems(5) by simp
      show "m + 2 \<le> Suc n'" using Suc.prems(6) n by simp
    qed
    moreover have "reset_wait h n (of_nat (step * a)) (of_nat (step * (a + k))) s
      = reset_wait h (Suc n') (of_nat (step * a)) (of_nat (step * (a + Suc k))) ?s2"
      unfolding n reset_wait.simps(2) [of h "Suc n'"]
      using time True req by (simp add: service now del: reset_wait.simps of_nat_mult of_nat_add of_nat_Suc)
    ultimately show ?thesis by simp
  qed
qed

text \<open>
  What opening does on a bus that stays silent: it opens the bus, looks at the clock, and then reads
  and looks at the clock again, \<open>rounds\<close> times, the fewest after which 200 ms have passed.
\<close>

definition silent_opening :: "nat \<Rightarrow> hal_call list" where
  "silent_opening rounds = [Hal_open, Hal_getTimeUs] @ concat (replicate rounds [Hal_read, Hal_getTimeUs])"

lemma open_silent:
  assumes silent: "\<And>cs. hal_read h cs = (0, [], 0)" and clock: "\<And>cs. hal_time h cs = of_nat (step * ticks cs)"
    and step: "0 < step" "step \<le> 2 ^ 31" and free: "initialized \<longrightarrow> \<not> pHal s" and fuel: "200000 div step + 3 \<le> n"
  obtains s' rounds where "sh2_open h n initialized True cb s = Inr (SH2_OK, s')" "requested (sensor_events s, async_events s) s'"
    "hal_calls s' = hal_calls s @ silent_opening rounds" "200000 \<le> step * rounds" "step * rounds < 200000 + step"
proof -
  let ?es = "(sensor_events s, async_events s)"
  let ?s1 = "(clear_sh2 s)\<lparr>controlChan := 0xFF, hub_pHal := True, asyncCallback := cb\<rparr>"
  have "unopened ?es (?s1\<lparr>outMaxPayload := 256, advertPhase := ADVERT_NEEDED\<rparr>)" by (simp add: clear_sh2_def unopened_def)
  moreover have "initialized \<longrightarrow> \<not> pHal ?s1" using free by (simp add: clear_sh2_def)
  ultimately obtain s2 where opened: "shtp_open initialized True ?s1 = Inr (True, s2)" "requested ?es (s2\<lparr>pShtp := True\<rparr>)"
      "hal_calls s2 = hal_calls ?s1 @ [Hal_open]"
    by (rule shtp_open_requested)
  from ends_hub_listen [of ?es "hal_calls s2"] opened(2) obtain s3 where
    listen: "hub_listen (s2\<lparr>pShtp := True\<rparr>) = Inr ((), s3)" "requested ?es s3" "hal_calls s3 = hal_calls s2"
    by (elim endsE) auto
  define a where "a = ticks (hal_calls s3)"
  let ?s4 = "s3\<lparr>hal_calls := hal_calls s3 @ [Hal_getTimeUs]\<rparr>"
  from listen(2) have "hub_pHal s3" by (simp add: requested_def unopened_def)
  then have now: "hub_getTimeUs h s3 = Inr (of_nat (step * (a + 0)), ?s4)"
    by (simp add: hub_getTimeUs_def clock a_def del: of_nat_mult)
  define rounds where "rounds = (200000 + step - 1) div step"
  have lower: "200000 \<le> step * rounds"
    using step(1) dividend_less_times_div [of step "200000 + step - 1"] by (simp add: rounds_def)
  have upper: "step * rounds < 200000 + step"
    using step(1) times_div_less_eq_dividend [of step "200000 + step - 1"] unfolding rounds_def by linarith
  have few: "rounds + 2 \<le> n"
  proof -
    have "rounds \<le> (200000 + step) div step" unfolding rounds_def by (rule div_le_mono) simp
    with step(1) fuel show ?thesis by simp
  qed
  obtain s' where wait: "reset_wait h n (of_nat (step * a)) (of_nat (step * (a + 0))) ?s4 = Inr ((), s')" "requested ?es s'"
    "hal_calls s' = hal_calls ?s4 @ concat (replicate rounds [Hal_read, Hal_getTimeUs])"
    using reset_wait_silent [where es = ?es and h = h and step = step and k = 0 and a = a and m = rounds and n = n and s = ?s4]
      silent clock step listen(2) lower upper few by (auto simp: a_def simp del: of_nat_mult)
  with opened(1) listen(1) now have "sh2_open h n initialized True cb s = Inr (SH2_OK, s')"
    by (simp add: sh2_open_def del: of_nat_mult)
  moreover have "hal_calls s' = hal_calls s @ silent_opening rounds"
    using wait(3) listen(3) opened(3) by (simp add: clear_sh2_def silent_opening_def)
  ultimately show ?thesis using wait(2) lower upper by (intro that)
qed

lemma silent_getProdIds:
  assumes "requested es s"
  shows "\<exists>s'. sh2_getProdIds h (Suc m) ids s = Inr (SH2_ERR_BAD_PARAM, s') \<and>
    sensor_events s' = sensor_events s \<and> async_events s' = async_events s \<and> hal_calls s' = hal_calls s @ [Hal_getTimeUs]"
proof -
  from assms have req: "hub_pHal s" "pOp s = None" by (auto simp: requested_def unopened_def)
  let ?s1 = "s\<lparr>opData := D_getProdIds ids 0 0\<rparr>"
  let ?s2 = "(op_begun getProdIdOp ?s1)\<lparr>opData := D_getProdIds ids 0 4\<rparr>"
  have "sendCtrl (shtp_send h hub_clients (Suc m)) [SENSORHUB_PROD_ID_REQ, 0] ?s2 = Inr (SH2_ERR_BAD_PARAM, ?s2\<lparr>badTxChan := badTxChan ?s2 + 1\<rparr>)"
    using assms by (simp add: sendCtrl_def shtp_send_at_def requested_def unopened_def op_begun_def)
  then have "op_start (shtp_send h hub_clients (Suc m)) getProdIdOp (op_begun getProdIdOp ?s1) = Inr (SH2_ERR_BAD_PARAM, ?s2\<lparr>badTxChan := badTxChan ?s2 + 1\<rparr>)"
    by (simp add: getProdIdStart_def op_begun_def del: shtp_send.simps)
  from opProcess_start_failed [OF _ _ this] req show ?thesis
    by (simp add: sh2_getProdIds_def set_opData_def op_begun_def)
qed

text \<open>
  When the hub stays silent, opening the library still ends and reports success, after the time limit
  for the reset message and without that message; the fuel needed is one round per look at the clock.
  The failure shows with the first request: the channel of the requests is still the invalid one, and
  the request for the product ids is refused at once.
\<close>

theorem silent_hub_opens_then_refuses:
  assumes "\<And>cs. hal_read h cs = (0, [], 0)" "\<And>cs. hal_time h cs = of_nat (step * ticks cs)"
    "0 < step" "step \<le> 2 ^ 31" "initialized \<longrightarrow> \<not> pHal s" "200000 div step + 3 \<le> n"
  shows "\<exists>s'. sh2_open h n initialized True cb s = Inr (SH2_OK, s') \<and> \<not> resetComplete s' \<and>
    (\<forall>m ids. \<exists>s''. sh2_getProdIds h (Suc m) ids s' = Inr (SH2_ERR_BAD_PARAM, s''))"
proof -
  obtain s' where opened: "sh2_open h n initialized True cb s = Inr (SH2_OK, s')" "requested (sensor_events s, async_events s) s'"
    using open_silent [OF assms] by blast
  from silent_getProdIds [OF opened(2)] have "\<exists>s''. sh2_getProdIds h (Suc m) ids s' = Inr (SH2_ERR_BAD_PARAM, s'')" for m ids
    by blast
  with opened show ?thesis by (auto simp: requested_def unopened_def)
qed

text \<open>A hub that takes nothing in and stays silent, with a clock that moves on by a millisecond at each look.\<close>

definition ticking_hal :: hal where
  "ticking_hal = \<lparr>hal_write = \<lambda>_ bs. int (length bs), hal_read = \<lambda>_. (0, [], 0), hal_time = \<lambda>cs. of_nat (1000 * ticks cs)\<rparr>"

theorem silent_hub_opens_then_refuses_witness:
  "\<exists>s'. sh2_open ticking_hal 203 False True True example_hub = Inr (SH2_OK, s') \<and> \<not> resetComplete s' \<and>
    (\<forall>m ids. \<exists>s''. sh2_getProdIds ticking_hal (Suc m) ids s' = Inr (SH2_ERR_BAD_PARAM, s''))"
  by (rule silent_hub_opens_then_refuses [where step = 1000]) (simp_all add: ticking_hal_def)

theorem session_keeps_invariant_witness:
  "\<exists>s1 s2. sh2_open ticking_hal 203 False True True example_hub = Inr (SH2_OK, s1) \<and>
    sh2_session ticking_hal 9 [Call_setSensorCallback True, Call_service] s1 = Inr ((), s2) \<and> hub_ok s2"
proof -
  obtain s1 where s1: "sh2_open ticking_hal 203 False True True example_hub = Inr (SH2_OK, s1)" "requested (sensor_events example_hub, async_events example_hub) s1"
    using open_silent [where h = ticking_hal and step = 1000 and n = 203 and initialized = False and s = example_hub and cb = True]
    by (auto simp: ticking_hal_def)
  obtain s2 where s2: "sh2_session ticking_hal 9 [Call_setSensorCallback True, Call_service] s1 = Inr ((), s2)"
  proof -
    let ?s = "s1\<lparr>sensorCallback := True\<rparr>"
    have "shtp_service ticking_hal hub_clients 9 ?s = shtp_service ticking_hal hub_clients (Suc 8) ?s" by simp
    also have "\<dots> = Inr ((), ?s\<lparr>hal_calls := hal_calls ?s @ [Hal_read]\<rparr>)"
      using s1(2) by (intro silent_service [where t = 0]) (simp_all add: ticking_hal_def requested_def)
    finally have "hub_shtp_service ticking_hal 9 ?s = Inr ((), ?s\<lparr>hal_calls := hal_calls ?s @ [Hal_read]\<rparr>)"
      using s1(2) by (simp add: hub_shtp_service_def requested_def del: shtp_service.simps)
    then show ?thesis
      using s1(2) by (intro that) (auto simp: sh2_setSensorCallback_def sh2_service_def result_def requested_def unopened_def simp del: shtp_service.simps)
  qed
  from session_keeps_invariant [OF s1(1) s2] s1(1) s2 show ?thesis by blast
qed

section \<open>An operation without an answer\<close>

lemma op_wait_silent:
  assumes "\<And>cs. hal_read h cs = (0, [], 0)"
  shows "\<lbrakk>hub_pHal s; pShtp s; pOp s \<noteq> None; advertPhase s \<noteq> ADVERT_NEEDED\<rbrakk> \<Longrightarrow> op_wait h n op start now s = Inl No_Return"
proof (induction n arbitrary: s now)
  case 0
  then show ?case by simp
next
  case (Suc n)
  show ?case
  proof (cases n)
    case 0
    with Suc.prems show ?thesis by (simp add: hub_shtp_service_def op_timeout_def)
  next
    case (Suc m)
    have service: "hub_shtp_service h n s = Inr ((), s\<lparr>hal_calls := hal_calls s @ [Hal_read]\<rparr>)"
      using silent_service [OF assms Suc.prems(4)] Suc.prems(2) by (simp add: hub_shtp_service_def Suc del: shtp_service.simps)
    have "op_wait h n op start t (s\<lparr>hal_calls := cs\<rparr>) = Inl No_Return" for t cs
      using Suc.prems by (intro Suc.IH) simp_all
    with Suc.prems service show ?thesis
      by (simp add: op_timeout_def hub_getTimeUs_def del: op_wait.simps add: op_wait.simps(2))
  qed
qed

text \<open>A session in which a request can be sent: the channel of the requests is known, no operation or the given one is in progress.\<close>

definition requests_pass :: "sh2_op option \<Rightarrow> 'u sh2_scheme \<Rightarrow> bool" where
  "requests_pass op s \<longleftrightarrow> hub_pHal s \<and> pShtp s \<and> pOp s = op \<and> advertPhase s \<noteq> ADVERT_NEEDED \<and> outMaxTransfer s = 256 \<and>
     length (outTransfer s) = SH2_HAL_MAX_TRANSFER_OUT \<and> unat (controlChan s) < SH2_MAX_CHANS \<and> 252 \<le> unat (outMaxPayload s)"

lemma requests_pass_simps [simp]:
  "requests_pass op (hal_calls_update f1 s) \<longleftrightarrow> requests_pass op s" "requests_pass op (opData_update f2 s) \<longleftrightarrow> requests_pass op s"
  "requests_pass op (lastCmdId_update f3 s) \<longleftrightarrow> requests_pass op s" "requests_pass op (cmdSeq_update f4 s) \<longleftrightarrow> requests_pass op s"
  "requests_pass op (nextCmdSeq_update f5 s) \<longleftrightarrow> requests_pass op s" "requests_pass op (opStatus_update f6 s) \<longleftrightarrow> requests_pass op s"
  "requests_pass op (frsDataLen_update f7 s) \<longleftrightarrow> requests_pass op s"
  by (simp_all add: requests_pass_def)

lemma request_written:
  assumes accept: "\<And>cs bs. bs \<noteq> [] \<Longrightarrow> 0 < hal_write h cs bs" and s: "requests_pass op s" and p: "p \<noteq> []" "length p \<le> 252"
  defines "transfer \<equiv> tx_header (of_nat (4 + length p)) False (controlChan s) (nextOutSeq (chans s ! unat (controlChan s))) @ p"
  shows "sendCtrl (shtp_send h cl (Suc (Suc (Suc n)))) p s = Inr (SH2_OK,
    (staged (controlChan s) False p s)\<lparr>hal_calls := hal_calls s @ [Hal_write transfer]\<rparr>)"
proof -
  let ?s = "staged (controlChan s) False p s"
  have len: "unat (of_nat (4 + length p) :: u16) = 4 + length p" using p(2) by (simp add: unat_of_nat del: of_nat_add)
  have nonempty: "transfer \<noteq> []" by (simp add: transfer_def tx_header_def)
  have out: "take (4 + length p) (outTransfer ?s) = transfer" "hal_calls ?s = hal_calls s"
    by (simp_all add: staged_def Let_def transfer_def)
  have "tx_write h cl (Suc n) (of_nat (4 + length p)) ?s = Inr (hal_write h (hal_calls s) transfer, ?s\<lparr>hal_calls := hal_calls s @ [Hal_write transfer]\<rparr>)"
    using accept [OF nonempty] by (subst tx_write_accepted) (simp_all only: len out)
  then have "shtp_send h cl (Suc (Suc (Suc n))) (controlChan s) p s = Inr (SH2_OK, ?s\<lparr>hal_calls := hal_calls s @ [Hal_write transfer]\<rparr>)"
    using s p accept [OF nonempty] by (intro send_single) (auto simp: requests_pass_def)
  with s show ?thesis by (simp add: sendCtrl_def shtp_send_at_def requests_pass_def del: shtp_send.simps)
qed

lemma requests_pass_staged [simp]: "length p \<le> 252 \<Longrightarrow> requests_pass op s \<Longrightarrow> requests_pass op (staged ch b p s)"
  by (simp add: requests_pass_def staged_def Let_def)

lemma request_passes:
  assumes accept: "\<And>cs bs. 0 < hal_write h cs bs" and s: "requests_pass op s" and p: "p \<noteq> []" "length p \<le> 252"
  shows "sendCtrl (shtp_send h cl n) p s = Inl No_Return \<or>
    (\<exists>s'. sendCtrl (shtp_send h cl n) p s = Inr (SH2_OK, s') \<and> requests_pass op s')"
proof (cases "n < 3")
  case True
  let ?n = "of_nat (length p) :: u16" and ?ch = "controlChan s"
  have un: "unat ?n = length p" using p(2) by (simp add: unat_of_nat)
  have pos: "?n > 0" using p(1) un by (auto simp: word_less_nat_alt)
  have tl: "(if ?n < 256 - SHTP_HDR_LEN then ?n else 256 - SHTP_HDR_LEN) = ?n"
    using p(2) un by (auto simp: word_less_nat_alt word_unat_eq_iff)
  have stage: "tx_stage ?ch p False 0 ?n s = Inr ((), staged ?ch False p s)"
    using tx_stage_staged [of s p "length p" 0 p ?ch False] s p(2) by (simp add: requests_pass_def)
  have max: "outMaxTransfer s = 256" using s by (simp add: requests_pass_def)
  have "txProcess h cl (Suc 0) ?ch p False 0 ?n s = Inl No_Return"
    unfolding txProcess.simps(2) [of h cl 0] if_P [OF pos]
    by (subst bnd_Inr [OF gets_apply])
      (simp only: Let_def max tl seqp_Inr [where m = "tx_stage ?ch p False 0 ?n" and s = s, OF stage] tx_write.simps bnd_Inl fault_with_apply)
  moreover have "shtp_send h cl (Suc m) ?ch p s = txProcess h cl m ?ch p False 0 ?n s" for m
    using s p(2) by (simp add: requests_pass_def not_less [symmetric] del: txProcess.simps)
  moreover have "n = 0 \<or> n = Suc 0 \<or> n = Suc (Suc 0)" using True by linarith
  ultimately have "shtp_send h cl n ?ch p s = Inl No_Return"
    by (auto simp del: shtp_send.simps(2) txProcess.simps(2))
  with s show ?thesis by (simp add: sendCtrl_def shtp_send_at_def requests_pass_def del: shtp_send.simps)
next
  case False
  then have "n = Suc (Suc (Suc (n - 3)))" by linarith
  then obtain m where "n = Suc (Suc (Suc m))" by blast
  with request_written [OF accept s p, of cl m] s p show ?thesis by auto
qed

text \<open>An operation that its first request does not end, with the data it works on.\<close>

definition waits_for_hub :: "sh2_op \<Rightarrow> op_data \<Rightarrow> bool" where
  "waits_for_hub op d = (case op of
     getProdIdOp \<Rightarrow> True
   | getSensorConfigOp \<Rightarrow> (case d of D_sensorConfig _ _ \<Rightarrow> True | _ \<Rightarrow> False)
   | setSensorConfigOp \<Rightarrow> False
   | getFrsOp \<Rightarrow> (case d of D_getFrs _ _ _ _ \<Rightarrow> True | _ \<Rightarrow> False)
   | setFrsOp \<Rightarrow> (case d of D_setFrs _ _ _ _ \<Rightarrow> True | _ \<Rightarrow> False)
   | getErrorsOp \<Rightarrow> (case d of D_getErrors _ _ _ _ \<Rightarrow> True | _ \<Rightarrow> False)
   | getCountsOp \<Rightarrow> (case d of D_getCounts _ _ \<Rightarrow> True | _ \<Rightarrow> False)
   | sendCmdOp \<Rightarrow> False
   | setCalConfigOp \<Rightarrow> (case d of D_calConfig _ \<Rightarrow> True | _ \<Rightarrow> False)
   | forceFlushOp \<Rightarrow> (case d of D_forceFlush _ \<Rightarrow> True | _ \<Rightarrow> False)
   | startCalOp \<Rightarrow> (case d of D_startCal _ \<Rightarrow> True | _ \<Rightarrow> False)
   | _ \<Rightarrow> True)"

definition passes :: "sh2_op option \<Rightarrow> fault + (int \<times> 'u sh2_scheme) \<Rightarrow> bool" where
  "passes p r \<longleftrightarrow> r = Inl No_Return \<or> (\<exists>s'. r = Inr (SH2_OK, s') \<and> requests_pass p s')"

lemma sendCtrl_passes:
  assumes "\<And>cs bs. 0 < hal_write h cs bs" "requests_pass p s" "ps \<noteq> []" "length ps \<le> 252"
  shows "passes p (sendCtrl (shtp_send h cl n) ps s)"
  using request_passes [OF assms, of cl n] by (auto simp: passes_def)

lemma sendCmd_passes:
  assumes "\<And>cs bs. 0 < hal_write h cs bs" "requests_pass p s" "length ps = 9"
  shows "passes p (sendCmd (shtp_send h cl n) c ps s)"
  using sendCtrl_passes [of h p "s\<lparr>lastCmdId := c, cmdSeq := nextCmdSeq s, nextCmdSeq := nextCmdSeq s + 1\<rparr>"
      "[SENSORHUB_COMMAND_REQ, nextCmdSeq s, c] @ ps" cl n] assms
  by (simp add: sendCmd_def)

lemma sendCtrl_passes':
  "\<lbrakk>\<And>cs bs. 0 < hal_write h cs bs; requests_pass p s; length ps \<le> 251\<rbrakk> \<Longrightarrow> passes p (sendCtrl (shtp_send h cl n) (b # ps) s)"
  by (rule sendCtrl_passes) simp_all

lemma start_passes:
  assumes "\<And>cs bs. 0 < hal_write h cs bs" "requests_pass p s" "waits_for_hub op (opData s)"
  shows "passes p (op_start (shtp_send h cl n) op s)"
proof -
  note ctrl = sendCtrl_passes' [OF assms(1)] and cmd = sendCmd_passes [OF assms(1)]
  show ?thesis
  proof (cases op)
    case getProdIdOp
    then show ?thesis using assms(2) by (simp add: getProdIdStart_def ctrl)
  next
    case getSensorConfigOp
    with assms(3) obtain cfg i where "opData s = D_sensorConfig cfg i" by (auto simp: waits_for_hub_def split: op_data.splits)
    with getSensorConfigOp assms(2) show ?thesis by (simp add: getSensorConfigStart_def ctrl)
  next
    case getFrsOp
    with assms(3) obtain t q w k where "opData s = D_getFrs t q w k" by (auto simp: waits_for_hub_def split: op_data.splits)
    with getFrsOp assms(2) show ?thesis by (simp add: getFrsStart_def with_getFrs_def set_opData_def ctrl)
  next
    case setFrsOp
    with assms(3) obtain t q w k where "opData s = D_setFrs t q w k" by (auto simp: waits_for_hub_def split: op_data.splits)
    with setFrsOp assms(2) show ?thesis by (simp add: setFrsStart_def set_opData_def ctrl)
  next
    case getErrorsOp
    with assms(3) obtain v es m k where "opData s = D_getErrors v es m k" by (auto simp: waits_for_hub_def split: op_data.splits)
    with getErrorsOp assms(2) show ?thesis by (simp add: getErrorsStart_def sendCmd1_def set_opData_def cmd)
  next
    case getCountsOp
    with assms(3) obtain i c where "opData s = D_getCounts i c" by (auto simp: waits_for_hub_def split: op_data.splits)
    with getCountsOp assms(2) show ?thesis by (simp add: getCountsStart_def sendCmd2_def cmd)
  next
    case setCalConfigOp
    with assms(3) obtain v where "opData s = D_calConfig v" by (auto simp: waits_for_hub_def split: op_data.splits)
    with setCalConfigOp assms(2) show ?thesis by (simp add: setCalConfigStart_def cmd)
  next
    case forceFlushOp
    with assms(3) obtain i where "opData s = D_forceFlush i" by (auto simp: waits_for_hub_def split: op_data.splits)
    with forceFlushOp assms(2) show ?thesis by (simp add: forceFlushStart_def ctrl)
  next
    case startCalOp
    with assms(3) obtain t where "opData s = D_startCal t" by (auto simp: waits_for_hub_def split: op_data.splits)
    with startCalOp assms(2) show ?thesis by (simp add: startCalStart_def cmd)
  next
    case setSensorConfigOp
    with assms(3) show ?thesis by (simp add: waits_for_hub_def)
  next
    case sendCmdOp
    with assms(3) show ?thesis by (simp add: waits_for_hub_def)
  qed (use assms(2) in \<open>simp_all add: reinitStart_def saveDcdNowStart_def getOscTypeStart_def getCalConfigStart_def
      finishCalStart_def sendCmd0_def sendCmd1_def cmd\<close>)
qed

lemma silent_operation:
  assumes "\<forall>cs bs. 0 < hal_write h cs bs" "\<forall>cs. hal_read h cs = (0, [], 0)" "requests_pass None s"
    and "waits_for_hub op (opData s)"
  shows "opProcess h n op s = Inl No_Return"
proof -
  have s: "hub_pHal s" "pOp s = None" using assms(3) by (simp_all add: requests_pass_def)
  have "requests_pass (Some op) (op_begun op s)" using assms(3) by (simp add: requests_pass_def op_begun_def)
  moreover have "opData (op_begun op s) = opData s" by (simp add: op_begun_def)
  ultimately have "passes (Some op) (op_start (shtp_send h hub_clients n) op (op_begun op s))"
    using assms(1,4) by (intro start_passes) simp_all
  then consider "op_start (shtp_send h hub_clients n) op (op_begun op s) = Inl No_Return"
    | s' where "op_start (shtp_send h hub_clients n) op (op_begun op s) = Inr (SH2_OK, s')" "requests_pass (Some op) s'"
    by (auto simp: passes_def)
  then show ?thesis
  proof cases
    case 1
    with s show ?thesis by (simp add: opProcess_def hub_getTimeUs_def opStart_def op_begun_def)
  next
    case 2
    then have "op_wait h n op start now s' = Inl No_Return" for start now
      using assms(2) by (intro op_wait_silent) (auto simp: requests_pass_def)
    then show ?thesis by (simp add: opProcess_waits [OF s 2(1)])
  qed
qed

text \<open>The functions that wait for the hub: all those that go through an operation, except
  setting a sensor's configuration and the plain commands, which are over when they are sent. With
  parameters that are refused there is nothing to wait for.\<close>

definition awaits_answer :: "sh2_call \<Rightarrow> bool" where
  "awaits_answer c = (case c of
     Call_getProdIds _ \<Rightarrow> True | Call_getSensorConfig _ _ \<Rightarrow> True
   | Call_getMetadata i d \<Rightarrow> d \<noteq> None \<and> map_of sensorToRecordMap i \<noteq> None
   | Call_getFrs _ p w \<Rightarrow> p \<noteq> None \<and> w \<noteq> None | Call_setFrs _ p w \<Rightarrow> p \<noteq> None \<or> w = 0
   | Call_getErrors _ _ _ \<Rightarrow> True | Call_getCounts _ _ \<Rightarrow> True | Call_reinitialize \<Rightarrow> True | Call_saveDcdNow \<Rightarrow> True
   | Call_getOscType _ \<Rightarrow> True | Call_setCalConfig _ \<Rightarrow> True | Call_getCalConfig _ \<Rightarrow> True | Call_flush _ \<Rightarrow> True
   | Call_startCal _ \<Rightarrow> True | Call_finishCal _ \<Rightarrow> True
   | _ \<Rightarrow> False)"

text \<open>C39: 
  No function has a time limit: every operation of the table leaves it 0, which the waiting loop takes
  for none. Once the hub has advertised its channels and then falls silent, every function that needs
  an answer of it never returns, however long it is given; the timeout the library defines is never
  reported.
\<close>

theorem unanswered_operation_never_returns:
  assumes "\<forall>cs bs. 0 < hal_write h cs bs" "\<forall>cs. hal_read h cs = (0, [], 0)" "requests_pass None s"
    and "awaits_answer c"
  shows "sh2_do h n c s = Inl No_Return"
proof -
  have silent: "opProcess h n op s' = Inl No_Return" if "requests_pass None s'" "waits_for_hub op (opData s')" for op s'
    using silent_operation [OF assms(1,2) that] .
  have set: "seqp (set_opData d) (opProcess h n op) s = Inl No_Return" if "waits_for_hub op d" for op d
    using that assms(3) by (simp add: set_opData_def silent)
  have fetch: "seqp (modify f) (bnd (opProcess h n op) k) s = Inl No_Return"
    if "requests_pass None (f s)" "waits_for_hub op (opData (f s))" for op f and k :: "int \<Rightarrow> ('a sh2_scheme, int \<times> sh2_SensorMetadata option) prog"
    using that by (simp add: silent)
  note pass = waits_for_hub_def set_opData_def silent fetch and call = sh2_do.simps result_def
  show ?thesis
  proof (cases c)
    case (Call_getMetadata i d)
    then obtain m r where "d = Some m" "map_of sensorToRecordMap i = Some r" using assms(4) by (auto simp: awaits_answer_def)
    then show ?thesis using assms(3) by (simp only: Call_getMetadata call sh2_getMetadata_def option.case) (simp add: pass)
  next
    case (Call_getFrs r q w)
    then show ?thesis using assms(3,4) by (auto simp: awaits_answer_def sh2_getFrs_def result_def pass)
  next
    case (Call_setFrs r q w)
    then have "\<not> (q = None \<and> w \<noteq> 0)" using assms(4) by (auto simp: awaits_answer_def)
    then show ?thesis
      using assms(3) by (simp only: Call_setFrs call sh2_setFrs_def if_False) (simp add: pass)
  next
    case (Call_finishCal v)
    have "waits_for_hub finishCalOp (D_finishCal 0)" by (simp add: waits_for_hub_def)
    then show ?thesis
      using assms(3) by (simp only: Call_finishCal call sh2_finishCal_def) (simp add: set_opData_def silent)
  qed (use assms(4) in \<open>simp_all only: awaits_answer_def sh2_call.case\<close>,
      simp_all only: call sh2_getProdIds_def sh2_getSensorConfig_def sh2_getErrors_def sh2_getCounts_def
        sh2_reinitialize_def sh2_saveDcdNow_def sh2_getOscType_def sh2_setCalConfig_def sh2_getCalConfig_def sh2_flush_def
        sh2_startCal_def,
      use assms(3) in \<open>simp_all only: bnd_Inl set silent waits_for_hub_def sh2_op.case op_data.case simp_thms\<close>)
qed

theorem unanswered_operation_never_returns_witness:
  "sh2_do taking_hal 1000 (Call_setFrs 0x1F1F (Some [1, 2]) 2) example_hub = Inl No_Return"
  by (rule unanswered_operation_never_returns) (simp_all add: taking_hal_def requests_pass_def awaits_answer_def)

section \<open>Two ways to break a session\<close>

text \<open>
  A function that is called while an operation is in progress, from a callback or from another thread,
  is refused; but it has by then overwritten the data of the operation that is in progress. The answer
  to a configuration query, for example, is then stored through whatever the other function left there.
\<close>

theorem refused_call_overwrites_operation:
  assumes "hub_pHal s" "pOp s = Some getSensorConfigOp"
    and "drop i (inPayload s) = SENSORHUB_GET_FEATURE_RESP # sensorId # rest"
  shows "\<exists>s'. sh2_getCounts h n sid c s = Inr (SH2_ERR_OP_IN_PROGRESS, s') \<and> pOp s' = Some getSensorConfigOp \<and>
    opData s' = D_getCounts sid c \<and> opRx send i s' = Inl Undefined_Behaviour"
proof -
  let ?s = "s\<lparr>opData := D_getCounts sid c, hal_calls := hal_calls s @ [Hal_getTimeUs]\<rparr>"
  have at: "drop i (inPayload ?s) = SENSORHUB_GET_FEATURE_RESP # sensorId # rest" using assms(3) by simp
  have "sh2_getCounts h n sid c s = Inr (SH2_ERR_OP_IN_PROGRESS, ?s)"
    using opProcess_refused [of "s\<lparr>opData := D_getCounts sid c\<rparr>"] assms(1,2) by (simp add: sh2_getCounts_def set_opData_def)
  moreover have "opRx send i ?s = Inl Undefined_Behaviour"
    using assms(2) by (simp add: opRx_def getSensorConfigRx_def rep_at [OF at])
  ultimately show ?thesis using assms(2) by simp
qed

definition no_counts :: Counts where
  "no_counts = \<lparr>cnt_offered = 0, cnt_accepted = 0, cnt_on = 0, cnt_attempted = 0\<rparr>"

theorem refused_call_overwrites_operation_witness:
  fixes s :: sh2
  defines "s \<equiv> example_hub\<lparr>pOp := Some getSensorConfigOp, opData := D_sensorConfig example_config 1, inPayload := [0xFC, 1]\<rparr>"
  shows "\<exists>s'. sh2_getCounts taking_hal 0 5 no_counts s = Inr (SH2_ERR_OP_IN_PROGRESS, s') \<and> pOp s' = Some getSensorConfigOp \<and>
    opData s' = D_getCounts 5 no_counts \<and> opRx (\<lambda>ch p. ret 0) 0 s' = Inl Undefined_Behaviour"
  by (rule refused_call_overwrites_operation [where sensorId = 1 and rest = "[]"]) (simp_all add: s_def)

text \<open>
  Opening a second time without closing is reported as an error, but only after the state of the open
  session has been cleared: the transport still counts as in use, the library has lost its pointer to
  it, and the next call of the service function, as well as closing, follows a null pointer.
\<close>

theorem second_open_breaks_session:
  assumes "pHal s"
  shows "\<exists>s'. sh2_open h n True True cb s = Inr (SH2_ERR, s') \<and> pHal s' \<and>
    sh2_service h n' s' = Inl Null_Pointer \<and> sh2_close s' = Inl Null_Pointer"
proof -
  let ?s = "(clear_sh2 s)\<lparr>controlChan := 0xFF, hub_pHal := True, asyncCallback := cb\<rparr>"
  have "shtp_open True True ?s = Inr (False, ?s)" using assms by (simp add: shtp_open_def clear_sh2_def seqp_def bnd_def)
  then have "sh2_open h n True True cb s = Inr (SH2_ERR, ?s)" by (simp add: sh2_open_def seqp_def bnd_def)
  then show ?thesis using assms by (simp add: sh2_service_def hub_shtp_service_def sh2_close_def clear_sh2_def)
qed

theorem second_open_breaks_session_witness:
  "\<exists>s'. sh2_open taking_hal 9 True True False example_hub = Inr (SH2_ERR, s') \<and> pHal s' \<and>
    sh2_service taking_hal 9 s' = Inl Null_Pointer \<and> sh2_close s' = Inl Null_Pointer"
  by (rule second_open_breaks_session) (simp add: example_hub_def sh2.defs shtp.defs example_shtp_def)

end
