(* ===== verification/Bno_Stack.thy ===== *)
theory Bno_Stack
  imports Bno_Node Sh2_Session
begin

text \<open>
  The IMU program as a whole: the node on the class \<open>BNO08x\<close>, whose callbacks decode what the SH-2
  library hands over, and the library on the I2C interface, through the wrappers of the hardware layer
  (\<^verbatim>\<open>bno08x_driver/src/bno08x.cpp\<close>). From the packet in the sensor to the message on the topic.
\<close>

section \<open>The callbacks of the class\<close>

text \<open>
  The switch of the node reads the member of the union that belongs to the kind of the value;
  \<open>None\<close>: another member is set.
\<close>

definition node_value :: "sh2_SensorValue \<Rightarrow> sensor_value option" where
  "node_value v =
     (if sensorId_of v = SH2_MAGNETIC_FIELD_CALIBRATED then
        (case un_of v of Some (MagneticField m) \<Rightarrow> Some (MAGNETIC_FIELD_CALIBRATED m) | _ \<Rightarrow> None)
      else if sensorId_of v = SH2_ROTATION_VECTOR then
        (case un_of v of Some (RotationVector q _) \<Rightarrow> Some (ROTATION_VECTOR q) | _ \<Rightarrow> None)
      else if sensorId_of v = SH2_ACCELEROMETER then
        (case un_of v of Some (Accelerometer a) \<Rightarrow> Some (ACCELEROMETER a) | _ \<Rightarrow> None)
      else if sensorId_of v = SH2_GYROSCOPE_CALIBRATED then
        (case un_of v of Some (Gyroscope g) \<Rightarrow> Some (GYROSCOPE_CALIBRATED g) | _ \<Rightarrow> None)
      else Some Other_sensor)"

definition sensor_event_callback :: "int \<Rightarrow> sh2_SensorEvent \<Rightarrow> (BNO08xROS, unit) prog" where
  "sensor_event_callback now event =
     bnd (lift_opt (sh2_decodeSensorEvent event)) (\<lambda>(rc, sensor_value).
     if rc \<noteq> SH2_OK then ret ()
     else bnd (lift_opt (node_value sensor_value)) (sensor_callback now))"

text \<open>The events of a call of the library, each at its time, and its asynchronous events.\<close>

fun node_events :: "(nat \<Rightarrow> int) \<Rightarrow> sh2_SensorEvent list \<Rightarrow> (BNO08xROS, unit) prog" where
  "node_events clock [] = ret ()"
| "node_events clock (e # es) = seqp (sensor_event_callback (clock 0) e) (node_events (\<lambda>k. clock (Suc k)) es)"

definition node_async :: "sh2_AsyncEvent list \<Rightarrow> BNO08xROS \<Rightarrow> BNO08xROS" where
  "node_async es n = fold (\<lambda>e. hal_callback (e = SH2_RESET)) es n"

section \<open>The hardware layer on the I2C interface\<close>

text \<open>
  \<open>dev\<close>, \<open>wr\<close>: what the device gives to reads and takes of writes after the calls so far; \<open>tod\<close>: seconds
  and microseconds of the clock. A read that gives nothing leaves the time of its caller, which is 0.
  What opening and closing return is not looked at above.
\<close>

definition get_time_us :: "int \<times> int \<Rightarrow> u32" where
  "get_time_us tv = word_of_int (fst tv * 1000000 + snd tv)"

definition i2c_hal ::
  "(hal_call list \<Rightarrow> nat list \<Rightarrow> nat \<Rightarrow> u8 list) \<Rightarrow> (hal_call list \<Rightarrow> u8 list \<Rightarrow> int) \<Rightarrow> (hal_call list \<Rightarrow> int \<times> int) \<Rightarrow> hal" where
  "i2c_hal dev wr tod = \<lparr>
     hal_write = (\<lambda>cs bs. i2c_write (wr cs) bs),
     hal_read = (\<lambda>cs. case i2c_read (dev cs) SH2_HAL_MAX_TRANSFER_IN of (n, bytes, _) \<Rightarrow>
       (int (unat n), bytes, if n = 0 then 0 else get_time_us (tod cs))),
     hal_time = (\<lambda>cs. get_time_us (tod cs))\<rparr>"

section \<open>The library under the node\<close>

text \<open>
  A call of the library, with the callbacks it makes on the node. The node's callbacks call nothing of
  the library, so they can be run after the call, in order; an asynchronous event only sets a flag that
  no sensor event looks at.
\<close>

definition on_stack :: "(nat \<Rightarrow> int) \<Rightarrow> (sh2, 'a) prog \<Rightarrow> (sh2 \<times> BNO08xROS, 'a) prog" where
  "on_stack clock m = (\<lambda>(s, n). case m s of
     Inl f \<Rightarrow> Inl f
   | Inr (x, s') \<Rightarrow>
       (case node_events clock (drop (length (sensor_events s)) (sensor_events s'))
               (node_async (drop (length (async_events s)) (async_events s')) n) of
          Inl f \<Rightarrow> Inl f
        | Inr (_, n') \<Rightarrow> Inr (x, (s', n'))))"

text \<open>The start of the class; \<open>initialized\<close> as in \<open>sh2_open\<close>.\<close>

definition zero_ids :: ProductIds where
  "zero_ids = \<lparr>prod_entry = replicate 5 \<lparr>resetCause = 0, swVersionMajor = 0, swVersionMinor = 0, swPartNumber = 0,
     swBuildNumber = 0, swVersionPatch = 0, reserved0 = 0, reserved1 = 0\<rparr>, numEntries = 0\<rparr>"

definition stack_init :: "hal \<Rightarrow> nat \<Rightarrow> bool \<Rightarrow> (nat \<Rightarrow> int) \<Rightarrow> (sh2 \<times> BNO08xROS, bool) prog" where
  "stack_init h fuel initialized clock =
     bnd (on_stack clock (sh2_open h fuel initialized True True)) (\<lambda>status.
     if status \<noteq> SH2_OK then ret False else
     bnd (on_stack clock (sh2_getProdIds h fuel (Some zero_ids))) (\<lambda>status.
     if status \<noteq> SH2_OK then ret False else
     bnd (on_stack clock (sh2_setSensorCallback True)) (\<lambda>status.
     if status \<noteq> SH2_OK then ret False else ret True)))"

definition report_config :: "u32 \<Rightarrow> sh2_SensorConfig" where
  "report_config interval_us = \<lparr>cfg_changeSensitivityEnabled = False, cfg_changeSensitivityRelative = False,
     cfg_wakeupEnabled = False, cfg_alwaysOnEnabled = False, cfg_changeSensitivity = 0, cfg_reportInterval_us = interval_us,
     cfg_batchInterval_us = 0, cfg_sensorSpecific = 0\<rparr>"

definition stack_enable_report ::
  "hal \<Rightarrow> nat \<Rightarrow> (nat \<Rightarrow> int) \<Rightarrow> u8 \<Rightarrow> u32 \<Rightarrow> (sh2 \<times> BNO08xROS, bool) prog" where
  "stack_enable_report h fuel clock sensorId interval_us =
     bnd (on_stack clock (sh2_setSensorConfig h fuel sensorId (report_config interval_us))) (\<lambda>status.
     if status \<noteq> SH2_OK then ret False else ret True)"

definition stack_poll :: "hal \<Rightarrow> nat \<Rightarrow> (nat \<Rightarrow> int) \<Rightarrow> (sh2 \<times> BNO08xROS, unit) prog" where
  "stack_poll h fuel clock = on_stack clock (sh2_service h fuel)"

section \<open>Events become values\<close>

definition event_value :: "sh2_SensorEvent \<Rightarrow> sensor_value option" where
  "event_value e = (case sh2_decodeSensorEvent e of
     None \<Rightarrow> None | Some (rc, v) \<Rightarrow> if rc = SH2_OK then node_value v else None)"

fun timed_values :: "(nat \<Rightarrow> int) \<Rightarrow> sh2_SensorEvent list \<Rightarrow> (int \<times> sensor_value) list" where
  "timed_values clock [] = []"
| "timed_values clock (e # es) =
     (case event_value e of None \<Rightarrow> [] | Some v \<Rightarrow> [(clock 0, v)]) @ timed_values (\<lambda>k. clock (Suc k)) es"

text \<open>Every event decodes, and a value that is known has the member that the node reads.\<close>

lemma node_value_tagged: "un_of v = Some d \<Longrightarrow> sensorId_of v = sensor_of d \<Longrightarrow> node_value v \<noteq> None"
  by (cases d) (simp_all add: node_value_def)

lemma event_decodes:
  assumes "length (ev_report e) = 16"
  shows "\<exists>rc v. sh2_decodeSensorEvent e = Some (rc, v) \<and> (rc = SH2_OK \<longrightarrow> node_value v \<noteq> None)"
proof -
  let ?start = "if ev_reportId e \<noteq> SH2_GYRO_INTEGRATED_RV then do {
         seq \<leftarrow> readu8 (drop 1 (ev_report e)); status \<leftarrow> readu8 (drop 2 (ev_report e));
         Some (seq, status AND 0x03) } else Some (0, 0)"
  have "\<exists>seq status. ?start = Some (seq, status)" using assms by (simp add: readu8_drop)
  then obtain seq status where start: "?start = Some (seq, status)" by blast
  show ?thesis
  proof (cases "map_of decoders (ev_reportId e)")
    case None
    then show ?thesis by (simp add: sh2_decodeSensorEvent_def start)
  next
    case (Some decode)
    from decoders_tag [OF assms Some] obtain d where "decode (ev_report e) = Some d" "sensor_of d = ev_reportId e" by blast
    moreover have "node_value \<lparr>sensorId_of = sensor_of d, sequence_of = seq, status_of = status,
        timestamp_of = ev_timestamp_uS e, un_of = Some d\<rparr> \<noteq> None"
      by (rule node_value_tagged) simp_all
    ultimately show ?thesis using Some by (simp add: sh2_decodeSensorEvent_def start)
  qed
qed

lemma sensor_event_callback_value:
  assumes "length (ev_report e) = 16"
  shows "sensor_event_callback now e = (case event_value e of None \<Rightarrow> ret () | Some v \<Rightarrow> sensor_callback now v)"
proof -
  from event_decodes [OF assms] obtain rc v where "sh2_decodeSensorEvent e = Some (rc, v)" "rc = SH2_OK \<longrightarrow> node_value v \<noteq> None"
    by blast
  then show ?thesis
    by (auto simp: sensor_event_callback_def event_value_def bnd_def ret_def split: option.split)
qed

lemma node_events_serve:
  assumes "list_all (\<lambda>e. length (ev_report e) = 16) es"
  shows "node_events clock es n = serve (timed_values clock es) n"
  using assms
proof (induction es arbitrary: clock n)
  case (Cons e es)
  then have e: "sensor_event_callback (clock 0) e = (case event_value e of None \<Rightarrow> ret () | Some v \<Rightarrow> sensor_callback (clock 0) v)"
    by (intro sensor_event_callback_value) simp
  from Cons show ?case
    by (cases "event_value e") (simp_all add: e seqp_def bnd_def split: sum.split)
qed simp

section \<open>From the packet to the events\<close>

lemma report_events_size:
  assumes "length ev = 16" "list_all (report_ok rl) rs"
  shows "list_all (\<lambda>e. length (ev_report e) = 16) (report_events T off ev rs)"
  using assms
proof (induction T off ev rs rule: report_events.induct)
  case (5 T off ev rid seq status delay data rs)
  let ?bytes = "enc_report (Sensor_report rid seq status delay data)"
  have "length (?bytes @ drop (length ?bytes) ev) = 16" using 5 by simp
  with 5 show ?case by (simp add: Let_def)
qed simp_all

lemma service_arrives:
  assumes "hal_read h (hal_calls s) = (int (length bytes), bytes, t)" "bytes \<noteq> []" "advertPhase s \<noteq> ADVERT_NEEDED"
  shows "shtp_service h cl (Suc n) s = arrive cl (shtp_send h cl n) t bytes (s\<lparr>hal_calls := hal_calls s @ [Hal_read]\<rparr>)"
proof -
  have "hal_do_read h s = Inr ((int (length bytes), t), s\<lparr>hal_calls := hal_calls s @ [Hal_read],
      inTransfer := take (length (inTransfer s)) (bytes @ drop (length bytes) (inTransfer s))\<rparr>)"
    using assms(1) by (simp add: hal_do_read_def)
  with assms(2,3) show ?thesis by (simp add: service_read_def arrive_def seqp_def bnd_def modify_def)
qed

text \<open>The library is in a session, no operation is waiting, and an input channel is wired to its handler.\<close>

definition hub_listens :: "u8 \<Rightarrow> sh2 \<Rightarrow> bool" where
  "hub_listens chan s \<longleftrightarrow> pShtp s \<and> advertPhase s \<noteq> ADVERT_NEEDED \<and> sensorCallback s \<and> pOp s = None \<and>
     length (event_local s) = 16 \<and> (\<exists>k ck. (k = 2 \<or> k = 3) \<and> listening chan k ck (shtp.more s) s)"

lemma same_more:
  assumes "shtp.more s' = shtp.more (s :: sh2)"
  shows "sensorCallback s' = sensorCallback s" "pOp s' = pOp s" "event_local s' = event_local s" "reports s' = reports s"
    "sensor_events s' = sensor_events s" "epoch t s' = epoch t s"
  using assms by (cases s; cases s'; simp add: epoch_def)+

lemma poll_input:
  assumes hub: "hub_listens chan s" and payload: "payload = concat (map enc_report rs)" "length payload \<le> 380"
    and ok: "list_all (report_ok (reports s)) rs" "times_fit t 0 rs"
    and read: "hal_read h (hal_calls s) = (int (4 + length payload), tx_header (of_nat (4 + length payload)) False chan seq @ payload, t)"
  shows "\<exists>s'. sh2_service h (Suc fuel) s = Inr ((), s') \<and>
    sensor_events s' = sensor_events s @ report_events (2 ^ 32 * uint (epoch t s) + uint t) 0 (event_local s) rs"
proof -
  let ?send = "shtp_send h hub_clients fuel" and ?bytes = "tx_header (of_nat (4 + length payload)) False chan seq @ payload"
  let ?s0 = "s\<lparr>hal_calls := hal_calls s @ [Hal_read]\<rparr>"
  from hub obtain k ck where k: "k = 2 \<or> k = 3" and "listening chan k ck (shtp.more s) s" by (auto simp: hub_listens_def)
  then have "listening chan k ck (shtp.more s) ?s0" by (simp add: listening_def)
  from first_fragment [OF this, of payload "length payload" False hub_clients ?send t seq] payload(2)
  obtain s2 where s2: "arrive hub_clients ?send t ?bytes ?s0 = rx_finish hub_clients ?send chan seq s2"
    "listening chan k ck (shtp.more s) s2" "received chan t payload 0 s2" by auto
  have more: "shtp.more s2 = shtp.more s" using s2(2) by (simp add: listening_def)
  note same = same_more [OF more]
  have len: "unat (of_nat (length payload) :: u16) = length payload" using payload(2) by (simp add: unat_of_nat)
  have at: "drop 0 (inPayload s2) = concat (map enc_report rs) @ drop (length payload) (inPayload s2)"
    using s2(3) append_take_drop_id [of "length payload" "inPayload s2"] by (simp add: received_def payload(1))
  have "\<exists>s3. input_loop ?send (length payload) t 0 (word_of_int 0) (event_local s2) s2 = Inr ((), s3) \<and>
    sensor_events s3 = sensor_events s2 @ report_events (2 ^ 32 * uint (epoch t s2) + uint t) 0 (event_local s2) rs"
    using hub ok by (intro input_loop_events [OF _ _ _ _ _ at]) (simp_all add: hub_listens_def same payload(1))
  then obtain s3 where s3: "sensorhubInputHdlr ?send (of_nat (length payload)) t s2 = Inr ((), s3)"
    "sensor_events s3 = sensor_events s @ report_events (2 ^ 32 * uint (epoch t s) + uint t) 0 (event_local s) rs"
    by (auto simp: sensorhubInputHdlr_def len same)
  have "rx_finish hub_clients ?send chan seq s2 =
      Inr ((), s3\<lparr>chans := (chans s3)[unat chan := (chans s3 ! unat chan)\<lparr>nextInSeq := seq + 1\<rparr>]\<rparr>)"
    using k s3(1) by (auto simp: rx_finish_complete [OF s2(2,3)] hub_clients_def)
  moreover have "?bytes \<noteq> []" by (simp add: tx_header_def)
  then have "sh2_service h (Suc fuel) s = arrive hub_clients ?send t ?bytes ?s0"
    using hub service_arrives [of h s ?bytes t hub_clients fuel] read
    by (simp add: sh2_service_def hub_shtp_service_def hub_listens_def del: shtp_service.simps)
  ultimately show ?thesis using s2(1) s3(2) by simp
qed

section \<open>From the bus to the topic\<close>

lemma i2c_hal_read:
  assumes "dev cs = shtp_device hdr packet" "length hdr = 4" "length payload \<le> 380"
    and packet: "packet = tx_header (of_nat (4 + length payload)) False chan seq @ payload"
  shows "hal_read (i2c_hal dev wr tod) cs = (int (4 + length payload), packet, get_time_us (tod cs))"
proof -
  have len: "length packet = 4 + length payload" unfolding packet by (simp add: tx_header_def)
  have "le16 (packet ! 0) (packet ! 1) AND NOT 0x8000 = of_nat (length packet)"
    unfolding len unfolding packet using assms(3) by (intro tx_header_read(1)) simp
  from i2c_read_device [OF assms(2) _ _ _ this, of SH2_HAL_MAX_TRANSFER_IN] assms(3) obtain reads where
    "i2c_read (shtp_device hdr packet) SH2_HAL_MAX_TRANSFER_IN = (of_nat (length packet), packet, reads)"
    by (auto simp: len)
  moreover have un: "unat (of_nat (length packet) :: u16) = length packet"
    unfolding len using assms(3) by (simp add: unat_of_nat del: of_nat_add)
  moreover have "(of_nat (length packet) :: u16) \<noteq> 0" using un len by auto
  ultimately show ?thesis using assms(1) len by (simp add: i2c_hal_def del: of_nat_add)
qed

lemma node_async_serving:
  "serving K (node_async es n) = serving K n" "published (node_async es n) = published n"
  "imu_msg (node_async es n) = imu_msg n" "publish_magnetic_field (node_async es n) = publish_magnetic_field n"
  by (induction es arbitrary: n) (simp_all add: node_async_def hal_callback_def serving_def)

lemma timed_values_stampable:
  assumes "\<forall>k. stampable (clock k)"
  shows "\<forall>(now, v) \<in> set (timed_values clock es). stampable now"
  using assms
proof (induction es arbitrary: clock)
  case (Cons e es)
  have "\<forall>(now, v) \<in> set (timed_values (\<lambda>k. clock (Suc k)) es). stampable now" using Cons.prems by (intro Cons.IH) simp
  with Cons.prems show ?case by (auto split: option.splits)
qed simp

text \<open>
  The device on the bus holds a packet for an input channel, a transfer that holds a whole payload.
\<close>

definition holds_reports :: "(nat list \<Rightarrow> nat \<Rightarrow> u8 list) \<Rightarrow> u8 \<Rightarrow> hub_report list \<Rightarrow> bool" where
  "holds_reports device chan rs \<longleftrightarrow> (\<exists>hdr seq. length hdr = 4 \<and> length (concat (map enc_report rs)) \<le> 380 \<and>
     device = shtp_device hdr (tx_header (of_nat (4 + length (concat (map enc_report rs)))) False chan seq @ concat (map enc_report rs)))"

text \<open>What the node is to publish for the reports that one poll brings.\<close>

definition report_values :: "u32 \<Rightarrow> (nat \<Rightarrow> int) \<Rightarrow> sh2 \<Rightarrow> hub_report list \<Rightarrow> (int \<times> sensor_value) list" where
  "report_values t clock s rs =
     timed_values clock (report_events (2 ^ 32 * uint (epoch t s) + uint t) 0 (event_local s) rs)"

lemma stack_poll_run:
  assumes "hub_listens chan s" "serving K n" "K \<noteq> UNIV" "\<forall>k. stampable (clock k)"
    and "holds_reports (dev (hal_calls s)) chan rs" "list_all (report_ok (reports s)) rs"
    and "times_fit (get_time_us (tod (hal_calls s))) 0 rs"
  shows "\<exists>s' n'. stack_poll (i2c_hal dev wr tod) (Suc fuel) clock (s, n) = Inr ((), (s', n')) \<and>
    published n' = published n @ imu_spec (publish_magnetic_field n) K (imu_msg n)
      (report_values (get_time_us (tod (hal_calls s))) clock s rs)"
proof -
  let ?t = "get_time_us (tod (hal_calls s))" and ?payload = "concat (map enc_report rs)"
  from assms(5) obtain hdr seq where dev: "length hdr = 4" "length ?payload \<le> 380"
    "dev (hal_calls s) = shtp_device hdr (tx_header (of_nat (4 + length ?payload)) False chan seq @ ?payload)"
    unfolding holds_reports_def by blast
  let ?es = "report_events (2 ^ 32 * uint (epoch ?t s) + uint ?t) 0 (event_local s) rs"
  have read: "hal_read (i2c_hal dev wr tod) (hal_calls s) = (int (4 + length ?payload),
      tx_header (of_nat (4 + length ?payload)) False chan seq @ ?payload, ?t)"
    by (rule i2c_hal_read [where dev = dev, OF dev(3,1,2)]) (rule refl)
  from poll_input [OF assms(1) refl dev(2) assms(6,7) read] obtain s' where
    s': "sh2_service (i2c_hal dev wr tod) (Suc fuel) s = Inr ((), s')" "sensor_events s' = sensor_events s @ ?es"
    by blast
  let ?n = "node_async (drop (length (async_events s)) (async_events s')) n"
  have "length (event_local s) = 16" using assms(1) by (simp add: hub_listens_def)
  then have es: "node_events clock ?es ?n = serve (timed_values clock ?es) ?n"
    using assms(6) by (intro node_events_serve report_events_size)
  have "serving K ?n" using assms(2) by (simp add: node_async_serving)
  from serve_refines [OF this assms(3) timed_values_stampable [OF assms(4), of ?es]] obtain n' where
    "serve (timed_values clock ?es) ?n = Inr ((), n')"
    "published n' = published n @ imu_spec (publish_magnetic_field n) K (imu_msg n) (timed_values clock ?es)"
    by (auto simp: node_async_serving)
  with s' es show ?thesis by (simp add: stack_poll_def on_stack_def report_values_def)
qed

text \<open>A vector and a rotation as the sensor sends them, and what it means that a value is read to the last bit.\<close>

definition vec_fits :: "nat \<Rightarrow> vec \<Rightarrow> bool" where
  "vec_fits n v \<longleftrightarrow> (\<forall>x \<in> {x_of v, y_of v, z_of v}. \<bar>x\<bar> < 2 ^ 15 * SCALE_Q n)"

definition vec_close :: "nat \<Rightarrow> vec \<Rightarrow> vec \<Rightarrow> bool" where
  "vec_close n v w \<longleftrightarrow> \<bar>x_of w - x_of v\<bar> < SCALE_Q n \<and> \<bar>y_of w - y_of v\<bar> < SCALE_Q n \<and> \<bar>z_of w - z_of v\<bar> < SCALE_Q n"

definition quat_fits :: "nat \<Rightarrow> quat \<Rightarrow> bool" where
  "quat_fits n q \<longleftrightarrow> (\<forall>x \<in> {i_of q, j_of q, k_of q, real_of q}. \<bar>x\<bar> < 2 ^ 15 * SCALE_Q n)"

definition quat_close :: "nat \<Rightarrow> quat \<Rightarrow> quat \<Rightarrow> bool" where
  "quat_close n q r \<longleftrightarrow> \<bar>i_of r - i_of q\<bar> < SCALE_Q n \<and> \<bar>j_of r - j_of q\<bar> < SCALE_Q n \<and>
     \<bar>k_of r - k_of q\<bar> < SCALE_Q n \<and> \<bar>real_of r - real_of q\<bar> < SCALE_Q n"

definition vec_sample :: "u8 \<Rightarrow> nat \<Rightarrow> u8 \<times> nat \<times> nat \<Rightarrow> vec \<Rightarrow> hub_report" where
  "vec_sample i n h v = (case h of (seq, status, delay) \<Rightarrow> Sensor_report i seq status delay
     (bytes_le 2 (fixed n (x_of v)) @ bytes_le 2 (fixed n (y_of v)) @ bytes_le 2 (fixed n (z_of v))))"

definition rotation_sample :: "u8 \<times> nat \<times> nat \<Rightarrow> quat \<Rightarrow> i16 \<Rightarrow> hub_report" where
  "rotation_sample h q accuracy = (case h of (seq, status, delay) \<Rightarrow> Sensor_report SH2_ROTATION_VECTOR seq status delay
     (bytes_le 2 (fixed 14 (i_of q)) @ bytes_le 2 (fixed 14 (j_of q)) @ bytes_le 2 (fixed 14 (k_of q)) @
      bytes_le 2 (fixed 14 (real_of q)) @ bytes_le 2 accuracy))"

lemma vec_sample_decodes:
  assumes "(i, n, C) \<in> set vector_sensors" "vec_fits n v" "ev_reportId e = i" "ev_report e = enc_report (vec_sample i n h v) @ rest"
  shows "\<exists>w v'. sh2_decodeSensorEvent e = Some (SH2_OK, v') \<and> sensorId_of v' = i \<and> un_of v' = Some (C w) \<and> vec_close n v w"
proof -
  obtain seq status delay where h: "h = (seq, status, delay)" by (cases h)
  define b2 b3 :: u8 where "b2 = of_nat (4 * (delay div 256) + status)" and "b3 = of_nat (delay mod 256)"
  have r: "ev_report e = [i, seq, b2, b3] @ bytes_le 2 (fixed n (x_of v)) @ bytes_le 2 (fixed n (y_of v)) @ bytes_le 2 (fixed n (z_of v)) @ rest"
    by (simp add: assms(4) vec_sample_def h b2_def b3_def)
  have at: "read16 (drop 4 (ev_report e)) = Some (fixed n (x_of v))" "read16 (drop 6 (ev_report e)) = Some (fixed n (y_of v))"
    "read16 (drop 8 (ev_report e)) = Some (fixed n (z_of v))"
    by (simp_all add: r read16_unsigned readu16_bytes)
  have fits: "\<bar>x_of v\<bar> < 2 ^ 15 * SCALE_Q n" "\<bar>y_of v\<bar> < 2 ^ 15 * SCALE_Q n" "\<bar>z_of v\<bar> < 2 ^ 15 * SCALE_Q n"
    using assms(2) by (simp_all add: vec_fits_def)
  from q16_fixed [OF at(1) fits(1)] q16_fixed [OF at(2) fits(2)] q16_fixed [OF at(3) fits(3)]
  obtain w where w: "vec_at n 4 (ev_report e) = Some w" "vec_close n v w" by (auto simp: vec_at_def vec_close_def)
  have "readu8 (drop 1 (ev_report e)) = Some seq" "readu8 (drop 2 (ev_report e)) = Some b2" by (simp_all add: r)
  with vector_decoder [OF assms(1) w(1)] w(2) assms(3) show ?thesis
    by (auto simp: sh2_decodeSensorEvent_def simp del: One_nat_def)
qed

lemma rotation_sample_decodes:
  assumes "quat_fits 14 q" "ev_reportId e = SH2_ROTATION_VECTOR" "ev_report e = enc_report (rotation_sample h q accuracy) @ rest"
  shows "\<exists>w x v'. sh2_decodeSensorEvent e = Some (SH2_OK, v') \<and> sensorId_of v' = SH2_ROTATION_VECTOR \<and>
    un_of v' = Some (RotationVector w x) \<and> quat_close 14 q w"
proof -
  obtain seq status delay where h: "h = (seq, status, delay)" by (cases h)
  define b2 b3 :: u8 where "b2 = of_nat (4 * (delay div 256) + status)" and "b3 = of_nat (delay mod 256)"
  have r: "ev_report e = [SH2_ROTATION_VECTOR, seq, b2, b3] @ bytes_le 2 (fixed 14 (i_of q)) @ bytes_le 2 (fixed 14 (j_of q)) @
      bytes_le 2 (fixed 14 (k_of q)) @ bytes_le 2 (fixed 14 (real_of q)) @ bytes_le 2 accuracy @ rest"
    by (simp add: assms(3) rotation_sample_def h b2_def b3_def)
  have at: "read16 (drop 4 (ev_report e)) = Some (fixed 14 (i_of q))" "read16 (drop 6 (ev_report e)) = Some (fixed 14 (j_of q))"
    "read16 (drop 8 (ev_report e)) = Some (fixed 14 (k_of q))" "read16 (drop 10 (ev_report e)) = Some (fixed 14 (real_of q))"
    "read16 (drop 12 (ev_report e)) = Some accuracy"
    by (simp_all add: r read16_unsigned readu16_bytes)
  have fits: "\<bar>i_of q\<bar> < 2 ^ 15 * SCALE_Q 14" "\<bar>j_of q\<bar> < 2 ^ 15 * SCALE_Q 14" "\<bar>k_of q\<bar> < 2 ^ 15 * SCALE_Q 14"
    "\<bar>real_of q\<bar> < 2 ^ 15 * SCALE_Q 14"
    using assms(1) by (simp_all add: quat_fits_def)
  from q16_fixed [OF at(1) fits(1)] q16_fixed [OF at(2) fits(2)] q16_fixed [OF at(3) fits(3)] q16_fixed [OF at(4) fits(4)]
  obtain w where w: "quat_at 14 4 (ev_report e) = Some w" "quat_close 14 q w"
    by (auto simp: quat_at_def quat_close_def simp del: One_nat_def)
  have "readu8 (drop 1 (ev_report e)) = Some seq" "readu8 (drop 2 (ev_report e)) = Some b2" by (simp_all add: r)
  moreover have "map_of decoders SH2_ROTATION_VECTOR = Some decodeRotationVector" by (simp add: decoders_def)
  ultimately show ?thesis using w at(5) assms(2)
    by (auto simp: sh2_decodeSensorEvent_def decodeRotationVector_def q16_def simp del: One_nat_def)
qed

text \<open>The value the node gets for such a report.\<close>

lemma vec_event_value:
  assumes "ev_reportId e = i" "ev_report e = enc_report (vec_sample i n h v) @ rest" "vec_fits n v"
    and "i = SH2_ACCELEROMETER \<and> n = 8 \<and> K = ACCELEROMETER \<or> i = SH2_GYROSCOPE_CALIBRATED \<and> n = 9 \<and> K = GYROSCOPE_CALIBRATED \<or>
      i = SH2_MAGNETIC_FIELD_CALIBRATED \<and> n = 4 \<and> K = MAGNETIC_FIELD_CALIBRATED"
  shows "\<exists>w. event_value e = Some (K w) \<and> vec_close n v w"
proof -
  consider "i = SH2_ACCELEROMETER" "n = 8" "K = ACCELEROMETER" | "i = SH2_GYROSCOPE_CALIBRATED" "n = 9" "K = GYROSCOPE_CALIBRATED"
    | "i = SH2_MAGNETIC_FIELD_CALIBRATED" "n = 4" "K = MAGNETIC_FIELD_CALIBRATED"
    using assms(4) by blast
  then show ?thesis
  proof cases
    case 1
    with vec_sample_decodes [of i n Accelerometer v e h rest] assms show ?thesis
      by (auto simp: vector_sensors_def event_value_def node_value_def)
  next
    case 2
    with vec_sample_decodes [of i n Gyroscope v e h rest] assms show ?thesis
      by (auto simp: vector_sensors_def event_value_def node_value_def)
  next
    case 3
    with vec_sample_decodes [of i n MagneticField v e h rest] assms show ?thesis
      by (auto simp: vector_sensors_def event_value_def node_value_def)
  qed
qed

lemma rotation_event_value:
  assumes "ev_reportId e = SH2_ROTATION_VECTOR" "ev_report e = enc_report (rotation_sample h q accuracy) @ rest" "quat_fits 14 q"
  shows "\<exists>w. event_value e = Some (ROTATION_VECTOR w) \<and> quat_close 14 q w"
  using rotation_sample_decodes [OF assms(3,1,2)] by (auto simp: event_value_def node_value_def)

text \<open>One sample of each kind behind a time base, and the events they become.\<close>

definition attitude_reports ::
  "u32 \<Rightarrow> u8 \<times> nat \<times> nat \<Rightarrow> vec \<Rightarrow> u8 \<times> nat \<times> nat \<Rightarrow> vec \<Rightarrow> u8 \<times> nat \<times> nat \<Rightarrow> quat \<Rightarrow> i16 \<Rightarrow> hub_report list" where
  "attitude_reports timebase ha a hg g hq q accuracy =
     [Base_timestamp timebase, vec_sample SH2_ACCELEROMETER 8 ha a, vec_sample SH2_GYROSCOPE_CALIBRATED 9 hg g,
      rotation_sample hq q accuracy]"

lemma attitude_values:
  assumes "vec_fits 8 a" "vec_fits 9 g" "quat_fits 14 q"
  shows "\<exists>wa wg wq. timed_values clock (report_events T 0 ev (attitude_reports timebase ha a hg g hq q accuracy)) =
      [(clock 0, ACCELEROMETER wa), (clock 1, GYROSCOPE_CALIBRATED wg), (clock 2, ROTATION_VECTOR wq)] \<and>
    vec_close 8 a wa \<and> vec_close 9 g wg \<and> quat_close 14 q wq"
proof -
  obtain ea eg eq where es: "report_events T 0 ev (attitude_reports timebase ha a hg g hq q accuracy) = [ea, eg, eq]"
    and ids: "ev_reportId ea = SH2_ACCELEROMETER" "ev_reportId eg = SH2_GYROSCOPE_CALIBRATED" "ev_reportId eq = SH2_ROTATION_VECTOR"
    and bytes: "\<exists>rest. ev_report ea = enc_report (vec_sample SH2_ACCELEROMETER 8 ha a) @ rest"
      "\<exists>rest. ev_report eg = enc_report (vec_sample SH2_GYROSCOPE_CALIBRATED 9 hg g) @ rest"
      "\<exists>rest. ev_report eq = enc_report (rotation_sample hq q accuracy) @ rest"
    by (cases ha; cases hg; cases hq) (simp add: attitude_reports_def vec_sample_def rotation_sample_def Let_def)
  from bytes(1) vec_event_value [OF ids(1) _ assms(1), of ha _ ACCELEROMETER] obtain wa where
    wa: "event_value ea = Some (ACCELEROMETER wa)" "vec_close 8 a wa" by auto
  from bytes(2) vec_event_value [OF ids(2) _ assms(2), of hg _ GYROSCOPE_CALIBRATED] obtain wg where
    wg: "event_value eg = Some (GYROSCOPE_CALIBRATED wg)" "vec_close 9 g wg" by auto
  from bytes(3) rotation_event_value [OF ids(3) _ assms(3), of hq accuracy] obtain wq where
    wq: "event_value eq = Some (ROTATION_VECTOR wq)" "quat_close 14 q wq" by auto
  show ?thesis using wa wg wq by (simp add: es numeral_2_eq_2)
qed

lemma attitude_spec:
  "imu_spec mag {} m [(t0, ACCELEROMETER wa), (t1, GYROSCOPE_CALIBRATED wg), (t2, ROTATION_VECTOR wq)] =
     [Imu_published \<lparr>orientation = wq, angular_velocity = wg, linear_acceleration = wa\<rparr> (the (stamp_of t2))]"
  by (cases m) (simp add: Bno_Node.received_def kind_UNIV mag_output_def)

section \<open>Properties\<close>

text \<open>C4: 
  One poll of the running program, over all its layers: when the sensor on the bus holds a transfer with
  reports for an input channel, the packet is read in pieces, assembled, cut into reports, decoded and
  handed to the node, which publishes exactly what its specification says for the values of the reports,
  in their order; no layer faults, drops or repeats anything.
\<close>

theorem poll_publishes_reports:
  assumes "hub_listens chan s" "serving K n" "K \<noteq> UNIV" "\<forall>k. stampable (clock k)"
    and "holds_reports (dev (hal_calls s)) chan rs" "list_all (report_ok (reports s)) rs"
    and "times_fit (get_time_us (tod (hal_calls s))) 0 rs"
  shows "\<exists>s' n'. stack_poll (i2c_hal dev wr tod) (Suc fuel) clock (s, n) = Inr ((), (s', n')) \<and>
    published n' = published n @ imu_spec (publish_magnetic_field n) K (imu_msg n)
      (report_values (get_time_us (tod (hal_calls s))) clock s rs)"
  using assms by (rule stack_poll_run)

text \<open>C8: 
  From the sensor's registers to the topic: an acceleration, an angular velocity and a rotation that the
  sensor sends in one transfer come out as one IMU message, with the time of the last of them, in which
  every component is within one unit of the last place of its report: 2^-8 m/s^2, 2^-9 rad/s and 2^-14.
\<close>

theorem attitude_reaches_topic:
  assumes "hub_listens chan s" "serving {} n" "\<forall>k. stampable (clock k)"
    and "vec_fits 8 a" "vec_fits 9 g" "quat_fits 14 q"
    and "holds_reports (dev (hal_calls s)) chan (attitude_reports timebase ha a hg g hq q accuracy)"
    and "list_all (report_ok (reports s)) (attitude_reports timebase ha a hg g hq q accuracy)"
    and "times_fit (get_time_us (tod (hal_calls s))) 0 (attitude_reports timebase ha a hg g hq q accuracy)"
  shows "\<exists>s' n' m. stack_poll (i2c_hal dev wr tod) (Suc fuel) clock (s, n) = Inr ((), (s', n')) \<and>
    published n' = published n @ [Imu_published m (the (stamp_of (clock 2)))] \<and>
    vec_close 8 a (linear_acceleration m) \<and> vec_close 9 g (angular_velocity m) \<and> quat_close 14 q (orientation m)"
proof -
  let ?t = "get_time_us (tod (hal_calls s))"
  have "{} \<noteq> (UNIV :: kind set)" by simp
  from stack_poll_run [where dev = dev and tod = tod, OF assms(1,2) this assms(3,7-9)] obtain s' n' where
    run: "stack_poll (i2c_hal dev wr tod) (Suc fuel) clock (s, n) = Inr ((), (s', n'))"
      "published n' = published n @ imu_spec (publish_magnetic_field n) {} (imu_msg n)
        (report_values ?t clock s (attitude_reports timebase ha a hg g hq q accuracy))" by blast
  from attitude_values [OF assms(4-6), of clock _ _ timebase ha hg hq accuracy] obtain wa wg wq where
    "report_values ?t clock s (attitude_reports timebase ha a hg g hq q accuracy) =
      [(clock 0, ACCELEROMETER wa), (clock 1, GYROSCOPE_CALIBRATED wg), (clock 2, ROTATION_VECTOR wq)]"
    and "vec_close 8 a wa" "vec_close 9 g wg" "quat_close 14 q wq"
    unfolding report_values_def by blast
  with run show ?thesis by (simp only: attitude_spec) auto
qed

lemma absent_read: "(\<And>cs n. dev cs [] n = []) \<Longrightarrow> hal_read (i2c_hal dev wr tod) cs = (0, [], 0)"
  by (simp add: i2c_hal_def i2c_read_def)

text \<open>C37: 
  With no sensor on the bus every read fails, here under a clock that moves on by a fixed step at each
  look. The library opens all the same, since it looks at nothing the bus returned: it opens the bus and
  reads, looking at the clock between the reads, until 200 ms have passed and not once more, and reports
  success without the reset message having come. The start of the class goes on to its first request,
  for the product ids, which is refused at once with nothing written to the bus, and so it fails, which
  makes the node throw. No callback has run.
\<close>

theorem absent_sensor_fails_start:
  assumes absent: "\<And>cs n. dev cs [] n = []" and clock: "\<And>cs. get_time_us (tod cs) = of_nat (step * ticks cs)"
    and "0 < step" "step \<le> 2 ^ 31" "initialized \<longrightarrow> \<not> pHal s" "200000 div step + 3 \<le> fuel"
  shows "\<exists>s1 s2 rounds. sh2_open (i2c_hal dev wr tod) fuel initialized True True s = Inr (SH2_OK, s1) \<and>
    \<not> resetComplete s1 \<and> hal_calls s1 = hal_calls s @ silent_opening rounds \<and>
    200000 \<le> step * rounds \<and> (\<forall>k < rounds. step * k < 200000) \<and>
    sh2_getProdIds (i2c_hal dev wr tod) fuel (Some zero_ids) s1 = Inr (SH2_ERR_BAD_PARAM, s2) \<and>
    stack_init (i2c_hal dev wr tod) fuel initialized node_clock (s, n) = Inr (False, (s2, n)) \<and>
    hal_calls s2 = hal_calls s @ silent_opening rounds @ [Hal_getTimeUs]"
proof -
  let ?h = "i2c_hal dev wr tod" and ?es = "(sensor_events s, async_events s)"
  have "hal_time ?h cs = of_nat (step * ticks cs)" for cs using clock by (simp add: i2c_hal_def)
  then obtain s1 rounds where s1: "sh2_open ?h fuel initialized True True s = Inr (SH2_OK, s1)" "requested ?es s1"
    "hal_calls s1 = hal_calls s @ silent_opening rounds" "200000 \<le> step * rounds" "step * rounds < 200000 + step"
    using open_silent [of ?h, OF absent_read [where dev = dev, OF absent] _ assms(3-6)] by blast
  have least: "step * k < 200000" if "k < rounds" for k
  proof -
    have "step * Suc k \<le> step * rounds" using that by (intro mult_le_mono2) simp
    with s1(5) show ?thesis by simp
  qed
  have none: "on_stack node_clock m (s, n) = Inr (x, (s', n))"
    if "m s = Inr (x, s')" "sensor_events s' = sensor_events s" "async_events s' = async_events s" for m :: "(sh2, 'x) prog" and x s s'
    using that by (simp add: on_stack_def node_async_def)
  obtain m where fuel: "fuel = Suc m" using assms(6) by (cases fuel) simp_all
  from silent_getProdIds [OF s1(2), of ?h m "Some zero_ids"] obtain s2 where
    s2: "sh2_getProdIds ?h fuel (Some zero_ids) s1 = Inr (SH2_ERR_BAD_PARAM, s2)"
      "sensor_events s2 = sensor_events s1" "async_events s2 = async_events s1" "hal_calls s2 = hal_calls s1 @ [Hal_getTimeUs]"
    unfolding fuel by blast
  have same: "sensor_events s1 = sensor_events s" "async_events s1 = async_events s" and waited: "\<not> resetComplete s1"
    using s1(2) by (simp_all add: requested_def unopened_def)
  from none [of "sh2_open ?h fuel initialized True True", OF s1(1) same]
    none [of "sh2_getProdIds ?h fuel (Some zero_ids)", OF s2(1-3)]
  have "stack_init ?h fuel initialized node_clock (s, n) = Inr (False, (s2, n))" by (simp add: stack_init_def)
  with s1 s2(1,4) waited least show ?thesis by (intro exI [of _ s1] exI [of _ s2] exI [of _ rounds]) simp
qed

lemma on_stack_no_events:
  assumes "m s = Inr (x, s')" "sensor_events s' = sensor_events s" "async_events s' = async_events s"
  shows "on_stack clock m (s, n) = Inr (x, (s', n))"
  using assms by (simp add: on_stack_def node_async_def)

lemma length_set_feature_req: "length (set_feature_req i cfg) = 17"
  by (simp add: set_feature_req_def)

lemma config_sent:
  assumes accept: "\<And>cs bs. bs \<noteq> [] \<Longrightarrow> 0 < hal_write h cs bs" and s: "requests_pass None s" and n: "4 \<le> n"
  shows "\<exists>s'. sh2_setSensorConfig h n i cfg s = Inr (SH2_OK, s') \<and> sensor_events s' = sensor_events s \<and>
    async_events s' = async_events s \<and> pOp s' = None \<and> hal_calls s' = hal_calls s @ [Hal_getTimeUs,
      Hal_write (tx_header 21 False (controlChan s) (nextOutSeq (chans s ! unat (controlChan s))) @ set_feature_req i cfg)]"
proof -
  have "n = Suc (Suc (Suc (n - 3)))" using n by linarith
  then obtain m where m: "n = Suc (Suc (Suc m))" by blast
  let ?s0 = "s\<lparr>opData := D_sensorConfig cfg i\<rparr>"
  let ?s1 = "op_begun setSensorConfigOp ?s0"
  let ?s2 = "(staged (controlChan ?s1) False (set_feature_req i cfg) ?s1)\<lparr>hal_calls := hal_calls ?s1 @
    [Hal_write (tx_header (of_nat (4 + length (set_feature_req i cfg))) False (controlChan ?s1)
      (nextOutSeq (chans ?s1 ! unat (controlChan ?s1))) @ set_feature_req i cfg)]\<rparr>"
  have "requests_pass (Some setSensorConfigOp) ?s1" using s by (simp add: requests_pass_def op_begun_def)
  from request_written [OF accept this, of "set_feature_req i cfg" hub_clients m]
  have "sendCtrl (shtp_send h hub_clients n) (set_feature_req i cfg) ?s1 = Inr (SH2_OK, ?s2)"
    unfolding m by (simp add: length_set_feature_req set_feature_req_def del: of_nat_add)
  then have start: "op_start (shtp_send h hub_clients n) setSensorConfigOp ?s1 = Inr (SH2_OK, opCompleted SH2_OK ?s2)"
    by (simp add: setSensorConfigStart_def op_begun_def complete_def)
  have ready: "hub_pHal ?s0" "pOp ?s0 = None" using s by (simp_all add: requests_pass_def)
  have "op_wait h n setSensorConfigOp a b (opCompleted SH2_OK ?s2) = Inr ((), opCompleted SH2_OK ?s2)" for a b
    unfolding m by (simp add: opCompleted_def)
  then have "opProcess h n setSensorConfigOp ?s0 = Inr (SH2_OK, opCompleted SH2_OK ?s2)"
    by (simp add: opProcess_waits [OF ready start] opCompleted_def)
  then show ?thesis
    by (simp add: sh2_setSensorConfig_def set_opData_def opCompleted_def op_begun_def length_set_feature_req staged_def Let_def)
qed

text \<open>
  The I2C interface writes no more than 32 bytes of a transfer, and reports success all the same. The
  configuration of a report fits: enabling a report puts exactly one transfer on the bus, which holds
  the whole request with the interval, and succeeds at once, without an answer.
\<close>

theorem report_enabled:
  fixes i :: u8 and interval :: u32
  assumes wr: "\<And>cs bs. wr cs bs = int (length bs)" and "requests_pass None s" "4 \<le> fuel"
  defines "transfer \<equiv> tx_header 21 False (controlChan s) (nextOutSeq (chans s ! unat (controlChan s))) @
    set_feature_req i (report_config interval)"
  shows "\<exists>s'. stack_enable_report (i2c_hal dev wr tod) fuel clock i interval (s, n) = Inr (True, (s', n)) \<and>
    hal_calls s' = hal_calls s @ [Hal_getTimeUs, Hal_write transfer] \<and> take 32 transfer = transfer \<and> pOp s' = None"
proof -
  let ?h = "i2c_hal dev wr tod"
  have "0 < hal_write ?h cs bs" if "bs \<noteq> []" for cs bs
    using wr that by (simp add: i2c_hal_def i2c_write_def Let_def)
  from config_sent [of ?h, OF this assms(2,3)] obtain s' where
    s': "sh2_setSensorConfig ?h fuel i (report_config interval) s = Inr (SH2_OK, s')" "sensor_events s' = sensor_events s"
      "async_events s' = async_events s" "pOp s' = None" "hal_calls s' = hal_calls s @ [Hal_getTimeUs, Hal_write transfer]"
    unfolding transfer_def by blast
  from on_stack_no_events [where m = "sh2_setSensorConfig ?h fuel i (report_config interval)" and s = s, OF s'(1-3)] s'(4,5) show ?thesis
    by (simp add: stack_enable_report_def transfer_def length_set_feature_req)
qed

section \<open>Witnesses\<close>

text \<open>A session in which channel 3 delivers to the handler of normal input, and a node that serves.\<close>

definition session_hub :: sh2 where
  "session_hub = example_hub\<lparr>chans := (chans example_hub)[3 := zero_Channel\<lparr>ch_callback := Some (Client_listener 2), ch_cookie := 1\<rparr>],
     reports := [(0xFB, 5), (1, 10), (2, 10), (5, 14)] @ replicate 60 (0, 0)\<rparr>"

definition session_node :: BNO08xROS where
  "session_node = init_parameters default_bno_parameters\<lparr>imu_publisher := True, mag_publisher := True, imu_received_flag := Some 0,
     watchdog := Some (wd_start 0 (new_Watchdog 2000000000 1000000000 True 0))\<rparr>"

definition session_reports :: "hub_report list" where
  "session_reports = attitude_reports 120 (0, 3, 17) \<lparr>x_of = 0, y_of = 1, z_of = 19 / 2\<rparr> (0, 3, 17) zero_vec3 (0, 3, 17)
     \<lparr>i_of = 0, j_of = 0, k_of = 3 / 5, real_of = 4 / 5\<rparr> 0"

definition session_device :: "hal_call list \<Rightarrow> nat list \<Rightarrow> nat \<Rightarrow> u8 list" where
  "session_device cs = shtp_device [0, 0x80, 3, 1]
     (tx_header (of_nat (4 + length (concat (map enc_report session_reports)))) False 3 0 @ concat (map enc_report session_reports))"

lemmas session_samples = session_reports_def attitude_reports_def vec_sample_def rotation_sample_def

lemma session_ready:
  "hub_listens 3 session_hub" "serving {} session_node" "list_all (report_ok (reports session_hub)) session_reports"
  "times_fit (get_time_us (1, 0)) 0 session_reports"
  by (simp_all add: hub_listens_def session_hub_def listening_def serving_def session_node_def getReportLen_def session_samples
      get_time_us_def fits_signed_def)

lemma session_device_holds: "holds_reports (session_device cs) 3 session_reports"
proof -
  have "length (concat (map enc_report session_reports)) \<le> 380" by (simp add: session_samples)
  then show ?thesis unfolding holds_reports_def session_device_def
    by (intro exI [of _ "[0, 0x80, 3, 1]"] exI [of _ 0]) simp
qed

theorem poll_publishes_reports_witness:
  "\<exists>s' n'. stack_poll (i2c_hal session_device (\<lambda>_ _. 0) (\<lambda>_. (1, 0))) 9 (\<lambda>_. 5) (session_hub, session_node) = Inr ((), (s', n')) \<and>
    published n' = published session_node @ imu_spec (publish_magnetic_field session_node) {} (imu_msg session_node)
      (report_values (get_time_us (1, 0)) (\<lambda>_. 5) session_hub session_reports)"
proof -
  have fuel: "9 = Suc 8" by simp
  show ?thesis unfolding fuel
    by (rule poll_publishes_reports [where chan = 3 and tod = "\<lambda>_. (1, 0)"])
      (simp_all add: session_ready session_device_holds stampable_def)
qed

theorem attitude_reaches_topic_witness:
  "\<exists>s' n' m. stack_poll (i2c_hal session_device (\<lambda>_ _. 0) (\<lambda>_. (1, 0))) 9 (\<lambda>_. 5) (session_hub, session_node) = Inr ((), (s', n')) \<and>
    published n' = published session_node @ [Imu_published m (the (stamp_of 5))] \<and> \<bar>z_of (linear_acceleration m) - 19 / 2\<bar> < 1 / 256 \<and>
    vec_close 9 zero_vec3 (angular_velocity m) \<and>
    quat_close 14 \<lparr>i_of = 0, j_of = 0, k_of = 3 / 5, real_of = 4 / 5\<rparr> (orientation m)"
proof -
  have fuel: "9 = Suc 8" by simp
  have "\<exists>s' n' m. stack_poll (i2c_hal session_device (\<lambda>_ _. 0) (\<lambda>_. (1, 0))) (Suc 8) (\<lambda>_. 5) (session_hub, session_node) = Inr ((), (s', n')) \<and>
    published n' = published session_node @ [Imu_published m (the (stamp_of ((\<lambda>_. 5) 2)))] \<and>
    vec_close 8 \<lparr>x_of = 0, y_of = 1, z_of = 19 / 2\<rparr> (linear_acceleration m) \<and>
    vec_close 9 zero_vec3 (angular_velocity m) \<and> quat_close 14 \<lparr>i_of = 0, j_of = 0, k_of = 3 / 5, real_of = 4 / 5\<rparr> (orientation m)"
    by (rule attitude_reaches_topic [OF session_ready(1,2) _ _ _ _ session_device_holds [unfolded session_reports_def]
          session_ready(3) [unfolded session_reports_def]])
      (use session_ready(4) in \<open>simp_all add: stampable_def vec_fits_def quat_fits_def SCALE_Q_def zero_vec3_def session_reports_def\<close>)
  then show ?thesis unfolding fuel by (auto simp: vec_close_def SCALE_Q_def)
qed

text \<open>An empty bus under a clock that moves on by a millisecond at each look.\<close>

definition no_device :: "hal_call list \<Rightarrow> nat list \<Rightarrow> nat \<Rightarrow> u8 list" where
  "no_device cs reads k = []"

definition ticking_clock :: "hal_call list \<Rightarrow> int \<times> int" where
  "ticking_clock cs = (0, 1000 * int (ticks cs))"

theorem absent_sensor_fails_start_witness:
  "\<exists>s' rounds. stack_init (i2c_hal no_device (\<lambda>_ _. - 1) ticking_clock) 203 False (\<lambda>_. 5) (example_hub, session_node) =
      Inr (False, (s', session_node)) \<and> 200000 \<le> 1000 * rounds \<and> (\<forall>k < rounds. 1000 * k < (200000 :: nat)) \<and>
    hal_calls s' = hal_calls example_hub @ silent_opening rounds @ [Hal_getTimeUs]"
proof -
  have "get_time_us (ticking_clock cs) = of_nat (1000 * ticks cs)" for cs
    by (simp add: ticking_clock_def get_time_us_def)
  from absent_sensor_fails_start [where dev = no_device and wr = "\<lambda>_ _. - 1" and fuel = 203 and initialized = False
      and node_clock = "\<lambda>_. 5" and s = example_hub and n = session_node, OF _ this]
  show ?thesis by (simp add: no_device_def) blast
qed

lemma rotation_request:
  "set_feature_req SH2_ROTATION_VECTOR (report_config 10000) = [0xFD, 5, 0, 0, 0, 0x10, 0x27] @ replicate 10 0"
  by code_simp

theorem report_enabled_witness:
  "\<exists>s'. stack_enable_report (i2c_hal no_device (\<lambda>_ bs. int (length bs)) ticking_clock) 9 (\<lambda>_. 5) SH2_ROTATION_VECTOR 10000
      (example_hub, session_node) = Inr (True, (s', session_node)) \<and>
    hal_calls s' = [Hal_getTimeUs, Hal_write ([21, 0, 2, 0, 0xFD, 5, 0, 0, 0, 0x10, 0x27] @ replicate 10 0)]"
proof -
  have "\<exists>s'. stack_enable_report (i2c_hal no_device (\<lambda>_ bs. int (length bs)) ticking_clock) 9 (\<lambda>_. 5) SH2_ROTATION_VECTOR 10000
      (example_hub, session_node) = Inr (True, (s', session_node)) \<and> hal_calls s' = hal_calls example_hub @ [Hal_getTimeUs,
        Hal_write (tx_header 21 False (controlChan example_hub) (nextOutSeq (chans example_hub ! unat (controlChan example_hub))) @
          set_feature_req SH2_ROTATION_VECTOR (report_config 10000))] \<and>
      take 32 (tx_header 21 False (controlChan example_hub) (nextOutSeq (chans example_hub ! unat (controlChan example_hub))) @
          set_feature_req SH2_ROTATION_VECTOR (report_config 10000)) = tx_header 21 False (controlChan example_hub)
          (nextOutSeq (chans example_hub ! unat (controlChan example_hub))) @ set_feature_req SH2_ROTATION_VECTOR (report_config 10000) \<and>
      pOp s' = None"
    by (rule report_enabled) (simp_all add: requests_pass_def)
  then show ?thesis
    by (auto simp: zero_Channel_def tx_header_def lo8_def hi8_def rotation_request)
qed

end
