(* ===== verification/Monitors.thy ===== *)
theory Monitors
  imports Programs
begin

text \<open>
  Three small nodes: \<open>RPiMonitorNode\<close> (\<^verbatim>\<open>rpi_monitor\<close>), which reports temperature, CPU and memory
  usage of the robot's computer, \<open>IMU_Euler\<close> (\<^verbatim>\<open>quat_to_euler\<close>) and \<open>RobotPosePublisher\<close>
  (\<^verbatim>\<open>robot_pose_publisher\<close>). What the system files and \<open>sysinfo\<close> say is an argument. The
  conversion of a quaternion to angles is the tf2 library's, a parameter. Times are nanoseconds.
\<close>

section \<open>Reports\<close>

datatype level = OK | WARN | ERROR

record report =
  rep_level :: level
  rep_message :: string
  rep_values :: "(string \<times> double option) list"
  rep_error :: "string option"

text \<open>A reported value is \<open>None\<close> when it is NaN. \<open>std::max\<close> on the levels, which are 0, 1 and 2.\<close>

fun level_num :: "level \<Rightarrow> nat" where
  "level_num OK = 0" | "level_num WARN = 1" | "level_num ERROR = 2"

definition max_level :: "level \<Rightarrow> level \<Rightarrow> level" where
  "max_level a b = (if level_num a < level_num b then b else a)"

fun load_dict :: "level \<Rightarrow> string" where
  "load_dict OK = ''OK''" | "load_dict WARN = ''high load''" | "load_dict ERROR = ''very high load''"

fun temp_dict :: "level \<Rightarrow> string" where
  "temp_dict OK = ''OK''" | "temp_dict WARN = ''warm''" | "temp_dict ERROR = ''hot''"

section \<open>Temperature\<close>

record CPUTemperatureData =
  temp_values_read :: bool
  cpu_temperature_c :: double

text \<open>\<open>file\<close>: \<open>None\<close> when it cannot be opened, \<open>Some None\<close> when no number is in it; extraction then
  stores 0.\<close>

definition ReadCPUTemperatureData :: "double option option \<Rightarrow> CPUTemperatureData" where
  "ReadCPUTemperatureData file = (case file of
     None \<Rightarrow> \<lparr>temp_values_read = False, cpu_temperature_c = 0\<rparr>
   | Some number \<Rightarrow>
       \<lparr>temp_values_read = True, cpu_temperature_c = (case number of None \<Rightarrow> 0 | Some x \<Rightarrow> x) / 1000\<rparr>)"

abbreviation kTempWarnC :: double where "kTempWarnC \<equiv> 65"
abbreviation kTempErrorC :: double where "kTempErrorC \<equiv> 75"

definition CheckCPUTemperature :: "double option option \<Rightarrow> report" where
  "CheckCPUTemperature file =
     (let level = OK; temperature_data = ReadCPUTemperatureData file in
      if temp_values_read temperature_data then
        let level = (if cpu_temperature_c temperature_data \<ge> kTempErrorC then max_level level ERROR
                     else if cpu_temperature_c temperature_data \<ge> kTempWarnC then max_level level WARN
                     else level)
        in \<lparr>rep_level = level, rep_message = temp_dict level,
            rep_values = [(''CPU 0'', Some (cpu_temperature_c temperature_data))], rep_error = None\<rparr>
      else \<lparr>rep_level = level, rep_message = temp_dict level, rep_values = [],
            rep_error = Some ''/sys/class/thermal/thermal_zone0/temp''\<rparr>)"

section \<open>CPU usage\<close>

definition white_space :: "char \<Rightarrow> bool" where
  "white_space c \<longleftrightarrow> c \<in> {CHR '' '', CHR 0x09, CHR 0x0A, CHR 0x0B, CHR 0x0C, CHR 0x0D}"

text \<open>Repeated extraction of words from a stream; \<open>cur\<close> is the word being read.\<close>

fun words_from :: "string \<Rightarrow> string \<Rightarrow> string list" where
  "words_from cur [] = (if cur = [] then [] else [cur])"
| "words_from cur (c # cs) =
     (if white_space c then (if cur = [] then words_from [] cs else cur # words_from [] cs)
      else words_from (cur @ [c]) cs)"

definition WordSplit :: "string \<Rightarrow> string list" where
  "WordSplit in_str = words_from [] in_str"

definition digit :: "char \<Rightarrow> nat option" where
  "digit c = (let k = (of_char c :: nat) in if 48 \<le> k \<and> k \<le> 57 then Some (k - 48) else None)"

fun digits_value :: "nat \<Rightarrow> string \<Rightarrow> nat" where
  "digits_value acc [] = acc"
| "digits_value acc (c # cs) = (case digit c of None \<Rightarrow> acc | Some d \<Rightarrow> digits_value (10 * acc + d) cs)"

text \<open>\<open>std::stoull\<close> on a word: an exception without a digit and when the number is too large; a minus
  sign negates the result.\<close>

definition stoull :: "string \<Rightarrow> u64 option" where
  "stoull w =
     (let neg = (w \<noteq> [] \<and> hd w = CHR ''-''); sign = (w \<noteq> [] \<and> (hd w = CHR ''-'' \<or> hd w = CHR ''+''));
          body = (if sign then tl w else w)
      in if body = [] \<or> digit (hd body) = None then None
         else let k = digits_value 0 body in
              if k \<ge> 2 ^ 64 then None else Some (if neg then - of_nat k else of_nat k))"

text \<open>\<open>file\<close>: the first line of \<^verbatim>\<open>/proc/stat\<close>, or \<open>None\<close>. Erasing from an empty vector and indexing
  behind its end are undefined.\<close>

definition ReadIdleJiffies :: "string option \<Rightarrow> fault + u64" where
  "ReadIdleJiffies file = (case file of
     None \<Rightarrow> Inr 0
   | Some line \<Rightarrow>
       let words = WordSplit line in
       if words = [] then Inl Undefined_Behaviour
       else
         let words = tl words in
         if 3 < length words then
           (case stoull (words ! 3) of None \<Rightarrow> Inl Uncaught_Exception | Some k \<Rightarrow> Inr k)
         else Inl Undefined_Behaviour)"

record RPiMonitorNode =
  last_idle_jiffies :: u64
  last_idle_called :: int

definition new_RPiMonitorNode :: "int \<Rightarrow> RPiMonitorNode" where
  "new_RPiMonitorNode now = \<lparr>last_idle_jiffies = 0, last_idle_called = now\<rparr>"

record UsageData =
  values_read :: bool
  total_usage :: double

abbreviation kJiffiesPerSecond :: u32 where "kJiffiesPerSecond \<equiv> 100"

text \<open>\<open>ncpu\<close>: \<open>hardware_concurrency\<close>; a division by 0 is undefined. The differences are unsigned.\<close>

definition ReadCPUUsageData ::
  "u32 \<Rightarrow> string option \<Rightarrow> int \<Rightarrow> RPiMonitorNode \<Rightarrow> fault + (UsageData \<times> RPiMonitorNode)" where
  "ReadCPUUsageData ncpu file now n = (case ReadIdleJiffies file of
     Inl f \<Rightarrow> Inl f
   | Inr idle_jiffies \<Rightarrow>
       let call_time = now;
           n' = \<lparr>last_idle_jiffies = idle_jiffies, last_idle_called = call_time\<rparr>
       in if last_idle_jiffies n > 0 then
            if ncpu = 0 then Inl Undefined_Behaviour
            else
              let idle_per_cpu_jiffies = (ucast (idle_jiffies - last_idle_jiffies n) :: u32) div ncpu;
                  used_per_cpu_jiffies = kJiffiesPerSecond - idle_per_cpu_jiffies;
                  interval_s = real_of_int (call_time - last_idle_called n) / 1000000000;
                  used_time_s = real (unat used_per_cpu_jiffies) * interval_s;
                  usage_percent = used_time_s / 100 * 100
              in Inr (\<lparr>values_read = True, total_usage = usage_percent\<rparr>, n')
          else Inr (\<lparr>values_read = True, total_usage = 0\<rparr>, n'))"

abbreviation kCPUUsageError :: double where "kCPUUsageError \<equiv> 90"
abbreviation kCPUUsageWarn :: double where "kCPUUsageWarn \<equiv> 80"

definition CheckCPUUsage ::
  "u32 \<Rightarrow> string option \<Rightarrow> int \<Rightarrow> RPiMonitorNode \<Rightarrow> fault + (report \<times> RPiMonitorNode)" where
  "CheckCPUUsage ncpu file now n = (case ReadCPUUsageData ncpu file now n of
     Inl f \<Rightarrow> Inl f
   | Inr (usage_data, n') \<Rightarrow>
       if values_read usage_data then
         let level = (if total_usage usage_data \<ge> kCPUUsageError then ERROR
                      else if total_usage usage_data \<ge> kCPUUsageWarn then WARN else OK)
         in Inr (\<lparr>rep_level = level, rep_message = load_dict level,
              rep_values = [(''Number CPUs'', Some (real (unat ncpu))), (''All CPUs'', Some (total_usage usage_data))],
              rep_error = None\<rparr>, n')
       else Inr (\<lparr>rep_level = OK, rep_message = load_dict OK, rep_values = [], rep_error = Some ''/proc/stat''\<rparr>, n'))"

section \<open>Memory usage\<close>

record sysinfo =
  totalram :: u64
  freeram :: u64
  mem_unit :: u32

text \<open>A total of 0 bytes would give a quotient that is not a number: \<open>None\<close>.\<close>

definition ReadMemoryUsageData :: "sysinfo \<Rightarrow> double option" where
  "ReadMemoryUsageData memory_info =
     (let ram_total = totalram memory_info * ucast (mem_unit memory_info);
          ram_in_use = (totalram memory_info - freeram memory_info) * ucast (mem_unit memory_info)
      in if ram_total = 0 then None
         else Some (real (unat (ram_total - ram_in_use)) / real (unat ram_total) * 100))"

abbreviation kMemoryUsageError :: double where "kMemoryUsageError \<equiv> 95"
abbreviation kMemoryUsageWarn :: double where "kMemoryUsageWarn \<equiv> 80"

text \<open>NaN compares greater than nothing.\<close>

definition CheckMemoryUsage :: "sysinfo \<Rightarrow> report" where
  "CheckMemoryUsage memory_info =
     (let usage = ReadMemoryUsageData memory_info;
          at_least = (\<lambda>limit. case usage of None \<Rightarrow> False | Some u \<Rightarrow> u \<ge> limit);
          level = (if at_least kMemoryUsageError then ERROR else if at_least kMemoryUsageWarn then WARN else OK)
      in \<lparr>rep_level = level, rep_message = load_dict level, rep_values = [(''RAM used'', usage)], rep_error = None\<rparr>)"

section \<open>Angles and pose\<close>

definition rad2deg :: "double \<Rightarrow> double" where
  "rad2deg x = x / pi * 180"

record EulerAngles =
  roll :: double
  pitch :: double
  yaw :: double

text \<open>\<open>getRPY\<close>: the roll, pitch and yaw of an orientation.\<close>

definition euler_imu_callback :: "('q \<Rightarrow> double \<times> double \<times> double) \<Rightarrow> 'q \<Rightarrow> EulerAngles" where
  "euler_imu_callback getRPY orient = (case getRPY orient of
     (r, p, y) \<Rightarrow> \<lparr>roll = rad2deg r, pitch = rad2deg p, yaw = rad2deg y\<rparr>)"

text \<open>A component of a quaternion is \<open>None\<close> when it is NaN. The transform is stamped a second ahead.\<close>

record pose_quaternion =
  qx :: "double option"
  qy :: "double option"
  qz :: "double option"
  qw :: "double option"

record TransformStamped =
  tf_sec :: i32
  tf_nanosec :: u32
  tf_frame_id :: string
  tf_child_frame_id :: string
  tf_translation :: "double \<times> double \<times> double"
  tf_rotation :: pose_quaternion

definition pose_imu_callback :: "i32 \<Rightarrow> u32 \<Rightarrow> pose_quaternion \<Rightarrow> fault + TransformStamped option" where
  "pose_imu_callback now_sec now_nanosec q =
     (if sint now_sec = 2147483647 then Inl Undefined_Behaviour
      else
        let t = \<lparr>tf_sec = now_sec + 1, tf_nanosec = now_nanosec, tf_frame_id = ''map'',
                 tf_child_frame_id = ''base_footprint'', tf_translation = (0, 0, 0), tf_rotation = q\<rparr>
        in if qx q \<noteq> None \<and> qy q \<noteq> None \<and> qz q \<noteq> None \<and> qw q \<noteq> None then Inr (Some t) else Inr None)"

section \<open>Words and numbers\<close>

text \<open>What the parsers undo: words joined by single spaces, and decimal notation.\<close>

fun join_words :: "string list \<Rightarrow> string" where
  "join_words [] = []"
| "join_words [w] = w"
| "join_words (w # ws) = w @ CHR '' '' # join_words ws"

definition word_ok :: "string \<Rightarrow> bool" where
  "word_ok w \<longleftrightarrow> w \<noteq> [] \<and> (\<forall>c \<in> set w. \<not> white_space c)"

lemma words_from_word: "\<forall>c \<in> set w. \<not> white_space c \<Longrightarrow> words_from cur (w @ rest) = words_from (cur @ w) rest"
  by (induction w arbitrary: cur) auto

lemma WordSplit_join: "\<forall>w \<in> set ws. word_ok w \<Longrightarrow> WordSplit (join_words ws) = ws"
proof (induction ws rule: join_words.induct)
  case (2 w)
  then show ?case using words_from_word [of w "[]" "[]"] by (simp add: WordSplit_def word_ok_def)
next
  case (3 w v ws)
  have "words_from [] (w @ CHR '' '' # join_words (v # ws)) = w # words_from [] (join_words (v # ws))"
    using 3(2) words_from_word [of w "[]"] by (simp add: word_ok_def white_space_def)
  with 3 show ?case by (simp add: WordSplit_def)
qed (simp add: WordSplit_def)

definition digit_char :: "nat \<Rightarrow> char" where
  "digit_char d = char_of (48 + d)"

fun decimal :: "nat \<Rightarrow> string" where
  "decimal n = (if n < 10 then [digit_char n] else decimal (n div 10) @ [digit_char (n mod 10)])"

declare decimal.simps [simp del]

lemma digit_digit_char [simp]: "d < 10 \<Longrightarrow> digit (digit_char d) = Some d"
  by (simp add: digit_def digit_char_def)

lemma digits_value_snoc:
  "\<forall>c \<in> set cs. digit c \<noteq> None \<Longrightarrow> digits_value acc (cs @ [c]) =
     (case digit c of None \<Rightarrow> digits_value acc cs | Some d \<Rightarrow> 10 * digits_value acc cs + d)"
  by (induction cs arbitrary: acc) (auto split: option.split)

lemma decimal_digits: "decimal n \<noteq> [] \<and> (\<forall>c \<in> set (decimal n). digit c \<noteq> None)"
proof (induction n rule: decimal.induct)
  case (1 n)
  then show ?case by (subst (1 2) decimal.simps) auto
qed

lemma digits_value_decimal: "digits_value 0 (decimal n) = n"
proof (induction n rule: decimal.induct)
  case (1 n)
  show ?case
  proof (cases "n < 10")
    case True
    then show ?thesis by (subst decimal.simps) simp
  next
    case False
    then show ?thesis
      using 1 decimal_digits [of "n div 10"] by (subst decimal.simps) (simp add: digits_value_snoc)
  qed
qed

lemma digit_not_special: "digit c \<noteq> None \<Longrightarrow> c \<noteq> CHR ''-'' \<and> c \<noteq> CHR ''+'' \<and> \<not> white_space c"
  by (auto simp: digit_def Let_def white_space_def split: if_splits)

lemma stoull_decimal: "n < 2 ^ 64 \<Longrightarrow> stoull (decimal n) = Some (of_nat n)"
  using decimal_digits [of n] digit_not_special [of "hd (decimal n)"] digits_value_decimal [of n]
  by (simp add: stoull_def Let_def del: digits_value.simps)

lemma word_ok_decimal: "word_ok (decimal n)"
  using decimal_digits [of n] digit_not_special by (auto simp: word_ok_def)

section \<open>Properties\<close>

text \<open>The idle time is read back from a line as the kernel prints it: the fifth word of the line, in
  decimal, whatever the other words are. With fewer than five words the program indexes behind the end
  of its vector.\<close>

theorem ReadIdleJiffies_line:
  assumes "\<forall>w \<in> set (ws @ ws'). word_ok w" "length ws = 4" "idle < 2 ^ 64"
  shows "ReadIdleJiffies (Some (join_words (ws @ decimal idle # ws'))) = Inr (of_nat idle) \<and>
    (\<forall>k < 5. ReadIdleJiffies (Some (join_words (take k (ws @ decimal idle # ws')))) = Inl Undefined_Behaviour)"
proof -
  let ?all = "ws @ decimal idle # ws'"
  have ok: "\<forall>w \<in> set ?all. word_ok w" using assms(1) word_ok_decimal by auto
  then have "WordSplit (join_words ?all) = ?all" by (rule WordSplit_join)
  moreover have "?all \<noteq> []" "3 < length (tl ?all)" "tl ?all ! 3 = decimal idle"
    using assms(2) by (auto simp: nth_tl nth_append)
  ultimately have "ReadIdleJiffies (Some (join_words ?all)) = Inr (of_nat idle)"
    using stoull_decimal [OF assms(3)] by (simp add: ReadIdleJiffies_def Let_def)
  moreover have "ReadIdleJiffies (Some (join_words (take k ?all))) = Inl Undefined_Behaviour" if "k < 5" for k
  proof -
    have "WordSplit (join_words (take k ?all)) = take k ?all"
      using ok set_take_subset [of k ?all] by (intro WordSplit_join) blast
    moreover have "\<not> 3 < length (tl (take k ?all))" using that by simp
    ultimately show ?thesis by (simp only: ReadIdleJiffies_def option.case Let_def if_False if_cancel)
  qed
  ultimately show ?thesis by blast
qed

text \<open>The CPU usage wraps: it is a hundred less the idle jiffies of each CPU, times the seconds between two
  calls, as long as at most a hundred are idle; with more, as on an idle machine after more than a
  second, the unsigned difference wraps and the node reports a very high load.\<close>

theorem idle_machine_reports_overload:
  assumes "0 < last_idle_jiffies n" "ReadIdleJiffies file = Inr idle" "0 < ncpu"
    and "uint (idle - last_idle_jiffies n) < 2 ^ 32"
    and "idle_per_cpu = uint (idle - last_idle_jiffies n) div uint ncpu"
    and "interval_s = real_of_int (now - last_idle_called n) / 1000000000"
  shows "\<exists>n' usage. ReadCPUUsageData ncpu file now n = Inr (\<lparr>values_read = True, total_usage = usage\<rparr>, n') \<and>
    (idle_per_cpu \<le> 100 \<longrightarrow> usage = (100 - real_of_int idle_per_cpu) * interval_s) \<and>
    (idle_per_cpu > 100 \<longrightarrow> usage = (2 ^ 32 + 100 - real_of_int idle_per_cpu) * interval_s \<and>
       (interval_s \<ge> 1 \<longrightarrow> map_sum id (rep_level \<circ> fst) (CheckCPUUsage ncpu file now n) = Inr ERROR))"
proof -
  let ?d = "idle - last_idle_jiffies n" and ?idle = "(ucast (idle - last_idle_jiffies n) :: u32) div ncpu"
  have "uint (ucast ?d :: u32) = uint ?d"
    using assms(4) by (simp add: uint_word_ariths(1) unsigned_ucast_eq take_bit_int_eq_self)
  then have i: "uint ?idle = idle_per_cpu" using assms(5) by (simp add: uint_div)
  have bounds: "0 \<le> idle_per_cpu" "idle_per_cpu < 2 ^ 32"
    using i unsigned_less [of ?idle, where ?'a = int] by auto
  let ?used = "kJiffiesPerSecond - ?idle"
  have used: "int (unat ?used) = (if idle_per_cpu \<le> 100 then 100 - idle_per_cpu else 2 ^ 32 + 100 - idle_per_cpu)"
  proof -
    have "int (unat ?used) = (100 - uint ?idle) mod 2 ^ 32" by (simp add: of_nat_unat uint_word_ariths)
    also have "\<dots> = (100 - idle_per_cpu) mod 2 ^ 32" by (simp only: i)
    also have "\<dots> = (if idle_per_cpu \<le> 100 then 100 - idle_per_cpu else 2 ^ 32 + 100 - idle_per_cpu)"
    proof (cases "idle_per_cpu \<le> 100")
      case True
      with bounds show ?thesis by simp
    next
      case False
      have "(100 - idle_per_cpu) mod 2 ^ 32 = (100 - idle_per_cpu + 2 ^ 32) mod 2 ^ 32" by (rule mod_add_self2 [symmetric])
      also have "\<dots> = 100 - idle_per_cpu + 2 ^ 32" using False bounds by (intro mod_pos_pos_trivial) auto
      finally show ?thesis using False by simp
    qed
    finally show ?thesis .
  qed
  let ?usage = "real (unat ?used) * interval_s"
  have percent: "x / 100 * 100 = x" for x :: double by simp
  have "ncpu \<noteq> 0" using assms(3) by auto
  then have r: "ReadCPUUsageData ncpu file now n = Inr (\<lparr>values_read = True, total_usage = ?usage\<rparr>,
      \<lparr>last_idle_jiffies = idle, last_idle_called = now\<rparr>)"
    by (simp only: ReadCPUUsageData_def assms(1,2) sum.case Let_def if_True if_False assms(6) [symmetric] percent)
  have real_used: "real (unat ?used) = real_of_int (if idle_per_cpu \<le> 100 then 100 - idle_per_cpu else 2 ^ 32 + 100 - idle_per_cpu)"
    by (simp only: used of_int_of_nat_eq [of "unat ?used", where ?'a = real, symmetric])
  have error: "map_sum id (rep_level \<circ> fst) (CheckCPUUsage ncpu file now n) = Inr ERROR"
    if "idle_per_cpu > 100" "interval_s \<ge> 1"
  proof -
    have "100 \<le> real (unat ?used)" using real_used that(1) bounds by simp
    then have "100 * 1 \<le> ?usage" using that(2) by (intro mult_mono) auto
    then show ?thesis by (simp add: CheckCPUUsage_def r)
  qed
  show ?thesis
  proof (intro exI conjI impI)
    show "ReadCPUUsageData ncpu file now n = Inr (\<lparr>values_read = True, total_usage = ?usage\<rparr>,
      \<lparr>last_idle_jiffies = idle, last_idle_called = now\<rparr>)" by (rule r)
  qed (use real_used error in auto)
qed

text \<open>The memory usage is the free memory: when the sizes fit, the node reports as \<open>RAM used\<close> the percentage of
  the memory that is free, so it warns of an empty machine and stays silent when the memory is full.\<close>

theorem memory_usage_is_free_memory:
  assumes "0 < unat (totalram m)" "unat (freeram m) \<le> unat (totalram m)" "0 < unat (mem_unit m)"
    and "unat (totalram m) * unat (mem_unit m) < 2 ^ 64"
  shows "ReadMemoryUsageData m = Some (real (unat (freeram m)) / real (unat (totalram m)) * 100) \<and>
    (rep_level (CheckMemoryUsage m) = ERROR \<longleftrightarrow> real (unat (freeram m)) \<ge> 0.95 * real (unat (totalram m)))"
proof -
  let ?t = "unat (totalram m)" and ?f = "unat (freeram m)" and ?u = "unat (mem_unit m)"
  let ?unit = "ucast (mem_unit m) :: u64"
  have u: "unat ?unit = ?u" using unsigned_less [of "mem_unit m", where ?'a = nat] by (simp add: unsigned_ucast_eq take_bit_nat_eq_self)
  have sub: "unat (totalram m - freeram m) = ?t - ?f"
    using assms(2) by (simp add: unat_sub word_le_nat_alt)
  have mult: "unat (x * ?unit) = unat x * ?u" if "unat x \<le> ?t" for x
  proof -
    have "unat x * ?u \<le> ?t * ?u" using that by (rule mult_right_mono) simp
    then have "unat x * ?u < 2 ^ 64" using assms(4) by (rule le_less_trans)
    then show ?thesis by (simp add: unat_word_ariths u)
  qed
  have total: "unat (totalram m * ?unit) = ?t * ?u" by (rule mult) simp
  have used: "unat ((totalram m - freeram m) * ?unit) = (?t - ?f) * ?u" by (subst mult) (simp_all add: sub)
  have le: "(totalram m - freeram m) * ?unit \<le> totalram m * ?unit"
    unfolding word_le_nat_alt total used by (rule mult_right_mono) simp_all
  have "unat (totalram m * ?unit - (totalram m - freeram m) * ?unit) = ?t * ?u - (?t - ?f) * ?u"
    by (simp only: unat_sub [OF le] total used)
  also have "\<dots> = ?f * ?u" using assms(2) by (simp add: diff_mult_distrib [symmetric])
  finally have free: "unat (totalram m * ?unit - (totalram m - freeram m) * ?unit) = ?f * ?u" .
  have "totalram m * ?unit \<noteq> 0" using total assms(1,3) by (metis mult_eq_0_iff not_gr_zero unat_0)
  then have r: "ReadMemoryUsageData m = Some (real ?f / real ?t * 100)"
    using assms(3) by (simp add: ReadMemoryUsageData_def Let_def free total)
  then show ?thesis using assms(1) by (simp add: CheckMemoryUsage_def Let_def field_simps)
qed

section \<open>Witnesses\<close>

definition stat_words :: "string list" where
  "stat_words = [''cpu'', ''82'', ''2'', ''24'']"

lemma stat_words_ok: "\<forall>w \<in> set (stat_words @ []). word_ok w"
  by (simp add: stat_words_def word_ok_def white_space_def)

theorem ReadIdleJiffies_line_witness:
  "ReadIdleJiffies (Some (join_words [''cpu'', ''82'', ''2'', ''24'', decimal 5987])) = Inr 5987"
  using ReadIdleJiffies_line [OF stat_words_ok, of 5987] by (simp add: stat_words_def)

definition sample_monitor :: RPiMonitorNode where
  "sample_monitor = \<lparr>last_idle_jiffies = 1000, last_idle_called = 0\<rparr>"

theorem idle_machine_reports_overload_witness:
  "map_sum id (rep_level \<circ> fst) (CheckCPUUsage 4 (Some (join_words (stat_words @ [decimal 1804]))) 2000000000 sample_monitor) = Inr ERROR"
proof -
  have "WordSplit (join_words (stat_words @ [decimal 1804])) = stat_words @ [decimal 1804]"
    using stat_words_ok word_ok_decimal [of 1804] by (intro WordSplit_join) auto
  then have r: "ReadIdleJiffies (Some (join_words (stat_words @ [decimal 1804]))) = Inr 1804"
    using stoull_decimal [of 1804] by (simp add: ReadIdleJiffies_def stat_words_def)
  from idle_machine_reports_overload [OF _ r, of sample_monitor 4 201 2 2000000000] show ?thesis
    by (simp add: sample_monitor_def)
qed

theorem memory_usage_is_free_memory_witness:
  "rep_level (CheckMemoryUsage \<lparr>totalram = 1000, freeram = 990, mem_unit = 4096\<rparr>) = ERROR"
  using memory_usage_is_free_memory [of "\<lparr>totalram = 1000, freeram = 990, mem_unit = 4096\<rparr>"] by simp

end
