(* ===== verification/Sh2_Records.thy ===== *)
theory Sh2_Records
  imports Sh2_Reports
begin

text \<open>
  Records of the flash record system, and the metadata made from them: what is read when the hub
  answers in order, what is written, and which answers make the code leave the caller's array.
\<close>

section \<open>Answers, one after the other\<close>

text \<open>Each report arrives at the start of the payload buffer and goes to the operation in progress.\<close>

fun receive_all :: "'u sh2_scheme sender \<Rightarrow> u8 list list \<Rightarrow> ('u sh2_scheme, unit) prog" where
  "receive_all send [] = ret ()"
| "receive_all send (r # rs) =
     seqp (modify (\<lambda>s. s\<lparr>inPayload := r @ drop (length r) (inPayload s)\<rparr>)) (seqp (opRx send 0) (receive_all send rs))"

section \<open>Reading a record\<close>

definition enc_frs_read :: "u8 \<Rightarrow> u16 \<Rightarrow> u32 \<Rightarrow> u32 \<Rightarrow> u16 \<Rightarrow> u8 list" where
  "enc_frs_read len_status offset data0 data1 frsType =
     [SENSORHUB_FRS_READ_RESP, len_status] @ bytes_le 2 offset @ bytes_le 4 data0 @ bytes_le 4 data1 @ bytes_le 2 frsType @ [0, 0]"

text \<open>The words of a record in answers of two; the last answer says that the record is complete.\<close>

fun frs_answers :: "u16 \<Rightarrow> nat \<Rightarrow> u32 list \<Rightarrow> u8 list list" where
  "frs_answers ty off [] = []"
| "frs_answers ty off [a] = [enc_frs_read 0x13 (of_nat off) a 0 ty]"
| "frs_answers ty off [a, b] = [enc_frs_read 0x23 (of_nat off) a b ty]"
| "frs_answers ty off (a # b # ws) = enc_frs_read 0x20 (of_nat off) a b ty # frs_answers ty (off + 2) ws"

lemma frs_store_fits:
  assumes "opData s = D_getFrs ty p w m" "w = 0 \<or> offset \<le> w" "k < length p"
  shows "frs_store offset k x n s = Inr ((), s\<lparr>opData := D_getFrs ty (p[k := x]) w n\<rparr>)"
  using assms by (simp add: frs_store_def with_getFrs_def set_opData_def)

lemma frs_next: "opData s = D_getFrs ty p w m \<Longrightarrow> with_getFrs (\<lambda>_ _ _ n. ret n) s = Inr (m, s)"
  by (simp add: with_getFrs_def)

lemma frs_reads:
  assumes "drop i (inPayload s) = enc_frs_read ls off a b ty @ rest"
  shows "rep8 i s = Inr (SENSORHUB_FRS_READ_RESP, s)" "rep8 (i + 1) s = Inr (ls, s)" "rep16 (i + 2) s = Inr (off, s)"
    "rep32 (i + 4) s = Inr (a, s)" "rep32 (i + 8) s = Inr (b, s)"
  by (simp_all add: rep_at [OF assms] enc_frs_read_def read_report)

text \<open>The receiver behind the tests of the header: status, and the offset that was expected.\<close>

lemma getFrsRx_in_order:
  assumes at: "drop i (inPayload s) = enc_frs_read ls off a b ty' @ rest"
    and "\<not> frs_read_failed (FRS_READ_STATUS ls)" "FRS_READ_STATUS ls \<noteq> 5" "opData s = D_getFrs ty p w off"
  shows "getFrsRx i s =
     seqp (frs_store off (unat off) a (off + 1))
     (seqp (if FRS_READ_DATALEN ls = 2 then bnd (rep32 (i + 8)) (\<lambda>b. frs_store off (unat off + 1) b (off + 2)) else ret ())
     (if frs_read_done (FRS_READ_STATUS ls) then
        bnd (with_getFrs (\<lambda>_ _ _ n. ret n)) (\<lambda>w. seqp (frs_set_words w) (complete SH2_OK))
      else ret ())) s"
  unfolding getFrsRx_def Let_def
  by (simp only: bnd_Inr seqp_Inr ret_apply frs_reads [OF at] frs_next [OF assms(4)] assms(2,3) if_False if_True simp_thms)

lemma frs_done_run:
  assumes "opData s = D_getFrs ty p w n"
  shows "bnd (with_getFrs (\<lambda>_ _ _ n. ret n)) (\<lambda>w. seqp (frs_set_words w) (complete SH2_OK)) s =
    Inr ((), s\<lparr>opData := D_getFrs ty p n n, opStatus := SH2_OK, pOp := None\<rparr>)"
  using assms by (simp add: with_getFrs_def frs_set_words_def set_opData_def complete_def opCompleted_def)

lemma getFrsRx_two:
  assumes at: "drop i (inPayload s) = enc_frs_read ls (of_nat off) a b ty' @ rest" and ls: "ls = 0x20 \<or> ls = 0x23"
    and op: "opData s = D_getFrs ty p w (of_nat off)" and room: "w = 0 \<or> of_nat off \<le> w" "off + 1 < length p" "off < 2 ^ 16"
  shows "getFrsRx i s = Inr ((), if ls = 0x23
    then s\<lparr>opData := D_getFrs ty (p[off := a, off + 1 := b]) (of_nat off + 2) (of_nat off + 2), opStatus := SH2_OK, pOp := None\<rparr>
    else s\<lparr>opData := D_getFrs ty (p[off := a, off + 1 := b]) w (of_nat off + 2)\<rparr>)"
proof -
  have un: "unat (of_nat off :: u16) = off" using room(3) by (simp add: unat_of_nat)
  define s1 where "s1 = s\<lparr>opData := D_getFrs ty (p[off := a]) w (of_nat off + 1)\<rparr>"
  define s2 where "s2 = s1\<lparr>opData := D_getFrs ty (p[off := a, off + 1 := b]) w (of_nat off + 2)\<rparr>"
  have first: "frs_store (of_nat off) (unat (of_nat off :: u16)) a (of_nat off + 1) s = Inr ((), s1)"
    unfolding un s1_def using op room by (intro frs_store_fits) simp_all
  have "drop i (inPayload s1) = enc_frs_read ls (of_nat off) a b ty' @ rest" using at by (simp add: s1_def)
  note read = frs_reads(5) [OF this]
  have second: "frs_store (of_nat off) (unat (of_nat off :: u16) + 1) b (of_nat off + 2) s1 = Inr ((), s2)"
    unfolding un s2_def using room by (intro frs_store_fits) (simp_all add: s1_def)
  have op2: "opData s2 = D_getFrs ty (p[off := a, off + 1 := b]) w (of_nat off + 2)" by (simp add: s2_def)
  have two: "FRS_READ_DATALEN ls = 2" "\<not> frs_read_failed (FRS_READ_STATUS ls)" "FRS_READ_STATUS ls \<noteq> 5"
    "frs_read_done (FRS_READ_STATUS ls) = (ls = 0x23)"
    using ls by (auto simp: frs_read_failed_def frs_read_done_def)
  have "getFrsRx i s = (if ls = 0x23 then Inr ((), s2\<lparr>opData := D_getFrs ty (p[off := a, off + 1 := b]) (of_nat off + 2) (of_nat off + 2),
      opStatus := SH2_OK, pOp := None\<rparr>) else Inr ((), s2))"
    unfolding getFrsRx_in_order [OF at two(2,3) op] two(1,4)
    by (simp only: seqp_Inr bnd_Inr first read second frs_done_run [OF op2] ret_apply if_True if_False simp_thms split: if_split) simp
  then show ?thesis by (simp add: s2_def s1_def)
qed

lemma getFrsRx_one:
  assumes at: "drop i (inPayload s) = enc_frs_read 0x13 (of_nat off) a b ty' @ rest"
    and op: "opData s = D_getFrs ty p w (of_nat off)" and room: "w = 0 \<or> of_nat off \<le> w" "off < length p" "off < 2 ^ 16"
  shows "getFrsRx i s = Inr ((), s\<lparr>opData := D_getFrs ty (p[off := a]) (of_nat off + 1) (of_nat off + 1),
    opStatus := SH2_OK, pOp := None\<rparr>)"
proof -
  have un: "unat (of_nat off :: u16) = off" using room(3) by (simp add: unat_of_nat)
  define s1 where "s1 = s\<lparr>opData := D_getFrs ty (p[off := a]) w (of_nat off + 1)\<rparr>"
  have first: "frs_store (of_nat off) (unat (of_nat off :: u16)) a (of_nat off + 1) s = Inr ((), s1)"
    unfolding un s1_def using op room by (intro frs_store_fits) simp_all
  have op1: "opData s1 = D_getFrs ty (p[off := a]) w (of_nat off + 1)" by (simp add: s1_def)
  have one: "FRS_READ_DATALEN 0x13 \<noteq> 2" "\<not> frs_read_failed (FRS_READ_STATUS 0x13)" "FRS_READ_STATUS 0x13 \<noteq> 5"
    "frs_read_done (FRS_READ_STATUS 0x13) = True"
    by (simp_all add: frs_read_failed_def frs_read_done_def)
  have "getFrsRx i s = Inr ((), s1\<lparr>opData := D_getFrs ty (p[off := a]) (of_nat off + 1) (of_nat off + 1), opStatus := SH2_OK, pOp := None\<rparr>)"
    unfolding getFrsRx_in_order [OF at one(2,3) op]
    by (simp only: one(1,4) seqp_Inr bnd_Inr first frs_done_run [OF op1] ret_apply if_True if_False simp_thms)
  then show ?thesis by (simp add: s1_def)
qed

lemma receive_answer:
  assumes "pOp s = Some getFrsOp" "length r = 16" "getFrsRx 0 (s\<lparr>inPayload := r @ drop 16 (inPayload s)\<rparr>) = Inr ((), s1)"
  shows "receive_all send (r # rs) s = receive_all send rs s1"
  using assms by (simp add: opRx_def)

lemma length_enc_frs_read [simp]: "length (enc_frs_read ls off a b ty) = 16"
  by (simp add: enc_frs_read_def)

lemma replace_two:
  assumes "length d = off" "off + 2 \<le> length p"
  shows "(d @ drop off p)[off := a, off + 1 := b] = d @ [a, b] @ drop (off + 2) p"
proof -
  have "drop off p = p ! off # p ! (off + 1) # drop (off + 2) p"
    using assms(2) by (simp add: Cons_nth_drop_Suc)
  then show ?thesis using assms(1) by (simp add: list_update_append)
qed

text \<open>C30: 
  A record of at most 65534 words that the hub sends in answers of two words, with offsets that count
  from 0, ends up word for word at the start of the caller's array, which keeps its other words; the
  number of words is set, and the operation is completed with the last answer. The array must be large
  enough, and the number of words given with it 0, which stands for no limit, or not below the record's.
\<close>

theorem frs_record_read:
  assumes "pOp s = Some getFrsOp" "opData s = D_getFrs ty p w 0" "ws \<noteq> []" "length ws < 2 ^ 16 - 1"
    and "length ws \<le> length p" "w = 0 \<or> length ws \<le> unat w"
  shows "\<exists>s'. receive_all send (frs_answers ty' 0 ws) s = Inr ((), s') \<and> pOp s' = None \<and> opStatus s' = SH2_OK \<and>
    opData s' = D_getFrs ty (ws @ drop (length ws) p) (of_nat (length ws)) (of_nat (length ws))"
proof -
  have "\<exists>s'. receive_all send (frs_answers ty' off ws) s = Inr ((), s') \<and> pOp s' = None \<and> opStatus s' = SH2_OK \<and>
    opData s' = D_getFrs ty (d @ ws @ drop (off + length ws) p) (of_nat (off + length ws)) (of_nat (off + length ws))"
    if "pOp s = Some getFrsOp" "opData s = D_getFrs ty (d @ drop off p) w (of_nat off)" "length d = off" "ws \<noteq> []"
      "off + length ws < 2 ^ 16 - 1" "off + length ws \<le> length p" "w = 0 \<or> off + length ws \<le> unat w" for s off d ws
    using that
  proof (induction ty' off ws arbitrary: s d rule: frs_answers.induct)
    case (1 ty' off)
    then show ?case by simp
  next
    case (2 ty' off a)
    have lim: "w = 0 \<or> of_nat off \<le> w" using 2(5,7) by (auto simp: word_le_nat_alt unat_of_nat)
    have upd: "(d @ drop off p)[off := a] = d @ [a] @ drop (off + 1) p"
      using 2(3,6) by (simp add: list_update_append flip: Cons_nth_drop_Suc)
    let ?s = "s\<lparr>inPayload := enc_frs_read 0x13 (of_nat off) a 0 ty' @ drop 16 (inPayload s)\<rparr>"
    have rx: "getFrsRx 0 ?s = Inr ((), ?s\<lparr>opData := D_getFrs ty (d @ [a] @ drop (off + 1) p) (of_nat off + 1) (of_nat off + 1),
        opStatus := SH2_OK, pOp := None\<rparr>)"
      unfolding upd [symmetric] by (rule getFrsRx_one) (use 2 lim in auto)
    show ?case
      unfolding frs_answers.simps receive_answer [OF 2(1) length_enc_frs_read rx] by (simp add: add.commute)
  next
    case (3 ty' off a b)
    have lim: "w = 0 \<or> of_nat off \<le> w" using 3(5,7) by (auto simp: word_le_nat_alt unat_of_nat)
    have upd: "(d @ drop off p)[off := a, off + 1 := b] = d @ [a, b] @ drop (off + 2) p"
      using 3(3,6) by (intro replace_two) simp_all
    let ?s = "s\<lparr>inPayload := enc_frs_read 0x23 (of_nat off) a b ty' @ drop 16 (inPayload s)\<rparr>"
    have rx: "getFrsRx 0 ?s = Inr ((), if (0x23 :: u8) = 0x23
      then ?s\<lparr>opData := D_getFrs ty (d @ [a, b] @ drop (off + 2) p) (of_nat off + 2) (of_nat off + 2), opStatus := SH2_OK, pOp := None\<rparr>
      else ?s\<lparr>opData := D_getFrs ty (d @ [a, b] @ drop (off + 2) p) w (of_nat off + 2)\<rparr>)"
      unfolding upd [symmetric] by (rule getFrsRx_two) (use 3 lim in auto)
    show ?case
      unfolding frs_answers.simps receive_answer [OF 3(1) length_enc_frs_read rx] by (simp add: add.commute)
  next
    case (4 ty' off a b c ws)
    have lim: "w = 0 \<or> of_nat off \<le> w" using 4(6,8) by (auto simp: word_le_nat_alt unat_of_nat)
    have upd: "(d @ drop off p)[off := a, off + 1 := b] = (d @ [a, b]) @ drop (off + 2) p"
      using 4(4,7) replace_two [of d off p a b] by simp
    let ?s = "s\<lparr>inPayload := enc_frs_read 0x20 (of_nat off) a b ty' @ drop 16 (inPayload s)\<rparr>"
    let ?s1 = "?s\<lparr>opData := D_getFrs ty ((d @ [a, b]) @ drop (off + 2) p) w (of_nat off + 2)\<rparr>"
    have "getFrsRx 0 ?s = Inr ((), if (0x20 :: u8) = 0x23
      then ?s\<lparr>opData := D_getFrs ty ((d @ [a, b]) @ drop (off + 2) p) (of_nat off + 2) (of_nat off + 2), opStatus := SH2_OK, pOp := None\<rparr>
      else ?s1)"
      unfolding upd [symmetric] by (rule getFrsRx_two) (use 4(3-8) lim in auto)
    then have rx: "getFrsRx 0 ?s = Inr ((), ?s1)" by simp
    have step: "receive_all send (frs_answers ty' off (a # b # c # ws)) s = receive_all send (frs_answers ty' (off + 2) (c # ws)) ?s1"
      unfolding frs_answers.simps receive_answer [OF 4(2) length_enc_frs_read rx] by simp
    have "\<exists>s'. receive_all send (frs_answers ty' (off + 2) (c # ws)) ?s1 = Inr ((), s') \<and> pOp s' = None \<and> opStatus s' = SH2_OK \<and>
      opData s' = D_getFrs ty ((d @ [a, b]) @ (c # ws) @ drop (off + 2 + length (c # ws)) p) (of_nat (off + 2 + length (c # ws))) (of_nat (off + 2 + length (c # ws)))"
      using 4(2,4-8) by (intro "4.IH") simp_all
    then show ?case unfolding step by (simp add: add.commute add.left_commute)
  qed
  from this [of s "[]" 0 ws] assms show ?thesis by simp
qed

theorem frs_record_read_witness:
  fixes s :: sh2
  defines "s \<equiv> example_hub\<lparr>pOp := Some getFrsOp, opData := D_getFrs 0xE302 [0, 0, 0, 9] 4 0\<rparr>"
  shows "\<exists>s'. receive_all (\<lambda>ch p. ret 0) (frs_answers 0xE302 0 [11, 22, 33]) s = Inr ((), s') \<and> pOp s' = None \<and>
    opStatus s' = SH2_OK \<and> opData s' = D_getFrs 0xE302 [11, 22, 33, 9] 3 3"
  using frs_record_read [of s "0xE302" "[0, 0, 0, 9]" 4 "[11, 22, 33]" "\<lambda>ch p. ret 0" "0xE302"]
  by (simp add: s_def del: receive_all.simps frs_answers.simps)

lemma frs_reads_same:
  assumes "drop i (inPayload s) = enc_frs_read ls off a b ty @ rest" "inPayload s' = inPayload s"
  shows "rep16 (i + 2) s' = Inr (off, s')" "rep32 (i + 4) s' = Inr (a, s')"
  using frs_reads [of i s'] assms by auto

lemma frs_store_outside:
  assumes "opData s = D_getFrs ty p w m" "w = 0 \<or> offset \<le> w" "length p \<le> k"
  shows "frs_store offset k x n s = Inl Undefined_Behaviour"
  using assms by (auto simp: frs_store_def with_getFrs_def)

text \<open>
  The receiver has no test against the size of the array other than the number of words it was given,
  and that one is too weak by a word; an offset other than the expected one, and an empty record, first
  set that number to 0, which lifts the limit, and then go on to store the word. So a word with an
  offset behind the array is written there: the next word of a record that is longer than the array,
  and any word out of order.
\<close>

theorem frs_answer_leaves_array:
  assumes at: "drop i (inPayload s) = enc_frs_read ls off a b ty' @ rest"
    and "\<not> frs_read_failed (FRS_READ_STATUS ls)" "opData s = D_getFrs ty p w next_off" "length p \<le> unat off"
    and "FRS_READ_STATUS ls = 5 \<or> off \<noteq> next_off \<or> w = 0 \<or> off \<le> w"
  shows "getFrsRx i s = Inl Undefined_Behaviour"
proof -
  let ?store = "bnd (rep32 (i + 4)) (\<lambda>data0.
     seqp (frs_store off (unat off) data0 (off + 1))
     (seqp (if FRS_READ_DATALEN ls = 2 then bnd (rep32 (i + 8)) (\<lambda>b. frs_store off (unat off + 1) b (off + 2)) else ret ())
     (if frs_read_done (FRS_READ_STATUS ls) then
        bnd (with_getFrs (\<lambda>_ _ _ n. ret n)) (\<lambda>w. seqp (frs_set_words w) (complete SH2_OK))
      else ret ())))"
  let ?order = "bnd (with_getFrs (\<lambda>_ _ _ n. ret n)) (\<lambda>n.
     seqp (if off \<noteq> n then seqp (frs_set_words 0) (complete SH2_ERR_IO) else ret ()) ?store)"
  have store: "?store s' = Inl Undefined_Behaviour"
    if "inPayload s' = inPayload s" "opData s' = D_getFrs ty p v n" "v = 0 \<or> off \<le> v" for s' v n
    by (simp only: bnd_Inr frs_reads_same [OF at that(1)] seqp_Inl frs_store_outside [OF that(2,3) assms(4)])
  have lifted: "seqp (frs_set_words 0) (complete rc) s' = Inr ((), s'\<lparr>opData := D_getFrs ty p 0 n, opStatus := rc, pOp := None\<rparr>)"
    if "opData s' = D_getFrs ty p v n" for s' rc v n
    using that by (simp add: frs_set_words_def with_getFrs_def set_opData_def complete_def opCompleted_def)
  have order: "?order s' = Inl Undefined_Behaviour"
    if same: "inPayload s' = inPayload s" and op: "opData s' = D_getFrs ty p v next_off" and v: "off \<noteq> next_off \<or> v = 0 \<or> off \<le> v" for s' v
  proof (cases "off = next_off")
    case True
    with v have "v = 0 \<or> off \<le> v" by simp
    from store [OF same op this] True show ?thesis
      by (simp only: bnd_Inr frs_next [OF op] seqp_Inr ret_apply not_True_eq_False if_False simp_thms)
  next
    case False
    have "?order s' = ?store (s'\<lparr>opData := D_getFrs ty p 0 next_off, opStatus := SH2_ERR_IO, pOp := None\<rparr>)"
      using False by (simp only: bnd_Inr frs_next [OF op] seqp_Inr lifted [OF op] if_True not_False_eq_True simp_thms)
    also have "\<dots> = Inl Undefined_Behaviour" by (rule store [of _ 0 next_off]) (simp_all add: same)
    finally show ?thesis .
  qed
  have head: "getFrsRx i s = seqp (if FRS_READ_STATUS ls = 5 then seqp (frs_set_words 0) (complete SH2_OK) else ret ())
      (bnd (rep16 (i + 2)) (\<lambda>off. bnd (with_getFrs (\<lambda>_ _ _ n. ret n)) (\<lambda>n.
       seqp (if off \<noteq> n then seqp (frs_set_words 0) (complete SH2_ERR_IO) else ret ())
       (bnd (rep32 (i + 4)) (\<lambda>data0.
         seqp (frs_store off (unat off) data0 (off + 1))
         (seqp (if FRS_READ_DATALEN ls = 2 then bnd (rep32 (i + 8)) (\<lambda>b. frs_store off (unat off + 1) b (off + 2)) else ret ())
         (if frs_read_done (FRS_READ_STATUS ls) then
            bnd (with_getFrs (\<lambda>_ _ _ n. ret n)) (\<lambda>w. seqp (frs_set_words w) (complete SH2_OK))
          else ret ()))))))) s"
    unfolding getFrsRx_def Let_def
    by (simp only: bnd_Inr frs_reads [OF at] assms(2) if_False simp_thms)
  show ?thesis
  proof (cases "FRS_READ_STATUS ls = 5")
    case True
    let ?s = "s\<lparr>opData := D_getFrs ty p 0 next_off, opStatus := SH2_OK, pOp := None\<rparr>"
    have same: "inPayload ?s = inPayload s" and op: "opData ?s = D_getFrs ty p 0 next_off" by simp_all
    have "off \<noteq> next_off \<or> (0 :: u16) = 0 \<or> off \<le> 0" by simp
    from order [OF same op this] True show ?thesis
      unfolding head by (simp only: seqp_Inr lifted [OF assms(3)] if_True bnd_Inr frs_reads_same [OF at same] simp_thms)
  next
    case False
    then show ?thesis
      unfolding head using order [OF refl assms(3)] assms(5)
      by (simp only: seqp_Inr ret_apply if_False bnd_Inr frs_reads_same [OF at refl] simp_thms)
  qed
qed

theorem frs_answer_leaves_array_witness:
  "getFrsRx 0 (example_hub\<lparr>inPayload := enc_frs_read 0x10 2 7 0 0xE302 @ [], opData := D_getFrs 0xE302 [1, 2] 2 2\<rparr>) = Inl Undefined_Behaviour"
  by (rule frs_answer_leaves_array [where rest = "[]" and off = 2 and ls = "0x10" and p = "[1, 2]" and w = 2])
    (simp_all add: frs_read_failed_def)

section \<open>Writing a record\<close>

text \<open>A sender that takes everything and keeps it.\<close>

definition keeping_sender :: "'u sh2_scheme sender" where
  "keeping_sender ch p = seqp (modify (\<lambda>s. s\<lparr>hal_calls := hal_calls s @ [Hal_write p]\<rparr>)) (ret SH2_OK)"

text \<open>The request for the words \<open>2 j\<close> and \<open>2 j + 1\<close>; behind the end stands a 0.\<close>

definition frs_request :: "u32 list \<Rightarrow> nat \<Rightarrow> u8 list" where
  "frs_request ws j = [SENSORHUB_FRS_WRITE_DATA_REQ, 0] @ bytes_le 2 (of_nat (2 * j) :: u16) @ bytes_le 4 (ws ! (2 * j)) @
     bytes_le 4 (if 2 * j + 1 < length ws then ws ! (2 * j + 1) else 0)"

text \<open>The answer of the hub to a request: 0, the data was received; 4, it is ready for data.\<close>

definition frs_ready :: "u8 \<Rightarrow> u8 list" where
  "frs_ready status = [SENSORHUB_FRS_WRITE_RESP, status, 0, 0]"

lemma setFrsRx_ready:
  assumes "inPayload s = frs_ready st @ rest" "st = 0 \<or> st = 4"
  shows "setFrsRx send 0 s = setFrs_data send s"
proof -
  have at: "drop 0 (inPayload s) = frs_ready st @ rest" using assms by simp
  show ?thesis using assms(2) by (auto simp: setFrsRx_def rep_at [OF at] frs_ready_def)
qed

lemma receive_ready:
  assumes "pOp s = Some setFrsOp" "st = 0 \<or> st = 4"
    and "setFrs_data send (s\<lparr>inPayload := frs_ready st @ drop 4 (inPayload s)\<rparr>) = Inr ((), s1)"
  shows "receive_all send (frs_ready st # rs) s = receive_all send rs s1"
proof -
  have "length (frs_ready st) = 4" by (simp add: frs_ready_def)
  moreover have "setFrsRx send 0 (s\<lparr>inPayload := frs_ready st @ drop 4 (inPayload s)\<rparr>) = Inr ((), s1)"
    using setFrsRx_ready [of "s\<lparr>inPayload := frs_ready st @ drop 4 (inPayload s)\<rparr>"] assms(2,3) by simp
  ultimately show ?thesis using assms(1) by (simp add: opRx_def)
qed

lemma keeping_request:
  "pShtp s \<Longrightarrow> bnd (sendCtrl keeping_sender p) (\<lambda>_. ret ()) s = Inr ((), s\<lparr>hal_calls := hal_calls s @ [Hal_write p]\<rparr>)"
  by (simp add: sendCtrl_def shtp_send_at_def keeping_sender_def)

text \<open>One answer sends the request of the next two words, as long as there are any.\<close>

lemma setFrs_data_step:
  assumes "length ws < 2 ^ 16" "pShtp s" "pOp s = Some setFrsOp"
    and op: "opData s = D_setFrs ty ws (of_nat (length ws)) (of_nat (min (2 * j) (length ws)))"
  shows "\<exists>s1. setFrs_data keeping_sender s = Inr ((), s1) \<and> pShtp s1 \<and> pOp s1 = Some setFrsOp \<and>
    opData s1 = D_setFrs ty ws (of_nat (length ws)) (of_nat (min (2 * Suc j) (length ws))) \<and>
    hal_calls s1 = hal_calls s @ (if 2 * j < length ws then [Hal_write (frs_request ws j)] else [])"
proof (cases "2 * j < length ws")
  case False
  then have m: "min (2 * j) (length ws) = length ws" "min (2 * Suc j) (length ws) = length ws" by simp_all
  show ?thesis using assms op False unfolding m by (simp add: setFrs_data_def)
next
  case True
  have fit: "unat (of_nat k :: u16) = k" if "k < 2 ^ 16" for k
    using that by (simp add: unsigned_of_nat take_bit_nat_eq_self)
  define n :: u16 where "n = of_nat (length ws)"
  define k :: u16 where "k = of_nat (2 * j)"
  define m :: u16 where "m = of_nat (min (2 * Suc j) (length ws))"
  have un: "unat n = length ws" "unat k = 2 * j" unfolding n_def k_def using assms(1) True by (intro fit; simp)+
  have "unat (of_nat (2 * j + 1) :: u16) = 2 * j + 1" using assms(1) True by (intro fit) simp
  moreover have "of_nat (2 * j + 1) = k + 1" by (simp add: k_def)
  ultimately have un1: "unat (k + 1) = 2 * j + 1" by (simp only:)
  have less: "k < n" "k + 1 < n \<longleftrightarrow> 2 * j + 1 < length ws"
    unfolding word_less_nat_alt un un1 using True by simp_all
  have op': "opData s = D_setFrs ty ws n k" using op True by (simp add: min_def n_def k_def)
  have req: "frs_request ws j = frs_write_data_req k (ws ! (2 * j)) (if 2 * j + 1 < length ws then ws ! (2 * j + 1) else 0)"
    by (simp only: frs_request_def frs_write_data_req_def k_def)
  have "m = (if 2 * j + 1 < length ws then k + 2 else k + 1)"
  proof (cases "2 * j + 1 < length ws")
    case False
    then have "length ws = 2 * j + 1" using True by simp
    then show ?thesis by (simp add: m_def k_def)
  qed (simp add: m_def k_def min_def)
  then have "setFrs_data keeping_sender s = bnd (sendCtrl keeping_sender (frs_request ws j)) (\<lambda>_. ret ()) (s\<lparr>opData := D_setFrs ty ws n m\<rparr>)"
    using True by (simp add: setFrs_data_def set_opData_def op' less un un1 req)
  then show ?thesis using assms(2,3) True unfolding n_def [symmetric] m_def [symmetric] by (simp add: keeping_request)
qed

lemma frs_write_steps:
  assumes "length ws < 2 ^ 16" "set answers \<subseteq> {0, 4}" "pOp s = Some setFrsOp" "pShtp s"
    and "opData s = D_setFrs ty ws (of_nat (length ws)) (of_nat (min (2 * j) (length ws)))"
  shows "\<exists>s'. receive_all keeping_sender (map frs_ready answers) s = Inr ((), s') \<and> pOp s' = Some setFrsOp \<and>
    hal_calls s' = hal_calls s @ map (\<lambda>i. Hal_write (frs_request ws i)) [j..<min (j + length answers) ((length ws + 1) div 2)] \<and>
    opData s' = D_setFrs ty ws (of_nat (length ws)) (of_nat (min (2 * (j + length answers)) (length ws)))"
  using assms(2-)
proof (induction answers arbitrary: s j)
  case Nil
  then show ?case by simp
next
  case (Cons st answers)
  let ?s = "s\<lparr>inPayload := frs_ready st @ drop 4 (inPayload s)\<rparr>"
  obtain s1 where s1: "setFrs_data keeping_sender ?s = Inr ((), s1)" "pShtp s1" "pOp s1 = Some setFrsOp"
    "opData s1 = D_setFrs ty ws (of_nat (length ws)) (of_nat (min (2 * Suc j) (length ws)))"
    "hal_calls s1 = hal_calls s @ (if 2 * j < length ws then [Hal_write (frs_request ws j)] else [])"
    using setFrs_data_step [OF assms(1), of ?s ty j] Cons.prems by auto
  have step: "receive_all keeping_sender (map frs_ready (st # answers)) s = receive_all keeping_sender (map frs_ready answers) s1"
    unfolding list.map(2) by (rule receive_ready [OF Cons.prems(2) _ s1(1)]) (use Cons.prems(1) in auto)
  have range: "[j..<min (j + length (st # answers)) ((length ws + 1) div 2)] =
      (if 2 * j < length ws then [j] else []) @ [Suc j..<min (Suc j + length answers) ((length ws + 1) div 2)]"
    by (auto simp: upt_conv_Cons)
  have "set answers \<subseteq> {0, 4}" using Cons.prems(1) by simp
  from Cons.IH [OF this s1(3,2,4)] show ?case unfolding step range using s1(5) by (auto simp: add.commute)
qed

text \<open>C31: Writing a record, one request for each answer. Starting the operation sends the request to write,
  with the number of words and the type of the record. The hub's answers are reports that it has
  received the data or is ready for more; after the first \<open>k\<close> of them exactly the first \<open>k\<close> requests for
  data have been sent as well, each on the answer to the one before: the request \<open>j\<close> carries the
  offset \<open>2 j\<close> and the words \<open>2 j\<close> and \<open>2 j + 1\<close>, the last one with a 0 for the second word if the number
  of words is odd. When half as many answers as words have come (rounded up) all words are out, and
  further answers send nothing. The record has less than \<open>2 ^ 16\<close> words and the transport takes every
  request.\<close>

theorem frs_record_sent:
  assumes "pOp s = Some setFrsOp" "pShtp s" "opData s = D_setFrs ty ws (of_nat (length ws)) off" "length ws < 2 ^ 16"
    and "set answers \<subseteq> {0, 4}"
  shows "\<exists>s1 s'. setFrsStart keeping_sender s = Inr (SH2_OK, s1) \<and>
    hal_calls s1 = hal_calls s @ [Hal_write ([SENSORHUB_FRS_WRITE_REQ, 0] @ bytes_le 2 (of_nat (length ws) :: u16) @ bytes_le 2 ty)] \<and>
    receive_all keeping_sender (map (\<lambda>st. [SENSORHUB_FRS_WRITE_RESP, st, 0, 0]) answers) s1 = Inr ((), s') \<and>
    hal_calls s' = hal_calls s1 @ map (\<lambda>j. Hal_write
      ([SENSORHUB_FRS_WRITE_DATA_REQ, 0] @ bytes_le 2 (of_nat (2 * j) :: u16) @ bytes_le 4 (ws ! (2 * j)) @
       bytes_le 4 (if 2 * j + 1 < length ws then ws ! (2 * j + 1) else 0)))
      [0..<min (length answers) ((length ws + 1) div 2)] \<and>
    pOp s' = Some setFrsOp"
proof -
  let ?n = "of_nat (length ws) :: u16"
  let ?s1 = "s\<lparr>opData := D_setFrs ty ws ?n 0,
    hal_calls := hal_calls s @ [Hal_write ([SENSORHUB_FRS_WRITE_REQ, 0] @ bytes_le 2 ?n @ bytes_le 2 ty)]\<rparr>"
  have start: "setFrsStart keeping_sender s = Inr (SH2_OK, ?s1)"
    using assms(2,3) by (simp add: setFrsStart_def set_opData_def sendCtrl_def shtp_send_at_def keeping_sender_def)
  from frs_write_steps [OF assms(4,5), of ?s1 ty 0] assms(1,2) obtain s' where
    "receive_all keeping_sender (map frs_ready answers) ?s1 = Inr ((), s')" "pOp s' = Some setFrsOp"
    "hal_calls s' = hal_calls ?s1 @ map (\<lambda>i. Hal_write (frs_request ws i)) [0..<min (length answers) ((length ws + 1) div 2)]"
    by auto
  with start show ?thesis
    unfolding frs_ready_def frs_request_def by (intro exI [of _ ?s1] exI [of _ s']) simp
qed

theorem frs_record_sent_witness:
  fixes s :: sh2
  defines "s \<equiv> example_hub\<lparr>pOp := Some setFrsOp, opData := D_setFrs 0x7979 [5, 6, 7] 3 0\<rparr>"
  shows "\<exists>s1 s'. setFrsStart keeping_sender s = Inr (SH2_OK, s1) \<and>
    receive_all keeping_sender [[SENSORHUB_FRS_WRITE_RESP, 4, 0, 0], [SENSORHUB_FRS_WRITE_RESP, 0, 0, 0]] s1 = Inr ((), s') \<and>
    length (hal_calls s1) = 1 \<and> length (hal_calls s') = 3"
proof -
  have "pOp s = Some setFrsOp" "pShtp s" "opData s = D_setFrs 0x7979 [5, 6, 7] (of_nat (length [5, 6, 7 :: u32])) 0"
    "length [5, 6, 7 :: u32] < 2 ^ 16" "set [4, 0 :: u8] \<subseteq> {0, 4}" "hal_calls s = []"
    by (simp_all add: s_def)
  from frs_record_sent [OF this(1-5)] this(6) show ?thesis by auto
qed

section \<open>Metadata\<close>

text \<open>
  The lengths of the vendor id and of the sensor-specific part come from the record and are not
  compared with the sizes of the arrays they are copied to: a vendor id of more than 48 bytes is
  written behind the caller's structure.
\<close>

theorem metadata_vendor_id_overflows:
  assumes "length (md_vendorId d) = 48" "unat (hi16 (frs ! 6)) > 48"
  shows "stuffMetadata frs d = None"
proof (cases "length frs < 10 \<or> metadata_revision frs (metadata_fixed frs d) = None")
  case True
  then show ?thesis by (auto simp: stuffMetadata_def)
next
  case False
  then obtain d' k where d': "metadata_revision frs (metadata_fixed frs d) = Some (d', k)" by auto
  then have "md_vendorId d' = (md_vendorId d)[0 := 0]" "md_vendorIdLen d' = hi16 (frs ! 6)"
    by (auto simp: metadata_revision_def metadata_fixed_def Let_def split: if_splits option.splits)
  with False assms d' show ?thesis by (simp add: stuffMetadata_def memcpy_def)
qed

definition blank_metadata :: sh2_SensorMetadata where
  "blank_metadata = \<lparr>md_meVersion = 0, md_mhVersion = 0, md_shVersion = 0, md_range = 0, md_resolution = 0, md_revision = 0,
     md_power_mA = 0, md_minPeriod_uS = 0, md_maxPeriod_uS = 0, md_fifoReserved = 0, md_fifoMax = 0,
     md_batchBufferBytes = 0, md_qPoint1 = 0, md_qPoint2 = 0, md_qPoint3 = 0, md_vendorIdLen = 0,
     md_vendorId = replicate 48 0, md_sensorSpecificLen = 0, md_sensorSpecific = replicate 48 0\<rparr>"

theorem metadata_vendor_id_overflows_witness:
  "stuffMetadata ([0, 0, 0, 0, 0, 0, 0x00400000] @ replicate 65 0) blank_metadata = None"
  by (rule metadata_vendor_id_overflows) (simp_all add: blank_metadata_def)

end
