(* ===== verification/Spec2Isabelle.thy ===== *)
theory Spec2Isabelle
  imports Camera_Params Lidar_Publish Lidar_Transport Controllers Joystick Bno_Stack Monitors Sh2_Records
begin

text \<open>
  A verification development for the programs of the Skatebot workspace, the ROS 2 software of a four-wheeled pipe
  robot with a turret, a lidar and an inertial sensor. Paths below are relative to \<^verbatim>\<open>src/src\<close>.

  \<^bold>\<open>The programs and how they interact.\<close> A joystick node and the low-level controller turn
  operator input into velocity commands; the chassis controller turns these into wheel speeds; the Dynamixel program
  drives the motors, the turret and their encoders over one serial bus and stops the motors when commands stay away;
  the IMU program reassembles sensor packets and publishes attitude; the lidar program parses a byte stream into
  frames, filters whole turns and publishes scans; the camera node makes parameters of the controls of its camera;
  small nodes convert angles, publish the pose and watch the robot's computer.

  \<^bold>\<open>Theories and what they model.\<close>
  \<^item> \<open>Prelude\<close>: machine types, faults, truncating conversions, little-endian words, the newest
    value a history of events holds (\<open>newest\<close>), and the locales \<open>fault_machine\<close> and
    \<open>machine_inv\<close> for state machines with an invariant. \<open>Rounding\<close>: rounding to
    \<open>double\<close>, for the stamps of the lidar.
    \<open>Programs\<close>: programs that pass a state along and may end in a fault, and steps with output.
  \<^item> \<open>Lidar_Frame\<close>
    (\<^verbatim>\<open>ldlidar_stl_ros2/ldlidar_driver/src/dataprocess/lipkg.cpp\<close>): the CRC table and
    checksum, the packed frame and the byte-wise parser with its function statics. \<open>Lidar_Filter\<close>
    (\<^verbatim>\<open>filter/tofbf.cpp\<close>): the near and the noise filter. \<open>Lidar_Pkg\<close>: class
    \<open>LiPkg\<close>, from bytes to turns. \<open>Lidar_Driver\<close>
    (\<^verbatim>\<open>core/ldlidar_driver.cpp\<close>): starting, stopping, waiting and polling.
    \<open>Lidar_Transport\<close> (\<^verbatim>\<open>serialcom\<close>, \<^verbatim>\<open>networkcom\<close>): the
    serial line and the sockets with their receive threads, behind the locale \<open>connection\<close>.
    \<open>Lidar_Publish\<close> (\<^verbatim>\<open>ldlidar_stl_ros2/src/demo.cpp\<close>): scans as messages, and
    the program.
  \<^item> \<open>Dynamixel_Bus\<close>: the calls of the Dynamixel SDK, which is not in the repository, as requests
    with arbitrary replies. \<open>Dynamixel_Servo\<close>
    (\<^verbatim>\<open>dynamixel_driver/src/dynamixel_servo.cpp\<close>): one servo. \<open>Dynamixel_Comms\<close>
    (\<^verbatim>\<open>dynamixel_comms.cpp\<close>): all servos and the deadman's switch thread.
    \<open>Dynamixel_Nodes\<close>: the interface \<open>Communications\<close> as a record of operations, its
    contract as the locale \<open>communications\<close> with the real class and the mock of the tests as
    interpretations, and the nodes and \<open>main\<close> of \<^verbatim>\<open>driver.cpp\<close>.
  \<^item> \<open>Controllers\<close>: \<open>IMU_Controller\<close> (\<^verbatim>\<open>low_control_with_imu\<close>)
    and \<open>DiffDriveController\<close> (\<^verbatim>\<open>chassis_controller\<close>). \<open>Joystick\<close>
    (\<^verbatim>\<open>joystick_action_controller\<close>): the joystick node, the two action clients behind the
    locale \<open>action_client\<close>, the turret node and \<open>main\<close>.
  \<^item> \<open>Bno_Bus\<close> (\<^verbatim>\<open>bno08x_driver/include/bno08x_driver\<close>): the watchdog with
    its thread and the I2C interface. \<open>Bno_Node\<close>: \<open>BNO08x\<close> and the node
    \<open>BNO08xROS\<close>.
  \<^item> The SH-2 library below the IMU class (\<^verbatim>\<open>bno08x_driver/include/sh2\<close>).
    \<open>Sh2_Value\<close> (\<^verbatim>\<open>sh2_util.c\<close>, \<^verbatim>\<open>sh2_SensorValue.c\<close>):
    accesses to packed data and the decoding of sensor events. \<open>Shtp\<close>, \<open>Shtp_Transfer\<close>
    (\<^verbatim>\<open>shtp.c\<close>): the transport, its tables of applications, channels and listeners, the
    assembly of payloads and the sending of transfers; its clients are behind the locale \<open>shtp_client\<close>.
    \<open>Sh2_Hub\<close>, \<open>Sh2_Handlers\<close>, \<open>Sh2_Api\<close> (\<^verbatim>\<open>sh2.c\<close>):
    the sensor hub client, its sixteen operations with their requests and answers, the handlers of the channels, which
    interpret that locale, and the public functions. \<open>Sh2_Reports\<close>, \<open>Sh2_Records\<close>,
    \<open>Sh2_Session\<close>: the theorems on the reports it reads, on the records of the flash record system, and
    on whole sessions. \<open>Bno_Stack\<close> (\<^verbatim>\<open>bno08x_driver/src/bno08x.cpp\<close>): the IMU
    program as a whole, the node on the library on the I2C interface, with the callbacks and wrappers of the class
    between them.
  \<^item> \<open>Camera_Values\<close>, \<open>Camera_Params\<close> (\<^verbatim>\<open>camera_ros/src\<close>): the
    values of camera controls, clamped, compared and converted, and the handlers that declare, check and apply the
    parameters of the controls.
  \<^item> \<open>Monitors\<close>: \<^verbatim>\<open>rpi_monitor\<close>, \<^verbatim>\<open>quat_to_euler\<close>
    and \<^verbatim>\<open>robot_pose_publisher\<close>.

  \<^bold>\<open>How state and operations correspond to the code.\<close> A class is a record with its members
  (prefixes avoid clashes), an operation a function from the record to its result, an uncaught exception, a null
  pointer, other undefined behaviour, an exit or an endless wait a value of \<open>fault\<close>. Integers keep their
  width where they can wrap; \<open>float\<close> and \<open>double\<close> are exact reals, but for the stamps of lidar
  points, where each operation rounds; a NaN is \<open>None\<close> where the code tests for it or makes one. A ROS callback is one step, what it publishes its
  result; threads interleave at the grain each theory names: the receive thread of the lidar
  reads between the critical sections of a poll and between the statements of closing, and other threads call the
  watchdog between any two looks its thread takes at it. The sensor callback of the IMU node is the exception: its
  reading of the steady clock and its two of the ROS clock are one time. Clocks, files, devices, the Dynamixel SDK, URDF, tf2 and
  the action library are parameters, mostly arbitrary functions. The state of the sensor hub client extends that of
  its transport, as the library keeps one instance of each; the hardware layer below them is a record of functions of
  the calls made so far. In \<open>Bno_Node\<close> what the library does, and the values it hands over, are a
  parameter, so that its theorems hold for any library; \<open>Bno_Stack\<close> puts the model of the library in its
  place, and the I2C interface below that.

  \<^bold>\<open>What the lemmas show.\<close> For the lidar, that the table is the CRC-8 of its polynomial, that the
  parser finds in a stream the frames a whole-stream specification finds, that no corrupted frame passes, that turns
  are filtered and sorted as a whole, which polls hand them out and when one is handed out twice, that publishing stays in bounds and keeps the nearest range, and that the
  transports release what they hold and fault only in a race of closing. For the motors, the exact requests of a mode change
  after each acknowledgement, the bounds of goals, the absence of null pointers after a start, and that the deadman's switch stops all
  motors. For the controllers, safety stops and the kinematics, down to the motors. For the joystick, the rate limit
  and which presses of a button send a goal, as a function of the history. For the IMU, packet reassembly in bounds and whole, the watchdog's
  timing, and the messages as a function of the sensor values. For the SH-2 library, that a payload cut into transfers
  arrives whole and once, that sending ends and cuts payloads as announced, that every function keeps the sizes of the
  buffers and the wiring of the channels, that the reports of a payload become events with the times their
  specification gives, that configurations, product ids and records are read and written as they are, and which
  operations never return. For the composition, that the reports in the transfer the sensor holds come out on the
  topic as the specification of the node says, to the last bit of their format, and that starting without a sensor
  fails in bounded time. For the camera, that automatic and fixed exposure are never both in force, that accepted
  values apply within their ranges, and what conversion keeps. Where the code falls short of what it means to do, a
  theorem states what it does (named in the findings of the manifest).

  \<^bold>\<open>Loops, bounds and fuel.\<close> Waits that may never end are \<open>partial_function
  (option)\<close>, with theorems on when they end; the I2C read loop is a \<open>function\<close> whose measure is
  the rest of the packet; every other loop of the programs is structural. In the SH-2 library a function that can
  wait, or call itself over the transport, takes fuel and returns the fault \<open>No_Return\<close> without it: a
  send needs at most two units and one per byte (\<open>send_transmits\<close>), the loops that wait for an answer or
  for the reset one per look at the clock (\<open>silent_hub_opens_then_refuses\<close> gives the bound), the loop
  over gyro rotation vectors one per byte of the payload, and a theorem that a function never returns holds for every
  fuel. Scans are bounded by a million points where an index must fit an \<open>int\<close>.

  \<^bold>\<open>Not modelled.\<close> Logging, the declaration of parameters (but for the camera), publishers and
  subscriptions as such (the ROS middleware); the logger of the lidar; the SPI and UART interfaces of the IMU, which
  only throw; the vendored \<^verbatim>\<open>libcamera\<close>, and of \<^verbatim>\<open>camera_ros\<close> the node
  itself, which passes frames from that library to the middleware, and its tables of formats; the Python packages
  \<^verbatim>\<open>high_control\<close>, \<^verbatim>\<open>pipebot_4wd\<close> and
  \<^verbatim>\<open>turret_joystick\<close>; message definitions beyond the fields used, launch files and robot
  descriptions.
\<close>

end
